(* ===== verification/Prelude.thy ===== *)
theory Prelude
  imports Complex_Main "HOL-Library.Char_ord" "HOL-Library.List_Lexorder"
begin

text \<open>
  What every component of the worker shares: the JSON values the code decodes from files and
  endpoints, the sum type that carries a raised exception, the string helpers of the Python
  standard library that the modelled code calls, and generic list and rational lemmas.

  Python numbers: an \<open>int\<close> is unbounded, a \<open>float\<close> is modelled by the exact rational it
  denotes (binary rounding is not modelled), with \<open>inf\<close> and \<open>nan\<close> as separate values because
  the code tests for them. A \<open>decimal.Decimal\<close> is an exact rational too: the default context
  keeps 28 significant digits, which is enough for the amounts the worker adds.
\<close>

section \<open>Collections of facts\<close>

named_theorems result_simps \<open>evaluation of the exception monad\<close>
named_theorems curve_simps \<open>evaluation of pacing curves\<close>
named_theorems ledger_simps \<open>effect of one ledger event\<close>

section \<open>JSON values\<close>

datatype pynum = PInt int | PFloat rat | PInf | PNegInf | PNan

datatype json =
    JNull
  | JBool bool
  | JNum pynum
  | JStr string
  | JArr "json list"
  | JObj "(string \<times> json) list"

type_synonym jdict = "(string \<times> json) list"

text \<open>\<open>d.get(k)\<close> / \<open>d[k]\<close> on a decoded object (its keys are distinct).\<close>

definition jget :: "jdict \<Rightarrow> string \<Rightarrow> json option" where
  "jget d k = map_of d k"

text \<open>\<open>k in d\<close>.\<close>

definition jhas :: "jdict \<Rightarrow> string \<Rightarrow> bool" where
  "jhas d k \<longleftrightarrow> jget d k \<noteq> None"

text \<open>\<open>d.get(k)\<close>, where a missing key reads as \<open>None\<close>.\<close>

definition jget0 :: "jdict \<Rightarrow> string \<Rightarrow> json" where
  "jget0 d k = (case jget d k of None \<Rightarrow> JNull | Some v \<Rightarrow> v)"

text \<open>Python truth of a decoded value.\<close>

fun truthy :: "json \<Rightarrow> bool" where
  "truthy JNull = False"
| "truthy (JBool b) = b"
| "truthy (JNum (PInt i)) = (i \<noteq> 0)"
| "truthy (JNum (PFloat q)) = (q \<noteq> 0)"
| "truthy (JNum _) = True"
| "truthy (JStr s) = (s \<noteq> [])"
| "truthy (JArr xs) = (xs \<noteq> [])"
| "truthy (JObj d) = (d \<noteq> [])"

lemma jget_Nil [simp]: "jget [] k = None"
  by (simp add: jget_def)

lemma jget_Cons [simp]: "jget ((k', v) # d) k = (if k' = k then Some v else jget d k)"
  by (simp add: jget_def)

lemma jhas_Nil [simp]: "\<not> jhas [] k"
  by (simp add: jhas_def)

lemma jhas_Cons [simp]: "jhas ((k', v) # d) k \<longleftrightarrow> k' = k \<or> jhas d k"
  by (simp add: jhas_def)

lemma jget0_Some [simp]: "jget d k = Some v \<Longrightarrow> jget0 d k = v"
  by (simp add: jget0_def)

lemma jget0_None [simp]: "jget d k = None \<Longrightarrow> jget0 d k = JNull"
  by (simp add: jget0_def)

lemma jget0_Nil [simp]: "jget0 [] k = JNull"
  by (simp add: jget0_def)

section \<open>Exceptions as values\<close>

text \<open>A raised exception is \<open>Inl\<close>, a normal return \<open>Inr\<close>.\<close>

fun ebind :: "'e + 'a \<Rightarrow> ('a \<Rightarrow> 'e + 'b) \<Rightarrow> 'e + 'b" where
  "ebind (Inl e) f = Inl e"
| "ebind (Inr x) f = f x"

definition eguard :: "bool \<Rightarrow> 'e \<Rightarrow> 'e + unit" where
  "eguard b e = (if b then Inr () else Inl e)"

declare ebind.simps [result_simps]
declare eguard_def [result_simps]

lemma ebind_Inr_iff: "ebind r f = Inr y \<longleftrightarrow> (\<exists>x. r = Inr x \<and> f x = Inr y)"
  by (cases r) auto

lemma ebind_Inr_E [elim]:
  assumes "ebind r f = Inr y"
  obtains x where "r = Inr x" and "f x = Inr y"
  using assms by (cases r) auto

section \<open>Strings\<close>

text \<open>\<open>str.strip\<close>, \<open>str.split\<close> and \<open>str.lower\<close> on ASCII text.\<close>

definition py_space :: "char \<Rightarrow> bool" where
  "py_space c \<longleftrightarrow> (let n = of_char c :: nat in n = 32 \<or> 9 \<le> n \<and> n \<le> 13 \<or> 28 \<le> n \<and> n \<le> 31)"

definition py_strip :: "string \<Rightarrow> string" where
  "py_strip s = rev (dropWhile py_space (rev (dropWhile py_space s)))"

fun split_on :: "char \<Rightarrow> string \<Rightarrow> string list" where
  "split_on c [] = [[]]"
| "split_on c (x # xs) =
     (if x = c then [] # split_on c xs
      else (case split_on c xs of [] \<Rightarrow> [[x]] | w # ws \<Rightarrow> (x # w) # ws))"

text \<open>\<open>s.split(c, 1)\<close> for an \<open>s\<close> that holds \<open>c\<close>: the text before and after the first \<open>c\<close>.\<close>

definition split_once :: "char \<Rightarrow> string \<Rightarrow> string \<times> string" where
  "split_once c s = (takeWhile (\<lambda>x. x \<noteq> c) s, drop 1 (dropWhile (\<lambda>x. x \<noteq> c) s))"

definition py_lower_char :: "char \<Rightarrow> char" where
  "py_lower_char c =
     (let n = of_char c :: nat in if 65 \<le> n \<and> n \<le> 90 then char_of (n + 32) else c)"

definition py_lower :: "string \<Rightarrow> string" where
  "py_lower s = map py_lower_char s"

definition starts_with :: "string \<Rightarrow> string \<Rightarrow> bool" where
  "starts_with p s \<longleftrightarrow> take (length p) s = p"

definition is_digit :: "char \<Rightarrow> bool" where
  "is_digit c \<longleftrightarrow> (let n = of_char c :: nat in 48 \<le> n \<and> n \<le> 57)"

definition digits_nat :: "string \<Rightarrow> nat" where
  "digits_nat ds = foldl (\<lambda>n c. 10 * n + (of_char c - 48)) 0 ds"

section \<open>\<open>float(s)\<close>\<close>

text \<open>
  Python's \<open>float\<close> on an ASCII string: surrounding white space, an optional sign, digits with an
  optional fraction and exponent (underscores only between digits), or \<open>inf\<close>, \<open>infinity\<close> and
  \<open>nan\<close> in any case. A magnitude that rounds past the largest binary64 value is infinite.
\<close>

fun underscores_ok :: "bool \<Rightarrow> string \<Rightarrow> bool" where
  "underscores_ok prev [] = True"
| "underscores_ok prev (c # cs) =
     (if c = CHR ''_''
      then prev \<and> (case cs of [] \<Rightarrow> False | d # _ \<Rightarrow> is_digit d) \<and> underscores_ok False cs
      else underscores_ok (is_digit c) cs)"

definition span_digits :: "string \<Rightarrow> string \<times> string" where
  "span_digits s = (takeWhile is_digit s, dropWhile is_digit s)"

definition take_sign :: "string \<Rightarrow> rat \<times> string" where
  "take_sign s =
     (case s of [] \<Rightarrow> (1, [])
      | c # cs \<Rightarrow> if c = CHR ''-'' then (-1, cs) else if c = CHR ''+'' then (1, cs) else (1, s))"

definition exponent_of :: "string \<Rightarrow> (rat \<times> nat) option" where
  "exponent_of r =
     (case r of [] \<Rightarrow> Some (1, 0)
      | c # cs \<Rightarrow>
          if c = CHR ''e'' \<or> c = CHR ''E'' then
            (let (sg, r') = take_sign cs; (ds, rest) = span_digits r'
             in if ds = [] \<or> rest \<noteq> [] then None else Some (sg, digits_nat ds))
          else None)"

definition unsigned_decimal :: "string \<Rightarrow> rat option" where
  "unsigned_decimal s =
     (let (ip, r1) = span_digits s;
          (fp, r2) = (case r1 of [] \<Rightarrow> ([], [])
                      | c # cs \<Rightarrow> if c = CHR ''.'' then span_digits cs else ([], r1))
      in if ip = [] \<and> fp = [] then None
         else map_option
                (\<lambda>(sg, k). (let m = of_nat (digits_nat (ip @ fp)) / 10 ^ length fp
                            in if sg < 0 then m / 10 ^ k else m * 10 ^ k))
                (exponent_of r2))"

definition float_limit :: rat where
  "float_limit = 2 ^ 1024 - 2 ^ 970"

definition py_float :: "string \<Rightarrow> pynum option" where
  "py_float s0 =
     (let s1 = py_strip s0;
          (sg, s) = take_sign (filter (\<lambda>c. c \<noteq> CHR ''_'') s1)
      in if \<not> underscores_ok False s1 then None
         else if py_lower s \<in> {''inf'', ''infinity''} then Some (if sg < 0 then PNegInf else PInf)
         else if py_lower s = ''nan'' then Some PNan
         else map_option
                (\<lambda>q. if float_limit \<le> q then (if sg < 0 then PNegInf else PInf)
                     else PFloat (sg * q))
                (unsigned_decimal s))"

section \<open>Lists\<close>

text \<open>\<open>min(xs, key=f, default=None)\<close>: the first of the smallest elements.\<close>

fun min_by :: "('a \<Rightarrow> 'k::linorder) \<Rightarrow> 'a list \<Rightarrow> 'a option" where
  "min_by f [] = None"
| "min_by f (x # xs) =
     (case min_by f xs of None \<Rightarrow> Some x | Some y \<Rightarrow> if f y < f x then Some y else Some x)"

lemma min_by_None [simp]: "min_by f xs = None \<longleftrightarrow> xs = []"
  by (cases xs) (auto split: option.splits if_splits)

lemma min_by_mem: "min_by f xs = Some y \<Longrightarrow> y \<in> set xs"
  by (induction xs arbitrary: y) (auto split: option.splits if_splits)

lemma min_by_ex: "v \<in> set xs \<Longrightarrow> \<exists>y. min_by f xs = Some y"
  by (cases "min_by f xs") auto

lemma min_by_le: "min_by f xs = Some y \<Longrightarrow> x \<in> set xs \<Longrightarrow> f y \<le> f x"
proof (induction xs arbitrary: y)
  case Nil
  then show ?case by simp
next
  case (Cons a xs)
  show ?case
  proof (cases "min_by f xs")
    case None
    with Cons.prems show ?thesis by auto
  next
    case (Some z)
    with Cons show ?thesis by (fastforce split: if_splits)
  qed
qed

text \<open>The last \<open>n\<close> elements, \<open>xs[-n:]\<close>.\<close>

definition last_n :: "nat \<Rightarrow> 'a list \<Rightarrow> 'a list" where
  "last_n n xs = drop (length xs - n) xs"

lemma set_last_n: "set (last_n n xs) \<subseteq> set xs"
  by (simp add: last_n_def set_drop_subset)

section \<open>Association lists as Python dicts\<close>

text \<open>\<open>d[k] = v\<close> keeps the place of an existing key and appends a new one.\<close>

fun dict_set :: "'k \<Rightarrow> 'v \<Rightarrow> ('k \<times> 'v) list \<Rightarrow> ('k \<times> 'v) list" where
  "dict_set k v [] = [(k, v)]"
| "dict_set k v ((k', v') # d) = (if k' = k then (k, v) # d else (k', v') # dict_set k v d)"

definition dict_del :: "'k \<Rightarrow> ('k \<times> 'v) list \<Rightarrow> ('k \<times> 'v) list" where
  "dict_del k d = filter (\<lambda>(k', _). k' \<noteq> k) d"

lemma map_of_dict_set [simp]: "map_of (dict_set k v d) = (map_of d)(k \<mapsto> v)"
  by (induction d) (auto simp: fun_eq_iff)

lemma map_of_dict_del [simp]: "map_of (dict_del k d) = (map_of d)(k := None)"
  by (induction d) (auto simp: dict_del_def fun_eq_iff)

lemma dom_dict_set [simp]: "fst ` set (dict_set k v d) = insert k (fst ` set d)"
proof (induction d)
  case Nil
  then show ?case by simp
next
  case (Cons p d)
  then show ?case by (cases p) (simp add: insert_commute)
qed

lemma distinct_dict_set [simp]: "distinct (map fst (dict_set k v d)) \<longleftrightarrow> distinct (map fst d)"
proof (induction d)
  case Nil
  then show ?case by simp
next
  case (Cons p d)
  have "set (map fst (dict_set k v d)) = insert k (set (map fst d))"
    by (simp only: set_map dom_dict_set)
  with Cons show ?case by (cases p) (auto simp del: set_map)
qed

lemma distinct_dict_del [simp]: "distinct (map fst d) \<Longrightarrow> distinct (map fst (dict_del k d))"
  unfolding dict_del_def by (rule distinct_map_filter)

section \<open>Clamping\<close>

definition clamp100 :: "rat \<Rightarrow> rat" where
  "clamp100 x = max 0 (min 100 x)"

lemma clamp100_bounds [simp]: "0 \<le> clamp100 x" "clamp100 x \<le> 100"
  by (auto simp: clamp100_def)

lemma clamp100_id [simp]: "0 \<le> x \<Longrightarrow> x \<le> 100 \<Longrightarrow> clamp100 x = x"
  by (auto simp: clamp100_def)

end
