(* ===== verification/Pace.thy ===== *)
theory Pace
  imports Prelude
begin

text \<open>
  The pacing curve of \<open>tauceti_worker/quota.py\<close>: parsing \<open>--pace\<close>, the budget a curve allows at
  an elapsed fraction of a window, the stretch in which a blocked window is free again, the
  classification of one window, and the wake-up time of a window held by the pace line.
  Percentages and clocks are exact rationals.
\<close>

section \<open>Control points\<close>

type_synonym curve = "(rat \<times> rat) list"

definition default_pace :: curve where
  "default_pace = [(0, 0), (60, 40), (100, 100)]"

datatype pace_error =
    NotTimeBudget string
  | NonNumeric string
  | NonFinite string
  | TimeOutside rat string
  | BudgetNegative rat string
  | TimeTwice rat rat rat
  | NoPoints string

fun add_point :: "string \<Rightarrow> rat \<Rightarrow> rat \<Rightarrow> curve \<Rightarrow> pace_error + curve" where
  "add_point tok t b pts =
     (if \<not> (0 \<le> t \<and> t \<le> 100) then Inl (TimeOutside t tok)
      else if b < 0 then Inl (BudgetNegative b tok)
      else case map_of pts t of
        Some b' \<Rightarrow> if b' \<noteq> b then Inl (TimeTwice t b' b) else Inr (dict_set t b pts)
      | None \<Rightarrow> Inr (dict_set t b pts))"

definition parse_point :: "string \<Rightarrow> curve \<Rightarrow> pace_error + curve" where
  "parse_point tok pts =
     (if CHR '':'' \<notin> set tok then Inl (NotTimeBudget tok)
      else let (ts, bs) = split_once (CHR '':'') tok in
        case (py_float ts, py_float bs) of
          (Some (PFloat t), Some (PFloat b)) \<Rightarrow> add_point tok t b pts
        | (Some _, Some _) \<Rightarrow> Inl (NonFinite tok)
        | _ \<Rightarrow> Inl (NonNumeric tok))"

fun parse_points :: "string list \<Rightarrow> curve \<Rightarrow> pace_error + curve" where
  "parse_points [] pts = Inr pts"
| "parse_points (w # ws) pts =
     (let tok = py_strip w
      in if tok = [] then parse_points ws pts
         else ebind (parse_point tok pts) (parse_points ws))"

definition dict_setdefault :: "'k \<Rightarrow> 'v \<Rightarrow> ('k \<times> 'v) list \<Rightarrow> ('k \<times> 'v) list" where
  "dict_setdefault k v d = (case map_of d k of None \<Rightarrow> dict_set k v d | Some _ \<Rightarrow> d)"

definition parse_pace_curve :: "string option \<Rightarrow> pace_error + curve" where
  "parse_pace_curve spec =
     (let s = (case spec of None \<Rightarrow> [] | Some s \<Rightarrow> s)
      in ebind (parse_points (split_on (CHR '','') s) [])
           (\<lambda>pts. if pts = [] then (if py_strip s \<noteq> [] then Inl (NoPoints s) else Inr default_pace)
                  else Inr (sort_key fst (dict_setdefault 100 100 (dict_setdefault 0 0 pts)))))"

text \<open>
  \<open>pace_curve()\<close>: the parse is cached per raw specification in the module global
  \<open>_PACE_CACHE\<close>, and a malformed one falls back on the default curve.
\<close>

definition pace_curve :: "(string \<rightharpoonup> curve) \<Rightarrow> string \<Rightarrow> curve \<times> (string \<rightharpoonup> curve)" where
  "pace_curve cache raw =
     (case cache raw of
        Some c \<Rightarrow> (c, cache)
      | None \<Rightarrow>
          (let c = (case parse_pace_curve (Some raw) of Inr c \<Rightarrow> c | Inl _ \<Rightarrow> default_pace)
           in (c, cache(raw \<mapsto> c))))"

section \<open>The budget a curve allows\<close>

fun budget_loop :: "rat \<Rightarrow> rat \<Rightarrow> rat \<Rightarrow> curve \<Rightarrow> rat" where
  "budget_loop e pt pb [] = pb"
| "budget_loop e pt pb ((t, b) # r) =
     (if e \<le> t then (if t = pt then b else pb + (e - pt) / (t - pt) * (b - pb))
      else budget_loop e t b r)"

text \<open>
  \<open>curve[0]\<close> of an empty list raises \<open>IndexError\<close>; no curve in use is empty
  (\<open>parse_pace_curve_wf\<close> below), so the first equation stands for no run of the program.
\<close>

fun pace_budget :: "curve \<Rightarrow> rat \<Rightarrow> rat" where
  "pace_budget [] elapsed = 0"
| "pace_budget ((t0, b0) # r) elapsed = budget_loop (clamp100 elapsed) t0 b0 ((t0, b0) # r)"

fun recovery_start :: "rat \<Rightarrow> rat \<Rightarrow> rat \<Rightarrow> rat \<Rightarrow> curve \<Rightarrow> rat option" where
  "recovery_start used e0 pt pb [] = None"
| "recovery_start used e0 pt pb ((t, b) # r) =
     (if t > e0 \<and> b > used
      then Some (if t - pt \<le> 0 \<or> b - pb \<le> 0 then t
                 else max (pt + (used - pb) / (b - pb) * (t - pt)) e0)
      else recovery_start used e0 t b r)"

fun recovery_end :: "rat \<Rightarrow> rat \<Rightarrow> rat \<Rightarrow> rat \<Rightarrow> curve \<Rightarrow> rat" where
  "recovery_end used start pt pb [] = 100"
| "recovery_end used start pt pb ((t, b) # r) =
     (if t > start \<and> b \<le> used
      then max (if t - pt \<le> 0 \<or> pb - b \<le> 0 then t
                else pt + (pb - used) / (pb - b) * (t - pt)) start
      else recovery_end used start t b r)"

definition pace_recovery :: "curve \<Rightarrow> rat \<Rightarrow> rat \<Rightarrow> (rat \<times> rat) option" where
  "pace_recovery curve used elapsed =
     (let e0 = clamp100 elapsed; (t0, b0) = hd curve;
          start = (if pace_budget curve e0 > used then Some e0
                   else recovery_start used e0 t0 b0 curve)
      in map_option (\<lambda>s. (s, recovery_end used s t0 b0 curve)) start)"

fun plateau_loop :: "rat \<Rightarrow> curve \<Rightarrow> rat" where
  "plateau_loop p [] = p"
| "plateau_loop p ((t, b) # r) = (if b \<noteq> 0 then p else plateau_loop t r)"

definition pace_zero_plateau :: "curve \<Rightarrow> rat" where
  "pace_zero_plateau curve = plateau_loop 0 curve"

text \<open>\<open>_idle_init_block\<close>: \<open>Some \<tau>\<close> is the refusal \<open>pace budget stays 0% through \<tau>% of the window\<close>.\<close>

definition idle_init_block :: "curve \<Rightarrow> rat option" where
  "idle_init_block curve =
     (let tau0 = pace_zero_plateau curve in if tau0 \<le> 0 then None else Some tau0)"

section \<open>Windows\<close>

datatype status =
  UnderPace | AtBudget | OverPace | Exhausted | Idle | Absent | Malformed | Unknown

datatype wname = Session | Weekly

definition soft_statuses :: "status list" where
  "soft_statuses = [AtBudget, OverPace]"

definition hard_statuses :: "status list" where
  "hard_statuses = [Exhausted, Idle, Absent, Malformed, Unknown]"

definition session_window_s :: rat where "session_window_s = 5 * 3600"
definition week_window_s :: rat where "week_window_s = 7 * 24 * 3600"

fun window_s :: "wname \<Rightarrow> rat" where
  "window_s Session = session_window_s"
| "window_s Weekly = week_window_s"

text \<open>
  Why a window cannot pace. Each constructor is one message of the code; \<open>FromSource\<close> appends the
  representation a record came from, \<open>AwaitingInit\<close> is \<open>window reset; awaiting initialization\<close>.
\<close>

datatype detail =
    UsageUnusable
  | ResetInvalid
  | UsageMissingLive
  | UsageNullLive
  | ResetElapsed
  | ResetImplausible rat
  | UsageNoClock rat
  | NeitherFigureNorClock
  | LimitMissing
  | NotAnObject
  | FromSource detail string
  | PlateauBlocked rat
  | AwaitingInit "detail option"
  | BootstrapInProgress
  | BootstrapAttempted
  | BootstrapFailed string
  | ReservationNoLock
  | ReservationNotRecorded string

text \<open>\<open>used\<close> is the raw figure of the endpoint (\<open>JNull\<close> for \<open>None\<close>).\<close>

record window =
  w_name :: wname
  w_used :: json
  w_elapsed :: "rat option"
  w_resets_at :: "rat option"
  w_status :: status
  w_budget :: "rat option"
  w_detail :: "detail option"

fun finite_num :: "json \<Rightarrow> rat option" where
  "finite_num (JNum (PInt i)) = Some (of_int i)"
| "finite_num (JNum (PFloat q)) = Some q"
| "finite_num _ = None"

definition classify_window ::
  "curve \<Rightarrow> wname \<Rightarrow> json \<Rightarrow> rat option \<Rightarrow> rat option \<Rightarrow> bool \<Rightarrow> window" where
  "classify_window curve name used elapsed resets_at limit_reached =
     (let e = map_option clamp100 elapsed;
          w = (\<lambda>st bud. \<lparr>w_name = name, w_used = used, w_elapsed = e, w_resets_at = resets_at,
                         w_status = st, w_budget = bud, w_detail = None\<rparr>)
      in if limit_reached then w Exhausted None
         else case (finite_num used, e) of
           (Some u0, Some e') \<Rightarrow>
             (let u = clamp100 u0; thr = pace_budget curve e'
              in w (if u \<ge> 100 then Exhausted else if u < thr then UnderPace
                    else if u = thr then AtBudget else OverPace) (Some thr))
         | _ \<Rightarrow> w Unknown None)"

definition pace_ease_s :: rat where
  "pace_ease_s = 180"

definition pace_free_at :: "curve \<Rightarrow> window \<Rightarrow> rat \<Rightarrow> rat option" where
  "pace_free_at curve w now =
     (case (finite_num (w_used w), w_elapsed w, w_resets_at w) of
        (Some used, Some elapsed, Some resets_at) \<Rightarrow>
          (let left = resets_at - now; remaining = 100 - elapsed
           in if left \<le> 0 \<or> remaining \<le> 0 then None
              else case pace_recovery curve used elapsed of
                None \<Rightarrow> None
              | Some (start, stop) \<Rightarrow>
                  (let per_pct = left / remaining;
                       ease = min pace_ease_s ((stop - start) * per_pct / 2)
                   in Some (min (now + (start - elapsed) * per_pct + ease) resets_at)))
      | _ \<Rightarrow> None)"

definition wake_of :: "curve \<Rightarrow> rat \<Rightarrow> window \<Rightarrow> rat option" where
  "wake_of curve now w =
     (if w_status w \<in> {AtBudget, OverPace}
      then (case pace_free_at curve w now of None \<Rightarrow> w_resets_at w | Some t \<Rightarrow> Some t)
      else if w_status w = Exhausted then w_resets_at w else None)"

fun present_times :: "rat option list \<Rightarrow> rat list" where
  "present_times [] = []"
| "present_times (None # ts) = present_times ts"
| "present_times (Some t # ts) = (if t = 0 then present_times ts else t # present_times ts)"

definition next_eligible :: "curve \<Rightarrow> window list \<Rightarrow> rat \<Rightarrow> rat option" where
  "next_eligible curve ws now = min_by (\<lambda>t. t) (present_times (map (wake_of curve now) ws))"


section \<open>Well-formed curves\<close>

definition wf_curve :: "curve \<Rightarrow> bool" where
  "wf_curve c \<longleftrightarrow> c \<noteq> [] \<and> sorted_wrt (<) (map fst c) \<and> fst (hd c) = 0 \<and> fst (last c) = 100
     \<and> (\<forall>p\<in>set c. 0 \<le> snd p)"

text \<open>Points of a dict under construction: distinct times in range, budgets not negative.\<close>

definition wf_points :: "curve \<Rightarrow> bool" where
  "wf_points pts \<longleftrightarrow> distinct (map fst pts) \<and> (\<forall>p\<in>set pts. 0 \<le> fst p \<and> fst p \<le> 100 \<and> 0 \<le> snd p)"

lemma default_pace_wf: "wf_curve default_pace"
  by (simp add: wf_curve_def default_pace_def)

lemma set_dict_set: "set (dict_set k v d) \<subseteq> insert (k, v) (set d)"
  by (induction d) (auto split: if_splits)

lemma wf_points_dict_set:
  "wf_points pts \<Longrightarrow> 0 \<le> t \<Longrightarrow> t \<le> 100 \<Longrightarrow> 0 \<le> b \<Longrightarrow> wf_points (dict_set t b pts)"
  using set_dict_set [of t b pts] by (auto simp: wf_points_def)

lemma parse_point_wf: "wf_points pts \<Longrightarrow> parse_point tok pts = Inr pts' \<Longrightarrow> wf_points pts'"
  by (auto simp: parse_point_def Let_def wf_points_dict_set
      split: if_splits prod.splits option.splits pynum.splits)

lemma parse_points_wf: "wf_points pts \<Longrightarrow> parse_points ws pts = Inr pts' \<Longrightarrow> wf_points pts'"
  by (induction ws arbitrary: pts)
     (auto simp: Let_def split: if_splits dest: parse_point_wf elim!: ebind_Inr_E)

lemma dict_setdefault_wf:
  "wf_points pts \<Longrightarrow> 0 \<le> t \<Longrightarrow> t \<le> 100 \<Longrightarrow> 0 \<le> b \<Longrightarrow> wf_points (dict_setdefault t b pts)"
  by (auto simp: dict_setdefault_def wf_points_dict_set split: option.splits)

lemma dict_setdefault_fst: "fst ` set (dict_setdefault t b pts) = insert t (fst ` set pts)"
proof (cases "map_of pts t")
  case None
  then show ?thesis by (simp add: dict_setdefault_def)
next
  case (Some b')
  then have "t \<in> fst ` set pts" by (metis domI dom_map_of_conv_image_fst)
  with Some show ?thesis by (auto simp: dict_setdefault_def)
qed

lemma sorted_points_strict:
  assumes "distinct (map fst pts)"
  shows "sorted_wrt (<) (map fst (sort_key fst pts))"
proof -
  have "distinct (map fst (sort_key fst pts))"
    using assms by (metis distinct_map distinct_sort set_sort)
  then show ?thesis by (simp add: strict_sorted_iff)
qed

lemma strict_sorted_hd_le:
  "sorted_wrt (<) (map fst c) \<Longrightarrow> p \<in> set c \<Longrightarrow> fst (hd c) \<le> (fst p :: rat)"
  by (cases c) auto

lemma strict_sorted_last_ge:
  "sorted_wrt (<) (map fst c) \<Longrightarrow> p \<in> set c \<Longrightarrow> (fst p :: rat) \<le> fst (last c)"
  by (induction c rule: rev_induct) (auto simp: sorted_wrt_append less_imp_le)

lemma sorted_points_wf:
  assumes wf: "wf_points pts" and z: "0 \<in> fst ` set pts" and h: "100 \<in> fst ` set pts"
  shows "wf_curve (sort_key fst pts)"
proof -
  let ?c = "sort_key fst pts"
  have srt: "sorted_wrt (<) (map fst ?c)"
    using wf by (simp add: wf_points_def sorted_points_strict)
  have st: "set ?c = set pts" by simp
  have ne: "?c \<noteq> []" using z st by (metis empty_iff image_empty list.set(1))
  obtain p q where p: "p \<in> set ?c" "fst p = 0" and q: "q \<in> set ?c" "fst q = 100"
    using z h st by auto
  have "hd ?c \<in> set ?c" and "last ?c \<in> set ?c" using ne hd_in_set last_in_set by blast+
  then have "0 \<le> fst (hd ?c)" and "fst (last ?c) \<le> 100"
    using wf unfolding st wf_points_def by blast+
  moreover have "fst (hd ?c) \<le> 0" using strict_sorted_hd_le [OF srt p(1)] p(2) by simp
  moreover have "100 \<le> fst (last ?c)" using strict_sorted_last_ge [OF srt q(1)] q(2) by simp
  ultimately show ?thesis
    using ne srt wf by (auto simp: wf_curve_def wf_points_def)
qed

text \<open>
  every curve that \<open>parse_pace_curve\<close> accepts is usable: not empty, strictly increasing in
  time, spanning 0 to 100, with no negative budget.
\<close>

theorem parse_pace_curve_wf:
  assumes "parse_pace_curve spec = Inr c"
  shows "wf_curve c"
proof -
  obtain s pts where pts: "parse_points (split_on (CHR '','') s) [] = Inr pts"
    and c: "pts = [] \<and> c = default_pace
      \<or> pts \<noteq> [] \<and> c = sort_key fst (dict_setdefault 100 100 (dict_setdefault 0 0 pts))"
    using assms by (auto simp: parse_pace_curve_def Let_def split: if_splits)
  have "wf_points []" by (simp add: wf_points_def)
  then have "wf_points pts" using pts by (rule parse_points_wf)
  then have "wf_points (dict_setdefault 100 100 (dict_setdefault 0 0 pts))"
    by (intro dict_setdefault_wf) auto
  then have "wf_curve (sort_key fst (dict_setdefault 100 100 (dict_setdefault 0 0 pts)))"
    by (rule sorted_points_wf) (auto simp: dict_setdefault_fst)
  with c default_pace_wf show ?thesis by auto
qed

lemmas py_string_eval =
  parse_pace_curve_def parse_point_def py_strip_def split_once_def py_float_def py_space_def
  take_sign_def py_lower_def py_lower_char_def unsigned_decimal_def span_digits_def is_digit_def
  digits_nat_def exponent_of_def float_limit_def dict_setdefault_def Let_def

theorem parse_pace_curve_wf_witness:
  "parse_pace_curve (Some ''0:10,50:70.5'') = Inr [(0, 10), (50, 141 / 2), (100, 100)]
     \<and> wf_curve [(0, 10), (50, 141 / 2), (100, 100)]"
proof -
  have h: "parse_pace_curve (Some ''0:10,50:70.5'') = Inr [(0, 10), (50, 141 / 2), (100, 100)]"
    by (simp add: py_string_eval)
  from h parse_pace_curve_wf [OF h] show ?thesis by simp
qed

end
