(* ===== verification/PaceLaws.thy ===== *)
theory PaceLaws
  imports Pace
begin

text \<open>
  What the pacing arithmetic of \<open>Pace\<close> guarantees: the budget interpolates its control points
  and never turns negative, \<open>pace_recovery\<close> is exactly the first stretch with headroom, and a
  window held by the pace line is woken strictly inside that stretch. The wake-up argument needs
  only the laws of the locale \<open>pacing_policy\<close>, which the curves of \<open>Pace\<close> satisfy.
\<close>

section \<open>One segment\<close>

definition seg :: "rat \<Rightarrow> rat \<Rightarrow> rat \<Rightarrow> rat \<Rightarrow> rat \<Rightarrow> rat" where
  "seg pt pb t b x = pb + (x - pt) / (t - pt) * (b - pb)"

lemma seg_start [curve_simps]: "seg pt pb t b pt = pb"
  by (simp add: seg_def)

lemma seg_stop [curve_simps]: "pt < t \<Longrightarrow> seg pt pb t b t = b"
  by (simp add: seg_def)

lemma seg_mono: "pt < t \<Longrightarrow> pb \<le> b \<Longrightarrow> x \<le> y \<Longrightarrow> seg pt pb t b x \<le> seg pt pb t b y"
  by (simp add: seg_def divide_right_mono mult_right_mono)

lemma seg_strict: "pt < t \<Longrightarrow> pb < b \<Longrightarrow> x < y \<Longrightarrow> seg pt pb t b x < seg pt pb t b y"
  by (simp add: seg_def divide_strict_right_mono)

lemma seg_anti: "pt < t \<Longrightarrow> b \<le> pb \<Longrightarrow> x \<le> y \<Longrightarrow> seg pt pb t b y \<le> seg pt pb t b x"
  by (simp add: seg_def divide_right_mono mult_right_mono_neg)

lemma seg_strict_anti: "pt < t \<Longrightarrow> b < pb \<Longrightarrow> x < y \<Longrightarrow> seg pt pb t b y < seg pt pb t b x"
  by (simp add: seg_def divide_strict_right_mono)

lemma seg_between:
  "pt < t \<Longrightarrow> x \<le> y \<Longrightarrow> y \<le> z \<Longrightarrow> u < seg pt pb t b x \<Longrightarrow> u < seg pt pb t b z
    \<Longrightarrow> u < seg pt pb t b y"
  by (cases "pb \<le> b") (meson seg_mono seg_anti le_less_trans less_le_trans not_le_imp_less less_imp_le)+

lemma seg_below:
  "pt < t \<Longrightarrow> x \<le> y \<Longrightarrow> y \<le> z \<Longrightarrow> seg pt pb t b x \<le> u \<Longrightarrow> seg pt pb t b z \<le> u
    \<Longrightarrow> seg pt pb t b y \<le> u"
  by (cases "pb \<le> b") (meson seg_mono seg_anti order_trans not_le_imp_less less_imp_le)+

lemma seg_at_rise: "pt < t \<Longrightarrow> pb < b \<Longrightarrow> seg pt pb t b (pt + (u - pb) / (b - pb) * (t - pt)) = u"
  by (simp add: seg_def)

lemma seg_at_fall:
  assumes "pt < t" and "b < pb"
  shows "seg pt pb t b (pt + (pb - u) / (pb - b) * (t - pt)) = u"
proof -
  note assms
  moreover have "(pb - u) / (pb - b) * (b - pb) = u - pb"
    using \<open>b < pb\<close> by (simp add: field_simps)
  ultimately show ?thesis by (simp add: seg_def)
qed

section \<open>Chains of points\<close>

text \<open>\<open>chain pt r\<close>: the remaining points \<open>r\<close> lie strictly after \<open>pt\<close>, in order.\<close>

fun chain :: "rat \<Rightarrow> curve \<Rightarrow> bool" where
  "chain pt [] = True"
| "chain pt ((t, b) # r) = (pt < t \<and> chain t r)"

lemma chain_iff: "chain t0 r \<longleftrightarrow> sorted_wrt (<) (t0 # map fst r)"
proof (induction r arbitrary: t0)
  case Nil
  then show ?case by simp
next
  case (Cons p r)
  then show ?case by (cases p) fastforce
qed

lemma chain_mem: "chain pt r \<Longrightarrow> (t, b) \<in> set r \<Longrightarrow> pt < t"
  by (auto simp: chain_iff)

definition stop_time :: "rat \<Rightarrow> curve \<Rightarrow> rat" where
  "stop_time pt r = (if r = [] then pt else fst (last r))"

lemma stop_time_Cons [simp]: "stop_time pt ((t, b) # r) = stop_time t r"
  by (simp add: stop_time_def)

lemma stop_time_ge: "chain pt r \<Longrightarrow> pt \<le> stop_time pt r"
proof (induction r arbitrary: pt)
  case Nil
  then show ?case by (simp add: stop_time_def)
next
  case (Cons p r)
  then show ?case by (cases p) (fastforce dest: less_imp_le)
qed

lemma wf_curve_E:
  assumes "wf_curve c"
  obtains b0 r where "c = (0, b0) # r" and "chain 0 r" and "stop_time 0 r = 100"
    and "0 \<le> b0" and "\<forall>p\<in>set r. 0 \<le> snd p"
proof -
  from assms obtain t0 b0 r where c: "c = (t0, b0) # r" by (cases c) (auto simp: wf_curve_def)
  with assms show thesis
    by (intro that [of b0 r]) (auto simp: wf_curve_def chain_iff stop_time_def split: if_splits)
qed

text \<open>\<open>bud pt pb r x\<close> is the budget at \<open>x \<ge> pt\<close> once the loop has passed the point \<open>(pt, pb)\<close>.\<close>

abbreviation bud :: "rat \<Rightarrow> rat \<Rightarrow> curve \<Rightarrow> rat \<Rightarrow> rat" where
  "bud pt pb r x \<equiv> budget_loop x pt pb r"

lemma bud_seg: "pt < t \<Longrightarrow> x \<le> t \<Longrightarrow> bud pt pb ((t, b) # r) x = seg pt pb t b x"
  by (simp add: seg_def)

lemma bud_rest: "t < x \<Longrightarrow> bud pt pb ((t, b) # r) x = bud t b r x"
  by simp

lemma bud_at_start: "chain pt r \<Longrightarrow> bud pt pb r pt = pb"
  by (cases r) auto

lemma bud_rest_le: "pt < t \<Longrightarrow> chain t r \<Longrightarrow> t \<le> x \<Longrightarrow> bud pt pb ((t, b) # r) x = bud t b r x"
  by (cases "x = t") (simp_all add: bud_at_start)

lemma budget_bud:
  assumes "chain 0 r"
  shows "pace_budget ((0, b0) # r) x = bud 0 b0 r (clamp100 x)"
proof (cases "clamp100 x = 0")
  case True
  with assms show ?thesis by (simp add: bud_at_start)
next
  case False
  then have "0 < clamp100 x" by (metis clamp100_bounds(1) order_less_le)
  then show ?thesis by simp
qed

lemma bud_point: "chain pt r \<Longrightarrow> (t, b) \<in> set r \<Longrightarrow> bud pt pb r t = b"
proof (induction r arbitrary: pt pb)
  case Nil
  then show ?case by simp
next
  case (Cons p r)
  obtain t' b' where p: "p = (t', b')" by (cases p)
  show ?case
  proof (cases "(t, b) \<in> set r")
    case True
    with Cons.prems p have "t' < t" and "chain t' r" using chain_mem [of t' r t b] by auto
    with Cons.IH [OF \<open>chain t' r\<close> True] p show ?thesis by simp
  next
    case False
    with Cons.prems p show ?thesis by simp
  qed
qed

lemma seg_nonneg:
  assumes "pt < t" and "pt \<le> x" and "x \<le> t" and "0 \<le> pb" and "0 \<le> b"
  shows "0 \<le> seg pt pb t b x"
proof (cases "pb \<le> b")
  case True
  with assms seg_mono [of pt t pb b pt x] show ?thesis by (simp add: curve_simps)
next
  case False
  with assms seg_anti [of pt t b pb x t] show ?thesis by (simp add: curve_simps)
qed

lemma bud_nonneg:
  "chain pt r \<Longrightarrow> 0 \<le> pb \<Longrightarrow> \<forall>p\<in>set r. 0 \<le> snd p \<Longrightarrow> pt \<le> x \<Longrightarrow> 0 \<le> bud pt pb r x"
proof (induction r arbitrary: pt pb)
  case Nil
  then show ?case by simp
next
  case (Cons p r)
  obtain t b where p: "p = (t, b)" by (cases p)
  show ?case
  proof (cases "x \<le> t")
    case True
    with Cons.prems p seg_nonneg [of pt t x pb b] bud_seg [of pt t x pb b r] show ?thesis by simp
  next
    case False
    with Cons.IH [of t b] Cons.prems p show ?thesis by simp
  qed
qed

section \<open>The recovery stretch\<close>

lemma rise_cross:
  assumes "pt < t" and "pb < b" and "u < b"
  defines "c \<equiv> pt + (u - pb) / (b - pb) * (t - pt)"
  shows "c < t" and "x \<le> c \<Longrightarrow> seg pt pb t b x \<le> u" and "c < x \<Longrightarrow> u < seg pt pb t b x"
    and "pb \<le> u \<Longrightarrow> pt \<le> c"
proof -
  have at: "seg pt pb t b c = u" unfolding c_def by (rule seg_at_rise [OF assms(1,2)])
  show "c < t" using seg_mono [of pt t pb b t c] assms(1-3) at by (force simp: curve_simps)
  show "x \<le> c \<Longrightarrow> seg pt pb t b x \<le> u" using seg_mono [of pt t pb b x c] assms(1,2) at by simp
  show "c < x \<Longrightarrow> u < seg pt pb t b x" using seg_strict [of pt t pb b c x] assms(1,2) at by simp
  show "pb \<le> u \<Longrightarrow> pt \<le> c"
    using seg_strict [of pt t pb b c pt] assms(1,2) at by (force simp: curve_simps)
qed

lemma fall_cross:
  assumes "pt < t" and "b < pb" and "b \<le> u"
  defines "c \<equiv> pt + (pb - u) / (pb - b) * (t - pt)"
  shows "c \<le> t" and "x < c \<Longrightarrow> u < seg pt pb t b x" and "seg pt pb t b c = u"
    and "u < seg pt pb t b x \<Longrightarrow> x < c"
proof -
  show at: "seg pt pb t b c = u" unfolding c_def by (rule seg_at_fall [OF assms(1,2)])
  show "c \<le> t" using seg_strict_anti [of pt t b pb t c] assms(1-3) at by (force simp: curve_simps)
  show "x < c \<Longrightarrow> u < seg pt pb t b x"
    using seg_strict_anti [of pt t b pb x c] assms(1,2) at by simp
  show "u < seg pt pb t b x \<Longrightarrow> x < c" using seg_anti [of pt t b pb c x] assms(1,2) at by force
qed

lemma low_stretch:
  assumes pt: "pt < t" and lo: "pt \<le> e0 \<Longrightarrow> seg pt pb t b e0 \<le> u" and pb: "e0 < pt \<Longrightarrow> pb \<le> u"
    and b: "b \<le> u" and x: "e0 \<le> x" "pt \<le> x" "x \<le> t"
  shows "seg pt pb t b x \<le> u"
proof (cases "e0 < pt")
  case True
  then show ?thesis
    using seg_below [OF pt, of pt x t pb b u] pt pb b x by (simp add: curve_simps)
next
  case False
  then show ?thesis
    using seg_below [OF pt, of e0 x t pb b u] pt lo b x by (simp add: curve_simps)
qed

lemma recovery_start_Some:
  assumes "chain pt r" and "pt \<le> e0 \<Longrightarrow> bud pt pb r e0 \<le> u" and "e0 < pt \<Longrightarrow> pb \<le> u"
    and "recovery_start u e0 pt pb r = Some s"
  shows "e0 \<le> s \<and> pt \<le> s \<and> (\<forall>x. e0 \<le> x \<and> pt \<le> x \<and> x \<le> s \<longrightarrow> bud pt pb r x \<le> u)
    \<and> (\<exists>t. s < t \<and> t \<le> stop_time pt r \<and> (\<forall>x. s < x \<and> x \<le> t \<longrightarrow> u < bud pt pb r x))"
  using assms
proof (induction r arbitrary: pt pb)
  case Nil
  then show ?case by simp
next
  case (Cons p r)
  obtain t b where p: "p = (t, b)" by (cases p)
  have pt: "pt < t" and ch: "chain t r" using Cons.prems(1) p by auto
  note sg = bud_seg [OF pt, of _ pb b r]
  show ?case
  proof (cases "e0 < t \<and> u < b")
    case True
    have rise: "pb < b"
    proof (rule ccontr)
      assume "\<not> pb < b"
      then have "pt \<le> e0" using Cons.prems(3) True by force
      with Cons.prems(2) True sg p have "seg pt pb t b e0 \<le> u" by simp
      with seg_anti [of pt t b pb e0 t] pt True \<open>\<not> pb < b\<close> show False by (simp add: curve_simps)
    qed
    define c where "c = pt + (u - pb) / (b - pb) * (t - pt)"
    note cr = rise_cross [OF pt rise, of u, folded c_def]
    have s: "s = max c e0" using Cons.prems(4) True rise pt p by (auto simp: c_def)
    have "pt \<le> s" using s cr(4) Cons.prems(3) True by (cases "e0 < pt") auto
    moreover have "bud pt pb (p # r) x \<le> u" if "e0 \<le> x" "pt \<le> x" "x \<le> s" for x
    proof (cases "x \<le> c")
      case le: True
      then have "x \<le> t" using cr(1) True by simp
      with le cr(2) [of x] True sg p show ?thesis by simp
    next
      case False
      with that s have "x = e0" by auto
      with that Cons.prems(2) show ?thesis by simp
    qed
    moreover have "u < bud pt pb (p # r) x" if "s < x" "x \<le> t" for x
      using cr(3) [of x] that s True sg p by simp
    moreover have "s < t" using s cr(1) True by simp
    ultimately show ?thesis
      using s p stop_time_ge [OF ch] by auto
  next
    case False
    have rs: "recovery_start u e0 t b r = Some s" using Cons.prems(4) False p by auto
    have pre: "t \<le> e0 \<Longrightarrow> bud t b r e0 \<le> u"
      using Cons.prems(2) bud_rest_le [OF pt ch, of e0 pb b] pt p by simp
    have IH: "e0 \<le> s \<and> t \<le> s \<and> (\<forall>x. e0 \<le> x \<and> t \<le> x \<and> x \<le> s \<longrightarrow> bud t b r x \<le> u)
      \<and> (\<exists>t'. s < t' \<and> t' \<le> stop_time t r \<and> (\<forall>x. s < x \<and> x \<le> t' \<longrightarrow> u < bud t b r x))"
      by (rule Cons.IH [OF ch pre _ rs]) (use False in auto)
    have "bud pt pb (p # r) x \<le> u" if x: "e0 \<le> x" "pt \<le> x" "x \<le> s" for x
    proof (cases "t \<le> x")
      case True
      with IH x bud_rest_le [OF pt ch True, of pb b] p show ?thesis by simp
    next
      case lt: False
      with False x have bu: "b \<le> u" by simp
      have "seg pt pb t b x \<le> u"
        by (rule low_stretch [OF pt, of e0]) (use Cons.prems(2,3) sg [of e0] p lt x bu in auto)
      with sg lt p show ?thesis by simp
    qed
    moreover have "bud pt pb (p # r) x = bud t b r x" if "s < x" for x
      using that IH p by simp
    ultimately show ?thesis using IH pt p by auto
  qed
qed

lemma recovery_start_None:
  assumes "chain pt r" and "pt \<le> e0 \<Longrightarrow> bud pt pb r e0 \<le> u" and "e0 < pt \<Longrightarrow> pb \<le> u"
    and "recovery_start u e0 pt pb r = None" and "e0 \<le> x" and "pt \<le> x"
  shows "bud pt pb r x \<le> u"
  using assms
proof (induction r arbitrary: pt pb)
  case Nil
  then show ?case by (cases "e0 < pt") auto
next
  case (Cons p r)
  obtain t b where p: "p = (t, b)" by (cases p)
  have pt: "pt < t" and ch: "chain t r" using Cons.prems(1) p by auto
  note sg = bud_seg [OF pt, of _ pb b r]
  have ns: "\<not> (e0 < t \<and> u < b)" and rs: "recovery_start u e0 t b r = None"
    using Cons.prems(4) p by (auto split: if_splits)
  have pre: "t \<le> e0 \<Longrightarrow> bud t b r e0 \<le> u"
    using Cons.prems(2) bud_rest_le [OF pt ch, of e0 pb b] pt p by simp
  show ?case
  proof (cases "t \<le> x")
    case True
    have "bud t b r x \<le> u" by (rule Cons.IH [OF ch pre _ rs]) (use ns True Cons.prems in auto)
    with bud_rest_le [OF pt ch True, of pb b] p show ?thesis by simp
  next
    case lt: False
    with ns Cons.prems have bu: "b \<le> u" by simp
    have "seg pt pb t b x \<le> u"
      by (rule low_stretch [OF pt, of e0])
         (use Cons.prems(2,3,5,6) sg [of e0] p lt bu in auto)
    with sg lt p show ?thesis by simp
  qed
qed

lemma recovery_end_spec:
  assumes "chain pt r" and "pt \<le> s \<Longrightarrow> \<exists>t1. s < t1 \<and> (\<forall>x. s < x \<and> x \<le> t1 \<longrightarrow> u < bud pt pb r x)"
    and "s < pt \<Longrightarrow> u < pb" and "stop_time pt r = 100" and "s < 100"
  defines "e \<equiv> recovery_end u s pt pb r"
  shows "s < e \<and> pt \<le> e \<and> e \<le> 100 \<and> (\<forall>x. s < x \<and> pt \<le> x \<and> x < e \<longrightarrow> u < bud pt pb r x)
    \<and> (e < 100 \<longrightarrow> bud pt pb r e \<le> u)"
  using assms(1-5) unfolding e_def
proof (induction r arbitrary: pt pb)
  case Nil
  then show ?case by (simp add: stop_time_def)
next
  case (Cons p r)
  obtain t b where p: "p = (t, b)" by (cases p)
  have pt: "pt < t" and ch: "chain t r" using Cons.prems(1) p by auto
  note sg = bud_seg [OF pt, of _ pb b r]
  have t100: "t \<le> 100" using stop_time_ge [OF ch] Cons.prems(4) p by simp
  have near: "\<exists>y. s < y \<and> pt \<le> y \<and> y \<le> t \<and> (\<forall>x. s < x \<and> pt \<le> x \<and> x \<le> y \<longrightarrow> u < seg pt pb t b x)"
    if st: "s < t"
  proof (cases "pt \<le> s")
    case True
    then obtain t1 where "s < t1" "\<forall>x. s < x \<and> x \<le> t1 \<longrightarrow> u < bud pt pb (p # r) x"
      using Cons.prems(2) by blast
    then show ?thesis using st sg p True by (intro exI [of _ "min t1 t"]) auto
  next
    case False
    then show ?thesis
      using Cons.prems(3) pt st by (intro exI [of _ pt]) (auto simp: curve_simps)
  qed
  show ?case
  proof (cases "s < t \<and> b \<le> u")
    case True
    then obtain y where y: "s < y" "pt \<le> y" "y \<le> t" "u < seg pt pb t b y" using near by blast
    have fall: "b < pb"
      using seg_mono [OF pt, of pb b y t] y True pt by (force simp: curve_simps)
    define c where "c = pt + (pb - u) / (pb - b) * (t - pt)"
    note cr = fall_cross [OF pt fall, of u, folded c_def]
    have bu: "b \<le> u" using True by simp
    have yc: "y < c" by (rule cr(4) [OF bu y(4)])
    then have e: "recovery_end u s pt pb (p # r) = c" using True fall pt p y by (simp add: c_def)
    have "u < bud pt pb (p # r) x" if "x < c" for x
      using cr(2) [OF bu that] sg [of x] cr(1) [OF bu] that p by simp
    moreover have "bud pt pb (p # r) c \<le> u"
      using cr(3) [OF bu] sg [of c] cr(1) [OF bu] p by simp
    ultimately show ?thesis unfolding e using yc y cr(1) [OF bu] t100 by auto
  next
    case False
    then have e: "recovery_end u s pt pb (p # r) = recovery_end u s t b r" using p by auto
    let ?e = "recovery_end u s t b r"
    have pre: "t \<le> s \<Longrightarrow> \<exists>t1. s < t1 \<and> (\<forall>x. s < x \<and> x \<le> t1 \<longrightarrow> u < bud t b r x)"
      using Cons.prems(2) pt p by fastforce
    have IH: "s < ?e \<and> t \<le> ?e \<and> ?e \<le> 100 \<and> (\<forall>x. s < x \<and> t \<le> x \<and> x < ?e \<longrightarrow> u < bud t b r x)
      \<and> (?e < 100 \<longrightarrow> bud t b r ?e \<le> u)"
      by (rule Cons.IH [OF ch pre]) (use False Cons.prems(4,5) p in auto)
    have "u < bud pt pb (p # r) x" if x: "s < x" "pt \<le> x" "x < ?e" for x
    proof (cases "t \<le> x")
      case True
      with IH x bud_rest_le [OF pt ch True, of pb b] p show ?thesis by simp
    next
      case lt: False
      then have st: "s < t" using x by simp
      with False have ub: "u < b" by simp
      obtain y where y: "s < y" "pt \<le> y" "y \<le> t"
        "\<forall>z. s < z \<and> pt \<le> z \<and> z \<le> y \<longrightarrow> u < seg pt pb t b z"
        using near [OF st] by blast
      have "u < seg pt pb t b x"
        using y x lt ub pt seg_between [OF pt, of y x t u pb b]
        by (cases "x \<le> y") (auto simp: curve_simps)
      with sg lt p show ?thesis by simp
    qed
    with IH e p pt bud_rest_le [OF pt ch, of ?e pb b] show ?thesis by auto
  qed
qed

lemma seg_right_open:
  assumes pt: "pt < t" and u: "u < seg pt pb t b y" and y: "y < t"
  shows "\<exists>z. y < z \<and> z \<le> t \<and> (\<forall>x. y < x \<and> x \<le> z \<longrightarrow> u < seg pt pb t b x)"
proof (cases "u < b")
  case True
  then show ?thesis
    using seg_between [OF pt, of y _ t u pb b] u y pt by (intro exI [of _ t]) (auto simp: curve_simps)
next
  case False
  have fall: "b < pb"
    using seg_mono [OF pt, of pb b y t] u y False pt by (force simp: curve_simps)
  define c where "c = pt + (pb - u) / (pb - b) * (t - pt)"
  have bu: "b \<le> u" using False by simp
  note cr = fall_cross [OF pt fall bu, folded c_def]
  have "y < c" by (rule cr(4) [OF u])
  then obtain z where z: "y < z" "z < c" using dense by blast
  with cr(1,2) show ?thesis by (intro exI [of _ z]) auto
qed

lemma bud_right_open:
  "chain pt r \<Longrightarrow> u < bud pt pb r y \<Longrightarrow> pt \<le> y \<Longrightarrow> y < stop_time pt r
    \<Longrightarrow> \<exists>t1. y < t1 \<and> (\<forall>x. y < x \<and> x \<le> t1 \<longrightarrow> u < bud pt pb r x)"
proof (induction r arbitrary: pt pb)
  case Nil
  then show ?case by (simp add: stop_time_def)
next
  case (Cons p r)
  obtain t b where p: "p = (t, b)" by (cases p)
  have pt: "pt < t" and ch: "chain t r" using Cons.prems(1) p by auto
  show ?case
  proof (cases "y < t")
    case True
    then have "u < seg pt pb t b y" using Cons.prems(2) bud_seg [OF pt, of y pb b r] p by simp
    from seg_right_open [OF pt this True] show ?thesis
      using bud_seg [OF pt, of _ pb b r] p by auto
  next
    case False
    then have "u < bud t b r y"
      using Cons.prems(2) bud_rest_le [OF pt ch, of y pb b] p by simp
    from Cons.IH [OF ch this] False Cons.prems(4) p obtain t1
      where "y < t1" "\<forall>x. y < x \<and> x \<le> t1 \<longrightarrow> u < bud t b r x" by auto
    then show ?thesis using False p by (intro exI [of _ t1]) auto
  qed
qed

lemma recovery_end_past: "chain pt r \<Longrightarrow> stop_time pt r \<le> s \<Longrightarrow> recovery_end u s pt pb r = 100"
proof (induction r arbitrary: pt pb)
  case Nil
  then show ?case by simp
next
  case (Cons p r)
  obtain t b where p: "p = (t, b)" by (cases p)
  with Cons.prems stop_time_ge [of t r] have "\<not> t > s" by auto
  with Cons p show ?case by simp
qed

lemma pace_recovery_spec:
  assumes wf: "wf_curve c" and e0: "e0 = clamp100 elapsed"
    and rec: "pace_recovery c used elapsed = Some (s, e)"
  shows "e0 \<le> s \<and> s \<le> e \<and> e \<le> 100 \<and> (e0 < 100 \<longrightarrow> s < e)
    \<and> (\<forall>x. e0 \<le> x \<and> x < s \<longrightarrow> pace_budget c x \<le> used)
    \<and> (\<forall>x. s < x \<and> x < e \<longrightarrow> used < pace_budget c x)
    \<and> (e < 100 \<longrightarrow> pace_budget c e \<le> used)"
proof -
  obtain b0 r where c: "c = (0, b0) # r" and ch: "chain 0 r" and stp: "stop_time 0 r = 100"
    using wf by (rule wf_curve_E)
  let ?f = "bud 0 b0 r"
  have f: "pace_budget c x = ?f x" if "0 \<le> x" "x \<le> 100" for x
    using budget_bud [OF ch, of b0 x] that c by simp
  have e0r: "0 \<le> e0" "e0 \<le> 100" using e0 by auto
  have fe0: "pace_budget c e0 = ?f e0" by (rule f [OF e0r])
  have start: "if used < ?f e0 then s = e0 else recovery_start used e0 0 b0 r = Some s"
    using rec c e0 e0r fe0 by (auto simp: pace_recovery_def Let_def split: if_splits)
  have S: "e0 \<le> s \<and> s \<le> 100 \<and> (e0 < 100 \<longrightarrow> s < 100) \<and> (\<forall>x. e0 \<le> x \<and> x < s \<longrightarrow> ?f x \<le> used)
      \<and> (s < 100 \<longrightarrow> (\<exists>t1. s < t1 \<and> (\<forall>x. s < x \<and> x \<le> t1 \<longrightarrow> used < ?f x)))"
  proof (cases "used < ?f e0")
    case True
    then have "s = e0" using start by simp
    moreover have "\<exists>t1. e0 < t1 \<and> (\<forall>x. e0 < x \<and> x \<le> t1 \<longrightarrow> used < ?f x)" if "e0 < 100"
      using bud_right_open [OF ch True e0r(1)] that stp by simp
    ultimately show ?thesis using e0r by auto
  next
    case False
    then have "recovery_start used e0 0 b0 r = Some s" using start by simp
    from recovery_start_Some [OF ch _ _ this] False e0r stp show ?thesis by force
  qed
  have "0 \<le> s" using S e0r by linarith
  then have e: "e = recovery_end used s 0 b0 r"
    using rec c by (auto simp: pace_recovery_def Let_def split: if_splits)
  have E: "s < 100 \<Longrightarrow> s < e \<and> e \<le> 100 \<and> (\<forall>x. s < x \<and> x < e \<longrightarrow> used < ?f x) \<and> (e < 100 \<longrightarrow> ?f e \<le> used)"
    using recovery_end_spec [OF ch, of s used b0] S e0r stp e by force
  have E': "\<not> s < 100 \<Longrightarrow> e = 100"
    using recovery_end_past [OF ch, of s used b0] S stp e by simp
  have B1: "\<forall>x. e0 \<le> x \<and> x < s \<longrightarrow> pace_budget c x \<le> used"
    using f S e0r by force
  have B2: "\<forall>x. s < x \<and> x < e \<longrightarrow> used < pace_budget c x"
  proof (intro allI impI)
    fix x
    assume x: "s < x \<and> x < e"
    with E E' S have "s < 100" and "x \<le> 100" by force+
    with E x f [of x] \<open>0 \<le> s\<close> show "used < pace_budget c x" by auto
  qed
  have B3: "e < 100 \<longrightarrow> pace_budget c e \<le> used"
    using E E' f [of e] \<open>0 \<le> s\<close> by (cases "s < 100") auto
  show ?thesis using B1 B2 B3 S E E' by (cases "s < 100") auto
qed

lemma pace_recovery_None:
  assumes wf: "wf_curve c" and rec: "pace_recovery c used elapsed = None"
    and x: "clamp100 elapsed \<le> x" "x \<le> 100"
  shows "pace_budget c x \<le> used"
proof -
  obtain b0 r where c: "c = (0, b0) # r" and ch: "chain 0 r"
    using wf by (rule wf_curve_E)
  have x0: "0 \<le> x" using x clamp100_bounds(1) order_trans by blast
  have cl: "0 \<le> clamp100 elapsed" by simp
  have nf: "\<not> used < bud 0 b0 r (clamp100 elapsed)"
    and rs: "recovery_start used (clamp100 elapsed) 0 b0 r = None"
    using rec c budget_bud [OF ch, of b0 "clamp100 elapsed"]
    by (auto simp: pace_recovery_def Let_def not_less split: if_splits)
  have "bud 0 b0 r x \<le> used"
    using recovery_start_None [OF ch _ _ rs, of x] nf x x0 cl by simp
  then show ?thesis using budget_bud [OF ch, of b0 x] x x0 c by simp
qed

section \<open>The contract of a pacing policy and its client\<close>

text \<open>
  What \<open>_pace_free_at\<close> relies on: a stretch that is reported lies ahead, is not empty, and holds
  headroom in its whole interior.
\<close>

locale pacing_policy =
  fixes wf :: "'c \<Rightarrow> bool"
    and budget :: "'c \<Rightarrow> rat \<Rightarrow> rat"
    and recovery :: "'c \<Rightarrow> rat \<Rightarrow> rat \<Rightarrow> (rat \<times> rat) option"
  assumes stretch:
      "wf c \<Longrightarrow> 0 \<le> el \<Longrightarrow> el < 100 \<Longrightarrow> recovery c u el = Some (s, e) \<Longrightarrow> el \<le> s \<and> s < e \<and> e \<le> 100"
    and interior:
      "wf c \<Longrightarrow> 0 \<le> el \<Longrightarrow> el < 100 \<Longrightarrow> recovery c u el = Some (s, e) \<Longrightarrow> s < x \<Longrightarrow> x < e
        \<Longrightarrow> u < budget c x"
begin

lemma eased_wake:
  assumes "wf c" and "0 \<le> el" and "el < 100" and "recovery c u el = Some (s, e)"
    and "0 < per" and "0 < m"
  defines "t \<equiv> (s - el) * per + min m ((e - s) * per / 2)"
  shows "0 < t" and "t < (100 - el) * per" and "u < budget c (el + t / per)"
proof -
  have se: "el \<le> s" "s < e" "e \<le> 100" using stretch [OF assms(1-4)] by auto
  define d where "d = min m ((e - s) * per / 2)"
  have half: "0 < (e - s) * per" using se assms(5) by simp
  then have d: "0 < d" "d < (e - s) * per" 
    using assms(6) by (auto simp: d_def min_def mult.commute simp del: zero_less_mult_iff)
  have sl: "0 \<le> (s - el) * per" using se assms(5) by simp
  show "0 < t" using sl d(1) by (simp add: t_def flip: d_def)
  have "t < (s - el) * per + (e - s) * per" using d(2) by (simp add: t_def flip: d_def)
  also have "\<dots> = (e - el) * per" by (simp add: algebra_simps)
  also have "\<dots> \<le> (100 - el) * per" using se assms(5) by simp
  finally show "t < (100 - el) * per" .
  have q: "el + t / per = s + d / per"
    using assms(5) by (simp add: t_def add_divide_distrib flip: d_def)
  have "0 < d / per" and "d / per < e - s" using d assms(5) by (simp_all add: divide_less_eq)
  then show "u < budget c (el + t / per)"
    unfolding q by (intro interior [OF assms(1-4)]) auto
qed

end

interpretation tauceti_pace: pacing_policy wf_curve pace_budget pace_recovery
proof
  fix c el u s e x
  assume wf: "wf_curve c" and el: "0 \<le> el" "el < 100" and rec: "pace_recovery c u el = Some (s, e)"
  have cl: "el = clamp100 el" using el by simp
  note spec = pace_recovery_spec [OF wf cl rec]
  show "el \<le> s \<and> s < e \<and> e \<le> 100"
    using el spec by auto
  show "s < x \<Longrightarrow> x < e \<Longrightarrow> u < pace_budget c x"
    using spec by auto
qed

section \<open>Properties\<close>

text \<open>
  C21: \<open>pace_recovery\<close> returns exactly the first stretch with headroom at or after the elapsed
  point: before \<open>start\<close> the budget never exceeds the usage, between \<open>start\<close> and \<open>stop\<close> it
  always does, the stretch is not empty unless the window is over, and where it ends inside the
  window the budget has come back down to the usage.
\<close>

theorem pace_recovery_first_stretch:
  assumes "wf_curve c" and "pace_recovery c used elapsed = Some (start, stop)"
  shows "clamp100 elapsed \<le> start \<and> start \<le> stop \<and> stop \<le> 100 \<and> (elapsed < 100 \<longrightarrow> start < stop)
    \<and> (\<forall>x. clamp100 elapsed \<le> x \<and> x < start \<longrightarrow> pace_budget c x \<le> used)
    \<and> (\<forall>x. start < x \<and> x < stop \<longrightarrow> used < pace_budget c x)
    \<and> (stop < 100 \<longrightarrow> pace_budget c stop \<le> used)"
proof -
  have "elapsed < 100 \<Longrightarrow> clamp100 elapsed < 100" by (simp add: clamp100_def)
  then show ?thesis using pace_recovery_spec [OF assms(1) refl assms(2)] by auto
qed

lemma dip_curve_wf: "wf_curve [(0, 0), (50, 50), (51, 0), (100, 100)]"
  by (simp add: wf_curve_def)

theorem pace_recovery_first_stretch_witness:
  "pace_recovery [(0, 0), (50, 50), (51, 0), (100, 100)] 40 0 = Some (40, 251 / 5)
    \<and> 40 < pace_budget [(0, 0), (50, 50), (51, 0), (100, 100)] (50 :: rat)"
proof -
  have h: "pace_recovery [(0, 0), (50, 50), (51, 0), (100, 100)] 40 0 = Some (40, 251 / 5)"
    by (simp add: pace_recovery_def clamp100_def Let_def)
  from pace_recovery_first_stretch [OF dip_curve_wf h] h show ?thesis by auto
qed

text \<open>
  \<open>pace_recovery\<close> answers \<open>None\<close> only when waiting cannot help: the budget stays at or below
  the usage for the whole rest of the window.
\<close>

theorem pace_recovery_none_stuck:
  assumes "wf_curve c" and "pace_recovery c used elapsed = None"
  shows "\<forall>x. clamp100 elapsed \<le> x \<and> x \<le> 100 \<longrightarrow> pace_budget c x \<le> used"
  using pace_recovery_None [OF assms] by blast

theorem pace_recovery_none_stuck_witness:
  "pace_recovery [(0, 50), (100, 50)] 60 20 = None \<and> pace_budget [(0, 50), (100, 50)] 90 \<le> (60 :: rat)"
proof -
  have w: "wf_curve [(0, 50), (100, 50)]" by (simp add: wf_curve_def)
  have h: "pace_recovery [(0, 50), (100, 50)] 60 20 = None"
    by (simp add: pace_recovery_def clamp100_def Let_def)
  from pace_recovery_none_stuck [OF w h] h show ?thesis by (auto simp: clamp100_def)
qed

text \<open>
  the budget of an accepted curve passes through every control point and is never negative.
\<close>

theorem pace_budget_interpolates:
  assumes "wf_curve c"
  shows "(\<forall>(t, b)\<in>set c. pace_budget c t = b) \<and> (\<forall>x. 0 \<le> pace_budget c x)"
proof -
  obtain b0 r where c: "c = (0, b0) # r" and ch: "chain 0 r" and stp: "stop_time 0 r = 100"
    and nn: "0 \<le> b0" "\<forall>p\<in>set r. 0 \<le> snd p"
    using assms by (rule wf_curve_E)
  have srt: "sorted_wrt (<) (map fst c)" using assms by (simp add: wf_curve_def)
  have "pace_budget c t = b" if "(t, b) \<in> set c" for t b
  proof -
    have "0 \<le> t" "t \<le> 100"
      using strict_sorted_hd_le [OF srt that] strict_sorted_last_ge [OF srt that] assms
      by (auto simp: wf_curve_def)
    then show ?thesis
      using that budget_bud [OF ch, of b0 t] bud_point [OF ch, of t b b0] bud_at_start [OF ch, of b0] c
        chain_mem [OF ch, of t b]
      by auto
  qed
  moreover have "0 \<le> pace_budget c x" for x
    using bud_nonneg [OF ch nn, of "clamp100 x"] budget_bud [OF ch, of b0 x] c by simp
  ultimately show ?thesis by auto
qed

theorem pace_budget_interpolates_witness:
  "pace_budget [(0, 0), (50, 50), (51, 0), (100, 100)] (51 :: rat) = 0"
  using pace_budget_interpolates [OF dip_curve_wf] by auto

text \<open>
  a window held by the pace line and still running is woken strictly before its reset, at a
  moment when the budget of the curve at that elapsed fraction exceeds its usage: the wake-up is
  never premature, and never overshoots a short stretch.
\<close>

theorem pace_free_at_has_headroom:
  assumes "wf_curve c" and "finite_num (w_used w) = Some used"
    and "w_elapsed w = Some elapsed" and "0 \<le> elapsed" and "w_resets_at w = Some resets_at"
    and "pace_free_at c w now = Some t"
  shows "now < t \<and> t < resets_at
    \<and> used < pace_budget c (elapsed + (t - now) / ((resets_at - now) / (100 - elapsed)))"
proof -
  define per where "per = (resets_at - now) / (100 - elapsed)"
  obtain s e where live: "now < resets_at" "elapsed < 100"
    and rec: "pace_recovery c used elapsed = Some (s, e)"
    and t: "t = min (now + (s - elapsed) * per + min pace_ease_s ((e - s) * per / 2)) resets_at"
    using assms by (auto simp: pace_free_at_def Let_def per_def split: if_splits option.splits)
  have per: "0 < per" and full: "(100 - elapsed) * per = resets_at - now"
    using live by (simp_all add: per_def)
  define d where "d = (s - elapsed) * per + min pace_ease_s ((e - s) * per / 2)"
  have ease: "0 < pace_ease_s" by (simp add: pace_ease_s_def)
  note wake = tauceti_pace.eased_wake [OF assms(1,4) live(2) rec per ease, folded d_def]
  have "t = now + d" using wake(2) full t by (simp add: d_def)
  then show ?thesis using wake full by (simp add: per_def)
qed

theorem pace_free_at_has_headroom_witness:
  "(let w = \<lparr>w_name = Session, w_used = JNum (PInt 30), w_elapsed = Some 20, w_resets_at = Some 14400,
             w_status = OverPace, w_budget = None, w_detail = None\<rparr>
    in pace_free_at default_pace w 0 = Some 4680
       \<and> (30 :: rat) < pace_budget default_pace (20 + 4680 / (14400 / 80)))"
proof -
  let ?w = "\<lparr>w_name = Session, w_used = JNum (PInt 30), w_elapsed = Some 20, w_resets_at = Some 14400,
    w_status = OverPace, w_budget = None, w_detail = None\<rparr>"
  have h: "pace_free_at default_pace ?w 0 = Some 4680"
    by (simp add: pace_free_at_def pace_recovery_def default_pace_def clamp100_def pace_ease_s_def Let_def)
  show ?thesis
    using pace_free_at_has_headroom [OF default_pace_wf _ _ _ _ h, of 30 20 14400] h by simp
qed

lemma plateau_spec:
  "chain pt r \<Longrightarrow> \<forall>p\<in>set r. 0 \<le> snd p \<Longrightarrow> T = plateau_loop pt r \<Longrightarrow>
     pt \<le> T \<and> T \<le> stop_time pt r \<and> (\<forall>x. pt \<le> x \<and> x \<le> T \<longrightarrow> bud pt 0 r x = 0)
     \<and> (T < stop_time pt r \<longrightarrow> (\<exists>z. T < z \<and> (\<forall>x. T < x \<and> x \<le> z \<longrightarrow> 0 < bud pt 0 r x)))"
proof (induction r arbitrary: pt)
  case Nil
  then show ?case by (simp add: stop_time_def)
next
  case (Cons p r)
  obtain t b where p: "p = (t, b)" by (cases p)
  have pt: "pt < t" and ch: "chain t r" using Cons.prems(1) p by auto
  note sg = bud_seg [OF pt, of _ 0 b r]
  show ?case
  proof (cases "b = 0")
    case True
    then have T: "T = plateau_loop t r" using Cons.prems(3) p by simp
    have zero: "bud pt 0 (p # r) x = 0" if "pt \<le> x" "x \<le> t" for x
      using that sg [of x] True p by (simp add: seg_def)
    have "bud pt 0 (p # r) x = bud t 0 r x" if "t < x" for x
      using that p True by simp
    with Cons.IH [OF ch _ T] Cons.prems(2) zero p pt show ?thesis
      by (auto simp: le_less_linear)
  next
    case False
    then have T: "T = pt" and "0 < b" using Cons.prems p by (auto simp: less_le)
    have "bud pt 0 (p # r) pt = 0" using sg [of pt] pt p by (simp add: curve_simps)
    moreover have "0 < bud pt 0 (p # r) x" if "pt < x" "x \<le> t" for x
      using seg_strict [OF pt \<open>0 < b\<close> that(1)] sg [of x] that p by (simp add: curve_simps)
    ultimately show ?thesis using T pt stop_time_ge [OF ch] p by auto
  qed
qed

text \<open>
  the zero plateau is exact: nothing may be spent up to it, and right after it the budget is
  positive. So \<open>_idle_init_block\<close> refuses exactly the curves that give a fresh window no budget.
\<close>

theorem zero_plateau_exact:
  assumes "wf_curve c"
  defines "tau \<equiv> pace_zero_plateau c"
  shows "0 \<le> tau \<and> tau \<le> 100 \<and> (\<forall>x. 0 < tau \<and> 0 \<le> x \<and> x \<le> tau \<longrightarrow> pace_budget c x = 0)
    \<and> (tau < 100 \<longrightarrow> (\<exists>z > tau. \<forall>x. tau < x \<and> x \<le> z \<longrightarrow> 0 < pace_budget c x))
    \<and> idle_init_block c = (if tau = 0 then None else Some tau)"
proof -
  obtain b0 r where c: "c = (0, b0) # r" and ch: "chain 0 r" and stp: "stop_time 0 r = 100"
    and nn: "0 \<le> b0" "\<forall>p\<in>set r. 0 \<le> snd p"
    using assms(1) by (rule wf_curve_E)
  have f: "pace_budget c x = bud 0 b0 r (min x 100)" if "0 \<le> x" for x
    using budget_bud [OF ch, of b0 x] that c by (simp add: clamp100_def min.commute)
  have core: "0 \<le> tau \<and> tau \<le> 100 \<and> (0 < tau \<longrightarrow> (\<forall>x. 0 \<le> x \<and> x \<le> tau \<longrightarrow> bud 0 b0 r x = 0))
      \<and> (tau < 100 \<longrightarrow> (\<exists>z > tau. \<forall>x. tau < x \<and> x \<le> z \<longrightarrow> 0 < bud 0 b0 r x))"
  proof (cases "b0 = 0")
    case True
    then have "tau = plateau_loop 0 r" using c by (simp add: tau_def pace_zero_plateau_def)
    from plateau_spec [OF ch nn(2) this] True stp show ?thesis by auto
  next
    case False
    then have "0 < bud 0 b0 r 0" using nn ch by (simp add: bud_at_start)
    from bud_right_open [OF ch this] stp False c show ?thesis
      by (auto simp: tau_def pace_zero_plateau_def)
  qed
  have "\<exists>z > tau. \<forall>x. tau < x \<and> x \<le> z \<longrightarrow> 0 < pace_budget c x" if lt: "tau < 100"
  proof -
    obtain z where "tau < z" "\<forall>x. tau < x \<and> x \<le> z \<longrightarrow> 0 < bud 0 b0 r x" using core lt by blast
    then show ?thesis using f core lt by (intro exI [of _ "min z 100"]) auto
  qed
  moreover have "pace_budget c x = 0" if "0 < tau" "0 \<le> x" "x \<le> tau" for x
    using core that f [of x] by (auto simp: min_def)
  ultimately show ?thesis using core by (auto simp: idle_init_block_def tau_def Let_def)
qed

theorem zero_plateau_exact_witness:
  "pace_zero_plateau [(0, 0), (90, 0), (100, 95)] = 90
    \<and> idle_init_block [(0, 0), (90, 0), (100, 95)] = Some (90 :: rat)"
proof -
  have w: "wf_curve [(0, 0), (90, 0), (100, 95)]" by (simp add: wf_curve_def)
  have "pace_zero_plateau [(0, 0), (90, 0), (100, 95)] = (90 :: rat)"
    by (simp add: pace_zero_plateau_def)
  with zero_plateau_exact [OF w] show ?thesis by simp
qed

text \<open>
  under the default curve \<open>60:40\<close> a window may never be spent faster than the clock: inside the
  window the budget stays strictly below the identity line, and it reaches the full quota at the reset.
\<close>

theorem default_pace_below_clock:
  "(\<forall>x. 0 < x \<and> x < 100 \<longrightarrow> pace_budget default_pace x < x) \<and> pace_budget default_pace 100 = 100"
  by (auto simp: default_pace_def clamp100_def field_simps)

theorem default_pace_below_clock_witness: "pace_budget default_pace (50 :: rat) < 50"
  by (rule mp [OF spec [OF conjunct1 [OF default_pace_below_clock]]]) simp

end
