(* ===== verification/ClaudeUsage.thy ===== *)
theory ClaudeUsage
  imports PaceLaws
begin

text \<open>
  Reading the usage endpoints in \<open>tauceti_worker/quota.py\<close>: the four-state reading of one Claude
  window, the Claude and Codex windows turned into a provider verdict, the reason an unavailable
  provider is blocked, and the choice of the model that may run. \<open>iso_ts\<close> stands for
  \<open>datetime.fromisoformat(s).timestamp()\<close>, which depends on the host's time zone.
  Messages are constructors, so that two conditions the code reports differently stay different.
\<close>

section \<open>One field of a record\<close>

definition parse_iso :: "(string \<Rightarrow> rat option) \<Rightarrow> json \<Rightarrow> rat option" where
  "parse_iso iso_ts v =
     (case v of
        JStr s \<Rightarrow> if s = [] then None
                  else iso_ts (concat (map (\<lambda>c. if c = CHR ''Z'' then ''+00:00'' else [c]) s))
      | _ \<Rightarrow> None)"

datatype 'a fieldv = FMissing | FNull | FValue 'a | FBad

fun field :: "jdict \<Rightarrow> string list \<Rightarrow> json option" where
  "field rec [] = None"
| "field rec (n # ns) = (case jget rec n of Some v \<Rightarrow> Some v | None \<Rightarrow> field rec ns)"

definition usage_kind :: "jdict \<Rightarrow> rat fieldv" where
  "usage_kind rec =
     (case field rec [''percent'', ''utilization''] of
        None \<Rightarrow> FMissing
      | Some raw \<Rightarrow>
          if raw = JNull then FNull
          else (case finite_num raw of
                  None \<Rightarrow> FBad
                | Some q \<Rightarrow> if q < 0 then FBad else FValue q))"

definition reset_kind :: "(string \<Rightarrow> rat option) \<Rightarrow> jdict \<Rightarrow> rat fieldv" where
  "reset_kind iso_ts rec =
     (case field rec [''resets_at''] of
        None \<Rightarrow> FMissing
      | Some raw \<Rightarrow>
          if raw = JNull then FNull
          else (case parse_iso iso_ts raw of None \<Rightarrow> FBad | Some ts \<Rightarrow> FValue ts))"

section \<open>The state of one window\<close>

datatype rstate = RActive | RIdle | RAbsent | RMalformed

definition claude_reset_skew_s :: rat where
  "claude_reset_skew_s = 60"

fun field_value :: "'a fieldv \<Rightarrow> 'a option" where
  "field_value (FValue v) = Some v"
| "field_value _ = None"

fun record_state ::
  "rat fieldv \<Rightarrow> rat fieldv \<Rightarrow> rat \<Rightarrow> rat \<Rightarrow> rstate \<times> detail option \<times> rat option \<times> rat option" where
  "record_state FBad rk now ws = (RMalformed, Some UsageUnusable, None, field_value rk)"
| "record_state uk FBad now ws = (RMalformed, Some ResetInvalid, field_value uk, None)"
| "record_state (FValue u) (FValue r) now ws =
     (if r < now - claude_reset_skew_s then (RIdle, Some ResetElapsed, Some u, Some r)
      else if r - now > ws + claude_reset_skew_s
           then (RMalformed, Some (ResetImplausible (r - now)), None, None)
      else (RActive, None, Some u, Some r))"
| "record_state FMissing (FValue r) now ws = (RMalformed, Some UsageMissingLive, None, Some r)"
| "record_state FNull (FValue r) now ws = (RMalformed, Some UsageNullLive, None, Some r)"
| "record_state (FValue u) rk now ws =
     (if u > 0 then (RMalformed, Some (UsageNoClock u), Some u, None)
      else (RIdle, None, Some u, None))"
| "record_state FMissing FMissing now ws = (RMalformed, Some NeitherFigureNorClock, None, None)"
| "record_state uk rk now ws = (RIdle, None, None, None)"

definition claude_record_state ::
  "(string \<Rightarrow> rat option) \<Rightarrow> jdict \<Rightarrow> rat \<Rightarrow> rat
     \<Rightarrow> rstate \<times> detail option \<times> rat option \<times> rat option" where
  "claude_record_state iso_ts rec now ws = record_state (usage_kind rec) (reset_kind iso_ts rec) now ws"

record reading =
  r_window :: wname
  r_state :: rstate
  r_used :: "rat option"
  r_resets_at :: "rat option"
  r_detail :: "detail option"
  r_source :: string

text \<open>A record is \<open>None\<close> for the sentinel \<open>_ABSENT_REC\<close>.\<close>

definition claude_reading ::
  "(string \<Rightarrow> rat option) \<Rightarrow> wname \<Rightarrow> string \<Rightarrow> json option \<Rightarrow> rat \<Rightarrow> reading" where
  "claude_reading iso_ts w source rec now =
     (let mk = (\<lambda>st u r d. \<lparr>r_window = w, r_state = st, r_used = u, r_resets_at = r,
                            r_detail = d, r_source = source\<rparr>)
      in case rec of
           None \<Rightarrow> mk RAbsent None None (Some LimitMissing)
         | Some JNull \<Rightarrow> mk RIdle None None None
         | Some (JObj d) \<Rightarrow>
             (let (st, dt, u, r) = claude_record_state iso_ts d now (window_s w)
              in mk st u r (if st = RMalformed then map_option (\<lambda>x. FromSource x source) dt else dt))
         | Some _ \<Rightarrow> mk RMalformed None None (Some (FromSource NotAnObject source)))"

section \<open>Where the record of a window is found\<close>

text \<open>
  \<open>group = str(lim.get("group") or lim.get("kind") or "")\<close>. The text of a decoded value that is
  not a string is never \<open>session\<close> and never starts with \<open>weekly\<close>, so only strings can match.
\<close>

definition limit_group :: "jdict \<Rightarrow> json" where
  "limit_group lmt =
     (if truthy (jget0 lmt ''group'') then jget0 lmt ''group''
      else if truthy (jget0 lmt ''kind'') then jget0 lmt ''kind'' else JStr [])"

fun limit_matches :: "wname \<Rightarrow> jdict \<Rightarrow> bool" where
  "limit_matches Session lmt = (limit_group lmt = JStr ''session'')"
| "limit_matches Weekly lmt =
     ((case limit_group lmt of JStr s \<Rightarrow> starts_with ''weekly'' s | _ \<Rightarrow> False)
      \<and> \<not> truthy (jget0 lmt ''scope''))"

fun find_limit :: "wname \<Rightarrow> json list \<Rightarrow> json option" where
  "find_limit w [] = None"
| "find_limit w (JObj lmt # ls) = (if limit_matches w lmt then Some (JObj lmt) else find_limit w ls)"
| "find_limit w (_ # ls) = find_limit w ls"

definition claude_limits_record :: "jdict \<Rightarrow> wname \<Rightarrow> json option" where
  "claude_limits_record payload w =
     (case jget payload ''limits'' of Some (JArr ls) \<Rightarrow> find_limit w ls | _ \<Rightarrow> None)"

fun flat_key :: "wname \<Rightarrow> string" where
  "flat_key Session = ''five_hour''"
| "flat_key Weekly = ''seven_day''"

definition claude_flat_record :: "jdict \<Rightarrow> wname \<Rightarrow> json option" where
  "claude_flat_record payload w = jget payload (flat_key w)"

definition claude_window_reading ::
  "(string \<Rightarrow> rat option) \<Rightarrow> jdict \<Rightarrow> wname \<Rightarrow> rat \<Rightarrow> reading" where
  "claude_window_reading iso_ts payload w now =
     (case claude_limits_record payload w of
        Some rec \<Rightarrow> claude_reading iso_ts w ''limits'' (Some rec) now
      | None \<Rightarrow> claude_reading iso_ts w (flat_key w) (claude_flat_record payload w) now)"

text \<open>\<open>_claude_payload_problem\<close>: only a JSON object can be read as a usage response.\<close>

definition claude_payload_problem :: "json \<Rightarrow> bool" where
  "claude_payload_problem payload = (case payload of JObj _ \<Rightarrow> False | _ \<Rightarrow> True)"

definition claude_readings :: "(string \<Rightarrow> rat option) \<Rightarrow> json \<Rightarrow> rat \<Rightarrow> reading list" where
  "claude_readings iso_ts payload now =
     (let d = (case payload of JObj d \<Rightarrow> d | _ \<Rightarrow> [])
      in map (\<lambda>w. claude_window_reading iso_ts d w now) [Session, Weekly])"

definition claude_valid_until :: "reading list \<Rightarrow> rat option" where
  "claude_valid_until rs =
     (if \<exists>r\<in>set rs. r_state r \<noteq> RActive \<or> r_resets_at r = None then None
      else min_by (\<lambda>t. t) (map (\<lambda>r. the (r_resets_at r)) rs))"

section \<open>From a reading to a window\<close>

definition idle_phrase :: "curve \<Rightarrow> reading \<Rightarrow> detail" where
  "idle_phrase curve r =
     AwaitingInit (case idle_init_block curve of Some tau \<Rightarrow> Some (PlateauBlocked tau) | None \<Rightarrow> r_detail r)"

fun status_of_state :: "rstate \<Rightarrow> status" where
  "status_of_state RActive = Unknown"
| "status_of_state RIdle = Idle"
| "status_of_state RAbsent = Absent"
| "status_of_state RMalformed = Malformed"

definition opt_num :: "rat option \<Rightarrow> json" where
  "opt_num x = (case x of None \<Rightarrow> JNull | Some q \<Rightarrow> JNum (PFloat q))"

definition window_from_reading :: "curve \<Rightarrow> reading \<Rightarrow> detail option \<Rightarrow> rat \<Rightarrow> window" where
  "window_from_reading curve r note now =
     (case (r_state r, r_resets_at r) of
        (RActive, Some resets) \<Rightarrow>
          (let ws = window_s (r_window r); elapsed = (ws - (resets - now)) / ws * 100
           in classify_window curve (r_window r) (opt_num (r_used r)) (Some elapsed) (Some resets) False)
      | (st, resets) \<Rightarrow>
          \<lparr>w_name = r_window r, w_used = opt_num (r_used r),
           w_elapsed = (if st = RIdle then Some 0 else None), w_resets_at = resets,
           w_status = status_of_state st,
           w_budget = (if st = RIdle then Some (pace_budget curve 0) else None),
           w_detail = (case note of Some d \<Rightarrow> Some d
                       | None \<Rightarrow> if st = RIdle then Some (idle_phrase curve r) else r_detail r)\<rparr>)"

section \<open>Provider verdicts\<close>

datatype pname = Codex | Claude

datatype perror =
    NoCredentials
  | NoAccessToken
  | StoreNotFile string
  | FetchFailed string
  | UsageHttp int
  | UsageRejected
  | UsageEmpty
  | NotJsonObject
  | SchemaUnsupported
  | CoolingDown int

record provider =
  p_name :: pname
  p_available :: bool
  p_model :: "string option"
  p_windows :: "window list"
  p_error :: "perror option"
  p_next :: "rat option"
  p_retry :: "rat option"
  p_bootstrap :: bool
  p_pending :: "wname list"
  p_limited :: bool

definition failed_provider :: "pname \<Rightarrow> perror \<Rightarrow> rat option \<Rightarrow> bool \<Rightarrow> provider" where
  "failed_provider n e retry limited =
     \<lparr>p_name = n, p_available = False, p_model = None, p_windows = [], p_error = Some e,
      p_next = None, p_retry = retry, p_bootstrap = False, p_pending = [], p_limited = limited\<rparr>"

definition claude_provider ::
  "curve \<Rightarrow> reading list \<Rightarrow> (wname \<rightharpoonup> detail) \<Rightarrow> bool \<Rightarrow> rat \<Rightarrow> provider" where
  "claude_provider curve readings notes recorded now =
     (let wins = map (\<lambda>r. window_from_reading curve r (notes (r_window r)) now) readings;
          avail = (wins \<noteq> [] \<and> (\<forall>w\<in>set wins. w_status w = UnderPace));
          idle = map w_name (filter (\<lambda>w. w_status w = Idle) wins);
          others_ok = (\<forall>w\<in>set wins. w_status w \<noteq> Idle \<longrightarrow> w_status w = UnderPace);
          eligible = (idle \<noteq> [] \<and> others_ok \<and> \<not> recorded \<and> idle_init_block curve = None)
      in \<lparr>p_name = Claude, p_available = avail,
          p_model = (if avail then Some ''opus'' else None), p_windows = wins,
          p_error = (if wins \<noteq> [] \<and> (\<forall>w\<in>set wins. w_status w = Absent)
                     then Some SchemaUnsupported else None),
          p_next = next_eligible curve wins now, p_retry = None, p_bootstrap = eligible,
          p_pending = (if eligible then idle else []), p_limited = False\<rparr>)"

text \<open>\<open>_claude_from_payload\<close>: no cache, reservation or bootstrap.\<close>

definition claude_from_payload ::
  "(string \<Rightarrow> rat option) \<Rightarrow> curve \<Rightarrow> json \<Rightarrow> rat \<Rightarrow> provider" where
  "claude_from_payload iso_ts curve payload now =
     claude_provider curve (claude_readings iso_ts payload now) Map.empty False now"

definition reannotate :: "provider \<Rightarrow> wname list \<Rightarrow> detail \<Rightarrow> provider" where
  "reannotate prov ws note =
     \<lparr>p_name = Claude, p_available = False, p_model = None,
      p_windows = map (\<lambda>w. if w_name w \<in> set ws \<and> w_status w = Idle
                           then w\<lparr>w_detail := Some note\<rparr> else w) (p_windows prov),
      p_error = p_error prov, p_next = p_next prov, p_retry = p_retry prov, p_bootstrap = False,
      p_pending = [], p_limited = p_limited prov\<rparr>"

section \<open>Codex\<close>

definition codex_clocks :: "json \<Rightarrow> (rat \<times> rat) option" where
  "codex_clocks w =
     (case w of
        JObj d \<Rightarrow>
          (case (finite_num (jget0 d ''limit_window_seconds''), finite_num (jget0 d ''reset_after_seconds'')) of
             (Some lmt, Some ra) \<Rightarrow> if lmt \<le> 0 \<or> \<not> (0 < ra \<and> ra \<le> lmt) then None else Some (lmt, ra)
           | _ \<Rightarrow> None)
      | _ \<Rightarrow> None)"

fun codex_resets :: "jdict \<Rightarrow> rat \<Rightarrow> string list \<Rightarrow> rat list option" where
  "codex_resets rl observed [] = Some []"
| "codex_resets rl observed (key # keys) =
     (let w = jget0 rl key
      in if w = JNull then codex_resets rl observed keys
         else case codex_clocks w of
                None \<Rightarrow> None
              | Some (lmt, ra) \<Rightarrow> map_option (\<lambda>ts. (observed + ra) # ts) (codex_resets rl observed keys))"

definition window_keys :: "string list" where
  "window_keys = [''primary_window'', ''secondary_window'']"

definition codex_valid_until :: "jdict \<Rightarrow> rat \<Rightarrow> rat option" where
  "codex_valid_until payload observed =
     (case jget0 payload ''rate_limit'' of
        JObj rl \<Rightarrow> (case codex_resets rl observed window_keys of
                      None \<Rightarrow> None | Some ts \<Rightarrow> min_by (\<lambda>t. t) ts)
      | _ \<Rightarrow> None)"

definition codex_window :: "curve \<Rightarrow> json \<Rightarrow> bool \<Rightarrow> rat \<Rightarrow> window" where
  "codex_window curve w0 limit_reached now =
     (let w = (case w0 of JObj d \<Rightarrow> d | _ \<Rightarrow> []);
          clocks = codex_clocks (JObj w);
          elapsed = map_option (\<lambda>(lmt, ra). (lmt - ra) / lmt * 100) clocks;
          resets = map_option (\<lambda>(lmt, ra). now + ra) clocks;
          name = (case finite_num (jget0 w ''limit_window_seconds'') of
                    Some lmt \<Rightarrow> if lmt \<le> 24 * 3600 then Session else Weekly
                  | None \<Rightarrow> Weekly)
      in classify_window curve name (jget0 w ''used_percent'') elapsed resets limit_reached)"

text \<open>\<open>rl.get\<close> on a truthy \<open>rate_limit\<close> that is not an object raises \<open>AttributeError\<close>.\<close>

datatype py_error = AttributeError

definition codex_from_payload :: "curve \<Rightarrow> jdict \<Rightarrow> rat \<Rightarrow> py_error + provider" where
  "codex_from_payload curve payload now =
     (let rl0 = jget0 payload ''rate_limit''
      in if truthy rl0 \<and> (case rl0 of JObj _ \<Rightarrow> False | _ \<Rightarrow> True) then Inl AttributeError
         else
           (let rl = (case rl0 of JObj d \<Rightarrow> d | _ \<Rightarrow> []);
                limit_reached = truthy (jget0 rl ''limit_reached'');
                wins = map (\<lambda>w. codex_window curve w limit_reached now)
                           (filter (\<lambda>w. w \<noteq> JNull) (map (jget0 rl) window_keys));
                avail = (wins \<noteq> [] \<and> (\<forall>w\<in>set wins. w_status w = UnderPace) \<and> \<not> limit_reached)
            in Inr \<lparr>p_name = Codex, p_available = avail,
                    p_model = (if avail then Some ''gpt-5'' else None), p_windows = wins,
                    p_error = None, p_next = next_eligible curve wins now, p_retry = None,
                    p_bootstrap = False, p_pending = [], p_limited = False\<rparr>))"

section \<open>Why a provider is blocked, and which one runs\<close>

datatype block_reason = HardBlock "window list" | PaceBlock "window list" | PlainUnavailable

definition unavail_reason :: "provider \<Rightarrow> bool \<times> block_reason" where
  "unavail_reason prov =
     (let gating = p_windows prov;
          hard = filter (\<lambda>w. w_status w \<in> set hard_statuses) gating;
          paced = filter (\<lambda>w. w_status w \<in> set soft_statuses) gating
      in if hard \<noteq> [] then (False, HardBlock hard)
         else if paced \<noteq> [] then (True, PaceBlock paced)
         else (False, PlainUnavailable))"

text \<open>
  \<open>forced\<close> is \<open>None\<close> for \<open>None\<close> and \<open>auto\<close>; a provider is read only when it can count, so the
  reads are the two thunks \<open>codex ()\<close> and \<open>claude ()\<close>.
\<close>

definition choose_agent ::
  "pname option \<Rightarrow> (unit \<Rightarrow> provider) \<Rightarrow> (unit \<Rightarrow> provider)
     \<Rightarrow> pname option \<times> (pname \<times> provider) list" where
  "choose_agent forced codex claude =
     (let cx = (if forced \<in> {None, Some Codex} then Some (codex ()) else None);
          cl = (if forced \<in> {None, Some Claude} then Some (claude ()) else None);
          snap = (case cx of None \<Rightarrow> [] | Some p \<Rightarrow> [(Codex, p)])
                 @ (case cl of None \<Rightarrow> [] | Some p \<Rightarrow> [(Claude, p)]);
          codex_ok = (case cx of None \<Rightarrow> False | Some p \<Rightarrow> p_available p);
          opus_ok = (case cl of None \<Rightarrow> False | Some p \<Rightarrow> p_available p)
      in (case forced of
            Some Codex \<Rightarrow> (if codex_ok then Some Codex else None, snap)
          | Some Claude \<Rightarrow> (if opus_ok then Some Claude else None, snap)
          | None \<Rightarrow> (if codex_ok then Some Codex else if opus_ok then Some Claude else None, snap)))"

end
