(* ===== verification/ClaudeLaws.thy ===== *)
theory ClaudeLaws
  imports ClaudeUsage
begin

text \<open>
  The guarantees of the usage readers in \<open>ClaudeUsage\<close>: the four-state table fails closed, the
  structured record outranks the legacy one, availability needs readable windows with headroom,
  a hard block is never reported as a soft one, and a payload keeps its readings until the expiry
  it is cached under.
\<close>

section \<open>The four-state table\<close>

lemma record_state_active:
  "fst (record_state uk rk now ws) = RActive \<longleftrightarrow>
     (\<exists>u r. uk = FValue u \<and> rk = FValue r \<and> now - claude_reset_skew_s \<le> r
        \<and> r \<le> now + ws + claude_reset_skew_s)"
  by (cases "(uk, rk, now, ws)" rule: record_state.cases) (auto simp: algebra_simps)

lemma record_state_active_fields:
  "record_state uk rk now ws = (RActive, d, u, r) \<Longrightarrow>
     \<exists>u' r'. uk = FValue u' \<and> rk = FValue r' \<and> u = Some u' \<and> r = Some r'"
  by (cases "(uk, rk, now, ws)" rule: record_state.cases) (auto split: if_splits)

lemma record_state_idle:
  "fst (record_state uk rk now ws) = RIdle \<longleftrightarrow>
     (\<exists>u r. uk = FValue u \<and> rk = FValue r \<and> r < now - claude_reset_skew_s)
     \<or> (\<exists>u. uk = FValue u \<and> u \<le> 0 \<and> rk \<in> {FNull, FMissing})
     \<or> (uk = FNull \<and> rk \<in> {FNull, FMissing}) \<or> (uk = FMissing \<and> rk = FNull)"
  by (cases "(uk, rk, now, ws)" rule: record_state.cases) auto

lemma usage_kind_value: "usage_kind rec = FValue u \<Longrightarrow> 0 \<le> u"
  by (auto simp: usage_kind_def split: option.splits if_splits)

text \<open>
  the four-state table fails closed. A record paces (\<open>active\<close>) only with a usage figure that is
  not negative and a reset clock no further than one window (plus the skew) ahead and no more than
  the skew behind; it counts as \<open>idle\<close> only on an explicit statement: a clock that has elapsed, a
  zero figure without a clock, or an explicit null that nothing contradicts. Everything else, two
  omitted fields included, is malformed.
\<close>

theorem claude_record_state_table:
  "let st = fst (claude_record_state iso_ts rec now ws);
       uk = usage_kind rec; rk = reset_kind iso_ts rec
   in (st = RActive \<longleftrightarrow> (\<exists>u r. uk = FValue u \<and> 0 \<le> u \<and> rk = FValue r
          \<and> now - 60 \<le> r \<and> r \<le> now + ws + 60))
      \<and> (st = RIdle \<longleftrightarrow> (\<exists>u r. uk = FValue u \<and> rk = FValue r \<and> r < now - 60)
          \<or> (uk = FValue 0 \<and> rk \<in> {FNull, FMissing})
          \<or> (uk = FNull \<and> rk \<in> {FNull, FMissing}) \<or> (uk = FMissing \<and> rk = FNull))
      \<and> (st = RMalformed \<longleftrightarrow> st \<noteq> RActive \<and> st \<noteq> RIdle)"
proof -
  let ?st = "fst (claude_record_state iso_ts rec now ws)"
  have A: "?st = RActive \<longleftrightarrow> (\<exists>u r. usage_kind rec = FValue u \<and> 0 \<le> u
      \<and> reset_kind iso_ts rec = FValue r \<and> now - 60 \<le> r \<and> r \<le> now + ws + 60)"
    unfolding claude_record_state_def record_state_active claude_reset_skew_s_def
    using usage_kind_value by blast
  have nn: "(\<exists>u. usage_kind rec = FValue u \<and> u \<le> 0 \<and> P) \<longleftrightarrow> usage_kind rec = FValue 0 \<and> P" for P
    using usage_kind_value [of rec] by force
  have B: "?st = RIdle \<longleftrightarrow> (\<exists>u r. usage_kind rec = FValue u \<and> reset_kind iso_ts rec = FValue r \<and> r < now - 60)
      \<or> (usage_kind rec = FValue 0 \<and> reset_kind iso_ts rec \<in> {FNull, FMissing})
      \<or> (usage_kind rec = FNull \<and> reset_kind iso_ts rec \<in> {FNull, FMissing})
      \<or> (usage_kind rec = FMissing \<and> reset_kind iso_ts rec = FNull)"
    unfolding claude_record_state_def record_state_idle nn claude_reset_skew_s_def by (rule refl)
  have "?st \<noteq> RAbsent"
    unfolding claude_record_state_def
    by (cases "(usage_kind rec, reset_kind iso_ts rec, now, ws)" rule: record_state.cases) auto
  then have C: "?st = RMalformed \<longleftrightarrow> ?st \<noteq> RActive \<and> ?st \<noteq> RIdle"
    by (cases ?st) auto
  show ?thesis unfolding Let_def by (intro conjI A B C)
qed

section \<open>Readings\<close>

lemma claude_reading_window [simp]: "r_window (claude_reading iso_ts w src rec now) = w"
  by (auto simp: claude_reading_def Let_def split: option.splits json.splits prod.splits)

lemma claude_window_reading_window [simp]: "r_window (claude_window_reading iso_ts p w now) = w"
  by (simp add: claude_window_reading_def split: option.splits)

text \<open>
  the structured \<open>limits\<close> array is authoritative per window: when it carries a record for a
  window, that record alone decides the reading, whatever the legacy flat key says.
\<close>

theorem limits_record_authoritative:
  assumes "claude_limits_record payload w = Some rec"
    and "jget payload' ''limits'' = jget payload ''limits''"
  shows "claude_window_reading iso_ts payload' w now = claude_reading iso_ts w ''limits'' (Some rec) now"
  using assms by (simp add: claude_window_reading_def claude_limits_record_def)

theorem limits_record_authoritative_witness:
  "let lims = JArr [JObj [(''group'', JStr ''session''), (''percent'', JBool True)]]
   in r_state (claude_window_reading (\<lambda>_. Some 0)
        [(''limits'', lims), (''five_hour'', JObj [(''percent'', JNum (PInt 1)), (''resets_at'', JStr ''x'')])]
        Session 0) = RMalformed"
  using limits_record_authoritative
    [of "[(''limits'', JArr [JObj [(''group'', JStr ''session''), (''percent'', JBool True)]])]" Session
        "JObj [(''group'', JStr ''session''), (''percent'', JBool True)]"
        "[(''limits'', JArr [JObj [(''group'', JStr ''session''), (''percent'', JBool True)]]),
          (''five_hour'', JObj [(''percent'', JNum (PInt 1)), (''resets_at'', JStr ''x'')])]"
        "\<lambda>_. Some 0" 0]
  by (simp add: claude_limits_record_def limit_group_def claude_reading_def claude_record_state_def
      usage_kind_def jget0_def Let_def)

lemma active_reading_resets:
  "r_state (claude_reading iso_ts w src rec now) = RActive \<Longrightarrow>
     \<exists>d u r. rec = Some (JObj d) \<and> usage_kind d = FValue u \<and> reset_kind iso_ts d = FValue r
       \<and> now - 60 \<le> r \<and> r \<le> now + window_s w + 60
       \<and> claude_reading iso_ts w src rec now = \<lparr>r_window = w, r_state = RActive, r_used = Some u,
           r_resets_at = Some r, r_detail = None, r_source = src\<rparr>"
  by (cases rec; cases "the rec")
     (auto simp: claude_reading_def claude_record_state_def claude_reset_skew_s_def algebra_simps
        split: if_splits prod.splits elim!: record_state.elims)

lemma active_reading_stable:
  assumes "r_state (claude_reading iso_ts w src rec now) = RActive"
    and "r_resets_at (claude_reading iso_ts w src rec now) = Some r"
    and "now \<le> now'" and "now' < r"
  shows "claude_reading iso_ts w src rec now' = claude_reading iso_ts w src rec now"
proof -
  obtain d u r' where rec: "rec = Some (JObj d)" and uk: "usage_kind d = FValue u"
    and rk: "reset_kind iso_ts d = FValue r'" and bounds: "now - 60 \<le> r'" "r' \<le> now + window_s w + 60"
    and eq: "claude_reading iso_ts w src rec now = \<lparr>r_window = w, r_state = RActive, r_used = Some u,
           r_resets_at = Some r', r_detail = None, r_source = src\<rparr>"
    using active_reading_resets [OF assms(1)] by blast
  have "r' = r" using assms(2) eq by simp
  with rec uk rk bounds assms(3,4) eq show ?thesis
    by (simp add: claude_reading_def claude_record_state_def claude_reset_skew_s_def)
qed

lemma valid_until_all_active:
  "claude_valid_until rs = Some t \<Longrightarrow> r \<in> set rs \<Longrightarrow>
     r_state r = RActive \<and> (\<exists>x. r_resets_at r = Some x \<and> t \<le> x)"
  by (force simp: claude_valid_until_def split: if_splits dest: min_by_le)

lemma claude_readings_stable:
  assumes vu: "claude_valid_until (claude_readings iso_ts payload now) = Some t"
    and "now \<le> now'" and "now' < t"
  shows "claude_readings iso_ts payload now' = claude_readings iso_ts payload now
    \<and> (\<forall>r\<in>set (claude_readings iso_ts payload now'). r_state r = RActive)"
proof -
  define d where "d = (case payload of JObj d \<Rightarrow> d | _ \<Rightarrow> [])"
  have rs: "claude_readings iso_ts payload n = map (\<lambda>w. claude_window_reading iso_ts d w n) [Session, Weekly]" for n
    by (simp add: claude_readings_def d_def Let_def)
  have "claude_window_reading iso_ts d w now' = claude_window_reading iso_ts d w now" for w
  proof -
    have mem: "claude_window_reading iso_ts d w now \<in> set (claude_readings iso_ts payload now)"
      unfolding rs by (cases w) auto
    then obtain x where act: "r_state (claude_window_reading iso_ts d w now) = RActive"
      and res: "r_resets_at (claude_window_reading iso_ts d w now) = Some x" and "t \<le> x"
      using valid_until_all_active [OF vu] by blast
    then have "now' < x" using assms(3) by simp
    then show ?thesis
      using act res assms(2)
      by (auto simp: claude_window_reading_def split: option.splits intro!: active_reading_stable)
  qed
  then have "claude_readings iso_ts payload now' = claude_readings iso_ts payload now"
    unfolding rs by simp
  with valid_until_all_active [OF vu] show ?thesis by auto
qed

text \<open>
  a response stays true until the expiry it is cached under: at every later instant before the
  earliest reset among its windows it gives the very same readings, all of them active. So an entry
  served before its \<open>valid_until\<close> never describes a window that has rolled.
\<close>

theorem claude_readings_until_expiry:
  assumes "claude_valid_until (claude_readings iso_ts payload now) = Some t"
    and "now \<le> now'" and "now' < t"
  shows "claude_readings iso_ts payload now' = claude_readings iso_ts payload now
    \<and> (\<forall>r\<in>set (claude_readings iso_ts payload now'). r_state r = RActive)"
  using assms by (rule claude_readings_stable)

definition sample_payload :: json where
  "sample_payload = JObj [
     (''limits'', JArr [JObj [(''group'', JStr ''session''), (''percent'', JNum (PInt 10)), (''resets_at'', JStr ''A'')]]),
     (''seven_day'', JObj [(''utilization'', JNum (PInt 20)), (''resets_at'', JStr ''B'')])]"

definition sample_clock :: "string \<Rightarrow> rat option" where
  "sample_clock s = (if s = ''A'' then Some 9000 else if s = ''B'' then Some 302400 else None)"

lemmas claude_eval =
  claude_readings_def claude_window_reading_def claude_limits_record_def claude_flat_record_def
  limit_group_def claude_reading_def claude_record_state_def usage_kind_def reset_kind_def
  parse_iso_def jget0_def claude_reset_skew_s_def session_window_s_def week_window_s_def
  sample_payload_def sample_clock_def starts_with_def

theorem claude_readings_until_expiry_witness:
  "claude_valid_until (claude_readings sample_clock sample_payload 0) = Some 9000
   \<and> claude_readings sample_clock sample_payload 8999 = claude_readings sample_clock sample_payload 0"
proof -
  have h: "claude_valid_until (claude_readings sample_clock sample_payload 0) = Some 9000"
    by (simp add: claude_valid_until_def claude_eval)
  from claude_readings_until_expiry [OF h, of 8999] h show ?thesis by simp
qed

section \<open>Availability\<close>

lemma classify_under_pace:
  "w_status (classify_window c n used el res lmt) = UnderPace \<longleftrightarrow>
     \<not> lmt \<and> (\<exists>u e. finite_num used = Some u \<and> el = Some e \<and> clamp100 u < 100
       \<and> clamp100 u < pace_budget c (clamp100 e))"
  by (auto simp: classify_window_def Let_def split: option.splits)

lemma classify_fields [simp]:
  "w_name (classify_window c n used el res lmt) = n"
  "w_status (classify_window c n used el res lmt) \<in> {UnderPace, AtBudget, OverPace, Exhausted, Unknown}"
  "w_status (classify_window c n used el res lmt) \<noteq> Idle"
  by (auto simp: classify_window_def Let_def split: option.splits)

lemma window_from_reading_idle [simp]:
  "w_status (window_from_reading c r note now) = Idle \<longleftrightarrow> r_state r = RIdle"
  by (cases "r_state r") (auto simp: window_from_reading_def Let_def split: option.splits)

lemma window_from_reading_name [simp]: "w_name (window_from_reading c r note now) = r_window r"
  by (auto simp: window_from_reading_def Let_def split: option.splits rstate.splits)

lemma window_from_reading_under:
  "w_status (window_from_reading c r note now) = UnderPace \<Longrightarrow>
     r_state r = RActive \<and> (\<exists>u res. r_used r = Some u \<and> r_resets_at r = Some res \<and> clamp100 u < 100
       \<and> clamp100 u < pace_budget c (clamp100 ((window_s (r_window r) - (res - now)) / window_s (r_window r) * 100)))"
  by (cases "r_state r")
     (auto simp: window_from_reading_def Let_def classify_under_pace opt_num_def split: option.splits)

text \<open>
  C22: the Claude verdict fails closed. \<open>opus\<close> is available only when both the session and the
  weekly window are readable, live, short of 100 percent and strictly under the budget of the
  operator's curve at their elapsed fraction.
\<close>

theorem claude_available_safe:
  assumes "p_available (claude_from_payload iso_ts c payload now)"
  shows "\<exists>d. payload = JObj d \<and> (\<forall>w. \<exists>u res. r_state (claude_window_reading iso_ts d w now) = RActive
    \<and> r_used (claude_window_reading iso_ts d w now) = Some u
    \<and> r_resets_at (claude_window_reading iso_ts d w now) = Some res
    \<and> now - 60 \<le> res \<and> res \<le> now + window_s w + 60 \<and> 0 \<le> u \<and> u < 100
    \<and> u < pace_budget c (clamp100 ((window_s w - (res - now)) / window_s w * 100)))"
proof -
  define d where "d = (case payload of JObj d \<Rightarrow> d | _ \<Rightarrow> [])"
  let ?r = "\<lambda>w. claude_window_reading iso_ts d w now"
  have under: "w_status (window_from_reading c (?r w) None now) = UnderPace" for w
    using assms
    by (cases w) (auto simp: claude_from_payload_def claude_provider_def claude_readings_def d_def Let_def)
  have live: "\<exists>u res. r_state (?r w) = RActive \<and> r_used (?r w) = Some u \<and> r_resets_at (?r w) = Some res
    \<and> now - 60 \<le> res \<and> res \<le> now + window_s w + 60 \<and> 0 \<le> u \<and> u < 100
    \<and> u < pace_budget c (clamp100 ((window_s w - (res - now)) / window_s w * 100))" for w
  proof -
    note uw = window_from_reading_under [OF under, of w]
    obtain src rec where rd: "?r w = claude_reading iso_ts w src rec now"
      by (cases "claude_limits_record d w") (auto simp: claude_window_reading_def)
    obtain e u res where e: "usage_kind e = FValue u" and b: "now - 60 \<le> res" "res \<le> now + window_s w + 60"
      and eq: "?r w = \<lparr>r_window = w, r_state = RActive, r_used = Some u, r_resets_at = Some res,
        r_detail = None, r_source = src\<rparr>"
      using active_reading_resets [of iso_ts w src rec now] uw rd by auto
    have "0 \<le> u" using e by (rule usage_kind_value)
    moreover have "clamp100 u < 100" and
      "clamp100 u < pace_budget c (clamp100 ((window_s w - (res - now)) / window_s w * 100))"
      using uw eq by auto
    moreover from this have "u < 100" and "clamp100 u = u"
      using \<open>0 \<le> u\<close> by (auto simp: clamp100_def min_def max_def split: if_splits)
    ultimately show ?thesis using b eq by auto
  qed
  have "payload = JObj d"
  proof (rule ccontr)
    assume "payload \<noteq> JObj d"
    then have "d = []" by (auto simp: d_def split: json.splits)
    then have "r_state (?r Session) = RAbsent"
      by (simp add: claude_window_reading_def claude_limits_record_def claude_flat_record_def claude_reading_def)
    with live [of Session] show False by auto
  qed
  with live show ?thesis by blast
qed

theorem claude_available_safe_witness:
  "p_available (claude_from_payload sample_clock default_pace sample_payload 0)
   \<and> r_state (claude_window_reading sample_clock
       [(''limits'', JArr [JObj [(''group'', JStr ''session''), (''percent'', JNum (PInt 10)), (''resets_at'', JStr ''A'')]]),
        (''seven_day'', JObj [(''utilization'', JNum (PInt 20)), (''resets_at'', JStr ''B'')])] Weekly 0) = RActive"
proof -
  have h: "p_available (claude_from_payload sample_clock default_pace sample_payload 0)"
    by (simp add: claude_from_payload_def claude_provider_def claude_eval window_from_reading_def opt_num_def
        classify_window_def default_pace_def clamp100_def Let_def)
  from claude_available_safe [OF h] h show ?thesis by (auto simp: sample_payload_def)
qed

text \<open>
  a bootstrap request is eligible in exactly one situation: some window is idle, every window
  that is not idle is under pace, no reservation is recorded for the episode, and the curve gives a
  fresh window a budget. An eligible provider is itself unavailable, and what would be opened are
  exactly the idle windows.
\<close>

theorem bootstrap_eligible_iff:
  "let p = claude_provider c rs notes recorded now
   in (p_bootstrap p \<longleftrightarrow> (\<exists>r\<in>set rs. r_state r = RIdle)
         \<and> (\<forall>r\<in>set rs. r_state r \<noteq> RIdle \<longrightarrow>
              w_status (window_from_reading c r (notes (r_window r)) now) = UnderPace)
         \<and> \<not> recorded \<and> idle_init_block c = None)
      \<and> (p_bootstrap p \<longrightarrow> \<not> p_available p
          \<and> p_pending p = map r_window (filter (\<lambda>r. r_state r = RIdle) rs))"
proof -
  have idle: "map w_name (filter (\<lambda>w. w_status w = Idle)
      (map (\<lambda>r. window_from_reading c r (notes (r_window r)) now) rs))
    = map r_window (filter (\<lambda>r. r_state r = RIdle) rs)"
    by (induction rs) auto
  have ne: "map r_window (filter (\<lambda>r. r_state r = RIdle) rs) \<noteq> [] \<longleftrightarrow> (\<exists>r\<in>set rs. r_state r = RIdle)"
    by (auto simp: filter_empty_conv)
  have np: "w_status (window_from_reading c r nt now) \<noteq> UnderPace" if "r_state r = RIdle" for r nt
    using window_from_reading_under [of c r nt now] that by auto
  show ?thesis
    unfolding claude_provider_def Let_def idle ne
    using np by (auto; blast)
qed

theorem bootstrap_eligible_iff_witness:
  "p_bootstrap (claude_provider [(0, 10), (100, 100)]
     [\<lparr>r_window = Session, r_state = RIdle, r_used = None, r_resets_at = None, r_detail = None, r_source = []\<rparr>]
     Map.empty False 0)"
  using bootstrap_eligible_iff
    [of "[(0, 10), (100, 100)]"
        "[\<lparr>r_window = Session, r_state = RIdle, r_used = None, r_resets_at = None, r_detail = None, r_source = []\<rparr>]"
        Map.empty False 0]
  by (simp add: idle_init_block_def pace_zero_plateau_def Let_def)

text \<open>
  hard dominates soft. A block is reported as soft (the only kind \<open>--ignore-quota\<close> may override)
  exactly when every window of the provider was read and classified on the pace line and at least
  one is at or over its budget; one exhausted, idle, absent, malformed or unknown window makes it hard.
\<close>

theorem soft_block_iff:
  "fst (unavail_reason p) \<longleftrightarrow>
     list_all (\<lambda>w. w_status w \<in> {UnderPace, AtBudget, OverPace}) (p_windows p)
     \<and> list_ex (\<lambda>w. w_status w \<in> {AtBudget, OverPace}) (p_windows p)"
proof -
  have "w_status w \<notin> set hard_statuses \<longleftrightarrow> w_status w \<in> {UnderPace, AtBudget, OverPace}" for w
    by (cases "w_status w") (auto simp: hard_statuses_def)
  then have "filter (\<lambda>w. w_status w \<in> set hard_statuses) (p_windows p) = [] \<longleftrightarrow>
      (\<forall>w\<in>set (p_windows p). w_status w \<in> {UnderPace, AtBudget, OverPace})"
    by (auto simp: filter_empty_conv)
  moreover have "filter (\<lambda>w. w_status w \<in> set soft_statuses) (p_windows p) \<noteq> [] \<longleftrightarrow>
      (\<exists>w\<in>set (p_windows p). w_status w \<in> {AtBudget, OverPace})"
    by (auto simp: soft_statuses_def filter_empty_conv)
  ultimately show ?thesis by (auto simp: unavail_reason_def Let_def list_all_iff list_ex_iff)
qed

text \<open>
  the chosen agent is one the operator allowed and whose fresh verdict is available; Codex wins
  when both are; and when nothing is chosen, nothing that was read is available.
\<close>

theorem choose_agent_sound:
  "case choose_agent forced cx cl of
     (Some a, snap) \<Rightarrow> (forced = None \<or> forced = Some a) \<and> (\<exists>p. (a, p) \<in> set snap \<and> p_available p)
        \<and> (forced = None \<and> a = Claude \<longrightarrow> \<not> p_available (cx ()))
   | (None, snap) \<Rightarrow> \<forall>(n, p)\<in>set snap. \<not> p_available p"
  by (cases forced; cases "the forced") (auto simp: choose_agent_def Let_def)

theorem choose_agent_sound_witness:
  "case choose_agent None (\<lambda>_. failed_provider Codex NoCredentials None False)
      (\<lambda>_. (failed_provider Claude NoCredentials None False)\<lparr>p_available := True\<rparr>) of
     (Some a, snap) \<Rightarrow> a = Claude \<and> \<not> p_available (failed_provider Codex NoCredentials None False)
   | (None, snap) \<Rightarrow> False"
  using choose_agent_sound [of None "\<lambda>_. failed_provider Codex NoCredentials None False"
      "\<lambda>_. (failed_provider Claude NoCredentials None False)\<lparr>p_available := True\<rparr>"]
  by (simp add: choose_agent_def failed_provider_def)

section \<open>Codex\<close>

lemma codex_clocks_spec:
  "codex_clocks w = Some (lmt, ra) \<Longrightarrow> 0 < ra \<and> ra \<le> lmt \<and> (\<exists>d. w = JObj d
     \<and> finite_num (jget0 d ''limit_window_seconds'') = Some lmt
     \<and> finite_num (jget0 d ''reset_after_seconds'') = Some ra)"
  by (auto simp: codex_clocks_def split: json.splits option.splits if_splits)

lemma codex_window_under:
  "w_status (codex_window c w lr now) = UnderPace \<Longrightarrow> \<not> lr \<and> (\<exists>d u lmt ra. w = JObj d
     \<and> finite_num (jget0 d ''used_percent'') = Some u \<and> codex_clocks w = Some (lmt, ra)
     \<and> clamp100 u < 100 \<and> clamp100 u < pace_budget c (clamp100 ((lmt - ra) / lmt * 100)))"
  by (cases w) (auto simp: codex_window_def Let_def classify_under_pace jget0_def)

text \<open>
  the Codex verdict fails closed. It is available only with at least one applicable window, no
  reached limit, and for every window the payload does not state as null: an object with a finite
  usage figure, a clock strictly inside the window, and usage under the budget of the curve. The
  only response the reader cannot classify is a truthy \<open>rate_limit\<close> that is not an object.
\<close>

theorem codex_available_safe:
  "(codex_from_payload c payload now = Inl AttributeError \<longleftrightarrow>
      truthy (jget0 payload ''rate_limit'') \<and> (\<forall>d. jget0 payload ''rate_limit'' \<noteq> JObj d))
   \<and> (\<forall>p. codex_from_payload c payload now = Inr p \<and> p_available p \<longrightarrow>
        (\<exists>rl. jget0 payload ''rate_limit'' = JObj rl \<and> \<not> truthy (jget0 rl ''limit_reached'')
          \<and> (\<exists>key\<in>set window_keys. jget0 rl key \<noteq> JNull)
          \<and> (\<forall>key\<in>set window_keys. jget0 rl key \<noteq> JNull \<longrightarrow>
               (\<exists>d u lmt ra. jget0 rl key = JObj d \<and> finite_num (jget0 d ''used_percent'') = Some u
                  \<and> codex_clocks (jget0 rl key) = Some (lmt, ra) \<and> clamp100 u < 100
                  \<and> clamp100 u < pace_budget c (clamp100 ((lmt - ra) / lmt * 100))))))"
proof (intro conjI allI impI)
  show "codex_from_payload c payload now = Inl AttributeError \<longleftrightarrow>
      truthy (jget0 payload ''rate_limit'') \<and> (\<forall>d. jget0 payload ''rate_limit'' \<noteq> JObj d)"
    by (cases "jget0 payload ''rate_limit''") (simp_all add: codex_from_payload_def Let_def)
next
  fix p
  assume A: "codex_from_payload c payload now = Inr p \<and> p_available p"
  have "\<exists>rl. jget0 payload ''rate_limit'' = JObj rl"
    using A by (cases "jget0 payload ''rate_limit''")
      (auto simp: codex_from_payload_def Let_def window_keys_def split: if_splits)
  then obtain rl where rl: "jget0 payload ''rate_limit'' = JObj rl" by blast
  have lr: "\<not> truthy (jget0 rl ''limit_reached'')"
    and ne: "\<exists>key\<in>set window_keys. jget0 rl key \<noteq> JNull"
    and all: "\<forall>key\<in>set window_keys. jget0 rl key \<noteq> JNull \<longrightarrow>
      w_status (codex_window c (jget0 rl key) False now) = UnderPace"
    using A rl by (auto simp: codex_from_payload_def Let_def filter_empty_conv)
  from rl lr ne all codex_window_under [of c _ False now]
  show "\<exists>rl. jget0 payload ''rate_limit'' = JObj rl \<and> \<not> truthy (jget0 rl ''limit_reached'')
      \<and> (\<exists>key\<in>set window_keys. jget0 rl key \<noteq> JNull)
      \<and> (\<forall>key\<in>set window_keys. jget0 rl key \<noteq> JNull \<longrightarrow>
           (\<exists>d u lmt ra. jget0 rl key = JObj d \<and> finite_num (jget0 d ''used_percent'') = Some u
              \<and> codex_clocks (jget0 rl key) = Some (lmt, ra) \<and> clamp100 u < 100
              \<and> clamp100 u < pace_budget c (clamp100 ((lmt - ra) / lmt * 100))))"
    by (intro exI [of _ rl]) blast
qed

theorem codex_available_safe_witness:
  "case codex_from_payload [(0, 0), (100, 100)]
      [(''rate_limit'', JObj [(''primary_window'', JObj [(''limit_window_seconds'', JNum (PInt 604800)),
         (''reset_after_seconds'', JNum (PInt 302400)), (''used_percent'', JNum (PInt 20))])])] 0
   of Inr p \<Rightarrow> p_available p | Inl _ \<Rightarrow> False"
  using codex_available_safe [of "[(0, 0), (100, 100)]"
    "[(''rate_limit'', JObj [(''primary_window'', JObj [(''limit_window_seconds'', JNum (PInt 604800)),
       (''reset_after_seconds'', JNum (PInt 302400)), (''used_percent'', JNum (PInt 20))])])]" 0]
  by (simp add: codex_from_payload_def window_keys_def codex_window_def codex_clocks_def jget0_def
      classify_window_def clamp100_def Let_def)

end
