(* ===== verification/QuotaState.thy ===== *)
theory QuotaState
  imports ClaudeUsage
begin

text \<open>
  The state the pacer of \<open>tauceti_worker/quota.py\<close> keeps between reads: the usage endpoint's
  cooldowns (a process copy and one file per account), the cached payloads, and the shared bootstrap
  ledger that bounds the requests which open a reset window. A file is the JSON value it decodes to;
  an instant the code reads from the clock is an argument.
\<close>

section \<open>Cooldowns of a usage endpoint\<close>

definition rate_limit_recheck_max_s :: rat where "rate_limit_recheck_max_s = 15 * 60"
definition retry_after_max_s :: rat where "retry_after_max_s = 3600"

fun json_code :: "json \<Rightarrow> int option" where
  "json_code (JNum (PInt i)) = Some i"
| "json_code (JBool b) = Some (if b then 1 else 0)"
| "json_code _ = None"

definition cooldown_left :: "rat \<Rightarrow> json \<Rightarrow> rat \<times> int option" where
  "cooldown_left now record =
     (case record of
        JObj d \<Rightarrow>
          (case (finite_num (jget0 d ''until''), finite_num (jget0 d ''wait'')) of
             (Some until, Some wait) \<Rightarrow>
               if 0 < wait \<and> wait \<le> retry_after_max_s
               then (let left = min (until - now) wait
                     in if left > 0 then (left, json_code (jget0 d ''code'')) else (0, None))
               else (0, None)
           | _ \<Rightarrow> (0, None))
      | _ \<Rightarrow> (0, None))"

definition outlasts :: "rat \<Rightarrow> json \<Rightarrow> rat \<Rightarrow> bool" where
  "outlasts now record until \<longleftrightarrow> until \<le> now + fst (cooldown_left now record)"

text \<open>
  \<open>cd_memory\<close> is the module global \<open>_COOLDOWNS\<close> for one cache directory, \<open>cd_disk\<close> the
  \<open>ratelimit-*.json\<close> files in it, and \<open>cd_writable\<close> whether that directory can be written. Both
  are indexed by the provider and the account key; a missing entry is \<open>JNull\<close>.
\<close>

record cooldowns =
  cd_memory :: "pname \<times> string \<Rightarrow> json"
  cd_disk :: "pname \<times> string \<Rightarrow> json"
  cd_writable :: bool

definition cooldown :: "cooldowns \<Rightarrow> pname \<Rightarrow> string \<Rightarrow> rat \<Rightarrow> rat \<times> int option" where
  "cooldown st p key now =
     (let memory = cooldown_left now (cd_memory st (p, key));
          disk = cooldown_left now (cd_disk st (p, key))
      in if fst memory < fst disk then disk else memory)"

definition cooldown_wait :: "rat \<Rightarrow> int \<Rightarrow> rat option \<Rightarrow> rat option" where
  "cooldown_wait poll code retry_after =
     (let asked = (case retry_after of None \<Rightarrow> 0 | Some r \<Rightarrow> r)
      in if code = 401 then None
         else if code = 429 then Some (min (if asked = 0 then poll else asked) rate_limit_recheck_max_s)
         else if asked \<noteq> 0 then Some (min asked retry_after_max_s)
         else None)"

definition cooldown_record :: "rat \<Rightarrow> rat \<Rightarrow> int \<Rightarrow> json" where
  "cooldown_record now wait code =
     JObj [(''until'', JNum (PFloat (now + wait))), (''wait'', JNum (PFloat wait)),
           (''code'', JNum (PInt code))]"

definition start_cooldown ::
  "rat \<Rightarrow> cooldowns \<Rightarrow> pname \<Rightarrow> string \<Rightarrow> int \<Rightarrow> rat option \<Rightarrow> rat \<Rightarrow> cooldowns" where
  "start_cooldown poll st p key code retry_after now =
     (case cooldown_wait poll code retry_after of
        None \<Rightarrow> st
      | Some wait \<Rightarrow>
          if wait \<le> 0 then st
          else
            (let record = cooldown_record now wait code;
                 st1 = (if outlasts now (cd_memory st (p, key)) (now + wait) then st
                        else st\<lparr>cd_memory := (cd_memory st)((p, key) := record)\<rparr>)
             in if \<not> cd_writable st1 \<or> outlasts now (cd_disk st1 (p, key)) (now + wait) then st1
                else st1\<lparr>cd_disk := (cd_disk st1)((p, key) := record)\<rparr>))"

section \<open>Cached payloads\<close>

fun quota_ttl :: "pname \<Rightarrow> rat" where
  "quota_ttl Codex = 600"
| "quota_ttl Claude = 3600"

text \<open>\<open>isinstance(vu, (int, float)) and now >= vu\<close>.\<close>

fun reached :: "rat \<Rightarrow> json \<Rightarrow> bool" where
  "reached now (JNum (PInt i)) = (of_int i \<le> now)"
| "reached now (JNum (PFloat q)) = (q \<le> now)"
| "reached now (JNum PNegInf) = True"
| "reached now (JBool b) = ((if b then 1 else 0) \<le> now)"
| "reached now _ = False"

text \<open>
  The entry is the decoded cache file (\<open>JNull\<close> when there is none). The code calls \<open>d.get\<close> on any
  truthy value, so a non-empty file that is not an object raises.
\<close>

definition cached_entry :: "pname \<Rightarrow> json \<Rightarrow> json \<Rightarrow> rat \<Rightarrow> py_error + jdict option" where
  "cached_entry p file fp now =
     (if \<not> truthy file then Inr None
      else case file of
        JObj d \<Rightarrow>
          if jget0 d ''fp'' \<noteq> fp then Inr None
          else (case finite_num (jget0 d ''fetched_at'') of
                  None \<Rightarrow> Inr None
                | Some fetched \<Rightarrow>
                    if \<not> (0 \<le> now - fetched \<and> now - fetched \<le> quota_ttl p) then Inr None
                    else if reached now (jget0 d ''valid_until'') then Inr None
                    else Inr (Some d))
      | _ \<Rightarrow> Inl AttributeError)"

definition cached_claude ::
  "(string \<Rightarrow> rat option) \<Rightarrow> json \<Rightarrow> json \<Rightarrow> rat \<Rightarrow> py_error + (json \<times> rat) option" where
  "cached_claude iso_ts file fp now =
     ebind (cached_entry Claude file fp now)
       (\<lambda>entry. case entry of
          None \<Rightarrow> Inr None
        | Some d \<Rightarrow>
            (let payload = jget0 d ''payload''
             in case finite_num (jget0 d ''fetched_at'') of
                  None \<Rightarrow> Inr None
                | Some fetched \<Rightarrow>
                    if claude_payload_problem payload then Inr None
                    else (case claude_valid_until (claude_readings iso_ts payload now) of
                            None \<Rightarrow> Inr None
                          | Some vu \<Rightarrow> if vu \<le> now then Inr None else Inr (Some (payload, fetched)))))"

definition cached_codex :: "json \<Rightarrow> json \<Rightarrow> rat \<Rightarrow> py_error + (jdict \<times> rat) option" where
  "cached_codex file fp now =
     ebind (cached_entry Codex file fp now)
       (\<lambda>entry. case entry of
          None \<Rightarrow> Inr None
        | Some d \<Rightarrow>
            (case (jget0 d ''payload'', finite_num (jget0 d ''fetched_at'')) of
               (JObj payload, Some fetched) \<Rightarrow>
                 (case codex_valid_until payload fetched of
                    None \<Rightarrow> Inr None
                  | Some vu \<Rightarrow> if vu \<le> now then Inr None else Inr (Some (payload, fetched)))
             | _ \<Rightarrow> Inr None))"

definition store_raw :: "json \<Rightarrow> json \<Rightarrow> rat option \<Rightarrow> rat \<Rightarrow> json" where
  "store_raw payload fp valid_until fetched =
     JObj ([(''fetched_at'', JNum (PFloat fetched)), (''fp'', fp), (''payload'', payload)]
           @ (case valid_until of None \<Rightarrow> [] | Some v \<Rightarrow> [(''valid_until'', JNum (PFloat v))]))"

definition cooling_provider :: "pname \<Rightarrow> rat \<Rightarrow> int option \<Rightarrow> provider" where
  "cooling_provider p left code =
     failed_provider p
       (CoolingDown (case code of None \<Rightarrow> 429 | Some c \<Rightarrow> if c = 0 then 429 else c)) (Some left) (code = Some 429)"

section \<open>The bootstrap ledger\<close>

text \<open>
  A record is what this code writes: an in-progress reservation or a settled outcome, each with the
  whole second it was written at. An episode is the account, the window and the index of the
  window-length period of the clock.
\<close>

datatype brecord = InProgress int | Settled int bool string

type_synonym ekey = "string \<times> wname \<times> int"
type_synonym bledger = "(ekey \<times> brecord) list"

definition bootstrap_timeout_s :: rat where "bootstrap_timeout_s = 120"
definition bootstrap_stale_margin_s :: rat where "bootstrap_stale_margin_s = 300"
definition bootstrap_retry_s :: rat where "bootstrap_retry_s = 3600"

definition episode_key :: "string \<Rightarrow> wname \<Rightarrow> rat \<Rightarrow> ekey" where
  "episode_key account w now = (account, w, \<lfloor>now / window_s w\<rfloor>)"

fun record_live :: "rat \<Rightarrow> brecord \<Rightarrow> bool" where
  "record_live now (InProgress stamp) \<longleftrightarrow> now - of_int stamp < bootstrap_timeout_s + bootstrap_stale_margin_s"
| "record_live now (Settled stamp ok det) \<longleftrightarrow> now - of_int stamp < bootstrap_retry_s"

definition read_bootstrap_ledger :: "rat \<Rightarrow> bledger \<Rightarrow> bledger" where
  "read_bootstrap_ledger now l = filter (\<lambda>(k, r). record_live now r) l"

fun refusal :: "brecord \<Rightarrow> detail" where
  "refusal (InProgress stamp) = BootstrapInProgress"
| "refusal (Settled stamp True det) = BootstrapAttempted"
| "refusal (Settled stamp False det) = BootstrapFailed (if det = [] then ''unknown error'' else det)"

fun first_live :: "bledger \<Rightarrow> ekey list \<Rightarrow> brecord option" where
  "first_live live [] = None"
| "first_live live (k # ks) = (case map_of live k of Some r \<Rightarrow> Some r | None \<Rightarrow> first_live live ks)"

text \<open>
  \<open>lock_ok\<close>: the lock could be taken; \<open>write_error\<close>: the text of the \<open>OSError\<close> of the write, if any.
  The result is \<open>None\<close> when the reservation is held, else why it is not.
\<close>

definition reserve_bootstrap ::
  "bool \<Rightarrow> string option \<Rightarrow> rat \<Rightarrow> ekey list \<Rightarrow> bledger \<Rightarrow> detail option \<times> bledger" where
  "reserve_bootstrap lock_ok write_error now keys l =
     (if \<not> lock_ok then (Some ReservationNoLock, l)
      else
        (let live = read_bootstrap_ledger now l
         in case first_live live keys of
              Some r \<Rightarrow> (Some (refusal r), l)
            | None \<Rightarrow>
                (case write_error of
                   Some e \<Rightarrow> (Some (ReservationNotRecorded e), l)
                 | None \<Rightarrow> (None, fold (\<lambda>k. dict_set k (InProgress \<lfloor>now\<rfloor>)) keys live))))"

definition settle_bootstrap ::
  "bool \<Rightarrow> bool \<Rightarrow> rat \<Rightarrow> ekey list \<Rightarrow> bool \<Rightarrow> string \<Rightarrow> bledger \<Rightarrow> bledger" where
  "settle_bootstrap lock_ok write_ok now keys ok det l =
     (if \<not> lock_ok \<or> \<not> write_ok then l
      else fold (\<lambda>k. dict_set k (Settled \<lfloor>now\<rfloor> ok det)) keys (read_bootstrap_ledger now l))"

text \<open>\<open>_idle_notes\<close>: what to say about each idle window, and whether a live record covers one.\<close>

definition idle_note :: "curve \<Rightarrow> string \<Rightarrow> rat \<Rightarrow> bledger \<Rightarrow> reading \<Rightarrow> detail option \<times> bool" where
  "idle_note curve account now live r =
     (if r_state r \<noteq> RIdle then (None, False)
      else case map_of live (episode_key account (r_window r) now) of
             None \<Rightarrow> (Some (idle_phrase curve r), False)
           | Some b \<Rightarrow> (Some (refusal b), True))"

definition idle_notes ::
  "curve \<Rightarrow> string \<Rightarrow> rat \<Rightarrow> bledger \<Rightarrow> reading list \<Rightarrow> (wname \<rightharpoonup> detail) \<times> bool" where
  "idle_notes curve account now l rs =
     (let live = read_bootstrap_ledger now l
      in (\<lambda>w. case filter (\<lambda>r. r_window r = w) rs of
                [] \<Rightarrow> None | r # _ \<Rightarrow> fst (idle_note curve account now live r),
          \<exists>r\<in>set rs. snd (idle_note curve account now live r)))"

section \<open>One read of the Claude endpoint\<close>

record qstate =
  q_cache :: "pname \<Rightarrow> json"
  q_cool :: cooldowns
  q_ledger :: bledger

text \<open>What \<open>_http_get_json\<close> gives: an exception, or the status, the body and the Retry-After.\<close>

datatype fetched = FetchFail string | Response int json "rat option"

definition from_cached_claude ::
  "(string \<Rightarrow> rat option) \<Rightarrow> curve \<Rightarrow> string \<Rightarrow> rat \<Rightarrow> bledger \<Rightarrow> json \<times> rat \<Rightarrow> provider \<times> reading list" where
  "from_cached_claude iso_ts curve account now l cached =
     (let (payload, fetch_time) = cached;
          readings = claude_readings iso_ts payload fetch_time;
          (notes, recorded) = idle_notes curve account now l readings
      in (claude_provider curve readings notes recorded fetch_time, readings))"

text \<open>
  \<open>_claude_pass\<close> up to the request: \<open>Inr (Inl v)\<close> is an answer that needs no request,
  \<open>Inr (Inr ())\<close> means the endpoint is asked.
\<close>

definition claude_before_fetch ::
  "(string \<Rightarrow> rat option) \<Rightarrow> curve \<Rightarrow> json \<Rightarrow> bool \<Rightarrow> bool \<Rightarrow> string \<Rightarrow> rat \<Rightarrow> qstate
     \<Rightarrow> py_error + (provider \<times> reading list option + unit)" where
  "claude_before_fetch iso_ts curve fp has_token refresh account now st =
     ebind (cached_claude iso_ts (q_cache st Claude) fp now)
       (\<lambda>cached.
          (let (left, cooled_by) = cooldown (q_cool st) Claude account now
           in case (if left \<noteq> 0 \<or> \<not> refresh then cached else None) of
                Some c \<Rightarrow>
                  (let (prov, readings) = from_cached_claude iso_ts curve account now (q_ledger st) c
                   in Inr (Inl (prov\<lparr>p_limited := (cooled_by = Some 429)\<rparr>, Some readings)))
              | None \<Rightarrow>
                  if left \<noteq> 0 then Inr (Inl (cooling_provider Claude left cooled_by, None))
                  else if \<not> has_token then Inr (Inl (failed_provider Claude NoAccessToken None False, None))
                  else Inr (Inr ())))"

definition http_error :: "int \<Rightarrow> perror" where
  "http_error code = (if code = 401 then UsageRejected else if code = 200 then UsageEmpty else UsageHttp code)"

definition claude_after_fetch ::
  "(string \<Rightarrow> rat option) \<Rightarrow> curve \<Rightarrow> rat \<Rightarrow> json \<Rightarrow> string \<Rightarrow> rat \<Rightarrow> fetched \<Rightarrow> qstate
     \<Rightarrow> py_error + (provider \<times> reading list option \<times> qstate)" where
  "claude_after_fetch iso_ts curve poll fp account now response st =
     (case response of
        FetchFail e \<Rightarrow>
          ebind (cached_claude iso_ts (q_cache st Claude) fp now)
            (\<lambda>still. case still of
               Some c \<Rightarrow> (let (prov, rs) = from_cached_claude iso_ts curve account now (q_ledger st) c
                          in Inr (prov, Some rs, st))
             | None \<Rightarrow> Inr (failed_provider Claude (FetchFailed e) None False, None, st))
      | Response code payload retry_after \<Rightarrow>
          if code \<noteq> 200 \<or> \<not> truthy payload then
            (let st' = st\<lparr>q_cool := start_cooldown poll (q_cool st) Claude account code retry_after now\<rparr>
             in ebind (if code \<noteq> 401 then cached_claude iso_ts (q_cache st Claude) fp now else Inr None)
                  (\<lambda>still. case still of
                     Some c \<Rightarrow> (let (prov, rs) = from_cached_claude iso_ts curve account now (q_ledger st) c
                                in Inr (prov\<lparr>p_limited := (code = 429)\<rparr>, Some rs, st'))
                   | None \<Rightarrow> Inr (failed_provider Claude (http_error code) retry_after (code = 429), None, st')))
          else if claude_payload_problem payload then
            Inr (failed_provider Claude NotJsonObject retry_after False, None, st)
          else
            (let readings = claude_readings iso_ts payload now;
                 st' = (case claude_valid_until readings of
                          None \<Rightarrow> st
                        | Some vu \<Rightarrow> st\<lparr>q_cache := (q_cache st)(Claude := store_raw payload fp (Some vu) now)\<rparr>);
                 (notes, recorded) = idle_notes curve account now (q_ledger st) readings
             in Inr (claude_provider curve readings notes recorded now, Some readings, st')))"

text \<open>\<open>now\<close> is the instant of the call, \<open>observed\<close> the one right after the response.\<close>

definition claude_pass ::
  "(string \<Rightarrow> rat option) \<Rightarrow> curve \<Rightarrow> rat \<Rightarrow> json \<Rightarrow> bool \<Rightarrow> bool \<Rightarrow> string \<Rightarrow> rat \<Rightarrow> rat \<Rightarrow> fetched \<Rightarrow> qstate
     \<Rightarrow> py_error + (provider \<times> reading list option \<times> qstate)" where
  "claude_pass iso_ts curve poll fp has_token refresh account now observed response st =
     ebind (claude_before_fetch iso_ts curve fp has_token refresh account now st)
       (\<lambda>v. case v of
          Inl (prov, rs) \<Rightarrow> Inr (prov, rs, st)
        | Inr _ \<Rightarrow> claude_after_fetch iso_ts curve poll fp account observed response st)"

section \<open>One read of the Codex endpoint\<close>

text \<open>\<open>_codex_from_payload\<close> of a cache entry or a response, with the rate-limit flag replaced.\<close>

definition limited_codex :: "curve \<Rightarrow> bool \<Rightarrow> jdict \<times> rat \<Rightarrow> py_error + provider" where
  "limited_codex curve limited cached =
     ebind (codex_from_payload curve (fst cached) (snd cached)) (\<lambda>p. Inr (p\<lparr>p_limited := limited\<rparr>))"

definition codex_after_fetch ::
  "curve \<Rightarrow> rat \<Rightarrow> json \<Rightarrow> string \<Rightarrow> rat \<Rightarrow> rat \<Rightarrow> fetched \<Rightarrow> qstate \<Rightarrow> py_error + (provider \<times> qstate)" where
  "codex_after_fetch curve poll fp account observed now response st =
     (case response of
        FetchFail e \<Rightarrow>
          ebind (cached_codex (q_cache st Codex) fp now)
            (\<lambda>still. case still of
               Some c \<Rightarrow> ebind (codex_from_payload curve (fst c) (snd c)) (\<lambda>p. Inr (p, st))
             | None \<Rightarrow> Inr (failed_provider Codex (FetchFailed e) None False, st))
      | Response code payload retry_after \<Rightarrow>
          if code \<noteq> 200 \<or> \<not> truthy payload then
            (let st' = st\<lparr>q_cool := start_cooldown poll (q_cool st) Codex account code retry_after now\<rparr>
             in ebind (if code \<noteq> 401 then cached_codex (q_cache st Codex) fp now else Inr None)
                  (\<lambda>still. case still of
                     Some c \<Rightarrow> ebind (limited_codex curve (code = 429) c) (\<lambda>p. Inr (p, st'))
                   | None \<Rightarrow>
                       Inr (failed_provider Codex (if code = 401 then UsageRejected else UsageHttp code)
                              retry_after (code = 429), st')))
          else case payload of
            JObj d \<Rightarrow>
              (let st' = (case codex_valid_until d observed of
                            None \<Rightarrow> st
                          | Some vu \<Rightarrow> st\<lparr>q_cache := (q_cache st)(Codex := store_raw payload fp (Some vu) observed)\<rparr>)
               in ebind (codex_from_payload curve d observed) (\<lambda>p. Inr (p, st')))
          | _ \<Rightarrow> Inl AttributeError)"

text \<open>
  \<open>codex()\<close>: \<open>store\<close> is \<open>_codex_credentials_store\<close>, \<open>creds\<close> whether \<open>auth.json\<close> was read. Here the
  response is dated \<open>observed\<close>, before the request, and \<open>after\<close> is the instant after it.
\<close>

definition codex_pass ::
  "curve \<Rightarrow> rat \<Rightarrow> string option \<Rightarrow> bool \<Rightarrow> json \<Rightarrow> bool \<Rightarrow> bool \<Rightarrow> string \<Rightarrow> rat \<Rightarrow> rat \<Rightarrow> fetched \<Rightarrow> qstate
     \<Rightarrow> py_error + (provider \<times> qstate)" where
  "codex_pass curve poll store creds fp has_token refresh account now after response st =
     (case store of
        Some why \<Rightarrow> Inr (failed_provider Codex (StoreNotFile why) None False, st)
      | None \<Rightarrow>
          if \<not> creds then Inr (failed_provider Codex NoCredentials None False, st)
          else ebind (cached_codex (q_cache st Codex) fp now)
            (\<lambda>cached.
               (let (left, cooled_by) = cooldown (q_cool st) Codex account now
                in case (if left \<noteq> 0 \<or> \<not> refresh then cached else None) of
                     Some c \<Rightarrow> ebind (limited_codex curve (cooled_by = Some 429) c) (\<lambda>p. Inr (p, st))
                   | None \<Rightarrow>
                       if left \<noteq> 0 then Inr (cooling_provider Codex left cooled_by, st)
                       else if \<not> has_token then Inr (failed_provider Codex NoAccessToken None False, st)
                       else codex_after_fetch curve poll fp account now after response st)))"

section \<open>The launch stage\<close>

text \<open>
  \<open>authorize_claude_launch\<close>: \<open>read\<close> is \<open>claude(renew=True)\<close> at an instant; \<open>outcome\<close> is what the
  bootstrap request gives if it is made. The second component says whether it was made.
\<close>

definition authorize_claude_launch ::
  "(rat \<Rightarrow> qstate \<Rightarrow> provider \<times> qstate) \<Rightarrow> bool \<Rightarrow> string option \<Rightarrow> bool \<Rightarrow> string \<Rightarrow> rat \<Rightarrow> rat \<Rightarrow> bool \<times> string
     \<Rightarrow> qstate \<Rightarrow> provider \<times> bool \<times> qstate" where
  "authorize_claude_launch read lock_ok write_error settle_ok account now after outcome st =
     (let (prov, st1) = read now st
      in if p_available prov \<or> \<not> p_bootstrap prov then (prov, False, st1)
         else
           (let keys = map (\<lambda>w. episode_key account w now) (p_pending prov);
                (why, l) = reserve_bootstrap lock_ok write_error now keys (q_ledger st1)
            in case why of
                 Some d \<Rightarrow> (reannotate prov (p_pending prov) d, False, st1\<lparr>q_ledger := l\<rparr>)
               | None \<Rightarrow>
                   (let (ok, det) = outcome;
                        st2 = st1\<lparr>q_ledger := settle_bootstrap lock_ok settle_ok after keys ok det l,
                                  q_cache := (q_cache st1)(Claude := JNull)\<rparr>;
                        (prov', st3) = read after st2
                    in (prov', True, st3))))"

end
