(* ===== verification/QuotaLaws.thy ===== *)
theory QuotaLaws
  imports QuotaState ClaudeLaws
begin

text \<open>
  The guarantees of the pacer's state: a cooldown is never shortened and silences the endpoint, a
  cached payload is only served for its account and only repeats the verdict of its fetch time, and
  the bootstrap ledger bounds the requests of all workers together, crashes included.
\<close>

section \<open>Cooldowns\<close>

lemma cooldown_left_nonneg [simp]: "0 \<le> fst (cooldown_left now r)"
  by (auto simp: cooldown_left_def Let_def min_def split: json.splits option.splits)

lemma cooldown_left_JNull [simp]: "cooldown_left now JNull = (0, None)"
  by (simp add: cooldown_left_def)

lemma cooldown_left_record:
  "0 < wait \<Longrightarrow> wait \<le> 3600 \<Longrightarrow> cooldown_left now (cooldown_record now wait code) = (wait, Some code)"
  by (simp add: cooldown_left_def cooldown_record_def jget0_def retry_after_max_s_def)

lemma cooldown_wait_le: "cooldown_wait poll code ra = Some w \<Longrightarrow> w \<le> 3600"
  by (auto simp: cooldown_wait_def Let_def rate_limit_recheck_max_s_def retry_after_max_s_def
      split: if_splits)

lemma start_cooldown_memory:
  "fst (cooldown_left now (cd_memory (start_cooldown poll st p key code ra now) (p', key')))
     = (case cooldown_wait poll code ra of
          None \<Rightarrow> fst (cooldown_left now (cd_memory st (p', key')))
        | Some w \<Rightarrow> if 0 < w \<and> (p', key') = (p, key)
                    then max w (fst (cooldown_left now (cd_memory st (p', key'))))
                    else fst (cooldown_left now (cd_memory st (p', key'))))"
  by (auto simp: start_cooldown_def Let_def outlasts_def cooldown_left_record cooldown_wait_le max_def
      split: option.splits)

lemma start_cooldown_disk:
  "fst (cooldown_left now (cd_disk st (p', key')))
     \<le> fst (cooldown_left now (cd_disk (start_cooldown poll st p key code ra now) (p', key')))"
  "fst (cooldown_left now (cd_disk (start_cooldown poll st p key code ra now) (p', key')))
     \<le> max (fst (cooldown_left now (cd_disk st (p', key'))))
           (case cooldown_wait poll code ra of None \<Rightarrow> 0 | Some w \<Rightarrow> w)"
  by (auto simp: start_cooldown_def Let_def outlasts_def cooldown_left_record cooldown_wait_le
      split: option.splits)

lemma fst_cooldown: "fst (cooldown st p key now)
    = max (fst (cooldown_left now (cd_memory st (p, key)))) (fst (cooldown_left now (cd_disk st (p, key))))"
  by (simp add: cooldown_def Let_def max_def)

text \<open>
  a new cooldown never shortens one that is running, on any account; after a rejected
  credential (401) nothing changes; and after a 429 the account is held off for at least one poll or
  the requested time, yet never beyond the fifteen-minute recheck unless it was already.
\<close>

theorem start_cooldown_bounds:
  fixes st :: cooldowns and p q :: pname and key k :: string and code :: int
    and ra :: "rat option" and now poll :: rat
  assumes "0 < poll"
  defines "st' \<equiv> start_cooldown poll st p key code ra now"
  shows "fst (cooldown st q k now) \<le> fst (cooldown st' q k now)
    \<and> (code = 401 \<longrightarrow> st' = st)
    \<and> (code = 429 \<and> (\<forall>r. ra = Some r \<longrightarrow> 0 \<le> r) \<longrightarrow>
        0 < fst (cooldown st' p key now)
        \<and> fst (cooldown st' p key now) \<le> max 900 (fst (cooldown st p key now)))"
proof (intro conjI impI)
  show "fst (cooldown st q k now) \<le> fst (cooldown st' q k now)"
    unfolding fst_cooldown st'_def start_cooldown_memory
    using start_cooldown_disk(1) [of now st q k poll p key code ra]
    by (auto simp: max_def split: option.splits)
  show "code = 401 \<Longrightarrow> st' = st"
    by (simp add: st'_def start_cooldown_def cooldown_wait_def Let_def)
  assume A: "code = 429 \<and> (\<forall>r. ra = Some r \<longrightarrow> 0 \<le> r)"
  have "\<exists>w. cooldown_wait poll code ra = Some w \<and> 0 < w \<and> w \<le> 900"
    using A assms(1)
    by (cases ra) (auto simp: cooldown_wait_def Let_def rate_limit_recheck_max_s_def min_def less_le)
  then obtain w where w: "cooldown_wait poll code ra = Some w" "0 < w" "w \<le> 900" by blast
  show "0 < fst (cooldown st' p key now)"
    unfolding fst_cooldown st'_def start_cooldown_memory using w by (simp add: less_max_iff_disj)
  show "fst (cooldown st' p key now) \<le> max 900 (fst (cooldown st p key now))"
    unfolding fst_cooldown st'_def start_cooldown_memory
    using w start_cooldown_disk(2) [of now poll st p key code ra p key] by (auto simp: max_def split: if_splits)
qed

definition empty_cooldowns :: cooldowns where
  "empty_cooldowns = \<lparr>cd_memory = \<lambda>_. JNull, cd_disk = \<lambda>_. JNull, cd_writable = True\<rparr>"

lemma cooldown_empty [simp]: "cooldown empty_cooldowns p k now = (0, None)"
  by (simp add: cooldown_def empty_cooldowns_def)

theorem start_cooldown_bounds_witness:
  "0 < fst (cooldown (start_cooldown 300 empty_cooldowns Claude ''a'' 429 (Some 3600) 0) Claude ''a'' 0)
   \<and> fst (cooldown (start_cooldown 300 empty_cooldowns Claude ''a'' 429 (Some 3600) 0) Claude ''a'' 0) \<le> 900"
  using start_cooldown_bounds [where poll = 300 and st = empty_cooldowns and p = Claude and q = Claude
      and key = "''a''" and k = "''a''" and code = 429 and ra = "Some 3600" and now = 0]
  by simp

section \<open>Cached readings\<close>

lemma cached_entry_fresh:
  "cached_entry p file fp now = Inr (Some d) \<Longrightarrow> file = JObj d \<and> jget0 d ''fp'' = fp
     \<and> (\<exists>t. finite_num (jget0 d ''fetched_at'') = Some t \<and> t \<le> now \<and> now \<le> t + quota_ttl p)"
  by (auto simp: cached_entry_def split: if_splits json.splits option.splits)

lemma cached_claude_fresh:
  assumes "cached_claude iso_ts file fp now = Inr (Some (payload, t))"
  shows "\<exists>d. file = JObj d \<and> jget0 d ''fp'' = fp \<and> jget0 d ''payload'' = payload
    \<and> finite_num (jget0 d ''fetched_at'') = Some t \<and> t \<le> now \<and> now \<le> t + 3600
    \<and> (\<exists>vu. claude_valid_until (claude_readings iso_ts payload now) = Some vu \<and> now < vu)"
  using assms unfolding cached_claude_def
  by (auto dest!: cached_entry_fresh simp: Let_def elim!: ebind_Inr_E
      split: option.splits if_splits)

lemma claude_provider_availability:
  "p_available (claude_provider c rs notes recorded t) = p_available (claude_provider c rs Map.empty False t)"
proof -
  have "w_status (window_from_reading c r (notes (r_window r)) t)
      = w_status (window_from_reading c r None t)" for r
    by (cases "r_state r") (auto simp: window_from_reading_def Let_def split: option.splits)
  then show ?thesis by (auto simp: claude_provider_def Let_def)
qed

text \<open>
  a cached response is served only to the credential it was fetched under, at most an hour old
  and before the earliest reset it describes, and the availability it gives is the one it supported
  when it was fetched: time alone never turns a cached refusal into a permission.
\<close>

theorem cached_verdict_as_of_fetch:
  assumes "claude_before_fetch iso_ts c fp tok refresh account now st = Inr (Inl (prov, Some rs))"
  shows "\<exists>d payload t. q_cache st Claude = JObj d \<and> jget0 d ''fp'' = fp \<and> jget0 d ''payload'' = payload
    \<and> finite_num (jget0 d ''fetched_at'') = Some t
    \<and> t \<le> now \<and> now \<le> t + 3600 \<and> (\<forall>r\<in>set (claude_readings iso_ts payload now). r_state r = RActive)
    \<and> rs = claude_readings iso_ts payload t
    \<and> p_available prov = p_available (claude_from_payload iso_ts c payload t)"
proof -
  obtain payload t where cc: "cached_claude iso_ts (q_cache st Claude) fp now = Inr (Some (payload, t))"
    and rs: "rs = claude_readings iso_ts payload t"
    and av: "\<exists>notes rec. p_available prov = p_available (claude_provider c rs notes rec t)"
    using assms
    by (force simp: claude_before_fetch_def from_cached_claude_def Let_def elim!: ebind_Inr_E
        split: prod.splits option.splits if_splits)
  from cached_claude_fresh [OF cc] obtain d vu where
    "q_cache st Claude = JObj d" "jget0 d ''fp'' = fp" "jget0 d ''payload'' = payload"
    "finite_num (jget0 d ''fetched_at'') = Some t" "t \<le> now"
    "now \<le> t + 3600" and vu: "claude_valid_until (claude_readings iso_ts payload now) = Some vu"
    by blast
  moreover have "p_available prov = p_available (claude_from_payload iso_ts c payload t)"
    using av rs claude_provider_availability [of c rs] by (auto simp: claude_from_payload_def)
  moreover have "\<forall>r\<in>set (claude_readings iso_ts payload now). r_state r = RActive"
    using valid_until_all_active [OF vu] by blast
  ultimately show ?thesis
    using rs by (intro exI [of _ d] exI [of _ payload] exI [of _ t]) auto
qed

theorem cached_verdict_as_of_fetch_witness:
  "let st = \<lparr>q_cache = \<lambda>_. store_raw sample_payload (JStr ''f'') None 10, q_cool = empty_cooldowns, q_ledger = []\<rparr>
   in \<exists>prov rs. claude_before_fetch sample_clock default_pace (JStr ''f'') True False ''a'' 100 st = Inr (Inl (prov, Some rs))
        \<and> rs = claude_readings sample_clock sample_payload 10
        \<and> p_available prov = p_available (claude_from_payload sample_clock default_pace sample_payload 10)"
proof -
  let ?st = "\<lparr>q_cache = \<lambda>_. store_raw sample_payload (JStr ''f'') None 10, q_cool = empty_cooldowns, q_ledger = []\<rparr>"
  have vu: "claude_valid_until (claude_readings sample_clock sample_payload 100) = Some 9000"
    by (simp add: claude_valid_until_def claude_eval Let_def)
  have cached: "cached_claude sample_clock (q_cache ?st Claude) (JStr ''f'') 100 = Inr (Some (sample_payload, 10))"
    using vu by (simp add: cached_claude_def cached_entry_def store_raw_def jget0_def sample_payload_def
        claude_payload_problem_def)
  obtain prov rs where h:
    "claude_before_fetch sample_clock default_pace (JStr ''f'') True False ''a'' 100 ?st = Inr (Inl (prov, Some rs))"
    using cached
    by (cases "idle_notes default_pace ''a'' 100 [] (claude_readings sample_clock sample_payload 10)")
       (auto simp: claude_before_fetch_def from_cached_claude_def Let_def)
  from cached_verdict_as_of_fetch [OF h] h show ?thesis
    by (auto simp: store_raw_def jget0_def Let_def)
qed

section \<open>The bootstrap ledger as a state machine\<close>

text \<open>
  Workers that share one credential source act in any order: time passes, a worker takes or is
  refused a reservation, a worker settles any keys with any outcome (or its process dies and never
  does). \<open>b_log\<close> records every reservation that was granted, newest first.
\<close>

record bstate =
  b_now :: rat
  b_ledger :: bledger
  b_log :: "(ekey \<times> rat) list"

inductive bstep :: "bstate \<Rightarrow> bstate \<Rightarrow> bool" where
  tick: "b_now s \<le> t \<Longrightarrow> bstep s (s\<lparr>b_now := t\<rparr>)"
| granted: "distinct keys \<Longrightarrow> reserve_bootstrap lk we (b_now s) keys (b_ledger s) = (None, l) \<Longrightarrow>
    bstep s (s\<lparr>b_ledger := l, b_log := map (\<lambda>k. (k, b_now s)) keys @ b_log s\<rparr>)"
| refused: "reserve_bootstrap lk we (b_now s) keys (b_ledger s) = (Some d, l) \<Longrightarrow>
    bstep s (s\<lparr>b_ledger := l\<rparr>)"
| settled: "bstep s (s\<lparr>b_ledger := settle_bootstrap lk wok (b_now s) keys ok det (b_ledger s)\<rparr>)"

inductive breachable :: "bstate \<Rightarrow> bool" where
  start: "breachable \<lparr>b_now = t, b_ledger = l, b_log = []\<rparr>"
| step: "breachable s \<Longrightarrow> bstep s s' \<Longrightarrow> breachable s'"

inductive_cases bstep_E: "bstep s s'"

fun stamp :: "brecord \<Rightarrow> int" where
  "stamp (InProgress t) = t"
| "stamp (Settled t ok det) = t"

lemma record_live_recent: "\<lfloor>t\<rfloor> \<le> stamp r \<Longrightarrow> now - of_int \<lfloor>t\<rfloor> < 420 \<Longrightarrow> record_live now r"
  by (cases r) (auto simp: bootstrap_timeout_s_def bootstrap_stale_margin_s_def bootstrap_retry_s_def)

lemma map_of_live:
  "map_of l k = Some r \<Longrightarrow> record_live now r \<Longrightarrow> map_of (read_bootstrap_ledger now l) k = Some r"
  by (induction l) (auto simp: read_bootstrap_ledger_def split: if_splits)

lemma map_of_fold_dict_set:
  "map_of (fold (\<lambda>k. dict_set k v) ks l) k = (if k \<in> set ks then Some v else map_of l k)"
  by (induction ks arbitrary: l) auto

lemma first_live_None: "first_live live ks = None \<longleftrightarrow> (\<forall>k\<in>set ks. map_of live k = None)"
  by (induction ks) (auto split: option.splits)

lemma reserve_granted:
  "reserve_bootstrap lk we now ks l = (None, l') \<Longrightarrow>
     (\<forall>k\<in>set ks. map_of (read_bootstrap_ledger now l) k = None)
     \<and> l' = fold (\<lambda>k. dict_set k (InProgress \<lfloor>now\<rfloor>)) ks (read_bootstrap_ledger now l)"
  by (auto simp: reserve_bootstrap_def Let_def first_live_None split: if_splits option.splits)

lemma reserve_refused: "reserve_bootstrap lk we now ks l = (Some d, l') \<Longrightarrow> l' = l"
  by (auto simp: reserve_bootstrap_def Let_def split: if_splits option.splits)

definition held_record :: "bstate \<Rightarrow> ekey \<Rightarrow> rat \<Rightarrow> bool" where
  "held_record s k t \<longleftrightarrow> t \<le> b_now s
     \<and> (b_now s - of_int \<lfloor>t\<rfloor> < 420 \<longrightarrow> (\<exists>r. map_of (b_ledger s) k = Some r \<and> \<lfloor>t\<rfloor> \<le> stamp r))"

fun spaced :: "(ekey \<times> rat) list \<Rightarrow> bool" where
  "spaced [] = True"
| "spaced ((k, t) # past) = ((\<forall>t'. (k, t') \<in> set past \<longrightarrow> 420 \<le> t - of_int \<lfloor>t'\<rfloor>) \<and> spaced past)"

definition binv :: "bstate \<Rightarrow> bool" where
  "binv s \<longleftrightarrow> spaced (b_log s) \<and> (\<forall>(k, t)\<in>set (b_log s). held_record s k t)"

lemma held_record_live:
  "held_record s k t \<Longrightarrow> b_now s - of_int \<lfloor>t\<rfloor> < 420 \<Longrightarrow>
     \<exists>r. map_of (read_bootstrap_ledger (b_now s) (b_ledger s)) k = Some r \<and> \<lfloor>t\<rfloor> \<le> stamp r"
  by (auto simp: held_record_def intro: map_of_live record_live_recent)

lemma held_record_rewrite:
  assumes "held_record s k t" and "stamp v = \<lfloor>b_now s\<rfloor>"
    and "l = fold (\<lambda>k. dict_set k v) ks (read_bootstrap_ledger (b_now s) (b_ledger s))"
  shows "held_record (s\<lparr>b_ledger := l\<rparr>) k t"
  using assms held_record_live [OF assms(1)]
  by (auto simp: held_record_def map_of_fold_dict_set floor_mono)

lemma spaced_append:
  "distinct ks \<Longrightarrow> spaced past \<Longrightarrow> (\<forall>k\<in>set ks. \<forall>t'. (k, t') \<in> set past \<longrightarrow> 420 \<le> t - of_int \<lfloor>t'\<rfloor>)
    \<Longrightarrow> spaced (map (\<lambda>k. (k, t)) ks @ past)"
  by (induction ks) auto

lemma binv_step: "bstep s s' \<Longrightarrow> binv s \<Longrightarrow> binv s'"
proof (induction rule: bstep.induct)
  case (tick s t)
  then show ?case by (force simp: binv_def held_record_def)
next
  case (granted keys lk we s l)
  from reserve_granted [OF granted.hyps(2)]
  have free: "\<forall>k\<in>set keys. map_of (read_bootstrap_ledger (b_now s) (b_ledger s)) k = None"
    and l: "l = fold (\<lambda>k. dict_set k (InProgress \<lfloor>b_now s\<rfloor>)) keys (read_bootstrap_ledger (b_now s) (b_ledger s))"
    by auto
  have old: "held_record (s\<lparr>b_ledger := l\<rparr>) k t" if "(k, t) \<in> set (b_log s)" for k t
    using granted.prems that by (intro held_record_rewrite [OF _ _ l]) (auto simp: binv_def)
  have new: "held_record (s\<lparr>b_ledger := l\<rparr>) k (b_now s)" if "k \<in> set keys" for k
    using that by (simp add: held_record_def l map_of_fold_dict_set)
  have "420 \<le> b_now s - of_int \<lfloor>t'\<rfloor>" if "k \<in> set keys" "(k, t') \<in> set (b_log s)" for k t'
    using held_record_live [of s k t'] granted.prems that free by (force simp: binv_def)
  with granted.prems granted.hyps(1) have "spaced (map (\<lambda>k. (k, b_now s)) keys @ b_log s)"
    by (intro spaced_append) (auto simp: binv_def)
  with old new show ?case by (auto simp: binv_def held_record_def)
next
  case (refused lk we s keys d l)
  then show ?case using reserve_refused [OF refused.hyps] by simp
next
  case (settled s lk wok keys ok det)
  then show ?case
    by (auto simp: binv_def settle_bootstrap_def intro!: held_record_rewrite)
qed

lemma breachable_binv: "breachable s \<Longrightarrow> binv s"
  by (induction rule: breachable.induct) (simp add: binv_def, blast intro: binv_step)

lemma spaced_pair: "spaced (xs @ (k, t2) # ys @ (k, t1) # zs) \<Longrightarrow> 420 \<le> t2 - of_int \<lfloor>t1\<rfloor>"
  by (induction xs) auto

text \<open>
  C29: however the workers that share a credential interleave, and whichever of them die between
  claiming and settling, two reservations granted for the same episode are more than 419 seconds
  apart (the stamp is a whole second): a crash never licenses a second request while the first may
  still be in flight.
\<close>

theorem bootstrap_reservations_spaced:
  assumes "breachable s" and "b_log s = xs @ (k, t2) # ys @ (k, t1) # zs"
  shows "419 < t2 - t1"
proof -
  have "spaced (xs @ (k, t2) # ys @ (k, t1) # zs)"
    using breachable_binv [OF assms(1)] assms(2) by (simp add: binv_def)
  then have "420 \<le> t2 - of_int \<lfloor>t1\<rfloor>" by (rule spaced_pair)
  moreover have "t1 < of_int \<lfloor>t1\<rfloor> + 1" by linarith
  ultimately show ?thesis by linarith
qed

lemma run_granted:
  "breachable s \<Longrightarrow> distinct ks \<Longrightarrow> reserve_bootstrap True None (b_now s) ks (b_ledger s) = (None, l)
    \<Longrightarrow> breachable (s\<lparr>b_ledger := l, b_log := map (\<lambda>k. (k, b_now s)) ks @ b_log s\<rparr>)"
  by (rule breachable.step [OF _ bstep.granted])

definition two_grants :: bstate where
  "two_grants = \<lparr>b_now = 420, b_ledger = [((''a'', Session, 0), InProgress 420)],
     b_log = [((''a'', Session, 0), 420), ((''a'', Session, 0), 0)]\<rparr>"

lemma breachable_two_grants: "breachable two_grants"
proof -
  let ?k = "(''a'', Session, 0) :: ekey"
  have 1: "breachable \<lparr>b_now = 0, b_ledger = [(?k, InProgress 0)], b_log = [(?k, 0)]\<rparr>"
    using run_granted [OF breachable.start [of 0 "[]"], of "[?k]" "[(?k, InProgress 0)]"]
    by (simp add: reserve_bootstrap_def read_bootstrap_ledger_def)
  have 2: "breachable \<lparr>b_now = 420, b_ledger = [(?k, InProgress 0)], b_log = [(?k, 0)]\<rparr>"
    using breachable.step [OF 1 bstep.tick, of 420] by simp
  show ?thesis
    using run_granted [OF 2, of "[?k]" "[(?k, InProgress 420)]"]
    by (simp add: two_grants_def reserve_bootstrap_def read_bootstrap_ledger_def
        bootstrap_timeout_s_def bootstrap_stale_margin_s_def)
qed

theorem bootstrap_reservations_spaced_witness:
  "breachable two_grants \<and> (419 :: rat) < 420 - 0"
  using bootstrap_reservations_spaced
    [OF breachable_two_grants, of "[]" "(''a'', Session, 0)" 420 "[]" 0 "[]"] breachable_two_grants
  by (simp add: two_grants_def)

text \<open>
  \<open>_episode_key\<close> promises at most one bootstrap request per account and window-length period. The
  ledger does not give that: an outcome is remembered for an hour only, so the weekly window of one
  period is granted a second reservation 3600 seconds after the first one was settled.
\<close>

theorem bootstrap_twice_in_one_period:
  "let k1 = episode_key ''acct'' Weekly 0; k2 = episode_key ''acct'' Weekly 3700;
       (r1, l1) = reserve_bootstrap True None 0 [k1] [];
       l2 = settle_bootstrap True True 100 [k1] True ''ok'' l1;
       (r2, l3) = reserve_bootstrap True None 3700 [k2] l2
   in k1 = k2 \<and> r1 = None \<and> r2 = None"
  by (simp add: episode_key_def week_window_s_def reserve_bootstrap_def settle_bootstrap_def
      read_bootstrap_ledger_def bootstrap_timeout_s_def bootstrap_stale_margin_s_def bootstrap_retry_s_def
      Let_def floor_eq_iff)

section \<open>The launch stage\<close>

text \<open>
  the launch stage makes the bootstrap request only when the read verdict was unavailable and
  eligible and the reservation of every pending window was granted; and whatever the request gives,
  the verdict it returns is that of the fresh read after the cache was dropped. Without a request the
  returned availability is the one that was read.
\<close>

theorem authorize_launch_guarded:
  "case authorize_claude_launch rd lock_ok werr settle_ok account now after outcome st of
     (p, made, st') \<Rightarrow>
       (let (prov, st1) = rd now st;
            keys = map (\<lambda>w. episode_key account w now) (p_pending prov);
            (why, l) = reserve_bootstrap lock_ok werr now keys (q_ledger st1)
        in (made \<longleftrightarrow> \<not> p_available prov \<and> p_bootstrap prov \<and> why = None)
           \<and> (made \<longrightarrow> (\<exists>st2. (p, st') = rd after st2 \<and> q_cache st2 Claude = JNull
                 \<and> q_ledger st2 = settle_bootstrap lock_ok settle_ok after keys (fst outcome) (snd outcome) l))
           \<and> (\<not> made \<longrightarrow> p_available p = p_available prov))"
proof -
  obtain prov st1 where rd: "rd now st = (prov, st1)" by (cases "rd now st")
  obtain why l where rs: "reserve_bootstrap lock_ok werr now
      (map (\<lambda>w. episode_key account w now) (p_pending prov)) (q_ledger st1) = (why, l)"
    by (cases "reserve_bootstrap lock_ok werr now
      (map (\<lambda>w. episode_key account w now) (p_pending prov)) (q_ledger st1)")
  obtain ok det where out: "outcome = (ok, det)" by (cases outcome)
  define st2 where "st2 = st1\<lparr>q_ledger := settle_bootstrap lock_ok settle_ok after
      (map (\<lambda>w. episode_key account w now) (p_pending prov)) ok det l,
    q_cache := (q_cache st1)(Claude := JNull)\<rparr>"
  obtain prov' st3 where rd2: "rd after st2 = (prov', st3)" by (cases "rd after st2")
  have "\<exists>st2. (prov', st3) = rd after st2 \<and> q_cache st2 Claude = JNull
      \<and> q_ledger st2 = settle_bootstrap lock_ok settle_ok after
          (map (\<lambda>w. episode_key account w now) (p_pending prov)) ok det l"
    using rd2 by (intro exI [of _ st2]) (simp add: st2_def)
  then show ?thesis
    using rd2 by (cases why)
      (auto simp: authorize_claude_launch_def rd rs out Let_def reannotate_def simp flip: st2_def)
qed

definition idle_claude :: provider where
  "idle_claude = (failed_provider Claude NoCredentials None False)\<lparr>p_bootstrap := True, p_pending := [Session]\<rparr>"

definition fresh_quota :: qstate where
  "fresh_quota = \<lparr>q_cache = (\<lambda>_. JNull), q_cool = empty_cooldowns, q_ledger = []\<rparr>"

theorem authorize_launch_guarded_witness:
  "case authorize_claude_launch (\<lambda>_ s. (idle_claude, s)) True None True ''acct'' 0 1 (True, ''ok'') fresh_quota of
     (p, made, st') \<Rightarrow> made \<and> q_cache st' Claude = JNull"
proof -
  have r: "fst (reserve_bootstrap True None 0 [episode_key ''acct'' Session 0] []) = None"
    by (simp add: reserve_bootstrap_def read_bootstrap_ledger_def Let_def)
  then obtain l where l: "reserve_bootstrap True None 0 [episode_key ''acct'' Session 0] [] = (None, l)"
    by (cases "reserve_bootstrap True None 0 [episode_key ''acct'' Session 0] []") simp
  have b: "\<not> p_available idle_claude" "p_bootstrap idle_claude" "p_pending idle_claude = [Session]"
    by (simp_all add: idle_claude_def failed_provider_def)
  show ?thesis
    using authorize_launch_guarded [where rd = "\<lambda>_ s. (idle_claude, s)" and lock_ok = True and werr = None
        and settle_ok = True and account = "''acct''" and now = 0 and after = 1 and outcome = "(True, ''ok'')"
        and st = fresh_quota]
      l b by (simp add: fresh_quota_def Let_def case_prod_beta)
qed

end
