(* ===== verification/Ledger.thy ===== *)
theory Ledger
  imports Prelude
begin

text \<open>
  The append-only grant ledger of \<open>tauceti_worker/budget.py\<close>: its records and events, the replay that
  turns them into the accounting state, accrual, the selection of sessions and the cost estimate.
  A decimal is the exact rational it denotes; a JSON object that the code itself writes is a record
  with an option for each key that may be missing.
\<close>

section \<open>Sessions and waiters\<close>

datatype sstatus = Active | SettledS | Provisional | Unresolved

text \<open>\<open>ESTIMATE_PROVENANCES\<close>, \<open>token-priced-prefix\<close>, and the provenance of a native receipt.\<close>

datatype provenance =
  TokenPriced | HistoricalEstimate | PrelaunchEstimate | TokenPricedPrefix | NativeReported

definition estimate_provenances :: "provenance list" where
  "estimate_provenances = [TokenPriced, HistoricalEstimate, PrelaunchEstimate]"

type_synonym totals = "(string \<times> rat) list"

record session =
  s_id :: string
  s_worker :: string
  s_model :: string
  s_phase :: string
  s_estimate :: rat
  s_status :: sstatus
  s_started :: rat
  s_bridge :: "string option"
  s_resume :: "string option"
  s_archive :: "string option"
  s_cost :: "rat option"
  s_outcome :: "string option"
  s_totals :: totals
  s_provenance :: "provenance option"
  s_finished :: "rat option"
  s_reserve :: "rat option"
  s_lower_cost :: "rat option"
  s_lower_totals :: totals
  s_checkpoint :: "string option"
  s_tail :: "rat option"

datatype wait_reason =
    RepairRequired
  | ResumeInUse
  | BaselineUnresolved
  | ThroughputCooldown
  | AwaitCalibration
  | AwaitFunding
  | BehindAnother

record waiter =
  wt_worker :: string
  wt_model :: string
  wt_ticket :: string
  wt_since :: rat
  wt_seen :: rat
  wt_reason :: wait_reason
  wt_estimate :: rat

section \<open>Events\<close>

record correction =
  c_id :: string
  c_delta :: rat
  c_cost :: rat
  c_provenance :: "provenance option"
  c_totals :: "totals option"
  c_finished :: "rat option"

record settlement =
  e_id :: string
  e_cost :: rat
  e_outcome :: string
  e_note :: "string option"
  e_totals :: totals
  e_provenance :: provenance
  e_finished :: "rat option"

record uncertainty =
  u_id :: string
  u_provisional :: bool
  u_outcome :: string
  u_finished :: "rat option"
  u_reserve :: "(rat \<times> rat \<times> totals) option"
  u_checkpoint :: "(string \<times> rat) option"

text \<open>
  \<open>u_reserve\<close> holds \<open>reserve\<close>, \<open>lower_bound_cost\<close> and \<open>lower_bound_totals\<close>, which the code writes
  together or not at all, and \<open>u_checkpoint\<close> likewise \<open>usage_checkpoint\<close> and \<open>usage_tail\<close>.
\<close>

datatype event =
    Accrue rat rat
  | Grant rat
  | SetBalance rat rat rat
  | Correct correction
  | SetRate rat rat
  | Wait waiter
  | Admit session
  | Settle settlement
  | Uncertain uncertainty
  | Cooldown string rat

record lrecord =
  l_version :: int
  l_seq :: nat
  l_timestamp :: rat
  l_events :: "event list"

record lstate =
  balance :: rat
  rate :: rat
  spent :: rat
  watermark :: rat
  sessions :: "(string \<times> session) list"
  waiting :: "(string \<times> waiter) list"
  cooldowns_of :: "(string \<times> rat) list"
  seq :: nat

datatype budget_error =
    TornLedger
  | InvalidRecord nat
  | InvalidEvent string
  | GrantAndSet
  | GrantNotPositive
  | RateNegative
  | LaunchedTwice
  | NoResumeBaseline
  | CostNegative
  | UnknownInvocation
  | ConflictingReceipt
  | NoteRequired
  | LiveBridge
  | InvalidReceipt
  | MissingTotals
  | InvalidLowerBound
  | InvalidTotals
  | TotalsNegative
  | NoAdmission
  | ContradictsUsage
  | LiveNative
  | InvalidFinish
  | MixedBaselines
  | LaterBaselineConflict
  | NotTorn
  | NotDecimal

section \<open>Reading the ledger\<close>

text \<open>
  \<open>records\<close>: the decoded lines, and whether the file ends in a torn line. Line \<open>i\<close> must be version 1
  with sequence number \<open>i\<close>.
\<close>

fun check_records :: "nat \<Rightarrow> lrecord list \<Rightarrow> budget_error + lrecord list" where
  "check_records i [] = Inr []"
| "check_records i (r # rs) =
     (if l_version r \<noteq> 1 \<or> l_seq r \<noteq> i then Inl (InvalidRecord i)
      else ebind (check_records (Suc i) rs) (\<lambda>rs'. Inr (r # rs')))"

definition ledger_records :: "bool \<Rightarrow> lrecord list \<Rightarrow> nat \<Rightarrow> budget_error + lrecord list" where
  "ledger_records torn lines start = (if torn then Inl TornLedger else check_records (Suc start) lines)"

definition empty_lstate :: lstate where
  "empty_lstate = \<lparr>balance = 0, rate = 0, spent = 0, watermark = 0, sessions = [], waiting = [],
                   cooldowns_of = [], seq = 0\<rparr>"

definition override :: "'a option \<Rightarrow> 'a option \<Rightarrow> 'a option" where
  "override new old = (case new of None \<Rightarrow> old | Some _ \<Rightarrow> new)"

definition apply_correction :: "correction \<Rightarrow> session \<Rightarrow> session" where
  "apply_correction c s = s\<lparr>s_cost := Some (c_cost c),
     s_provenance := override (c_provenance c) (s_provenance s),
     s_totals := (case c_totals c of None \<Rightarrow> s_totals s | Some t \<Rightarrow> t),
     s_finished := override (c_finished c) (s_finished s)\<rparr>"

definition apply_settlement :: "rat \<Rightarrow> settlement \<Rightarrow> session \<Rightarrow> session" where
  "apply_settlement timestamp e s = s\<lparr>s_status := SettledS, s_cost := Some (e_cost e),
     s_outcome := Some (e_outcome e), s_totals := e_totals e, s_provenance := Some (e_provenance e),
     s_finished := (case e_finished e of Some f \<Rightarrow> Some f
                    | None \<Rightarrow> if e_note e \<noteq> None \<and> e_note e \<noteq> Some [] then None else Some timestamp)\<rparr>"

definition apply_uncertainty :: "uncertainty \<Rightarrow> session \<Rightarrow> session" where
  "apply_uncertainty u s =
     (let s1 = s\<lparr>s_status := (if u_provisional u then Provisional else Unresolved),
                 s_finished := override (u_finished u) (s_finished s)\<rparr>
      in case u_reserve u of
           None \<Rightarrow> s1
         | Some (reserve, lower_cost, lower_totals) \<Rightarrow>
             (let s2 = s1\<lparr>s_reserve := Some reserve, s_lower_cost := Some lower_cost,
                          s_lower_totals := lower_totals, s_outcome := Some (u_outcome u)\<rparr>
              in case u_checkpoint u of
                   None \<Rightarrow> s2
                 | Some (checkpoint, tail) \<Rightarrow> s2\<lparr>s_checkpoint := Some checkpoint, s_tail := Some tail\<rparr>))"

text \<open>\<open>state["sessions"][id]\<close> on an unknown id raises \<open>KeyError\<close>, reported as a \<open>BudgetError\<close>.\<close>

definition on_session ::
  "lstate \<Rightarrow> string \<Rightarrow> (session \<Rightarrow> session) \<Rightarrow> (lstate \<Rightarrow> lstate) \<Rightarrow> budget_error + lstate" where
  "on_session st k f g =
     (case map_of (sessions st) k of
        None \<Rightarrow> Inl (InvalidEvent k)
      | Some s \<Rightarrow> Inr (g (st\<lparr>sessions := dict_set k (f s) (sessions st)\<rparr>)))"

fun replay_event :: "rat \<Rightarrow> lstate \<Rightarrow> event \<Rightarrow> budget_error + lstate" where
  "replay_event ts st (Accrue amount mark) = Inr (st\<lparr>balance := balance st + amount, watermark := mark\<rparr>)"
| "replay_event ts st (Grant delta) = Inr (st\<lparr>balance := balance st + delta\<rparr>)"
| "replay_event ts st (SetBalance previous target delta) = Inr (st\<lparr>balance := balance st + delta\<rparr>)"
| "replay_event ts st (Correct c) =
     on_session st (c_id c) (apply_correction c)
       (\<lambda>st'. st'\<lparr>balance := balance st' + c_delta c, spent := spent st' - c_delta c\<rparr>)"
| "replay_event ts st (SetRate amount previous) = Inr (st\<lparr>rate := amount\<rparr>)"
| "replay_event ts st (Wait w) = Inr (st\<lparr>waiting := dict_set (wt_worker w) w (waiting st)\<rparr>)"
| "replay_event ts st (Admit s) =
     Inr (st\<lparr>sessions := dict_set (s_id s) s (sessions st), waiting := dict_del (s_worker s) (waiting st)\<rparr>)"
| "replay_event ts st (Settle e) =
     on_session st (e_id e) (apply_settlement ts e)
       (\<lambda>st'. st'\<lparr>balance := balance st' - e_cost e, spent := spent st' + e_cost e\<rparr>)"
| "replay_event ts st (Uncertain u) = on_session st (u_id u) (apply_uncertainty u) (\<lambda>st'. st')"
| "replay_event ts st (Cooldown model until) =
     Inr (st\<lparr>cooldowns_of := dict_set model until (cooldowns_of st)\<rparr>)"

fun replay_events :: "rat \<Rightarrow> lstate \<Rightarrow> event list \<Rightarrow> budget_error + lstate" where
  "replay_events ts st [] = Inr st"
| "replay_events ts st (e # es) = ebind (replay_event ts st e) (\<lambda>st'. replay_events ts st' es)"

fun replay :: "lstate \<Rightarrow> lrecord list \<Rightarrow> budget_error + lstate" where
  "replay st [] = Inr st"
| "replay st (r # rs) =
     ebind (replay_events (l_timestamp r) (st\<lparr>seq := l_seq r\<rparr>) (l_events r)) (\<lambda>st'. replay st' rs)"

text \<open>\<open>samples\<close>: the settled costs of each model and phase, oldest first.\<close>

definition samples :: "lstate \<Rightarrow> string \<Rightarrow> rat list" where
  "samples st key = map (\<lambda>s. the (s_cost s))
     (filter (\<lambda>s. s_status s = SettledS \<and> s_model s @ '':'' @ s_phase s = key) (map snd (sessions st)))"

text \<open>\<open>append\<close>: the next record of the ledger.\<close>

definition append_record :: "lrecord list \<Rightarrow> lstate \<Rightarrow> rat \<Rightarrow> event list \<Rightarrow> lrecord list" where
  "append_record ledger st now events =
     ledger @ [\<lparr>l_version = 1, l_seq = Suc (seq st), l_timestamp = now, l_events = events\<rparr>]"

section \<open>Accrual\<close>

definition accrue :: "rat \<Rightarrow> lstate \<Rightarrow> event \<times> lstate" where
  "accrue clock st =
     (let now = max (watermark st) clock;
          amount = (now - watermark st) * rate st / 3600
      in (Accrue amount now, st\<lparr>balance := balance st + amount, watermark := now\<rparr>))"

section \<open>Selecting sessions\<close>

definition session_list :: "lstate \<Rightarrow> session list" where
  "session_list st = map snd (sessions st)"

definition cost_of :: "session \<Rightarrow> rat" where
  "cost_of s = (case s_cost s of None \<Rightarrow> 0 | Some c \<Rightarrow> c)"

definition reserve_of :: "session \<Rightarrow> rat" where
  "reserve_of s = (case s_reserve s of None \<Rightarrow> s_estimate s | Some r \<Rightarrow> r)"

definition active_sessions :: "lstate \<Rightarrow> session list" where
  "active_sessions st = filter (\<lambda>s. s_status s \<noteq> SettledS) (session_list st)"

text \<open>
  \<open>sessions(state, model=, phase=, settled=True, positive=True, limit=20)\<close>; \<open>None\<close> is a filter that
  is not given.
\<close>

definition settled_costs :: "lstate \<Rightarrow> string option \<Rightarrow> string option \<Rightarrow> bool \<Rightarrow> rat list" where
  "settled_costs st model phase positive =
     map cost_of (last_n 20 (filter
       (\<lambda>s. (case model of None \<Rightarrow> True | Some m \<Rightarrow> s_model s = m)
            \<and> (case phase of None \<Rightarrow> True | Some p \<Rightarrow> s_phase s = p)
            \<and> s_status s = SettledS \<and> (positive \<longrightarrow> 0 < cost_of s)) (session_list st)))"

definition related :: "lstate \<Rightarrow> string list \<Rightarrow> string option \<Rightarrow> session list" where
  "related st providers include =
     filter (\<lambda>s. Some (s_id s) = include \<or> (\<exists>p\<in>set (map fst (s_totals s)). p \<in> set providers)
                 \<or> (case s_resume s of None \<Rightarrow> False | Some r \<Rightarrow> r \<in> set providers))
            (session_list st)"

section \<open>The cost estimate\<close>

definition quantile75 :: "rat list \<Rightarrow> rat" where
  "quantile75 costs = costs ! ((3 * length costs + 3) div 4 - 1)"

definition pending_costs :: "lstate \<Rightarrow> string \<Rightarrow> rat list" where
  "pending_costs st model =
     map (\<lambda>s. the (s_reserve s))
         (filter (\<lambda>s. s_model s = model \<and> (case s_reserve s of None \<Rightarrow> False | Some r \<Rightarrow> 0 < r))
                 (active_sessions st))"

definition estimate :: "lstate \<Rightarrow> string \<Rightarrow> string option \<Rightarrow> bool \<Rightarrow> rat list \<times> rat" where
  "estimate st model phase include_pending =
     (let c1 = (if phase = None \<or> phase = Some [] then []
                else settled_costs st (Some model) phase True);
          c2 = (if c1 \<noteq> [] then c1 else settled_costs st (Some model) None True);
          c3 = (if c2 = [] \<and> include_pending then pending_costs st model else c2);
          costs = sort (last_n 20 c3)
      in if costs \<noteq> [] then (costs, quantile75 costs)
         else (costs, Max (set (1 # settled_costs st None None False))))"

end
