(* ===== verification/LedgerLaws.thy ===== *)
theory LedgerLaws
  imports Ledger
begin

text \<open>
  Laws of the replayed ledger: what a log of fallible steps conserves, for any log (the locales), and
  for the grant ledger (their interpretations): worth is credited, never created, and the spent amount
  is the sum of the session costs whenever every event is one that the operations write.
\<close>

section \<open>Logs of fallible steps\<close>

fun efold :: "('s \<Rightarrow> 'e \<Rightarrow> 'x + 's) \<Rightarrow> 's \<Rightarrow> 'e list \<Rightarrow> 'x + 's" where
  "efold f s [] = Inr s"
| "efold f s (e # es) = ebind (f s e) (\<lambda>s'. efold f s' es)"

lemma efold_append: "efold f s (xs @ ys) = ebind (efold f s xs) (\<lambda>s'. efold f s' ys)"
proof (induction xs arbitrary: s)
  case Nil
  then show ?case by simp
next
  case (Cons x xs)
  then show ?case by (cases "f s x") simp_all
qed

lemma replay_events_efold: "replay_events ts st es = efold (replay_event ts) st es"
  by (induction es arbitrary: st) simp_all

lemma replay_efold:
  "replay st rs = efold (\<lambda>st r. replay_events (l_timestamp r) (st\<lparr>seq := l_seq r\<rparr>) (l_events r)) st rs"
  by (induction rs arbitrary: st) simp_all

lemma replay_append: "replay st (xs @ ys) = ebind (replay st xs) (\<lambda>st'. replay st' ys)"
  by (simp add: replay_efold efold_append)

lemma replay_events_append:
  "replay_events ts st (xs @ ys) = ebind (replay_events ts st xs) (\<lambda>st'. replay_events ts st' ys)"
  by (simp add: replay_events_efold efold_append)

text \<open>A log whose steps add a known credit to a measure of the state.\<close>

locale conserved_log =
  fixes apply_entry :: "'s \<Rightarrow> 'e \<Rightarrow> 'x + 's"
    and worth_of :: "'s \<Rightarrow> 'v::comm_monoid_add"
    and credit :: "'e \<Rightarrow> 'v"
  assumes entry_credit: "apply_entry s e = Inr s' \<Longrightarrow> worth_of s' = worth_of s + credit e"
begin

lemma run_credit: "efold apply_entry s es = Inr s' \<Longrightarrow> worth_of s' = worth_of s + sum_list (map credit es)"
proof (induction es arbitrary: s)
  case Nil
  then show ?case by simp
next
  case (Cons e es)
  then obtain s1 where s1: "apply_entry s e = Inr s1" and rest: "efold apply_entry s1 es = Inr s'" by auto
  show ?case
    using entry_credit [OF s1] Cons.IH [OF rest] by (simp add: add.assoc)
qed

lemma run_no_credit:
  "efold apply_entry s es = Inr s' \<Longrightarrow> (\<And>e. e \<in> set es \<Longrightarrow> credit e = 0) \<Longrightarrow> worth_of s' = worth_of s"
  using run_credit by (simp add: sum_list_0 map_idI cong: map_cong)

end

text \<open>A log whose entries, when each is acceptable in its state, apply and keep an invariant.\<close>

locale guarded_log =
  fixes apply_entry :: "'s \<Rightarrow> 'e \<Rightarrow> 'x + 's"
    and inv :: "'s \<Rightarrow> bool"
    and ok :: "'s \<Rightarrow> 'e \<Rightarrow> bool"
  assumes entry_ok: "inv s \<Longrightarrow> ok s e \<Longrightarrow> \<exists>s'. apply_entry s e = Inr s' \<and> inv s'"
begin

fun run_ok :: "'s \<Rightarrow> 'e list \<Rightarrow> bool" where
  "run_ok s [] = True"
| "run_ok s (e # es) = (ok s e \<and> (\<forall>s'. apply_entry s e = Inr s' \<longrightarrow> run_ok s' es))"

lemma run_total: "inv s \<Longrightarrow> run_ok s es \<Longrightarrow> \<exists>s'. efold apply_entry s es = Inr s' \<and> inv s'"
proof (induction es arbitrary: s)
  case Nil
  then show ?case by simp
next
  case (Cons e es)
  then obtain s1 where "apply_entry s e = Inr s1" and "inv s1" using entry_ok by fastforce
  moreover from this Cons.prems have "run_ok s1 es" by simp
  ultimately show ?case using Cons.IH by simp
qed

end

section \<open>What an event credits\<close>

text \<open>Only accrual, grants and balance settings create worth; every other event moves it.\<close>

fun event_credit :: "event \<Rightarrow> rat" where
  "event_credit (Accrue amount mark) = amount"
| "event_credit (Grant delta) = delta"
| "event_credit (SetBalance previous target delta) = delta"
| "event_credit _ = 0"

definition worth :: "lstate \<Rightarrow> rat" where
  "worth st = balance st + spent st"

lemma on_session_Inr:
  assumes "on_session st k f g = Inr st'"
  obtains s where "map_of (sessions st) k = Some s"
    and "st' = g (st\<lparr>sessions := dict_set k (f s) (sessions st)\<rparr>)"
  using assms by (auto simp: on_session_def split: option.splits)

lemma replay_event_credit: "replay_event ts st e = Inr st' \<Longrightarrow> worth st' = worth st + event_credit e"
  by (cases e) (auto simp: worth_def elim!: on_session_Inr)

interpretation event_log: conserved_log "replay_event ts" worth event_credit for ts
  by unfold_locales (rule replay_event_credit)

lemma replay_events_credit:
  "replay_events ts st es = Inr st' \<Longrightarrow> worth st' = worth st + sum_list (map event_credit es)"
  by (simp add: replay_events_efold event_log.run_credit)

definition record_credit :: "lrecord \<Rightarrow> rat" where
  "record_credit r = sum_list (map event_credit (l_events r))"

lemma worth_seq [simp]: "worth (st\<lparr>seq := n\<rparr>) = worth st"
  by (simp add: worth_def)

interpretation record_log: conserved_log
  "\<lambda>st r. replay_events (l_timestamp r) (st\<lparr>seq := l_seq r\<rparr>) (l_events r)" worth record_credit
  by unfold_locales (auto simp: record_credit_def dest!: replay_events_credit)

lemma replay_credit: "replay st rs = Inr st' \<Longrightarrow> worth st' = worth st + sum_list (map record_credit rs)"
  by (simp add: replay_efold record_log.run_credit)

section \<open>Sequence numbers\<close>

lemma replay_event_seq: "replay_event ts st e = Inr st' \<Longrightarrow> seq st' = seq st"
  by (cases e) (auto elim!: on_session_Inr)

lemma replay_events_seq: "replay_events ts st es = Inr st' \<Longrightarrow> seq st' = seq st"
proof (induction es arbitrary: st)
  case Nil
  then show ?case by simp
next
  case (Cons e es)
  then show ?case by (auto dest!: replay_event_seq)
qed

lemma check_records_ok:
  "check_records i rs = Inr rs' \<longleftrightarrow>
     rs' = rs \<and> (\<forall>n<length rs. l_version (rs ! n) = 1 \<and> l_seq (rs ! n) = i + n)"
proof (induction rs arbitrary: i rs')
  case Nil
  then show ?case by auto
next
  case (Cons r rs)
  have "(\<forall>n<length (r # rs). l_version ((r # rs) ! n) = 1 \<and> l_seq ((r # rs) ! n) = i + n)
        \<longleftrightarrow> l_version r = 1 \<and> l_seq r = i \<and> (\<forall>n<length rs. l_version (rs ! n) = 1 \<and> l_seq (rs ! n) = Suc i + n)"
    by (auto simp: All_less_Suc2)
  then show ?case
    by (auto simp: ebind_Inr_iff Cons.IH)
qed

lemma check_records_append:
  "check_records i rs = Inr rs \<Longrightarrow> l_version r = 1 \<Longrightarrow> l_seq r = i + length rs
   \<Longrightarrow> check_records i (rs @ [r]) = Inr (rs @ [r])"
  by (simp add: check_records_ok nth_append less_Suc_eq)

lemma replay_seq: "replay st rs = Inr st' \<Longrightarrow> rs \<noteq> [] \<Longrightarrow> seq st' = l_seq (last rs)"
proof (induction rs arbitrary: st)
  case Nil
  then show ?case by simp
next
  case (Cons r rs)
  then obtain st1 where "replay_events (l_timestamp r) (st\<lparr>seq := l_seq r\<rparr>) (l_events r) = Inr st1"
    and rest: "replay st1 rs = Inr st'" by auto
  then have "seq st1 = l_seq r" by (auto dest: replay_events_seq)
  with rest Cons.IH show ?case by (cases rs) auto
qed

lemma seq_is_length:
  assumes "check_records (Suc 0) rs = Inr rs" and "replay empty_lstate rs = Inr st"
  shows "seq st = length rs"
proof (cases "rs = []")
  case True
  with assms show ?thesis by (auto simp: empty_lstate_def)
next
  case False
  then have "l_seq (last rs) = length rs"
    using assms(1) by (auto simp: check_records_ok last_conv_nth)
  with False assms(2) replay_seq show ?thesis by metis
qed

section \<open>The accounting invariant\<close>

text \<open>
  Every session is filed under its own identifier, once; a settled one has its cost; and the amount
  spent is the sum of the costs charged to sessions.
\<close>

definition session_wf :: "string \<times> session \<Rightarrow> bool" where
  "session_wf p \<longleftrightarrow> s_id (snd p) = fst p \<and> (s_status (snd p) = SettledS \<longrightarrow> s_cost (snd p) \<noteq> None)"

definition ledger_inv :: "lstate \<Rightarrow> bool" where
  "ledger_inv st \<longleftrightarrow> distinct (map fst (sessions st)) \<and> list_all session_wf (sessions st)
     \<and> spent st = sum_list (map cost_of (session_list st))"

text \<open>What each event must look like for the books to stay exact.\<close>

fun event_ok :: "lstate \<Rightarrow> event \<Rightarrow> bool" where
  "event_ok st (Correct c) =
     (case map_of (sessions st) (c_id c) of None \<Rightarrow> False | Some s \<Rightarrow> c_delta c = cost_of s - c_cost c)"
| "event_ok st (Settle e) =
     (case map_of (sessions st) (e_id e) of None \<Rightarrow> False | Some s \<Rightarrow> cost_of s = 0)"
| "event_ok st (Uncertain u) = (map_of (sessions st) (u_id u) \<noteq> None)"
| "event_ok st (Admit s) = (map_of (sessions st) (s_id s) = None \<and> s_cost s = None \<and> s_status s \<noteq> SettledS)"
| "event_ok st _ = True"

lemma sum_dict_set:
  fixes f :: "'v \<Rightarrow> rat"
  assumes "distinct (map fst d)" and "map_of d k = Some x"
  shows "sum_list (map f (map snd (dict_set k y d))) = sum_list (map f (map snd d)) - f x + f y"
  using assms
proof (induction d)
  case Nil
  then show ?case by simp
next
  case (Cons p d)
  then show ?case by (cases p) (auto simp: algebra_simps)
qed

lemma sum_dict_set_new:
  fixes f :: "'v \<Rightarrow> rat"
  assumes "map_of d k = None"
  shows "sum_list (map f (map snd (dict_set k y d))) = sum_list (map f (map snd d)) + f y"
  using assms
proof (induction d)
  case Nil
  then show ?case by simp
next
  case (Cons p d)
  then show ?case by (cases p) (auto split: if_splits)
qed

lemma list_all_dict_set:
  "list_all P d \<Longrightarrow> P (k, v) \<Longrightarrow> list_all P (dict_set k v d)"
  by (induction k v d rule: dict_set.induct) (auto split: if_splits)

lemma map_of_wf:
  "ledger_inv st \<Longrightarrow> map_of (sessions st) k = Some s \<Longrightarrow> session_wf (k, s)"
  by (metis ledger_inv_def list_all_iff map_of_SomeD)

lemma ledger_inv_update:
  assumes inv: "ledger_inv st" and s: "map_of (sessions st) k = Some s"
    and wf: "session_wf (k, s')"
    and st': "sessions st' = dict_set k s' (sessions st)" "spent st' = spent st - cost_of s + cost_of s'"
  shows "ledger_inv st'"
  using assms sum_dict_set [of "sessions st" k s cost_of s']
  by (auto simp: ledger_inv_def session_list_def intro!: list_all_dict_set)

lemma ledger_inv_same:
  "ledger_inv st \<Longrightarrow> sessions st' = sessions st \<Longrightarrow> spent st' = spent st \<Longrightarrow> ledger_inv st'"
  by (simp add: ledger_inv_def session_list_def)

lemma apply_uncertainty_keeps [ledger_simps]:
  "s_id (apply_uncertainty u s) = s_id s" "s_cost (apply_uncertainty u s) = s_cost s"
  "s_status (apply_uncertainty u s) = (if u_provisional u then Provisional else Unresolved)"
  by (auto simp: apply_uncertainty_def Let_def split: option.splits)

lemma apply_correction_keeps [ledger_simps]:
  "s_id (apply_correction c s) = s_id s" "s_cost (apply_correction c s) = Some (c_cost c)"
  "s_status (apply_correction c s) = s_status s"
  by (auto simp: apply_correction_def)

lemma apply_settlement_keeps [ledger_simps]:
  "s_id (apply_settlement ts e s) = s_id s" "s_cost (apply_settlement ts e s) = Some (e_cost e)"
  "s_status (apply_settlement ts e s) = SettledS"
  by (auto simp: apply_settlement_def)

lemma event_ok_step:
  assumes inv: "ledger_inv st" and ok: "event_ok st e"
  shows "\<exists>st'. replay_event ts st e = Inr st' \<and> ledger_inv st'"
proof (cases e)
  case (Correct c)
  with ok obtain s where s: "map_of (sessions st) (c_id c) = Some s"
    and d: "c_delta c = cost_of s - c_cost c" by (auto split: option.splits)
  have "session_wf (c_id c, apply_correction c s)"
    using map_of_wf [OF inv s] by (simp add: session_wf_def ledger_simps)
  then show ?thesis
    using ledger_inv_update [OF inv s] Correct s d
    by (auto simp: on_session_def cost_of_def [of "apply_correction c s"] ledger_simps)
next
  case (Settle p)
  with ok obtain s where s: "map_of (sessions st) (e_id p) = Some s" and z: "cost_of s = 0"
    by (auto split: option.splits)
  have "session_wf (e_id p, apply_settlement ts p s)"
    using map_of_wf [OF inv s] by (simp add: session_wf_def ledger_simps)
  then show ?thesis
    using ledger_inv_update [OF inv s] Settle s z
    by (auto simp: on_session_def cost_of_def [of "apply_settlement ts p s"] ledger_simps)
next
  case (Uncertain u)
  with ok obtain s where s: "map_of (sessions st) (u_id u) = Some s" by auto
  have "session_wf (u_id u, apply_uncertainty u s)"
    using map_of_wf [OF inv s] by (simp add: session_wf_def ledger_simps)
  then show ?thesis
    using ledger_inv_update [OF inv s] Uncertain s
    by (auto simp: on_session_def cost_of_def ledger_simps)
next
  case (Admit s)
  with ok have new: "map_of (sessions st) (s_id s) = None" "s_cost s = None" "s_status s \<noteq> SettledS" by auto
  then have "ledger_inv (st\<lparr>sessions := dict_set (s_id s) s (sessions st),
                            waiting := dict_del (s_worker s) (waiting st)\<rparr>)"
    using inv sum_dict_set_new [OF new(1), of cost_of s]
    by (auto simp: ledger_inv_def session_list_def session_wf_def cost_of_def [of s] simp del: map_map
        intro!: list_all_dict_set)
  with Admit show ?thesis by simp
qed (auto intro: ledger_inv_same [OF inv])

interpretation books: guarded_log "replay_event ts" ledger_inv event_ok for ts
  by unfold_locales (rule event_ok_step)

lemma empty_inv [simp]: "ledger_inv empty_lstate"
  by (simp add: ledger_inv_def empty_lstate_def session_list_def)

lemma ledger_inv_seq [simp]: "ledger_inv (st\<lparr>seq := n\<rparr>) = ledger_inv st"
  by (simp add: ledger_inv_def session_list_def)

lemma ledger_inv_accrue [simp]: "ledger_inv (st\<lparr>balance := x, watermark := y\<rparr>) = ledger_inv st"
  by (simp add: ledger_inv_def session_list_def)

end
