(* ===== verification/BudgetOps.thy ===== *)
theory BudgetOps
  imports Ledger "HOL-Library.Product_Lexorder"
begin

text \<open>
  The operations of \<open>tauceti_worker/budget.py\<close> on the grant ledger: configuration, the waiting queue,
  admission, settlement, reconciliation, cooldowns, repair and the snapshot. Each takes the lock, replays
  the ledger, decides, and appends at most one record, so each is one function from the directory's
  content to its next content.
\<close>

section \<open>The budget directory\<close>

text \<open>
  The decoded ledger, whether its last line is torn, and \<open>waiting.json\<close> (\<open>None\<close> when it is missing
  or is not an object of objects).
\<close>

record budget =
  b_lines :: "lrecord list"
  b_torn :: bool
  b_queue :: "(string \<times> waiter) list option"

definition current :: "budget \<Rightarrow> budget_error + lstate" where
  "current b = ebind (ledger_records (b_torn b) (b_lines b) 0) (replay empty_lstate)"

definition append_events :: "budget \<Rightarrow> lstate \<Rightarrow> rat \<Rightarrow> event list \<Rightarrow> budget" where
  "append_events b st now events = b\<lparr>b_lines := append_record (b_lines b) st now events\<rparr>"

definition waiting_state :: "budget \<Rightarrow> lstate \<Rightarrow> (string \<times> waiter) list" where
  "waiting_state b st = (case b_queue b of None \<Rightarrow> waiting st | Some queue \<Rightarrow> queue)"

definition save_waiting :: "(string \<times> waiter) list \<Rightarrow> budget \<Rightarrow> budget" where
  "save_waiting queue b = b\<lparr>b_queue := Some queue\<rparr>"

text \<open>An optional string that is present and not empty.\<close>

fun given :: "string option \<Rightarrow> bool" where
  "given None = False"
| "given (Some s) = (s \<noteq> [])"

section \<open>Grants and rates\<close>

definition check_configure :: "rat option \<Rightarrow> rat option \<Rightarrow> rat option \<Rightarrow> budget_error + unit" where
  "check_configure grant target new_rate =
     (if grant \<noteq> None \<and> target \<noteq> None then Inl GrantAndSet
      else if (case grant of None \<Rightarrow> False | Some g \<Rightarrow> g \<le> 0) then Inl GrantNotPositive
      else if (case new_rate of None \<Rightarrow> False | Some r \<Rightarrow> r < 0) then Inl RateNegative
      else Inr ())"

definition configure_events ::
  "rat option \<Rightarrow> rat option \<Rightarrow> rat option \<Rightarrow> rat \<Rightarrow> lstate \<Rightarrow> event list" where
  "configure_events grant target new_rate clock st0 =
     (let (accrual, st) = accrue clock st0
      in [accrual]
         @ (case grant of None \<Rightarrow> [] | Some g \<Rightarrow> [Grant g])
         @ (case target of None \<Rightarrow> [] | Some t \<Rightarrow> [SetBalance (balance st) t (t - balance st)])
         @ (case new_rate of None \<Rightarrow> [] | Some r \<Rightarrow> [SetRate r (rate st)]))"

definition configure ::
  "rat option \<Rightarrow> rat option \<Rightarrow> rat option \<Rightarrow> rat \<Rightarrow> budget \<Rightarrow> budget_error + budget" where
  "configure grant target new_rate clock b =
     ebind (check_configure grant target new_rate) (\<lambda>_.
     ebind (current b) (\<lambda>st.
       Inr (append_events b st clock (configure_events grant target new_rate clock st))))"

section \<open>The waiting queue\<close>

definition waiter_fresh :: "rat \<Rightarrow> waiter \<Rightarrow> bool" where
  "waiter_fresh now w \<longleftrightarrow> now - wt_seen w < 120"

definition refresh_waiter :: "string \<Rightarrow> rat \<Rightarrow> budget \<Rightarrow> budget_error + budget" where
  "refresh_waiter worker clock b =
     ebind (current b) (\<lambda>st.
       let queue = waiting_state b st
       in case map_of queue worker of
            None \<Rightarrow> Inr b
          | Some w \<Rightarrow> if waiter_fresh clock w
                      then Inr (save_waiting (dict_set worker (w\<lparr>wt_seen := clock\<rparr>) queue) b)
                      else Inr b)"

text \<open>
  The worker's own entry, unless it is 120 s old. The entry of the queue keeps its ticket and its time
  of arrival; a new one takes \<open>fresh\<close>, the generated ticket.
\<close>

definition previous_waiter :: "(string \<times> waiter) list \<Rightarrow> string \<Rightarrow> rat \<Rightarrow> waiter option" where
  "previous_waiter queue worker now =
     (case map_of queue worker of
        None \<Rightarrow> None
      | Some w \<Rightarrow> if now - wt_seen w \<ge> 120 then None else Some w)"

definition enqueue_waiter ::
  "(string \<times> waiter) list \<Rightarrow> string \<Rightarrow> string \<Rightarrow> string \<Rightarrow> wait_reason \<Rightarrow> rat \<Rightarrow> rat \<Rightarrow> waiter" where
  "enqueue_waiter queue fresh worker model reason est now =
     (let previous = previous_waiter queue worker now
      in \<lparr>wt_worker = worker, wt_model = model,
          wt_ticket = (case previous of None \<Rightarrow> fresh | Some p \<Rightarrow> wt_ticket p),
          wt_since = (case previous of None \<Rightarrow> now | Some p \<Rightarrow> wt_since p),
          wt_seen = now, wt_reason = reason, wt_estimate = est\<rparr>)"

definition wait_for_admission ::
  "string \<Rightarrow> string \<Rightarrow> string \<Rightarrow> string option \<Rightarrow> wait_reason \<Rightarrow> rat \<Rightarrow> budget \<Rightarrow> budget_error + budget" where
  "wait_for_admission fresh worker model phase reason clock b =
     ebind (current b) (\<lambda>st.
       let queue = waiting_state b st;
           est = snd (estimate st model phase True);
           w = enqueue_waiter queue fresh worker model reason est clock
       in Inr (save_waiting (dict_set worker w queue) b))"

definition funding_reasons :: "wait_reason list" where
  "funding_reasons = [AwaitFunding, BehindAnother]"

definition first_waiter :: "(waiter \<Rightarrow> bool) \<Rightarrow> string \<Rightarrow> waiter list \<Rightarrow> waiter option" where
  "first_waiter fresh model ws =
     min_by (\<lambda>w. (wt_since w, wt_ticket w))
       (filter (\<lambda>w. fresh w \<and> wt_reason w \<in> set funding_reasons \<and> wt_model w = model) ws)"

section \<open>Orphaned bridges\<close>

text \<open>
  What the code reads of the host: the modification time of a bridge's heartbeat file, and whether the
  process that owns a session's bridge is alive.
\<close>

record probes =
  heartbeat :: "string \<Rightarrow> rat option"
  owner_alive :: "string \<Rightarrow> bool"

definition orphaned_bridge :: "probes \<Rightarrow> rat \<Rightarrow> session \<Rightarrow> bool" where
  "orphaned_bridge pr now s =
     (if s_status s \<noteq> Active \<or> \<not> given (s_bridge s) then False
      else (let stale = (case heartbeat pr (the (s_bridge s)) of None \<Rightarrow> True | Some m \<Rightarrow> now - m > 30)
            in stale \<and> \<not> owner_alive pr (s_id s)))"

definition bridge_gone :: "string \<Rightarrow> event" where
  "bridge_gone k = Uncertain \<lparr>u_id = k, u_provisional = False, u_outcome = ''bridge disappeared'',
                              u_finished = None, u_reserve = None, u_checkpoint = None\<rparr>"

definition orphan_events :: "probes \<Rightarrow> rat \<Rightarrow> lstate \<Rightarrow> event list" where
  "orphan_events pr now st =
     map (\<lambda>s. bridge_gone (s_id s)) (filter (orphaned_bridge pr now) (active_sessions st))"

definition mark_orphans :: "probes \<Rightarrow> rat \<Rightarrow> lstate \<Rightarrow> lstate" where
  "mark_orphans pr now st =
     st\<lparr>sessions := map (\<lambda>(k, s). (k, if orphaned_bridge pr now s then s\<lparr>s_status := Unresolved\<rparr> else s))
                        (sessions st)\<rparr>"

section \<open>Admission\<close>

definition reserved :: "lstate \<Rightarrow> rat" where
  "reserved st = sum_list (map reserve_of (active_sessions st))"

definition available :: "lstate \<Rightarrow> rat" where
  "available st = balance st - reserved st"

definition cooldown_until :: "lstate \<Rightarrow> string \<Rightarrow> rat" where
  "cooldown_until st model = (case map_of (cooldowns_of st) model of None \<Rightarrow> 0 | Some u \<Rightarrow> u)"

definition live_sessions :: "lstate \<Rightarrow> session list" where
  "live_sessions st = filter (\<lambda>s. s_status s = Active) (active_sessions st)"

text \<open>The first reason, in the code's order, not to launch.\<close>

definition wait_reason_for ::
  "lstate \<Rightarrow> (string \<times> waiter) list \<Rightarrow> string \<Rightarrow> string \<Rightarrow> string option \<Rightarrow> string option \<Rightarrow> rat
   \<Rightarrow> wait_reason option" where
  "wait_reason_for st queue worker model phase resume now =
     (let active = active_sessions st;
          live = live_sessions st;
          (costs, est) = estimate st model phase True;
          first = first_waiter (waiter_fresh now) model (map snd queue)
      in if \<exists>s\<in>set active. given (s_archive s) then Some RepairRequired
         else if given resume \<and> (\<exists>s\<in>set active. s_resume s = resume)
           then Some (if \<exists>s\<in>set live. s_resume s = resume then ResumeInUse else BaselineUnresolved)
         else if cooldown_until st model > now then Some ThroughputCooldown
         else if costs = [] \<and> (\<exists>s\<in>set live. s_model s = model) then Some AwaitCalibration
         else if available st \<le> 0 \<or> available st < est then Some AwaitFunding
         else if (case first of None \<Rightarrow> False | Some f \<Rightarrow> wt_worker f \<noteq> worker) then Some BehindAnother
         else None)"

record request =
  rq_id :: string
  rq_worker :: string
  rq_model :: string
  rq_phase :: string
  rq_bridge :: "string option"
  rq_resume :: "string option"

definition new_session :: "request \<Rightarrow> rat \<Rightarrow> rat \<Rightarrow> session" where
  "new_session r est now =
     \<lparr>s_id = rq_id r, s_worker = rq_worker r, s_model = rq_model r, s_phase = rq_phase r,
      s_estimate = est, s_status = Active, s_started = now, s_bridge = rq_bridge r,
      s_resume = rq_resume r, s_archive = None, s_cost = None, s_outcome = None, s_totals = [],
      s_provenance = None, s_finished = None, s_reserve = None, s_lower_cost = None,
      s_lower_totals = [], s_checkpoint = None, s_tail = None\<rparr>"

datatype answer = Allowed rat | Refused wait_reason rat rat

definition resume_known :: "lstate \<Rightarrow> string option \<Rightarrow> bool" where
  "resume_known st resume \<longleftrightarrow>
     (case resume of None \<Rightarrow> True
      | Some p \<Rightarrow> p = [] \<or> (\<exists>s\<in>set (related st [p] None). p \<in> set (map fst (s_totals s))))"

definition admit :: "probes \<Rightarrow> string \<Rightarrow> rat \<Rightarrow> request \<Rightarrow> budget \<Rightarrow> budget_error + answer \<times> budget" where
  "admit pr fresh clock r b =
     ebind (current b) (\<lambda>st0.
       if rq_id r \<in> fst ` set (sessions st0) then Inl LaunchedTwice
       else
         let (accrual, st1) = accrue clock st0
         in if \<not> resume_known st1 (rq_resume r) then Inl NoResumeBaseline
            else
              let orphans = orphan_events pr clock st1;
                  st = mark_orphans pr clock st1;
                  events = accrual # orphans;
                  est = snd (estimate st (rq_model r) (Some (rq_phase r)) True);
                  queue = waiting_state b st;
                  previous = previous_waiter queue (rq_worker r) clock
              in case wait_reason_for st queue (rq_worker r) (rq_model r) (Some (rq_phase r)) (rq_resume r) clock of
                   Some reason \<Rightarrow>
                     (let w = enqueue_waiter queue fresh (rq_worker r) (rq_model r) reason est clock;
                          b1 = save_waiting (dict_set (rq_worker r) w queue) b;
                          answer = Refused reason est (balance st)
                      in if map_option wt_reason previous \<noteq> Some reason \<or> length events > 1
                         then Inr (answer, append_events b1 st clock (events @ [Wait w]))
                         else Inr (answer, b1))
                 | None \<Rightarrow>
                     Inr (Allowed est,
                          save_waiting (dict_del (rq_worker r) queue)
                            (append_events b st clock (events @ [Admit (new_session r est clock)]))))"

section \<open>Settlement\<close>

definition reverse_prefix :: "session \<Rightarrow> event list" where
  "reverse_prefix s =
     (case s_cost s of None \<Rightarrow> []
      | Some c \<Rightarrow> [Correct \<lparr>c_id = s_id s, c_delta = c, c_cost = 0, c_provenance = None,
                            c_totals = None, c_finished = None\<rparr>])"

definition unresolved_event :: "string \<Rightarrow> string \<Rightarrow> rat option \<Rightarrow> event" where
  "unresolved_event k outcome finished =
     Uncertain \<lparr>u_id = k, u_provisional = False, u_outcome = outcome, u_finished = finished,
                u_reserve = None, u_checkpoint = None\<rparr>"

definition settle ::
  "string \<Rightarrow> rat option \<Rightarrow> string \<Rightarrow> string option \<Rightarrow> totals \<Rightarrow> provenance \<Rightarrow> rat option \<Rightarrow> rat
   \<Rightarrow> budget \<Rightarrow> budget_error + budget" where
  "settle k cost outcome note tot prov finished clock b =
     (if (case cost of None \<Rightarrow> False | Some v \<Rightarrow> v < 0) then Inl CostNegative
      else ebind (current b) (\<lambda>st0.
        case map_of (sessions st0) k of
          None \<Rightarrow> Inl UnknownInvocation
        | Some s \<Rightarrow>
            if s_status s = SettledS then
              (case cost of
                 None \<Rightarrow> Inr b
               | Some v \<Rightarrow> if cost_of s \<noteq> v then Inl ConflictingReceipt else Inr b)
            else
              (let (accrual, st) = accrue clock st0;
                   events = (case cost of
                       None \<Rightarrow> [accrual, unresolved_event k outcome finished]
                     | Some v \<Rightarrow> [accrual] @ reverse_prefix s
                         @ [Settle \<lparr>e_id = k, e_cost = v, e_outcome = outcome, e_note = note,
                                    e_totals = tot, e_provenance = prov, e_finished = finished\<rparr>])
               in Inr (append_events b st clock events))))"

text \<open>
  \<open>reconcile\<close>; \<open>alive\<close> is \<open>invocation_alive\<close>, the supervisor's answer for the session.
\<close>

definition reconcile ::
  "probes \<Rightarrow> (session \<Rightarrow> bool) \<Rightarrow> string \<Rightarrow> rat \<Rightarrow> string \<Rightarrow> rat \<Rightarrow> budget \<Rightarrow> budget_error + budget" where
  "reconcile pr alive k cost note clock b =
     (if py_strip note = [] then Inl NoteRequired
      else if cost < 0 then Inl CostNegative
      else ebind (current b) (\<lambda>st0.
        case map_of (sessions st0) k of
          None \<Rightarrow> Inl UnknownInvocation
        | Some s \<Rightarrow>
            (let beating = (case heartbeat pr (the (s_bridge s)) of None \<Rightarrow> False | Some m \<Rightarrow> clock - m \<le> 30);
                 (accrual, st) = accrue clock st0
             in if s_status s \<noteq> SettledS \<and> given (s_bridge s) \<and> (beating \<or> alive s) then Inl LiveBridge
                else if s_status s \<noteq> SettledS
                then Inr (append_events b st clock
                       ([accrual] @ reverse_prefix s
                        @ [Settle \<lparr>e_id = k, e_cost = cost, e_outcome = ''reconciled'', e_note = Some note,
                                   e_totals = [], e_provenance = NativeReported, e_finished = None\<rparr>]))
                else Inr (append_events b st clock
                       [accrual, Correct \<lparr>c_id = k, c_delta = cost_of s - cost, c_cost = cost,
                                          c_provenance = None, c_totals = None, c_finished = None\<rparr>]))))"

section \<open>Cooldown and repair\<close>

definition cooldown_model :: "string \<Rightarrow> rat \<Rightarrow> rat \<Rightarrow> budget \<Rightarrow> budget_error + budget" where
  "cooldown_model model seconds clock b =
     ebind (current b) (\<lambda>st0.
       let until = max (cooldown_until st0 model) (clock + max 0 seconds);
           (accrual, st) = accrue clock st0
       in Inr (append_events b st clock [accrual, Cooldown model until]))"

text \<open>
  \<open>repair\<close>: only a torn last line is replaced; \<open>b_lines\<close> is then the intact prefix. \<open>fresh\<close> and
  \<open>archive\<close> are the generated identifier and archive path.
\<close>

definition repair_session :: "string \<Rightarrow> string \<Rightarrow> rat \<Rightarrow> session" where
  "repair_session fresh archive now =
     \<lparr>s_id = ''repair-'' @ fresh, s_worker = ''ledger-repair'', s_model = ''unknown'', s_phase = ''repair'',
      s_estimate = 0, s_status = Unresolved, s_started = now, s_bridge = None, s_resume = None,
      s_archive = Some archive, s_cost = None, s_outcome = None, s_totals = [], s_provenance = None,
      s_finished = None, s_reserve = None, s_lower_cost = None, s_lower_totals = [], s_checkpoint = None,
      s_tail = None\<rparr>"

definition repair :: "string \<Rightarrow> string \<Rightarrow> string \<Rightarrow> rat \<Rightarrow> budget \<Rightarrow> budget_error + budget" where
  "repair note fresh archive clock b =
     (if py_strip note = [] then Inl NoteRequired
      else if \<not> b_torn b then Inl NotTorn
      else ebind (ebind (ledger_records False (b_lines b) 0) (replay empty_lstate)) (\<lambda>st0.
        let (accrual, st) = accrue clock st0
        in Inr (append_events (b\<lparr>b_torn := False\<rparr>) st clock
                  [accrual, Admit (repair_session fresh archive clock)])))"

end
