(* ===== verification/BudgetReceipts.thy ===== *)
theory BudgetReceipts
  imports BudgetOps "HOL-Library.Sublist"
begin

text \<open>
  Cost receipts (\<open>Budget.settle_receipt\<close>) and recovered usage journals (\<open>Budget.recover_usage\<close>,
  \<open>budget_usage.evidence\<close>): how a native cumulative total, a provisional lower bound or a saved usage
  journal becomes ledger events. Dictionaries of amounts hold the amounts themselves, so two texts of one
  amount compare equal.
\<close>

section \<open>Decimal amounts\<close>

text \<open>\<open>Decimal(str)\<close>: \<open>None\<close> when the text is malformed or not finite.\<close>

definition money_text :: "string \<Rightarrow> rat option" where
  "money_text s0 =
     (let (sg, s) = take_sign (filter (\<lambda>c. c \<noteq> CHR ''_'') (py_strip s0))
      in map_option (\<lambda>q. sg * q) (unsigned_decimal s))"

text \<open>\<open>money(value)\<close> on a decoded value: the text of a list, an object, a boolean or null is no number.\<close>

fun money_json :: "json \<Rightarrow> rat option" where
  "money_json (JNum (PInt i)) = Some (of_int i)"
| "money_json (JNum (PFloat q)) = Some q"
| "money_json (JStr s) = money_text s"
| "money_json _ = None"

text \<open>
  The checks on an object of decimal strings, in the order of the code's generators: the lower bound
  stops at the first entry that is no text, no decimal or negative; the totals are all texts first.
\<close>

fun lower_entries :: "jdict \<Rightarrow> budget_error + totals" where
  "lower_entries [] = Inr []"
| "lower_entries ((k, JStr v) # d) =
     (case money_text v of
        None \<Rightarrow> Inl NotDecimal
      | Some q \<Rightarrow> if q < 0 then Inl InvalidLowerBound
                  else ebind (lower_entries d) (\<lambda>rest. Inr ((k, q) # rest)))"
| "lower_entries ((k, _) # d) = Inl InvalidLowerBound"

fun text_entries :: "jdict \<Rightarrow> (string \<times> string) list option" where
  "text_entries [] = Some []"
| "text_entries ((k, JStr v) # d) = map_option (\<lambda>rest. (k, v) # rest) (text_entries d)"
| "text_entries ((k, _) # d) = None"

fun native_entries :: "(string \<times> string) list \<Rightarrow> budget_error + totals" where
  "native_entries [] = Inr []"
| "native_entries ((k, v) # d) =
     (case money_text v of
        None \<Rightarrow> Inl NotDecimal
      | Some q \<Rightarrow> if q < 0 then Inl TotalsNegative
                  else ebind (native_entries d) (\<lambda>rest. Inr ((k, q) # rest)))"

section \<open>Reading a receipt\<close>

record receipt =
  rc_id :: string
  rc_outcome :: string
  rc_provisional :: bool
  rc_totals :: "totals option"
  rc_lower :: totals
  rc_finished :: json

definition lower_totals :: "json \<Rightarrow> budget_error + totals" where
  "lower_totals v =
     (if \<not> truthy v then Inr []
      else case v of
        JObj d \<Rightarrow> lower_entries d
      | _ \<Rightarrow> Inl InvalidLowerBound)"

definition native_totals :: "json \<Rightarrow> budget_error + totals option" where
  "native_totals v =
     (case v of
        JNull \<Rightarrow> Inr None
      | JObj d \<Rightarrow> (if d = [] then Inl InvalidTotals
                   else case text_entries d of
                     None \<Rightarrow> Inl InvalidTotals
                   | Some e \<Rightarrow> ebind (native_entries e) (\<lambda>t. Inr (Some t)))
      | _ \<Rightarrow> Inl InvalidTotals)"

definition read_receipt :: "json \<Rightarrow> budget_error + receipt" where
  "read_receipt v =
     (case v of
        JObj r \<Rightarrow>
          (case (jget0 r ''id'', jget0 r ''outcome'') of
             (JStr k, JStr outcome) \<Rightarrow>
               (case jget r ''totals'' of
                  None \<Rightarrow> Inl MissingTotals
                | Some t \<Rightarrow>
                    (let provisional = truthy (jget0 r ''provisional'')
                                       \<or> sublist ''process has not exited'' outcome;
                         lower = (case jget r ''lower_bound_totals'' of
                                    Some l \<Rightarrow> l | None \<Rightarrow> if provisional then t else JNull)
                     in ebind (lower_totals lower) (\<lambda>l.
                        ebind (if provisional then Inr None else native_totals t) (\<lambda>n.
                        Inr \<lparr>rc_id = k, rc_outcome = outcome, rc_provisional = provisional,
                             rc_totals = n, rc_lower = l, rc_finished = jget0 r ''finished''\<rparr>))))
           | _ \<Rightarrow> Inl InvalidReceipt)
      | _ \<Rightarrow> Inl InvalidReceipt)"

section \<open>Guards against contradicting evidence\<close>

text \<open>
  What the supervisor's files and the host say of the invocation: its lifecycle record, whether the
  native process is alive, whether an external exit is proved, and whether the usage journal holds a
  message.
\<close>

record lifecycle =
  lc_recorded :: bool
  lc_native :: bool
  lc_native_alive :: bool
  lc_external :: bool
  lc_exit_proved :: bool
  lc_journal :: bool

definition all_zero :: "totals option \<Rightarrow> bool" where
  "all_zero t = (case t of None \<Rightarrow> False | Some e \<Rightarrow> e \<noteq> [] \<and> list_all (\<lambda>(k, q). q = 0) e)"

definition native_running :: "lifecycle \<Rightarrow> bool" where
  "native_running lc \<longleftrightarrow> lc_recorded lc \<and> lc_native lc \<and> lc_native_alive lc
     \<and> \<not> (lc_external lc \<and> lc_exit_proved lc)"

definition estimated :: "session \<Rightarrow> bool" where
  "estimated s = (case s_provenance s of None \<Rightarrow> False | Some p \<Rightarrow> p \<in> set estimate_provenances)"

text \<open>The finish time of a receipt: absent, or a number between the start and now.\<close>

definition finish_time :: "session \<Rightarrow> rat \<Rightarrow> json \<Rightarrow> budget_error + rat option" where
  "finish_time s clock v =
     (case v of
        JNull \<Rightarrow> Inr None
      | JBool b \<Rightarrow> Inl InvalidFinish
      | _ \<Rightarrow> (case money_json v of
                None \<Rightarrow> Inl NotDecimal
              | Some f \<Rightarrow> if f < s_started s \<or> clock < f then Inl InvalidFinish else Inr (Some f)))"

section \<open>Cumulative baselines\<close>

definition total_of :: "totals \<Rightarrow> string \<Rightarrow> rat" where
  "total_of t p = (case map_of t p of None \<Rightarrow> 0 | Some q \<Rightarrow> q)"

definition raise_baseline :: "totals \<Rightarrow> totals \<Rightarrow> totals" where
  "raise_baseline base t = foldl (\<lambda>b (p, q). dict_set p (max (total_of b p) q) b) base t"

definition before :: "string \<Rightarrow> session list \<Rightarrow> session list" where
  "before k ordered = takeWhile (\<lambda>s. s_id s \<noteq> k) ordered"

definition after :: "string \<Rightarrow> session list \<Rightarrow> session list" where
  "after k ordered = drop 1 (dropWhile (\<lambda>s. s_id s \<noteq> k) ordered)"

definition baseline_of :: "session list \<Rightarrow> totals" where
  "baseline_of priors = foldl (\<lambda>b s. raise_baseline b (s_totals s)) [] priors"

definition differences :: "totals \<Rightarrow> totals \<Rightarrow> rat list" where
  "differences base t = map (\<lambda>(p, q). q - total_of base p) t"

section \<open>A provisional lower bound\<close>

definition tail_reserve :: "lstate \<Rightarrow> session \<Rightarrow> rat \<Rightarrow> rat" where
  "tail_reserve st s known =
     (case (s_provenance s, s_tail s) of
        (Some TokenPricedPrefix, Some t) \<Rightarrow> t
      | _ \<Rightarrow> max (max (s_estimate s) (snd (estimate st (s_model s) (Some (s_phase s)) False))) known)"

definition bound_reserve :: "lstate \<Rightarrow> session \<Rightarrow> rat \<Rightarrow> rat" where
  "bound_reserve st s known =
     max (case s_reserve s of None \<Rightarrow> 0 | Some r \<Rightarrow> r)
         (max 0 (known - cost_of s) + tail_reserve st s known)"

definition same_bound :: "session \<Rightarrow> receipt \<Rightarrow> rat \<Rightarrow> bool" where
  "same_bound s r reserve \<longleftrightarrow>
     s_status s = (if rc_provisional r then Provisional else Unresolved)
     \<and> s_lower_cost s \<noteq> None \<and> set (s_lower_totals s) = set (rc_lower r) \<and> s_reserve s = Some reserve"

definition bound_event :: "receipt \<Rightarrow> rat option \<Rightarrow> rat \<Rightarrow> rat \<Rightarrow> event" where
  "bound_event r finished reserve known =
     Uncertain \<lparr>u_id = rc_id r, u_provisional = rc_provisional r, u_outcome = rc_outcome r,
                u_finished = finished, u_reserve = Some (reserve, known, rc_lower r), u_checkpoint = None\<rparr>"

section \<open>Estimated prefixes under a smaller native total\<close>

text \<open>
  When the native total is below the baseline, the estimated segments before it are scaled to fit
  above the last exact total; \<open>None\<close> is the \<open>break\<close> that leaves the baseline in conflict.
\<close>

fun clamp_estimates ::
  "string \<Rightarrow> rat \<Rightarrow> rat \<Rightarrow> rat \<Rightarrow> rat \<Rightarrow> session list \<Rightarrow> event list \<times> rat" where
  "clamp_estimates provider native exact weight cursor [] = ([], cursor)"
| "clamp_estimates provider native exact weight cursor (p # ps) =
     (let v = (if ps = [] then native - cursor
               else if weight \<noteq> 0 then (native - exact) * cost_of p / weight else 0);
          cursor' = cursor + v;
          (events, end) = clamp_estimates provider native exact weight cursor' ps
      in (Correct \<lparr>c_id = s_id p, c_delta = cost_of p - v, c_cost = v, c_provenance = s_provenance p,
                   c_totals = Some [(provider, cursor')], c_finished = None\<rparr> # events, end))"

definition exact_total :: "string \<Rightarrow> session list \<Rightarrow> rat" where
  "exact_total provider priors =
     (let xs = map (\<lambda>p. total_of (s_totals p) provider) (filter (\<lambda>p. \<not> estimated p) priors)
      in if xs = [] then 0 else Max (set xs))"

definition clamp_provider ::
  "session list \<Rightarrow> string \<Rightarrow> rat \<Rightarrow> (event list \<times> rat) option" where
  "clamp_provider before_list provider native =
     (let priors = filter (\<lambda>p. provider \<in> set (map fst (s_totals p))) before_list;
          exact = exact_total provider priors;
          ests = filter (\<lambda>p. estimated p \<and> exact < total_of (s_totals p) provider) priors
      in if native < exact \<or> ests = [] \<or> (\<exists>p\<in>set ests. set (map fst (s_totals p)) \<noteq> {provider}) then None
         else Some (clamp_estimates provider native exact (sum_list (map cost_of ests)) exact ests))"

fun clamp_totals :: "session list \<Rightarrow> totals \<Rightarrow> totals \<Rightarrow> event list \<times> totals" where
  "clamp_totals before_list base [] = ([], base)"
| "clamp_totals before_list base ((p, native) # rest) =
     (if total_of base p \<le> native then clamp_totals before_list base rest
      else case clamp_provider before_list p native of
             None \<Rightarrow> ([], base)
           | Some (events, cursor) \<Rightarrow>
               (let (more, base') = clamp_totals before_list (dict_set p cursor base) rest
                in (events @ more, base')))"

section \<open>Later baselines after a late native receipt\<close>

fun correct_successors :: "totals \<Rightarrow> rat \<Rightarrow> session list \<Rightarrow> budget_error + event list" where
  "correct_successors tot delta [] = Inr []"
| "correct_successors tot delta (s # ss) =
     (if set (map fst tot) \<noteq> set (map fst (s_totals s)) then Inl MixedBaselines
      else if estimated s then
        ebind (correct_successors tot delta ss) (\<lambda>events.
          Inr (Correct \<lparr>c_id = s_id s, c_delta = 0, c_cost = cost_of s, c_provenance = None,
                        c_totals = Some (map (\<lambda>(k, q). (k, q + delta)) (s_totals s)), c_finished = None\<rparr> # events))
      else if cost_of s - delta < 0 then Inl LaterBaselineConflict
      else Inr [Correct \<lparr>c_id = s_id s, c_delta = delta, c_cost = cost_of s - delta, c_provenance = None,
                        c_totals = None, c_finished = None\<rparr>])"

definition shares_provider :: "totals \<Rightarrow> session \<Rightarrow> bool" where
  "shares_provider tot s \<longleftrightarrow> (\<exists>p\<in>set (map fst (s_totals s)). p \<in> set (map fst tot))"

definition native_events ::
  "receipt \<Rightarrow> session \<Rightarrow> totals \<Rightarrow> rat \<Rightarrow> rat option \<Rightarrow> string option \<Rightarrow> session list
   \<Rightarrow> budget_error + event list" where
  "native_events r s tot cost finished note later_list =
     (let previous = cost_of s
      in if s_status s = SettledS then
           ebind (correct_successors tot (cost - previous)
                    (filter (\<lambda>p. s_status p = SettledS \<and> shares_provider tot p) later_list))
             (\<lambda>later. Inr (Correct \<lparr>c_id = rc_id r, c_delta = previous - cost, c_cost = cost,
                                    c_provenance = Some NativeReported, c_totals = Some tot,
                                    c_finished = finished\<rparr> # later))
         else Inr ((if previous \<noteq> 0 then reverse_prefix s else [])
                   @ [Settle \<lparr>e_id = rc_id r, e_cost = cost, e_outcome = rc_outcome r, e_note = note,
                              e_totals = tot, e_provenance = NativeReported, e_finished = finished\<rparr>]))"

section \<open>\<open>settle_receipt\<close>\<close>

text \<open>
  What the locked part of \<open>settle_receipt\<close> decides: return at once, append these events after the
  accrual, or fall through to \<open>settle(id, None)\<close> for a session that is not settled.
\<close>

datatype receipt_plan = Keep | Append "event list" | FallThrough "rat option"

definition plan_receipt ::
  "lstate \<Rightarrow> rat \<Rightarrow> lifecycle \<Rightarrow> string option \<Rightarrow> receipt \<Rightarrow> session \<Rightarrow> budget_error + receipt_plan" where
  "plan_receipt st clock lc note r s =
     (if rc_outcome r = ''launch-failed'' \<and> all_zero (rc_totals r) \<and> (0 < cost_of s \<or> lc_journal lc)
      then Inl ContradictsUsage
      else if rc_totals r \<noteq> None \<and> native_running lc then Inl LiveNative
      else if s_status s = SettledS \<and> \<not> estimated s then Inr Keep
      else ebind (finish_time s clock (rc_finished r)) (\<lambda>finished.
        let tot = (case rc_totals r of None \<Rightarrow> [] | Some t \<Rightarrow> t);
            ordered = related st (map fst tot @ map fst (rc_lower r)) (Some (rc_id r));
            priors = before (rc_id r) ordered;
            base = baseline_of priors
        in case rc_totals r of
             None \<Rightarrow>
               if s_status s = SettledS then Inr Keep
               else
                 (let diffs = differences base (rc_lower r);
                      known = sum_list diffs;
                      reserve = bound_reserve st s known
                  in if rc_lower r \<noteq> [] \<and> list_all (\<lambda>v. 0 \<le> v) diffs
                     then (if same_bound s r reserve then Inr Keep
                           else Inr (Append [bound_event r finished reserve known]))
                     else Inr (FallThrough finished))
           | Some t \<Rightarrow>
               (let (clamped, base') = clamp_totals priors base t;
                    diffs = differences base' t
                in if list_all (\<lambda>v. 0 \<le> v) diffs
                   then ebind (native_events r s t (sum_list diffs) finished note (after (rc_id r) ordered))
                          (\<lambda>events. Inr (Append (clamped @ events)))
                   else if s_status s = SettledS then Inr Keep
                   else Inr (FallThrough finished))))"

definition settle_receipt ::
  "json \<Rightarrow> string option \<Rightarrow> lifecycle \<Rightarrow> rat \<Rightarrow> budget \<Rightarrow> budget_error + budget" where
  "settle_receipt v note lc clock b =
     ebind (read_receipt v) (\<lambda>r.
     ebind (current b) (\<lambda>st.
       case map_of (sessions st) (rc_id r) of
         None \<Rightarrow> Inl NoAdmission
       | Some s \<Rightarrow>
           ebind (plan_receipt st clock lc note r s) (\<lambda>plan.
             case plan of
               Keep \<Rightarrow> Inr b
             | Append events \<Rightarrow>
                 (let (accrual, st') = accrue clock st in Inr (append_events b st' clock (accrual # events)))
             | FallThrough finished \<Rightarrow>
                 settle (rc_id r) None (rc_outcome r) note [] NativeReported finished clock b)))"

section \<open>Usage journals\<close>

text \<open>A message of a usage journal, and the journal of one invocation (\<open>session_usage\<close>).\<close>

record message =
  m_session :: string
  m_message :: string
  m_cost :: "rat option"
  m_complete :: bool

record journal =
  j_messages :: "message list"
  j_closed :: bool
  j_inflight :: bool
  j_sequence :: int
  j_observed :: string
  j_provider :: "string option"
  j_recovered :: "string option"

record evidence =
  ev_items :: "message list"
  ev_cost :: rat
  ev_complete :: bool
  ev_journal :: journal

definition message_key :: "message \<Rightarrow> string \<times> string" where
  "message_key m = (m_session m, m_message m)"

text \<open>
  \<open>evidence\<close>: the responses of a journal that no earlier invocation of the same resumed provider
  session recorded. \<open>journals\<close> is \<open>session_usage\<close> by invocation, and \<open>linked\<close> what
  \<open>linked_transcript\<close> finds for the session itself.
\<close>

definition replays_session :: "session \<Rightarrow> session \<Rightarrow> bool" where
  "replays_session s prior \<longleftrightarrow> given (s_bridge prior)
     \<and> (s_resume prior = s_resume s \<or> the (s_resume s) \<in> set (map fst (s_totals prior)))"

definition seen_messages :: "(string \<Rightarrow> journal option) \<Rightarrow> session \<Rightarrow> session list \<Rightarrow> (string \<times> string) list" where
  "seen_messages journals s previous =
     (if \<not> given (s_resume s) then []
      else concat (map (\<lambda>p. case journals (s_id p) of None \<Rightarrow> [] | Some j \<Rightarrow> map message_key (j_messages j))
                       (filter (replays_session s) (before (s_id s) previous))))"

text \<open>\<open>evidence_sessions\<close>; \<open>inbox\<close> holds the lower-bound providers of the bridge's own receipt.\<close>

definition evidence_sessions :: "lstate \<Rightarrow> string list \<Rightarrow> session \<Rightarrow> session list" where
  "evidence_sessions st inbox s =
     (let providers = map fst (s_totals s) @ map fst (s_lower_totals s)
                      @ (if given (s_resume s) then [the (s_resume s)] else [])
                      @ (if given (s_bridge s) then inbox else [])
      in related st providers (Some (s_id s)))"

definition usage_evidence ::
  "(string \<Rightarrow> journal option) \<Rightarrow> journal option \<Rightarrow> session \<Rightarrow> session list \<Rightarrow> evidence option" where
  "usage_evidence journals linked s previous =
     (case (case journals (s_id s) of None \<Rightarrow> linked | Some j \<Rightarrow> Some j) of
        None \<Rightarrow> None
      | Some j \<Rightarrow>
          (let seen = seen_messages journals s previous;
               items = filter (\<lambda>m. message_key m \<notin> set seen) (j_messages j)
           in Some \<lparr>ev_items = items,
                    ev_cost = sum_list (map (\<lambda>m. case m_cost m of None \<Rightarrow> 0 | Some c \<Rightarrow> c) items),
                    ev_complete = items \<noteq> [] \<and> j_closed j \<and> \<not> j_inflight j
                                  \<and> list_all (\<lambda>m. m_complete m \<and> m_cost m \<noteq> None) items,
                    ev_journal = j\<rparr>))"

section \<open>\<open>recover_usage\<close>\<close>

text \<open>
  \<open>mark\<close> prints the checkpoint's sequence number, time and cost; \<open>saved\<close> is what \<open>evidence\<close> returned.
\<close>

definition recover_tail :: "lstate \<Rightarrow> session \<Rightarrow> evidence \<Rightarrow> string \<Rightarrow> rat \<Rightarrow> rat" where
  "recover_tail st s saved mark cost =
     (case (s_checkpoint s = Some mark, s_tail s) of
        (True, Some t) \<Rightarrow> t
      | _ \<Rightarrow> if ev_complete saved then 0
             else max (max (s_estimate s) (snd (estimate st (s_model s) (Some (s_phase s)) False))) cost)"

definition recovered_totals :: "lstate \<Rightarrow> session \<Rightarrow> evidence \<Rightarrow> rat \<Rightarrow> totals" where
  "recovered_totals st s saved cost =
     (let primary = (if given (s_resume s) then s_resume s else j_provider (ev_journal saved))
      in if given primary \<and> primary \<noteq> Some ''unknown''
         then (let priors = before (s_id s) (related st [the primary] (Some (s_id s)));
                   base = fold max (map (\<lambda>p. total_of (s_totals p) (the primary)) priors) 0
               in [(the primary, base + cost)])
         else [])"

definition complete_events :: "lstate \<Rightarrow> session \<Rightarrow> evidence \<Rightarrow> string \<Rightarrow> rat \<Rightarrow> event list" where
  "complete_events st s saved note cost =
     (if cost_of s \<noteq> 0 then reverse_prefix s else [])
     @ [Settle \<lparr>e_id = s_id s, e_cost = cost, e_outcome = ''recovered usage estimate'', e_note = Some note,
                e_totals = recovered_totals st s saved cost, e_provenance = TokenPriced, e_finished = None\<rparr>]"

definition prefix_events :: "session \<Rightarrow> string \<Rightarrow> rat \<Rightarrow> rat \<Rightarrow> event list" where
  "prefix_events s mark cost tail =
     [Correct \<lparr>c_id = s_id s, c_delta = cost_of s - cost, c_cost = cost,
               c_provenance = Some TokenPricedPrefix, c_totals = None, c_finished = None\<rparr>,
      Uncertain \<lparr>u_id = s_id s, u_provisional = True,
                 u_outcome = ''incomplete request; token-priced prefix charged'', u_finished = None,
                 u_reserve = Some (tail, (case s_lower_cost s of None \<Rightarrow> 0 | Some c \<Rightarrow> c), s_lower_totals s),
                 u_checkpoint = Some (mark, tail)\<rparr>]"

definition recovered_cost :: "session \<Rightarrow> evidence \<Rightarrow> rat" where
  "recovered_cost s saved = max (ev_cost saved) (case s_lower_cost s of None \<Rightarrow> 0 | Some c \<Rightarrow> c)"

record recovery =
  rv_complete :: bool
  rv_cost :: rat
  rv_reserve :: rat
  rv_source :: string

definition recover_usage ::
  "(int \<Rightarrow> string \<Rightarrow> rat \<Rightarrow> string) \<Rightarrow> (session \<Rightarrow> bool) \<Rightarrow> (lstate \<Rightarrow> session \<Rightarrow> evidence option)
   \<Rightarrow> string \<Rightarrow> string \<Rightarrow> bool \<Rightarrow> rat \<Rightarrow> budget \<Rightarrow> budget_error + recovery option \<times> budget" where
  "recover_usage mark_of live gather k note dry_run clock b =
     ebind (current b) (\<lambda>st.
       case map_of (sessions st) k of
         None \<Rightarrow> Inr (None, b)
       | Some s \<Rightarrow>
           if s_status s = SettledS \<or> live s then Inr (None, b)
           else case gather st s of
             None \<Rightarrow> Inr (None, b)
           | Some saved \<Rightarrow>
               if ev_items saved = [] then Inr (None, b)
               else
                 (let cost = recovered_cost s saved;
                      j = ev_journal saved;
                      mark = mark_of (j_sequence j) (j_observed j) cost;
                      tail = recover_tail st s saved mark cost;
                      result = \<lparr>rv_complete = ev_complete saved, rv_cost = cost, rv_reserve = tail,
                                rv_source = (case j_recovered j of None \<Rightarrow> ''usage-journal'' | Some src \<Rightarrow> src)\<rparr>;
                      (accrual, st') = accrue clock st;
                      write = (\<lambda>events. Inr (Some result, append_events b st' clock (accrual # events)))
                  in if dry_run then Inr (Some result, b)
                     else if ev_complete saved then write (complete_events st s saved note cost)
                     else if cost_of s = cost \<and> s_reserve s = Some tail \<and> s_status s = Provisional
                     then Inr (Some result, b)
                     else write (prefix_events s mark cost tail)))"

end
