(* ===== verification/BudgetView.thy ===== *)
theory BudgetView
  imports BudgetOps
begin

text \<open>
  What readers of the grant ledger see: \<open>Budget.snapshot\<close>, and the preflight \<open>admission_pause\<close> that a
  worker consults before it starts a round. A predicted time is the exact rational.
\<close>

section \<open>The snapshot\<close>

record view =
  v_balance :: rat
  v_rate :: rat
  v_spent :: rat
  v_pending :: rat
  v_available :: rat
  v_active :: "session list"
  v_unresolved :: "string list"
  v_repair :: bool
  v_provisional :: "string list"
  v_lower_bound :: rat
  v_waiting :: "(waiter \<times> rat option) list"
  v_zero_at :: "rat option"
  v_threshold :: rat
  v_funding_at :: "rat option"
  v_clock_backwards :: bool
  v_cooldowns :: "(string \<times> rat) list"
  v_calibrating :: "string list"

definition nano :: rat where
  "nano = 1 / 10 ^ 9"

definition calibrating_models :: "probes \<Rightarrow> rat \<Rightarrow> lstate \<Rightarrow> string list" where
  "calibrating_models pr now st =
     filter (\<lambda>m. fst (estimate st m None True) = [])
       (remdups (map s_model (filter (\<lambda>s. s_status s = Active \<and> \<not> orphaned_bridge pr now s) (active_sessions st))))"

definition funding_time :: "rat \<Rightarrow> rat \<Rightarrow> rat \<Rightarrow> rat \<Rightarrow> rat" where
  "funding_time now need avail r = now + max 0 (max need nano - avail) * 3600 / r"

definition threshold_for :: "waiter list \<Rightarrow> string option \<Rightarrow> rat \<Rightarrow> string option \<Rightarrow> rat" where
  "threshold_for fresh worker est model =
     (case worker of
        None \<Rightarrow> 0
      | Some w \<Rightarrow> (case find (\<lambda>v. wt_worker v = w) fresh of
            Some v \<Rightarrow> wt_estimate v
          | None \<Rightarrow> if given model then est else 0))"

definition view_of ::
  "probes \<Rightarrow> (string \<times> waiter) list \<Rightarrow> string option \<Rightarrow> string option \<Rightarrow> string option \<Rightarrow> rat
   \<Rightarrow> lstate \<Rightarrow> view" where
  "view_of pr queue worker model phase now st =
     (let active = active_sessions st;
          est = (if given model then snd (estimate st (the model) phase True) else 0);
          pending = sum_list (map reserve_of active);
          avail = balance st - pending;
          fresh = filter (waiter_fresh now) (map snd queue);
          threshold = threshold_for fresh worker est model;
          provisional = filter (\<lambda>s. s_status s = Provisional) active
      in \<lparr>v_balance = balance st, v_rate = rate st, v_spent = spent st, v_pending = pending,
          v_available = avail, v_active = active,
          v_unresolved = map s_id (filter (\<lambda>s. s_status s = Unresolved) active),
          v_repair = (\<exists>s\<in>set active. given (s_archive s)),
          v_provisional = map s_id provisional,
          v_lower_bound = sum_list (map (\<lambda>s. case s_lower_cost s of None \<Rightarrow> 0 | Some c \<Rightarrow> c) provisional),
          v_waiting = map (\<lambda>w. (w, if wt_reason w = AwaitFunding \<and> 0 < rate st
                                     then Some (funding_time now (wt_estimate w) avail (rate st)) else None)) fresh,
          v_zero_at = (if balance st < 0 \<and> 0 < rate st then Some (now + - balance st * 3600 / rate st) else None),
          v_threshold = threshold,
          v_funding_at = (if worker \<noteq> None \<and> 0 < rate st \<and> avail < max threshold nano
                          then Some (funding_time now threshold avail (rate st)) else None),
          v_clock_backwards = now < watermark st,
          v_cooldowns = cooldowns_of st,
          v_calibrating = calibrating_models pr now st\<rparr>)"

definition snapshot ::
  "probes \<Rightarrow> string option \<Rightarrow> string option \<Rightarrow> string option \<Rightarrow> rat \<Rightarrow> budget \<Rightarrow> budget_error + view" where
  "snapshot pr worker model phase clock b =
     ebind (current b) (\<lambda>st0.
       let st = snd (accrue clock st0)
       in Inr (view_of pr (waiting_state b st) worker model phase clock st))"

section \<open>The preflight\<close>

definition pause_model :: "view \<Rightarrow> string option \<Rightarrow> string option \<Rightarrow> string option" where
  "pause_model v worker model =
     (case (model, worker) of
        (None, Some w) \<Rightarrow>
          (case find (\<lambda>item. wt_worker item = w) (map fst (v_waiting v)) of
             None \<Rightarrow> None | Some previous \<Rightarrow> Some (wt_model previous))
      | _ \<Rightarrow> model)"

definition admission_pause :: "view \<Rightarrow> string option \<Rightarrow> string option \<Rightarrow> rat \<Rightarrow> wait_reason option" where
  "admission_pause v worker model0 now =
     (let model = pause_model v worker model0;
          first = first_waiter (\<lambda>_. True) (the model) (map fst (v_waiting v))
      in if v_repair v then Some RepairRequired
         else if given model \<and> (case map_of (v_cooldowns v) (the model) of None \<Rightarrow> 0 | Some u \<Rightarrow> u) > now
           then Some ThroughputCooldown
         else if given model \<and> the model \<in> set (v_calibrating v) then Some AwaitCalibration
         else if v_available v \<le> 0 \<or> v_available v < v_threshold v then Some AwaitFunding
         else if worker \<noteq> None \<and> given model
                 \<and> (case first of None \<Rightarrow> False | Some f \<Rightarrow> Some (wt_worker f) \<noteq> worker) then Some BehindAnother
         else None)"

end
