(* ===== verification/BudgetLaws.thy ===== *)
theory BudgetLaws
  imports LedgerLaws BudgetOps BudgetReceipts BudgetView
begin

text \<open>
  What the grant ledger promises: conservation and exact books through every operation, admission
  within the funds, one launch per invocation, settlement that charges once, and a queue that is first
  come, first served.
\<close>

section \<open>Appending to a ledger\<close>

lemma currentE:
  assumes "current b = Inr st"
  obtains "\<not> b_torn b" and "check_records (Suc 0) (b_lines b) = Inr (b_lines b)"
    and "replay empty_lstate (b_lines b) = Inr st" and "seq st = length (b_lines b)"
  using assms seq_is_length
  by (auto simp: current_def ledger_records_def check_records_ok ebind_Inr_iff split: if_splits)

lemma current_append:
  assumes cur: "current b = Inr st0" and lines: "b_lines b' = append_record (b_lines b) st now events"
    and torn: "\<not> b_torn b'" and sq: "seq st = seq st0"
  shows "current b' = replay_events now (st0\<lparr>seq := Suc (seq st0)\<rparr>) events"
proof -
  from cur have chk: "check_records (Suc 0) (b_lines b) = Inr (b_lines b)"
    and rep: "replay empty_lstate (b_lines b) = Inr st0" and n: "seq st0 = length (b_lines b)"
    by (auto elim: currentE)
  let ?r = "\<lparr>l_version = 1, l_seq = Suc (seq st), l_timestamp = now, l_events = events\<rparr>"
  have "check_records (Suc 0) (b_lines b @ [?r]) = Inr (b_lines b @ [?r])"
    by (rule check_records_append [OF chk]) (simp_all add: sq n)
  moreover have "replay_events now (st0\<lparr>seq := Suc (seq st)\<rparr>) events =
      ebind (replay_events now (st0\<lparr>seq := Suc (seq st)\<rparr>) events) (\<lambda>st'. Inr st')"
    by (cases "replay_events now (st0\<lparr>seq := Suc (seq st)\<rparr>) events") simp_all
  ultimately show ?thesis
    using torn rep
    by (simp add: current_def lines append_record_def ledger_records_def replay_append sq)
qed

lemma append_events_simps [simp]:
  "b_lines (append_events b st now es) = append_record (b_lines b) st now es"
  "b_torn (append_events b st now es) = b_torn b" "b_queue (append_events b st now es) = b_queue b"
  by (simp_all add: append_events_def)

lemma save_waiting_simps [simp]:
  "b_lines (save_waiting q b) = b_lines b" "b_torn (save_waiting q b) = b_torn b"
  "b_queue (save_waiting q b) = Some q"
  by (simp_all add: save_waiting_def)

lemma current_save_waiting [simp]: "current (save_waiting q b) = current b"
  by (simp add: current_def)

lemma accrue_simps [simp]:
  "fst (accrue c st) = Accrue ((max (watermark st) c - watermark st) * rate st / 3600) (max (watermark st) c)"
  "sessions (snd (accrue c st)) = sessions st" "waiting (snd (accrue c st)) = waiting st"
  "seq (snd (accrue c st)) = seq st" "rate (snd (accrue c st)) = rate st"
  "spent (snd (accrue c st)) = spent st" "cooldowns_of (snd (accrue c st)) = cooldowns_of st"
  by (simp_all add: accrue_def Let_def)

lemma replay_accrue:
  "replay_event ts (st\<lparr>seq := n\<rparr>) (fst (accrue c st)) = Inr ((snd (accrue c st))\<lparr>seq := n\<rparr>)"
  by (simp add: accrue_def Let_def)

lemma mark_orphans_simps [simp]:
  "balance (mark_orphans pr now st) = balance st" "waiting (mark_orphans pr now st) = waiting st"
  "seq (mark_orphans pr now st) = seq st" "spent (mark_orphans pr now st) = spent st"
  by (simp_all add: mark_orphans_def)

section \<open>Exact books\<close>

text \<open>A ledger in good order: it replays, and its books are exact.\<close>

definition books_ok :: "budget \<Rightarrow> bool" where
  "books_ok b = (case current b of Inl _ \<Rightarrow> False | Inr st \<Rightarrow> ledger_inv st)"

lemma books_okI: "current b = Inr st \<Longrightarrow> ledger_inv st \<Longrightarrow> books_ok b"
  by (simp add: books_ok_def)

lemma books_okE:
  assumes "books_ok b"
  obtains st where "current b = Inr st" and "ledger_inv st"
  using assms by (auto simp: books_ok_def split: sum.splits)

lemma append_books:
  assumes "current b = Inr st0" and "ledger_inv st0"
    and "b_lines b' = append_record (b_lines b) st now (fst (accrue c st0) # events)"
    and "b_torn b' = b_torn b" and "seq st = seq st0"
    and ok: "books.run_ok now ((snd (accrue c st0))\<lparr>seq := Suc (seq st0)\<rparr>) events"
  shows "books_ok b'" and "\<exists>st'. current b' = Inr st'
           \<and> replay_events now ((snd (accrue c st0))\<lparr>seq := Suc (seq st0)\<rparr>) events = Inr st'"
proof -
  from assms(1) have torn: "\<not> b_torn b" by (auto elim: currentE)
  have inv: "ledger_inv ((snd (accrue c st0))\<lparr>seq := Suc (seq st0)\<rparr>)"
    using assms(2) by (auto intro: ledger_inv_same)
  have "current b' = replay_events now ((snd (accrue c st0))\<lparr>seq := Suc (seq st0)\<rparr>) events"
    using current_append [OF assms(1,3)] torn assms(4,5) by (simp only: replay_events.simps replay_accrue ebind.simps simp_thms)
  moreover from books.run_total [OF inv ok]
  obtain st' where "replay_events now ((snd (accrue c st0))\<lparr>seq := Suc (seq st0)\<rparr>) events = Inr st'"
    and "ledger_inv st'" by (auto simp: replay_events_efold)
  ultimately show "books_ok b'" and "\<exists>st'. current b' = Inr st'
           \<and> replay_events now ((snd (accrue c st0))\<lparr>seq := Suc (seq st0)\<rparr>) events = Inr st'"
    by (auto intro: books_okI)
qed

text \<open>Runs of events that change no session are always acceptable.\<close>

fun sessionless :: "event \<Rightarrow> bool" where
  "sessionless (Accrue a m) = True"
| "sessionless (Grant d) = True"
| "sessionless (SetBalance p t d) = True"
| "sessionless (SetRate a p) = True"
| "sessionless (Wait w) = True"
| "sessionless (Cooldown m u) = True"
| "sessionless _ = False"

lemma sessionless_ok: "sessionless e \<Longrightarrow> event_ok st e"
  by (cases e) auto

lemma sessionless_run: "list_all sessionless es \<Longrightarrow> books.run_ok ts st es"
  by (induction es arbitrary: st) (auto simp: sessionless_ok)

lemma configure_books:
  assumes "configure g t r clock b = Inr b'" and "books_ok b"
  shows "books_ok b'"
proof -
  obtain st0 where cur: "current b = Inr st0" and inv: "ledger_inv st0"
    using assms(2) by (rule books_okE)
  have b': "b' = append_events b st0 clock (configure_events g t r clock st0)"
    using assms(1) cur by (auto simp: configure_def)
  define more where "more = tl (configure_events g t r clock st0)"
  have ev: "configure_events g t r clock st0 = fst (accrue clock st0) # more"
    by (simp add: more_def configure_events_def case_prod_beta Let_def)
  have "list_all sessionless more"
    by (auto simp: more_def configure_events_def case_prod_beta Let_def split: option.splits)
  then show ?thesis
    using append_books [OF cur inv, of b' st0 clock clock more] b' ev sessionless_run by simp
qed

lemma cooldown_books:
  assumes "cooldown_model m secs clock b = Inr b'" and "books_ok b"
  shows "books_ok b'"
proof -
  obtain st0 where cur: "current b = Inr st0" and inv: "ledger_inv st0"
    using assms(2) by (rule books_okE)
  show ?thesis
    using append_books [OF cur inv, of b' "snd (accrue clock st0)" clock clock] assms(1) cur
    by (auto simp: cooldown_model_def case_prod_beta Let_def)
qed

lemma refresh_books:
  assumes "refresh_waiter w clock b = Inr b'" and "books_ok b"
  shows "books_ok b'"
  using assms by (auto simp: refresh_waiter_def books_ok_def Let_def split: sum.splits option.splits if_splits)

lemma wait_books:
  assumes "wait_for_admission fresh w m p reason clock b = Inr b'" and "books_ok b"
  shows "books_ok b'"
  using assms by (auto simp: wait_for_admission_def books_ok_def Let_def split: sum.splits)

lemma repair_books:
  assumes "repair note fresh archive clock b = Inr b'" and "books_ok (b\<lparr>b_torn := False\<rparr>)"
    and new: "\<And>st. current (b\<lparr>b_torn := False\<rparr>) = Inr st \<Longrightarrow> ''repair-'' @ fresh \<notin> fst ` set (sessions st)"
  shows "books_ok b'"
proof -
  let ?b = "b\<lparr>b_torn := False\<rparr>"
  obtain st0 where cur: "current ?b = Inr st0" and inv: "ledger_inv st0"
    using assms(2) by (rule books_okE)
  have b': "b' = append_events ?b (snd (accrue clock st0)) clock
              [fst (accrue clock st0), Admit (repair_session fresh archive clock)]"
    using assms(1) cur by (auto simp: repair_def current_def case_prod_beta Let_def split: if_splits)
  have "map_of (sessions st0) (''repair-'' @ fresh) = None"
    using new [OF cur] by (simp add: map_of_eq_None_iff)
  then show ?thesis
    using append_books [OF cur inv, of b' "snd (accrue clock st0)" clock clock] b'
    by (simp add: repair_session_def)
qed

section \<open>Orphans: the state in memory is the state replayed\<close>

lemma bridge_gone_apply:
  "replay_event ts st (bridge_gone k) = on_session st k (\<lambda>s. s\<lparr>s_status := Unresolved\<rparr>) (\<lambda>st'. st')"
  by (simp add: bridge_gone_def on_session_def apply_uncertainty_def override_def split: option.split)

lemma dict_set_middle:
  "k \<notin> fst ` set pre \<Longrightarrow> dict_set k v (pre @ (k, w) # d) = pre @ (k, v) # d"
  by (induction pre) auto

lemma map_of_middle:
  "k \<notin> fst ` set pre \<Longrightarrow> map_of (pre @ (k, w) # d) k = Some w"
  by (induction pre) auto

lemma replay_orphans_gen:
  assumes "distinct (map fst (pre @ d))" and "list_all (\<lambda>(k, s). s_id s = k) d"
  shows "replay_events ts (st\<lparr>sessions := pre @ d\<rparr>)
           (map (\<lambda>s. bridge_gone (s_id s)) (filter P (map snd d)))
         = Inr (st\<lparr>sessions := pre @ map (\<lambda>(k, s). (k, if P s then s\<lparr>s_status := Unresolved\<rparr> else s)) d\<rparr>)"
  using assms
proof (induction d arbitrary: pre)
  case Nil
  then show ?case by simp
next
  case (Cons p d)
  obtain k s where p: "p = (k, s)" by (cases p)
  with Cons.prems have k: "k \<notin> fst ` set pre" and id: "s_id s = k" by auto
  let ?s = "if P s then s\<lparr>s_status := Unresolved\<rparr> else s"
  have "distinct (map fst ((pre @ [(k, ?s)]) @ d))" using Cons.prems p by simp
  moreover have "list_all (\<lambda>(k, s). s_id s = k) d" using Cons.prems by simp
  ultimately have IH: "replay_events ts (st\<lparr>sessions := (pre @ [(k, ?s)]) @ d\<rparr>)
           (map (\<lambda>s. bridge_gone (s_id s)) (filter P (map snd d)))
         = Inr (st\<lparr>sessions := (pre @ [(k, ?s)])
              @ map (\<lambda>(k, s). (k, if P s then s\<lparr>s_status := Unresolved\<rparr> else s)) d\<rparr>)"
    by (rule Cons.IH)
  show ?case
    using IH k id by (simp add: p bridge_gone_apply on_session_def dict_set_middle map_of_middle
        del: map_of_append split: if_splits)
qed

lemma orphan_events_all:
  "orphan_events pr now st = map (\<lambda>s. bridge_gone (s_id s)) (filter (orphaned_bridge pr now) (map snd (sessions st)))"
proof -
  have "orphaned_bridge pr now s \<Longrightarrow> s_status s \<noteq> SettledS" for s
    by (auto simp: orphaned_bridge_def split: if_splits)
  then have "(\<lambda>s. s_status s \<noteq> SettledS \<and> orphaned_bridge pr now s) = orphaned_bridge pr now" by auto
  then show ?thesis by (simp add: orphan_events_def active_sessions_def session_list_def conj_commute)
qed

lemma replay_orphans:
  assumes "ledger_inv st"
  shows "replay_events ts st (orphan_events pr now st) = Inr (mark_orphans pr now st)"
proof -
  have "distinct (map fst ([] @ sessions st))" and "list_all (\<lambda>(k, s). s_id s = k) (sessions st)"
    using assms by (auto simp: ledger_inv_def list_all_iff session_wf_def)
  from replay_orphans_gen [OF this, of ts st "orphaned_bridge pr now"] show ?thesis
    by (simp add: orphan_events_all mark_orphans_def)
qed

lemma mark_orphans_seq [simp]:
  "mark_orphans pr now (st\<lparr>seq := n\<rparr>) = (mark_orphans pr now st)\<lparr>seq := n\<rparr>"
  "orphan_events pr now (st\<lparr>seq := n\<rparr>) = orphan_events pr now st"
  by (simp_all add: mark_orphans_def orphan_events_all)

lemma mark_orphans_keys [simp]: "fst ` set (sessions (mark_orphans pr now st)) = fst ` set (sessions st)"
  by (force simp: mark_orphans_def)

lemma uncertain_run_ok:
  "list_all (\<lambda>e. \<exists>u. e = Uncertain u \<and> u_id u \<in> fst ` set (sessions st)) es \<Longrightarrow> books.run_ok ts st es"
proof (induction es arbitrary: st)
  case Nil
  then show ?case by simp
next
  case (Cons e es)
  then obtain u where e: "e = Uncertain u" and u: "u_id u \<in> fst ` set (sessions st)" by auto
  then have "event_ok st e" by (simp add: map_of_eq_None_iff)
  moreover have "books.run_ok ts st' es" if "replay_event ts st e = Inr st'" for st'
  proof -
    from that e obtain v where "st' = st\<lparr>sessions := dict_set (u_id u) v (sessions st)\<rparr>"
      by (auto elim!: on_session_Inr)
    then have "fst ` set (sessions st') = fst ` set (sessions st)"
      using u by (simp add: insert_absorb)
    with Cons show ?thesis by simp
  qed
  ultimately show ?case by simp
qed

lemma run_ok_append:
  "books.run_ok ts st xs \<Longrightarrow> (\<And>st'. replay_events ts st xs = Inr st' \<Longrightarrow> books.run_ok ts st' ys)
   \<Longrightarrow> books.run_ok ts st (xs @ ys)"
  by (induction xs arbitrary: st) auto

text \<open>Acceptance looks only at the sessions.\<close>

lemma event_ok_sessions: "sessions st = sessions st' \<Longrightarrow> event_ok st e = event_ok st' e"
  by (cases e) simp_all

lemma replay_event_sessions:
  assumes "sessions st = sessions st'" and "replay_event ts st' e = Inr st2"
  shows "\<exists>st1. replay_event ts st e = Inr st1 \<and> sessions st1 = sessions st2"
  using assms by (cases e) (auto simp: on_session_def split: option.splits)

lemma run_ok_sessions: "books.run_ok ts st es \<Longrightarrow> sessions st = sessions st' \<Longrightarrow> books.run_ok ts st' es"
proof (induction es arbitrary: st st')
  case Nil
  then show ?case by simp
next
  case (Cons e es)
  have "books.run_ok ts st2 es" if "replay_event ts st' e = Inr st2" for st2
    using replay_event_sessions [OF Cons.prems(2) that] Cons.prems(1) Cons.IH by auto
  moreover have "event_ok st' e" using Cons.prems event_ok_sessions [of st st' e] by simp
  ultimately show ?case unfolding books.run_ok.simps by blast
qed

lemma orphans_run_ok: "ledger_inv st \<Longrightarrow> books.run_ok ts st (orphan_events pr now st)"
  by (rule uncertain_run_ok)
     (force simp: orphan_events_all list_all_iff bridge_gone_def ledger_inv_def session_wf_def)

section \<open>Admission keeps the books\<close>

text \<open>The outcome of an admission that returns, by its decision.\<close>

definition admit_base :: "probes \<Rightarrow> rat \<Rightarrow> lstate \<Rightarrow> lstate" where
  "admit_base pr clock st0 = mark_orphans pr clock (snd (accrue clock st0))"

lemma admitE:
  assumes "admit pr fresh clock r b = Inr (a, b')" and cur: "current b = Inr st0"
  obtains
    (allowed) "rq_id r \<notin> fst ` set (sessions st0)"
      and "wait_reason_for (admit_base pr clock st0) (waiting_state b (admit_base pr clock st0)) (rq_worker r)
             (rq_model r) (Some (rq_phase r)) (rq_resume r) clock = None"
      and "a = Allowed (snd (estimate (admit_base pr clock st0) (rq_model r) (Some (rq_phase r)) True))"
      and "b_lines b' = append_record (b_lines b) (admit_base pr clock st0) clock
             (fst (accrue clock st0) # orphan_events pr clock (snd (accrue clock st0))
              @ [Admit (new_session r (snd (estimate (admit_base pr clock st0) (rq_model r) (Some (rq_phase r)) True)) clock)])"
      and "b_torn b' = b_torn b" and "b_queue b' = Some (dict_del (rq_worker r) (waiting_state b st0))"
  | (refused) reason where "rq_id r \<notin> fst ` set (sessions st0)"
      and "wait_reason_for (admit_base pr clock st0) (waiting_state b (admit_base pr clock st0)) (rq_worker r)
             (rq_model r) (Some (rq_phase r)) (rq_resume r) clock = Some reason"
      and "a = Refused reason (snd (estimate (admit_base pr clock st0) (rq_model r) (Some (rq_phase r)) True))
                 (balance (admit_base pr clock st0))"
      and "b_torn b' = b_torn b"
      and "b_queue b' = Some (dict_set (rq_worker r) (enqueue_waiter (waiting_state b st0) fresh (rq_worker r)
             (rq_model r) reason (snd (estimate (admit_base pr clock st0) (rq_model r) (Some (rq_phase r)) True)) clock)
             (waiting_state b st0))"
      and "b_lines b' = b_lines b \<or> b_lines b' = append_record (b_lines b) (admit_base pr clock st0) clock
             (fst (accrue clock st0) # orphan_events pr clock (snd (accrue clock st0))
              @ [Wait (enqueue_waiter (waiting_state b st0) fresh (rq_worker r)
             (rq_model r) reason (snd (estimate (admit_base pr clock st0) (rq_model r) (Some (rq_phase r)) True)) clock)])"
proof -
  have ws: "waiting_state b (mark_orphans pr clock (snd (accrue clock st0))) = waiting_state b st0"
    by (simp add: waiting_state_def split: option.split)
  show thesis
    using assms(1)
    apply (simp add: admit_def cur case_prod_beta Let_def flip: admit_base_def split: if_splits option.splits)
     apply (rule allowed; auto simp: admit_base_def ws)
    apply (rule refused; auto simp: admit_base_def ws)
    apply (rule refused; auto simp: admit_base_def ws)
    done
qed

lemma admit_run_ok:
  assumes inv: "ledger_inv st0" and new: "rq_id r \<notin> fst ` set (sessions st0)"
    and tail: "e = Admit (new_session r est now) \<or> e = Wait w"
  shows "books.run_ok ts ((snd (accrue clock st0))\<lparr>seq := n\<rparr>) (orphan_events pr clock (snd (accrue clock st0)) @ [e])"
proof (rule run_ok_append)
  let ?st = "(snd (accrue clock st0))\<lparr>seq := n\<rparr>"
  have inv': "ledger_inv ?st" using inv by (auto intro: ledger_inv_same)
  show "books.run_ok ts ?st (orphan_events pr clock (snd (accrue clock st0)))"
    using orphans_run_ok [OF inv', of ts pr clock] by simp
  fix st' assume "replay_events ts ?st (orphan_events pr clock (snd (accrue clock st0))) = Inr st'"
  then have "st' = mark_orphans pr clock ?st"
    using replay_orphans [OF inv', of ts pr clock] by simp
  then have "rq_id r \<notin> fst ` set (sessions st')" using new by (simp del: mark_orphans_seq)
  then show "books.run_ok ts st' [e]"
    using tail by (auto simp: new_session_def map_of_eq_None_iff)
qed

lemma admit_books:
  assumes "admit pr fresh clock r b = Inr (a, b')" and "books_ok b"
  shows "books_ok b'"
proof -
  obtain st0 where cur: "current b = Inr st0" and inv: "ledger_inv st0"
    using assms(2) by (rule books_okE)
  have sq: "seq (admit_base pr clock st0) = seq st0" by (simp add: admit_base_def)
  from assms(1) cur show ?thesis
  proof (cases rule: admitE)
    case allowed
    show ?thesis
      using append_books(1) [OF cur inv allowed(4,5) sq] admit_run_ok [OF inv allowed(1)] by blast
  next
    case (refused reason)
    from refused(6) show ?thesis
    proof
      assume "b_lines b' = b_lines b"
      then have "current b' = current b" using refused(4) by (simp add: current_def)
      with cur inv show ?thesis by (simp add: books_ok_def)
    next
      assume l: "b_lines b' = append_record (b_lines b) (admit_base pr clock st0) clock
             (fst (accrue clock st0) # orphan_events pr clock (snd (accrue clock st0))
              @ [Wait (enqueue_waiter (waiting_state b st0) fresh (rq_worker r) (rq_model r) reason
                   (snd (estimate (admit_base pr clock st0) (rq_model r) (Some (rq_phase r)) True)) clock)])"
      show ?thesis
        using append_books(1) [OF cur inv l refused(4) sq] admit_run_ok [OF inv refused(1)] by blast
    qed
  qed
qed

section \<open>Settlement keeps the books\<close>

lemma run_ok_settle:
  assumes inv: "ledger_inv st" and s: "map_of (sessions st) k = Some s" and k: "e_id e = k" "s_id s = k"
    and pre: "pre = reverse_prefix s \<or> pre = [] \<and> cost_of s = 0"
  shows "books.run_ok ts st (pre @ [Settle e])"
proof (cases "s_cost s")
  case None
  with pre have "pre = []" by (auto simp: reverse_prefix_def)
  with None s k show ?thesis by (simp add: cost_of_def)
next
  case (Some c)
  then show ?thesis
    using pre s k by (auto simp: reverse_prefix_def cost_of_def on_session_def apply_correction_def)
qed

lemma settle_books:
  assumes "settle k cost outcome note tot prov fin clock b = Inr b'" and "books_ok b"
  shows "books_ok b'"
proof -
  obtain st0 where cur: "current b = Inr st0" and inv: "ledger_inv st0"
    using assms(2) by (rule books_okE)
  from assms(1) cur obtain s where s: "map_of (sessions st0) k = Some s"
    by (auto simp: settle_def split: if_splits option.splits)
  have id: "s_id s = k" using map_of_wf [OF inv s] by (simp add: session_wf_def)
  let ?st = "(snd (accrue clock st0))\<lparr>seq := Suc (seq st0)\<rparr>"
  have inv': "ledger_inv ?st" using inv by (auto intro: ledger_inv_same)
  consider "b' = b" | "s_status s \<noteq> SettledS" "cost = None"
      "b' = append_events b (snd (accrue clock st0)) clock (fst (accrue clock st0) # [unresolved_event k outcome fin])"
    | v where "s_status s \<noteq> SettledS" "cost = Some v"
      "b' = append_events b (snd (accrue clock st0)) clock (fst (accrue clock st0) # reverse_prefix s
         @ [Settle \<lparr>e_id = k, e_cost = v, e_outcome = outcome, e_note = note, e_totals = tot,
                    e_provenance = prov, e_finished = fin\<rparr>])"
    using assms(1) cur s
    by (cases cost; cases "s_status s = SettledS") (auto simp: settle_def case_prod_beta Let_def split: if_splits)
  then show ?thesis
  proof cases
    case 1
    with assms(2) show ?thesis by simp
  next
    case 2
    have "books.run_ok clock ?st [unresolved_event k outcome fin]"
      using s by (simp add: unresolved_event_def)
    with 2 show ?thesis using append_books(1) [OF cur inv, of b' "snd (accrue clock st0)" clock clock] by simp
  next
    case (3 v)
    have "books.run_ok clock ?st (reverse_prefix s @ [Settle \<lparr>e_id = k, e_cost = v, e_outcome = outcome,
            e_note = note, e_totals = tot, e_provenance = prov, e_finished = fin\<rparr>])"
      by (rule run_ok_settle [OF inv', of k s]) (use s id in simp_all)
    with 3 show ?thesis using append_books(1) [OF cur inv, of b' "snd (accrue clock st0)" clock clock] by simp
  qed
qed

lemma reconcile_books:
  assumes "reconcile pr alive k cost note clock b = Inr b'" and "books_ok b"
  shows "books_ok b'"
proof -
  obtain st0 where cur: "current b = Inr st0" and inv: "ledger_inv st0"
    using assms(2) by (rule books_okE)
  from assms(1) cur obtain s where s: "map_of (sessions st0) k = Some s"
    by (auto simp: reconcile_def split: if_splits option.splits)
  have id: "s_id s = k" using map_of_wf [OF inv s] by (simp add: session_wf_def)
  let ?st = "(snd (accrue clock st0))\<lparr>seq := Suc (seq st0)\<rparr>"
  have inv': "ledger_inv ?st" using inv by (auto intro: ledger_inv_same)
  show ?thesis
  proof (cases "s_status s = SettledS")
    case True
    let ?c = "\<lparr>c_id = k, c_delta = cost_of s - cost, c_cost = cost,
                c_provenance = None, c_totals = None, c_finished = None\<rparr>"
    have "b' = append_events b (snd (accrue clock st0)) clock (fst (accrue clock st0) # [Correct ?c])"
      using assms(1) cur s True by (simp add: reconcile_def case_prod_beta Let_def split: if_splits)
    moreover have "books.run_ok clock ?st [Correct ?c]" using s by simp
    ultimately show ?thesis
      using append_books(1) [OF cur inv, of b' "snd (accrue clock st0)" clock clock] by simp
  next
    case False
    let ?e = "\<lparr>e_id = k, e_cost = cost, e_outcome = ''reconciled'', e_note = Some note,
                e_totals = [], e_provenance = NativeReported, e_finished = None\<rparr>"
    have "b' = append_events b (snd (accrue clock st0)) clock
                 (fst (accrue clock st0) # reverse_prefix s @ [Settle ?e])"
      using assms(1) cur s False by (simp add: reconcile_def case_prod_beta Let_def split: if_splits)
    moreover have "books.run_ok clock ?st (reverse_prefix s @ [Settle ?e])"
      by (rule run_ok_settle [OF inv', of k s]) (use s id in simp_all)
    ultimately show ?thesis
      using append_books(1) [OF cur inv, of b' "snd (accrue clock st0)" clock clock] by simp
  qed
qed

end
