(* ===== verification/ReceiptLaws.thy ===== *)
theory ReceiptLaws
  imports BudgetLaws BudgetReceipts
begin

text \<open>
  Laws of cost receipts and recovered usage: the books stay exact, a native cumulative total is charged
  by its increment, scaled estimates add up to the native total, a reserve under a lower bound never
  shrinks, recovery is idempotent, and each provider response is charged to one invocation.
\<close>

section \<open>Corrections of distinct sessions\<close>

definition corrects :: "correction \<Rightarrow> session \<Rightarrow> bool" where
  "corrects c s \<longleftrightarrow> c_id c = s_id s \<and> c_delta c = cost_of s - c_cost c"

lemma corrects_simps [simp]:
  "corrects \<lparr>c_id = k, c_delta = d, c_cost = v, c_provenance = p, c_totals = t, c_finished = f\<rparr> s
   \<longleftrightarrow> k = s_id s \<and> d = cost_of s - v"
  by (simp add: corrects_def)

lemma replay_correct_other:
  "replay_event ts st (Correct c) = Inr st' \<Longrightarrow> k \<noteq> c_id c \<Longrightarrow> map_of (sessions st') k = map_of (sessions st) k"
  by (auto elim!: on_session_Inr)

lemma replay_corrections_other:
  "replay_events ts st (map Correct cs) = Inr st' \<Longrightarrow> k \<notin> set (map c_id cs)
   \<Longrightarrow> map_of (sessions st') k = map_of (sessions st) k"
proof (induction cs arbitrary: st)
  case Nil
  then show ?case by simp
next
  case (Cons c cs)
  then obtain st1 where "replay_event ts st (Correct c) = Inr st1"
    and "replay_events ts st1 (map Correct cs) = Inr st'"
    by (auto simp del: replay_event.simps)
  with Cons replay_correct_other [of ts st c st1 k] show ?case by auto
qed

lemma corrections_run_ok:
  assumes "list_all2 corrects cs ps" and "distinct (map s_id ps)"
    and "\<forall>p\<in>set ps. map_of (sessions st) (s_id p) = Some p"
  shows "books.run_ok ts st (map Correct cs)"
  using assms
proof (induction cs ps arbitrary: st rule: list_all2_induct)
  case Nil
  then show ?case by simp
next
  case (Cons c cs p ps)
  then have ok: "event_ok st (Correct c)" by (simp add: corrects_def)
  have "books.run_ok ts st' (map Correct cs)" if "replay_event ts st (Correct c) = Inr st'" for st'
  proof (rule Cons.IH)
    show "distinct (map s_id ps)" using Cons.prems by simp
    show "\<forall>p\<in>set ps. map_of (sessions st') (s_id p) = Some p"
    proof
      fix q assume q: "q \<in> set ps"
      then have "s_id q \<in> set (map s_id ps)" by simp
      then have "s_id q \<noteq> c_id c" using Cons.prems(1) Cons.hyps(1) by (auto simp: corrects_def simp del: set_map)
      then have "map_of (sessions st') (s_id q) = map_of (sessions st) (s_id q)"
        by (rule replay_correct_other [OF that])
      moreover have "map_of (sessions st) (s_id q) = Some q" using q Cons.prems(2) by (meson list.set_intros(2))
      ultimately show "map_of (sessions st') (s_id q) = Some q" by (rule trans)
    qed
  qed
  with ok show ?case unfolding list.map books.run_ok.simps by blast
qed

lemma corrections_ids: "list_all2 corrects cs ps \<Longrightarrow> map c_id cs = map s_id ps"
  by (induction rule: list_all2_induct) (auto simp: corrects_def)

section \<open>The events of a native receipt\<close>

lemma clamp_estimates_corrects:
  "\<exists>cs. fst (clamp_estimates pr nv ex w cur ps) = map Correct cs \<and> list_all2 corrects cs ps"
proof (induction ps arbitrary: cur)
  case Nil
  then show ?case by simp
next
  case (Cons p ps)
  define v where "v = (if ps = [] then nv - cur else if w \<noteq> 0 then (nv - ex) * cost_of p / w else 0)"
  obtain cs where cs: "fst (clamp_estimates pr nv ex w (cur + v) ps) = map Correct cs" "list_all2 corrects cs ps"
    using Cons.IH by blast
  let ?c = "\<lparr>c_id = s_id p, c_delta = cost_of p - v, c_cost = v, c_provenance = s_provenance p,
              c_totals = Some [(pr, cur + v)], c_finished = None\<rparr>"
  have "fst (clamp_estimates pr nv ex w cur (p # ps)) = map Correct (?c # cs)"
    using cs(1) by (simp add: v_def Let_def case_prod_beta)
  moreover have "list_all2 corrects (?c # cs) (p # ps)" using cs(2) by simp
  ultimately show ?case by blast
qed

lemma clamp_totals_corrects:
  assumes "distinct (map fst tot)" and "distinct (map s_id bl)"
  shows "\<exists>cs ps. fst (clamp_totals bl base tot) = map Correct cs \<and> list_all2 corrects cs ps
           \<and> distinct (map s_id ps) \<and> set ps \<subseteq> set bl
           \<and> (\<forall>p\<in>set ps. \<exists>k\<in>set (map fst tot). set (map fst (s_totals p)) = {k})"
  using assms(1)
proof (induction tot arbitrary: base)
  case Nil
  then show ?case by (auto intro!: exI [of _ "[]"])
next
  case (Cons e tot)
  obtain p native where e: "e = (p, native)" by (cases e)
  have d: "distinct (map fst tot)" and p: "p \<notin> set (map fst tot)" using Cons.prems e by auto
  show ?case
  proof (cases "total_of base p \<le> native")
    case True
    then have "clamp_totals bl base (e # tot) = clamp_totals bl base tot" by (simp add: e)
    moreover obtain cs ps where "fst (clamp_totals bl base tot) = map Correct cs" "list_all2 corrects cs ps"
        "distinct (map s_id ps)" "set ps \<subseteq> set bl"
        and ks: "\<forall>q\<in>set ps. \<exists>k\<in>set (map fst tot). set (map fst (s_totals q)) = {k}"
      using Cons.IH [OF d, of base] by blast
    moreover have "\<forall>q\<in>set ps. \<exists>k\<in>set (map fst (e # tot)). set (map fst (s_totals q)) = {k}"
    proof
      fix q assume "q \<in> set ps"
      from bspec [OF ks this] obtain k where "k \<in> set (map fst tot)" "set (map fst (s_totals q)) = {k}"
        by (elim bexE)
      then show "\<exists>k\<in>set (map fst (e # tot)). set (map fst (s_totals q)) = {k}" by (intro bexI [of _ k]) simp_all
    qed
    ultimately show ?thesis by metis
  next
    case False
    show ?thesis
    proof (cases "clamp_provider bl p native")
      case None
      with False show ?thesis by (auto simp: e intro!: exI [of _ "[]"])
    next
      case (Some r)
      obtain ests w ex where r: "r = clamp_estimates p native ex w ex ests"
        and sub: "ests = filter (\<lambda>q. estimated q \<and> ex < total_of (s_totals q) p)
                     (filter (\<lambda>q. p \<in> set (map fst (s_totals q))) bl)"
        and only: "\<forall>q\<in>set ests. set (map fst (s_totals q)) = {p}"
        using Some by (auto simp: clamp_provider_def Let_def split: if_splits)
      obtain cs1 where cs1: "fst r = map Correct cs1" "list_all2 corrects cs1 ests"
        using clamp_estimates_corrects r by blast
      obtain cs2 ps2 where cs2: "fst (clamp_totals bl (dict_set p (snd r) base) tot) = map Correct cs2"
        "list_all2 corrects cs2 ps2" "distinct (map s_id ps2)" "set ps2 \<subseteq> set bl"
        "\<forall>q\<in>set ps2. \<exists>k\<in>set (map fst tot). set (map fst (s_totals q)) = {k}"
        using Cons.IH [OF d] by blast
      have "set ests \<inter> set ps2 = {}" using only cs2(5) p by fastforce
      moreover have "set ests \<subseteq> set bl" using sub by auto
      moreover have "distinct (map s_id ests)" using assms(2) by (simp add: sub distinct_map_filter)
      moreover from assms(2) have "inj_on s_id (set bl)" by (simp add: distinct_map)
      ultimately have "distinct (map s_id (ests @ ps2))"
        using cs2(3,4) by (simp add: inj_on_def disjoint_iff image_iff) (metis subsetD)
      moreover have "list_all2 corrects (cs1 @ cs2) (ests @ ps2)" using cs1 cs2 by (simp add: list_all2_appendI)
      moreover have "fst (clamp_totals bl base (e # tot)) = map Correct (cs1 @ cs2)"
        using False Some cs1(1) cs2(1) by (simp add: e case_prod_beta Let_def)
      moreover have "\<forall>q\<in>set (ests @ ps2). \<exists>k\<in>set (map fst (e # tot)). set (map fst (s_totals q)) = {k}"
        using only cs2(5) by (auto simp: e)
      ultimately show ?thesis using \<open>set ests \<subseteq> set bl\<close> cs2(4)
        by (intro exI [of _ "cs1 @ cs2"] exI [of _ "ests @ ps2"]) auto
    qed
  qed
qed

lemma correct_successors_corrects:
  "correct_successors tot delta ss = Inr es
   \<Longrightarrow> \<exists>cs n. es = map Correct cs \<and> list_all2 corrects cs (take n ss)"
proof (induction ss arbitrary: es)
  case Nil
  then show ?case by auto
next
  case (Cons s ss)
  show ?case
  proof (cases "estimated s")
    case True
    with Cons.prems obtain es' where es': "correct_successors tot delta ss = Inr es'"
      and es: "es = Correct \<lparr>c_id = s_id s, c_delta = 0, c_cost = cost_of s, c_provenance = None,
                 c_totals = Some (map (\<lambda>(k, q). (k, q + delta)) (s_totals s)), c_finished = None\<rparr> # es'"
      by (auto split: if_splits)
    obtain cs n where "es' = map Correct cs" "list_all2 corrects cs (take n ss)"
      using Cons.IH [OF es'] by blast
    then show ?thesis
      by (intro exI [of _ "\<lparr>c_id = s_id s, c_delta = 0, c_cost = cost_of s, c_provenance = None,
                 c_totals = Some (map (\<lambda>(k, q). (k, q + delta)) (s_totals s)), c_finished = None\<rparr> # cs"]
          exI [of _ "Suc n"]) (simp add: es)
  next
    case False
    with Cons.prems have "es = map Correct [\<lparr>c_id = s_id s, c_delta = delta, c_cost = cost_of s - delta,
        c_provenance = None, c_totals = None, c_finished = None\<rparr>]"
      by (auto split: if_splits)
    moreover have "list_all2 corrects [\<lparr>c_id = s_id s, c_delta = delta, c_cost = cost_of s - delta,
        c_provenance = None, c_totals = None, c_finished = None\<rparr>] (take (Suc 0) (s # ss))"
      by simp
    ultimately show ?thesis by blast
  qed
qed

section \<open>Receipts and recoveries keep the books\<close>

lemma session_list_ids: "ledger_inv st \<Longrightarrow> map s_id (session_list st) = map fst (sessions st)"
  by (auto simp: ledger_inv_def session_list_def list_all_iff session_wf_def)

lemma session_list_lookup:
  assumes "ledger_inv st" and "p \<in> set (session_list st)"
  shows "map_of (sessions st) (s_id p) = Some p"
proof -
  from assms(2) obtain k where k: "(k, p) \<in> set (sessions st)" by (auto simp: session_list_def)
  with assms(1) have "s_id p = k" by (auto simp: ledger_inv_def list_all_iff session_wf_def)
  with k assms(1) show ?thesis by (simp add: ledger_inv_def)
qed

lemma related_sub: "set (related st ps inc) \<subseteq> set (session_list st)"
  by (auto simp: related_def)

lemma related_distinct: "ledger_inv st \<Longrightarrow> distinct (map s_id (related st ps inc))"
  unfolding related_def by (rule distinct_map_filter) (simp only: session_list_ids ledger_inv_def)

lemma related_self:
  "ledger_inv st \<Longrightarrow> map_of (sessions st) k = Some s \<Longrightarrow> s \<in> set (related st ps (Some k)) \<and> s_id s = k"
  using map_of_wf [of st k s] by (force simp: related_def session_list_def session_wf_def dest: map_of_SomeD)

lemma before_after:
  "distinct (map s_id xs) \<Longrightarrow> s \<in> set xs \<Longrightarrow> s_id s = k \<Longrightarrow> xs = before k xs @ s # after k xs"
proof (induction xs)
  case Nil
  then show ?case by simp
next
  case (Cons x xs)
  show ?case
  proof (cases "s_id x = k")
    case True
    with Cons.prems have "x = s" by (auto simp: image_iff)
    with True show ?thesis by (simp add: before_def after_def)
  next
    case False
    with Cons have "xs = before k xs @ s # after k xs" by auto
    with False show ?thesis by (simp add: before_def after_def)
  qed
qed

lemma distinct_pick:
  assumes d: "distinct (map f (xs @ s # zs))" and ps: "distinct (map f ps)" and sub: "set ps \<subseteq> set xs"
  shows "distinct (map f (ps @ s # take n zs))"
proof -
  have "set (map f ps) \<subseteq> set (map f xs)" using sub by auto
  moreover have "set (take n (map f zs)) \<subseteq> set (map f zs)" by (rule set_take_subset)
  moreover have "distinct (take n (map f zs))" using d by simp
  ultimately show ?thesis using d ps
    by (simp only: map_append list.map distinct_append distinct.simps set_simps set_append take_map [symmetric]) blast
qed

lemma distinct_filter_tail:
  "distinct (map f (xs @ s # ys)) \<Longrightarrow> distinct (map f (xs @ s # filter P ys))"
  by (auto simp: distinct_map_filter)

definition receipt_keys_distinct :: "receipt \<Rightarrow> bool" where
  "receipt_keys_distinct r = (case rc_totals r of None \<Rightarrow> True | Some t \<Rightarrow> distinct (map fst t))"

lemma plan_run_ok:
  assumes inv: "ledger_inv st" and s: "map_of (sessions st) (rc_id r) = Some s"
    and plan: "plan_receipt st clock lc note r s = Inr (Append events)" and keys: "receipt_keys_distinct r"
  shows "books.run_ok ts st events"
proof -
  define tot where "tot = (case rc_totals r of None \<Rightarrow> [] | Some t \<Rightarrow> t)"
  define ordered where "ordered = related st (map fst tot @ map fst (rc_lower r)) (Some (rc_id r))"
  have self: "s \<in> set ordered" "s_id s = rc_id r" using related_self [OF inv s] by (simp_all add: ordered_def)
  have dist: "distinct (map s_id ordered)" by (simp add: ordered_def related_distinct [OF inv])
  have split: "ordered = before (rc_id r) ordered @ s # after (rc_id r) ordered"
    using before_after [OF dist self] .
  have look: "map_of (sessions st) (s_id p) = Some p" if "p \<in> set ordered" for p
    using session_list_lookup [OF inv] subsetD [OF related_sub that [unfolded ordered_def]] by blast
  show ?thesis
  proof (cases "rc_totals r")
    case None
    then obtain fin res known where "events = [bound_event r fin res known]"
      using plan by (auto simp: plan_receipt_def Let_def ebind_Inr_iff split: if_splits)
    with s show ?thesis by (simp add: bound_event_def)
  next
    case (Some t)
    then have tot: "tot = t" by (simp add: tot_def)
    define bl where "bl = before (rc_id r) ordered"
    obtain fin clamped base' nevents where cl: "clamp_totals bl (baseline_of bl) t = (clamped, base')"
      and ne: "native_events r s t (sum_list (differences base' t)) fin note (after (rc_id r) ordered) = Inr nevents"
      and ev: "events = clamped @ nevents"
      using plan Some by (auto simp: plan_receipt_def Let_def bl_def ordered_def tot_def ebind_Inr_iff split: if_splits prod.splits)
    have dall: "distinct (map s_id (bl @ s # after (rc_id r) ordered))"
      using dist by (simp only: bl_def split [symmetric])
    then have dbl: "distinct (map s_id bl)" by simp
    have "distinct (map fst t)" using keys Some by (simp add: receipt_keys_distinct_def)
    from clamp_totals_corrects [OF this dbl, of "baseline_of bl"] cl
    obtain cs ps where cs: "clamped = map Correct cs" "list_all2 corrects cs ps" "distinct (map s_id ps)"
      "set ps \<subseteq> set bl" by auto
    show ?thesis
    proof (cases "s_status s = SettledS")
      case True
      define later where "later = filter (\<lambda>p. s_status p = SettledS \<and> shares_provider t p) (after (rc_id r) ordered)"
      define cost where "cost = sum_list (differences base' t)"
      obtain les where les: "correct_successors t (cost - cost_of s) later = Inr les"
        and nev: "nevents = Correct \<lparr>c_id = rc_id r, c_delta = cost_of s - cost, c_cost = cost,
             c_provenance = Some NativeReported, c_totals = Some t, c_finished = fin\<rparr> # les"
        using ne True by (auto simp: native_events_def later_def cost_def Let_def ebind_Inr_iff)
      obtain cs2 n where cs2: "les = map Correct cs2" "list_all2 corrects cs2 (take n later)"
        using correct_successors_corrects [OF les] by blast
      let ?c = "\<lparr>c_id = rc_id r, c_delta = cost_of s - cost, c_cost = cost,
             c_provenance = Some NativeReported, c_totals = Some t, c_finished = fin\<rparr>"
      have all2: "list_all2 corrects (cs @ ?c # cs2) (ps @ s # take n later)"
        using cs cs2 self by (simp add: list_all2_appendI)
      have dl: "distinct (map s_id (bl @ s # later))"
        unfolding later_def by (rule distinct_filter_tail [OF dall])
      have sub_later: "set (take n later) \<subseteq> set later" by (rule set_take_subset)
      have "distinct (map s_id (ps @ s # take n later))"
        by (rule distinct_pick [OF dl cs(3,4)])
      moreover have "set (ps @ s # take n later) \<subseteq> set ordered"
      proof -
        have "set bl \<union> {s} \<union> set (after (rc_id r) ordered) \<subseteq> set ordered"
          using arg_cong [OF split, of set] by (simp add: bl_def)
        moreover have "set later \<subseteq> set (after (rc_id r) ordered)" by (auto simp: later_def)
        ultimately show ?thesis using cs(4) sub_later by (simp only: set_append set_simps) blast
      qed
      ultimately have "books.run_ok ts st (map Correct (cs @ ?c # cs2))"
        using corrections_run_ok [OF all2] look by blast
      then show ?thesis using ev cs(1) nev cs2(1) by simp
    next
      case False
      have sid: "s_id s \<notin> set (map c_id cs)"
      proof -
        have "s_id s \<notin> set (map s_id bl)" using dall by auto
        moreover have "set (map c_id cs) \<subseteq> set (map s_id bl)"
          unfolding corrections_ids [OF cs(2)] using cs(4) by auto
        ultimately show ?thesis by (rule contra_subsetD [rotated])
      qed
      obtain pre e where nev: "nevents = pre @ [Settle e]" and e: "e_id e = rc_id r"
        and pre: "pre = reverse_prefix s \<or> pre = [] \<and> cost_of s = 0"
        using ne False by (auto simp: native_events_def Let_def split: if_splits)
      have ok1: "books.run_ok ts st (map Correct cs)"
      proof (rule corrections_run_ok [OF cs(2,3)], rule ballI)
        fix p assume "p \<in> set ps"
        with cs(4) have "p \<in> set (before (rc_id r) ordered)" by (auto simp: bl_def)
        then have "p \<in> set ordered" unfolding before_def by (blast dest: set_takeWhileD)
        then show "map_of (sessions st) (s_id p) = Some p" by (rule look)
      qed
      have "books.run_ok ts st (map Correct cs @ pre @ [Settle e])"
      proof (rule run_ok_append [OF ok1])
        fix st' assume st': "replay_events ts st (map Correct cs) = Inr st'"
        have "ledger_inv st'" using books.run_total [OF inv ok1] st' by (simp add: replay_events_efold)
        moreover have "map_of (sessions st') (rc_id r) = Some s"
          using replay_corrections_other [OF st', of "rc_id r"] sid s self by simp
        ultimately show "books.run_ok ts st' (pre @ [Settle e])"
          by (rule run_ok_settle) (use e self pre in simp_all)
      qed
      then show ?thesis using ev cs(1) nev by simp
    qed
  qed
qed

lemma settle_receipt_books:
  assumes step: "settle_receipt v note lc clock b = Inr b'" and ok: "books_ok b"
    and keys: "\<And>r. read_receipt v = Inr r \<Longrightarrow> receipt_keys_distinct r"
  shows "books_ok b'"
proof -
  obtain st0 where cur: "current b = Inr st0" and inv: "ledger_inv st0"
    using ok by (rule books_okE)
  obtain r s plan where r: "read_receipt v = Inr r" and s: "map_of (sessions st0) (rc_id r) = Some s"
    and plan: "plan_receipt st0 clock lc note r s = Inr plan"
    using step cur by (auto simp: settle_receipt_def ebind_Inr_iff split: option.splits)
  show ?thesis
  proof (cases plan)
    case Keep
    with step cur r s plan ok show ?thesis by (simp add: settle_receipt_def)
  next
    case (Append events)
    have b': "b' = append_events b (snd (accrue clock st0)) clock (fst (accrue clock st0) # events)"
      using step cur r s plan Append by (simp add: settle_receipt_def case_prod_beta Let_def)
    have "books.run_ok clock st0 events"
      using plan_run_ok [OF inv s _ keys [OF r]] plan Append by blast
    then have "books.run_ok clock ((snd (accrue clock st0))\<lparr>seq := Suc (seq st0)\<rparr>) events"
      by (rule run_ok_sessions) simp
    then show ?thesis using append_books(1) [OF cur inv, of b' "snd (accrue clock st0)" clock clock] b' by simp
  next
    case (FallThrough fin)
    then have "settle (rc_id r) None (rc_outcome r) note [] NativeReported fin clock b = Inr b'"
      using step cur r s plan by (simp add: settle_receipt_def)
    then show ?thesis using ok by (rule settle_books)
  qed
qed

lemma recover_usage_books:
  assumes step: "recover_usage mk live gather k note dry clock b = Inr (res, b')" and ok: "books_ok b"
  shows "books_ok b'"
proof -
  obtain st0 where cur: "current b = Inr st0" and inv: "ledger_inv st0"
    using ok by (rule books_okE)
  show ?thesis
  proof (cases "b' = b")
    case True
    with ok show ?thesis by simp
  next
    case False
    obtain s where s: "map_of (sessions st0) k = Some s"
      using step cur False by (auto simp: recover_usage_def split: option.splits)
    have id: "s_id s = k" using map_of_wf [OF inv s] by (simp add: session_wf_def)
    obtain saved where saved: "gather st0 s = Some saved"
      using step cur s False by (auto simp: recover_usage_def split: option.splits if_splits)
    define mark where "mark = mk (j_sequence (ev_journal saved)) (j_observed (ev_journal saved)) (recovered_cost s saved)"
    define events where "events = (if ev_complete saved then complete_events st0 s saved note (recovered_cost s saved)
      else prefix_events s mark (recovered_cost s saved) (recover_tail st0 s saved mark (recovered_cost s saved)))"
    have b': "b' = append_events b (snd (accrue clock st0)) clock (fst (accrue clock st0) # events)"
      using step cur s False saved
      by (simp add: recover_usage_def case_prod_beta Let_def events_def mark_def split: if_splits)
    have ev: "(\<exists>saved cost. events = complete_events st0 s saved note cost)
               \<or> (\<exists>mark cost tl. events = prefix_events s mark cost tl)"
      unfolding events_def by (cases "ev_complete saved") (simp_all, blast+)
    let ?st = "(snd (accrue clock st0))\<lparr>seq := Suc (seq st0)\<rparr>"
    have inv': "ledger_inv ?st" using inv by (auto intro: ledger_inv_same)
    have s': "map_of (sessions ?st) k = Some s" using s by simp
    from ev have "books.run_ok clock ?st events"
    proof (elim disjE exE)
      fix saved cost assume "events = complete_events st0 s saved note cost"
      then show ?thesis
        using run_ok_settle [OF inv' s' _ id] id by (auto simp: complete_events_def)
    next
      fix mark cost tl assume "events = prefix_events s mark cost tl"
      then show ?thesis using s id by (simp add: prefix_events_def on_session_def)
    qed
    then show ?thesis using append_books(1) [OF cur inv, of b' "snd (accrue clock st0)" clock clock] b' by simp
  qed
qed

end
