(* ===== verification/BudgetProps.thy ===== *)
theory BudgetProps
  imports ReceiptLaws
begin

text \<open>
  The contract of the grant ledger: a transition system of all its operations, of torn writes and of
  lost queue files, and the properties of every ledger it reaches.
\<close>

section \<open>Every operation, in any order\<close>

text \<open>
  One step of the directory: an operation that returns, a crash that leaves a torn last line, or a
  change of the disposable queue file. The repair marker takes a fresh identifier.
\<close>

inductive budget_step :: "budget \<Rightarrow> budget \<Rightarrow> bool" where
  step_configure: "configure g t r clock b = Inr b' \<Longrightarrow> budget_step b b'"
| step_refresh: "refresh_waiter w clock b = Inr b' \<Longrightarrow> budget_step b b'"
| step_wait: "wait_for_admission fresh w m p reason clock b = Inr b' \<Longrightarrow> budget_step b b'"
| step_admit: "admit pr fresh clock r b = Inr (a, b') \<Longrightarrow> budget_step b b'"
| step_settle: "settle k cost outcome note tot prov fin clock b = Inr b' \<Longrightarrow> budget_step b b'"
| step_reconcile: "reconcile pr alive k c nt clock b = Inr b' \<Longrightarrow> budget_step b b'"
| step_receipt: "settle_receipt v note lc clock b = Inr b'
     \<Longrightarrow> (\<And>r. read_receipt v = Inr r \<Longrightarrow> receipt_keys_distinct r) \<Longrightarrow> budget_step b b'"
| step_recover: "recover_usage mk live gather k nt dry clock b = Inr (res, b') \<Longrightarrow> budget_step b b'"
| step_cooldown: "cooldown_model m secs clock b = Inr b' \<Longrightarrow> budget_step b b'"
| step_repair: "repair nt fresh archive clock b = Inr b'
     \<Longrightarrow> (\<And>st. current (b\<lparr>b_torn := False\<rparr>) = Inr st \<Longrightarrow> ''repair-'' @ fresh \<notin> fst ` set (sessions st))
     \<Longrightarrow> budget_step b b'"
| step_torn: "budget_step b (b\<lparr>b_torn := True\<rparr>)"
| step_queue: "budget_step b (b\<lparr>b_queue := q\<rparr>)"

inductive budget_reachable :: "budget \<Rightarrow> bool" where
  empty_ledger: "budget_reachable \<lparr>b_lines = [], b_torn = False, b_queue = None\<rparr>"
| next_ledger: "budget_reachable b \<Longrightarrow> budget_step b b' \<Longrightarrow> budget_reachable b'"

lemma untorn [simp]: "\<not> b_torn b \<Longrightarrow> b\<lparr>b_torn := False\<rparr> = b"
  by simp

lemma current_not_torn: "current b = Inr st \<Longrightarrow> \<not> b_torn b"
  by (auto elim: currentE)

lemma books_not_torn: "books_ok b \<Longrightarrow> \<not> b_torn b"
  by (auto elim!: books_okE dest: current_not_torn)

lemma operations_read_ledger:
  "configure g t r clock b = Inr b' \<Longrightarrow> \<not> b_torn b"
  "refresh_waiter w clock b = Inr b' \<Longrightarrow> \<not> b_torn b"
  "wait_for_admission fresh w m p reason clock b = Inr b' \<Longrightarrow> \<not> b_torn b"
  "admit pr fresh clock rq b = Inr (a, b') \<Longrightarrow> \<not> b_torn b"
  "settle k cost outcome note tot prov fin clock b = Inr b' \<Longrightarrow> \<not> b_torn b"
  "reconcile pr alive k c nt clock b = Inr b' \<Longrightarrow> \<not> b_torn b"
  "settle_receipt v note lc clock b = Inr b' \<Longrightarrow> \<not> b_torn b"
  "recover_usage mk live gather k nt dry clock b = Inr (res, b') \<Longrightarrow> \<not> b_torn b"
  "cooldown_model m secs clock b = Inr b' \<Longrightarrow> \<not> b_torn b"
  by (auto simp: configure_def refresh_waiter_def wait_for_admission_def admit_def settle_def
      reconcile_def settle_receipt_def recover_usage_def cooldown_model_def ebind_Inr_iff
      dest!: current_not_torn split: if_splits)

lemma step_keeps_books:
  assumes "budget_step b b'" and "books_ok (b\<lparr>b_torn := False\<rparr>)"
  shows "books_ok (b'\<lparr>b_torn := False\<rparr>)"
  using assms
proof (induction rule: budget_step.induct)
  case (step_repair nt fresh archive clock b b')
  then have "books_ok b'" using repair_books by blast
  then show ?case using books_not_torn by fastforce
next
  case (step_queue b q)
  then show ?case by (simp add: books_ok_def current_def)
next
  case (step_torn b)
  then show ?case by simp
next
  case (step_configure g t r clock b b')
  then have "books_ok b'" using operations_read_ledger(1) configure_books by fastforce
  then show ?case using books_not_torn by fastforce
next
  case (step_refresh w clock b b')
  then have "books_ok b'" using operations_read_ledger(2) refresh_books by fastforce
  then show ?case using books_not_torn by fastforce
next
  case (step_wait fresh w m p reason clock b b')
  then have "books_ok b'" using operations_read_ledger(3) wait_books by fastforce
  then show ?case using books_not_torn by fastforce
next
  case (step_admit pr fresh clock r b a b')
  then have "books_ok b'" using operations_read_ledger(4) admit_books by fastforce
  then show ?case using books_not_torn by fastforce
next
  case (step_settle k cost outcome nt tot prov fin clock b b')
  then have "books_ok b'" using operations_read_ledger(5) settle_books by fastforce
  then show ?case using books_not_torn by fastforce
next
  case (step_reconcile pr alive k c nt clock b b')
  then have "books_ok b'" using operations_read_ledger(6) reconcile_books by fastforce
  then show ?case using books_not_torn by fastforce
next
  case (step_receipt v nt lc clock b b')
  then have "\<not> b_torn b" using operations_read_ledger(7) by blast
  with step_receipt have "books_ok b'" using settle_receipt_books [of v nt lc clock b b'] by simp
  then show ?case using books_not_torn by fastforce
next
  case (step_recover mk live gather k nt dry clock b res b')
  then have "books_ok b'" using operations_read_ledger(8) recover_usage_books by fastforce
  then show ?case using books_not_torn by fastforce
next
  case (step_cooldown m secs clock b b')
  then have "books_ok b'" using operations_read_ledger(9) cooldown_books by fastforce
  then show ?case using books_not_torn by fastforce
qed

lemma reachable_books: "budget_reachable b \<Longrightarrow> books_ok (b\<lparr>b_torn := False\<rparr>)"
proof (induction rule: budget_reachable.induct)
  case empty_ledger
  then show ?case by (simp add: books_ok_def current_def ledger_records_def)
next
  case (next_ledger b b')
  then show ?case using step_keeps_books by blast
qed

lemma reachable_current:
  assumes "budget_reachable b" and "\<not> b_torn b"
  obtains st where "current b = Inr st" and "ledger_inv st"
  using reachable_books [OF assms(1)] assms(2) by (auto elim!: books_okE)

lemma current_worth:
  assumes "current b = Inr st"
  shows "worth st = sum_list (map record_credit (b_lines b))"
proof -
  have "replay empty_lstate (b_lines b) = Inr st" using assms by (rule currentE)
  then show ?thesis by (auto dest!: replay_credit simp: empty_lstate_def worth_def)
qed


section \<open>Concrete ledgers\<close>

text \<open>A ledger funded with ten dollars, a request, and a host without heartbeats.\<close>

definition no_ledger :: budget where
  "no_ledger = \<lparr>b_lines = [], b_torn = False, b_queue = None\<rparr>"

definition funded_ledger :: budget where
  "funded_ledger = \<lparr>b_lines = [\<lparr>l_version = 1, l_seq = 1, l_timestamp = 0,
     l_events = [Accrue 0 0, Grant 10]\<rparr>], b_torn = False, b_queue = None\<rparr>"

definition quiet_host :: probes where
  "quiet_host = \<lparr>heartbeat = (\<lambda>_. None), owner_alive = (\<lambda>_. False)\<rparr>"

definition plain_request :: request where
  "plain_request = \<lparr>rq_id = ''i'', rq_worker = ''w'', rq_model = ''m'', rq_phase = ''p'',
     rq_bridge = None, rq_resume = None\<rparr>"

definition launched_ledger :: budget where
  "launched_ledger = \<lparr>b_lines = b_lines funded_ledger @ [\<lparr>l_version = 1, l_seq = 2, l_timestamp = 0,
     l_events = [Accrue 0 0, Admit (new_session plain_request 1 0)]\<rparr>], b_torn = False, b_queue = Some []\<rparr>"

lemmas ledger_eval = current_def ledger_records_def empty_lstate_def accrue_def Let_def
  append_events_def append_record_def funded_ledger_def launched_ledger_def quiet_host_def plain_request_def
  new_session_def no_ledger_def waiting_state_def session_list_def active_sessions_def related_def
  on_session_def cost_of_def reserve_of_def

lemma no_ledger_reachable: "budget_reachable no_ledger"
  using empty_ledger by (simp add: no_ledger_def)

lemma funded_reachable: "budget_reachable funded_ledger"
proof (rule next_ledger [OF no_ledger_reachable], rule step_configure)
  show "configure (Some 10) None None 0 no_ledger = Inr funded_ledger"
    by (simp add: configure_def check_configure_def configure_events_def ledger_eval)
qed

definition funded_state :: lstate where
  "funded_state = \<lparr>balance = 10, rate = 0, spent = 0, watermark = 0,
    sessions = [], waiting = [], cooldowns_of = [], seq = 1\<rparr>"

lemma current_funded: "current funded_ledger = Inr funded_state"
  by (simp add: ledger_eval funded_state_def)

lemma funded_estimate: "estimate funded_state m p t = ([], 1)"
  by (simp add: estimate_def settled_costs_def pending_costs_def active_sessions_def session_list_def
      funded_state_def last_n_def)

lemma funded_steps:
  "accrue 0 funded_state = (Accrue 0 0, funded_state)" "orphan_events pr 0 funded_state = []"
  "mark_orphans pr 0 funded_state = funded_state" "waiting_state funded_ledger funded_state = []"
  by (simp_all add: accrue_def funded_state_def orphan_events_def mark_orphans_def active_sessions_def
      session_list_def waiting_state_def funded_ledger_def)

lemma funded_reason: "wait_reason_for funded_state [] w m p None 0 = None"
  unfolding wait_reason_for_def funded_estimate Let_def prod.case
  by (simp add: live_sessions_def active_sessions_def session_list_def cooldown_until_def first_waiter_def
      available_def reserved_def funded_state_def)

lemma launch_plain: "admit quiet_host ''t'' 0 plain_request funded_ledger = Inr (Allowed 1, launched_ledger)"
  unfolding admit_def current_funded ebind.simps funded_steps Let_def prod.case
  by (simp add: funded_reason funded_steps funded_estimate plain_request_def resume_known_def launched_ledger_def
      save_waiting_def append_events_def append_record_def dict_del_def)
     (simp add: funded_ledger_def funded_state_def)

lemma launched_not_torn: "\<not> b_torn launched_ledger"
  by (simp add: launched_ledger_def)

lemma launched_reachable: "budget_reachable launched_ledger"
  using next_ledger [OF funded_reachable step_admit] launch_plain by blast


section \<open>Admission\<close>

lemma dict_set_new: "map_of d k = None \<Longrightarrow> dict_set k v d = d @ [(k, v)]"
  by (induction d) (auto split: if_splits)

lemma reserved_mark_orphans [simp]: "reserved (mark_orphans pr now st) = reserved st"
proof -
  have "sum_list (map reserve_of (filter (\<lambda>s. s_status s \<noteq> SettledS)
          (map snd (map (\<lambda>(k, s). (k, if orphaned_bridge pr now s then s\<lparr>s_status := Unresolved\<rparr> else s)) d))))
        = sum_list (map reserve_of (filter (\<lambda>s. s_status s \<noteq> SettledS) (map snd d)))" for d
    by (induction d) (auto simp: orphaned_bridge_def reserve_of_def split: option.split if_splits)
  then show ?thesis by (simp add: reserved_def active_sessions_def session_list_def mark_orphans_def)
qed

lemma reserved_accrue [simp]: "reserved (snd (accrue c st)) = reserved st"
  by (simp add: reserved_def active_sessions_def session_list_def)

lemma admit_allowed_state:
  assumes "admit pr fresh clock r b = Inr (Allowed est, b')" and cur: "current b = Inr st0" and inv: "ledger_inv st0"
  shows "rq_id r \<notin> fst ` set (sessions st0)"
    and "current b' = Inr ((admit_base pr clock st0)\<lparr>seq := Suc (seq st0),
           sessions := sessions (admit_base pr clock st0) @ [(rq_id r, new_session r est clock)],
           waiting := dict_del (rq_worker r) (waiting st0)\<rparr>)"
    and "wait_reason_for (admit_base pr clock st0) (waiting_state b (admit_base pr clock st0)) (rq_worker r)
           (rq_model r) (Some (rq_phase r)) (rq_resume r) clock = None"
    and "est = snd (estimate (admit_base pr clock st0) (rq_model r) (Some (rq_phase r)) True)"
    and "b_queue b' = Some (dict_del (rq_worker r) (waiting_state b st0))"
proof -
  from assms(1) cur show new: "rq_id r \<notin> fst ` set (sessions st0)"
    and "wait_reason_for (admit_base pr clock st0) (waiting_state b (admit_base pr clock st0)) (rq_worker r)
           (rq_model r) (Some (rq_phase r)) (rq_resume r) clock = None"
    and est: "est = snd (estimate (admit_base pr clock st0) (rq_model r) (Some (rq_phase r)) True)"
    and "b_queue b' = Some (dict_del (rq_worker r) (waiting_state b st0))"
    by (cases rule: admitE; simp)+
  from assms(1) cur have lines: "b_lines b' = append_record (b_lines b) (admit_base pr clock st0) clock
      (fst (accrue clock st0) # orphan_events pr clock (snd (accrue clock st0)) @ [Admit (new_session r est clock)])"
    and torn: "b_torn b' = b_torn b"
    by (cases rule: admitE; simp)+
  let ?st = "(snd (accrue clock st0))\<lparr>seq := Suc (seq st0)\<rparr>"
  have inv': "ledger_inv ?st" using inv by (auto intro: ledger_inv_same)
  have sq: "seq (admit_base pr clock st0) = seq st0" by (simp add: admit_base_def)
  have "\<not> b_torn b'" using torn cur by (auto dest: current_not_torn)
  then have "current b' = replay_events clock (st0\<lparr>seq := Suc (seq st0)\<rparr>)
      (fst (accrue clock st0) # orphan_events pr clock (snd (accrue clock st0)) @ [Admit (new_session r est clock)])"
    using current_append [OF cur lines _ sq] by simp
  also have "\<dots> = replay_events clock ?st
      (orphan_events pr clock (snd (accrue clock st0)) @ [Admit (new_session r est clock)])"
    by (simp only: replay_events.simps replay_accrue ebind.simps)
  also have "\<dots> = replay_events clock ((admit_base pr clock st0)\<lparr>seq := Suc (seq st0)\<rparr>) [Admit (new_session r est clock)]"
    using replay_orphans [OF inv', of clock pr clock] by (simp add: replay_events_append admit_base_def)
  finally show "current b' = Inr ((admit_base pr clock st0)\<lparr>seq := Suc (seq st0),
           sessions := sessions (admit_base pr clock st0) @ [(rq_id r, new_session r est clock)],
           waiting := dict_del (rq_worker r) (waiting st0)\<rparr>)"
  proof -
    have "rq_id r \<notin> fst ` set (sessions (admit_base pr clock st0))" using new by (simp add: admit_base_def)
    then have "map_of (sessions (admit_base pr clock st0)) (rq_id r) = None" by (simp add: map_of_eq_None_iff)
    moreover assume "current b' = replay_events clock ((admit_base pr clock st0)\<lparr>seq := Suc (seq st0)\<rparr>)
        [Admit (new_session r est clock)]"
    ultimately show ?thesis by (simp add: new_session_def dict_set_new) (simp add: admit_base_def)
  qed
qed

lemma wait_reason_None:
  assumes "wait_reason_for st queue worker model phase resume now = None"
  shows "\<not> (\<exists>s\<in>set (active_sessions st). given (s_archive s))"
    and "given resume \<Longrightarrow> \<not> (\<exists>s\<in>set (active_sessions st). s_resume s = resume)"
    and "cooldown_until st model \<le> now"
    and "fst (estimate st model phase True) = [] \<Longrightarrow> \<not> (\<exists>s\<in>set (live_sessions st). s_model s = model)"
    and "0 < available st" and "snd (estimate st model phase True) \<le> available st"
    and "first_waiter (waiter_fresh now) model (map snd queue) = Some f \<Longrightarrow> wt_worker f = worker"
  using assms by (auto simp: wait_reason_for_def Let_def case_prod_beta split: if_splits option.splits)

text \<open>
  C2: a launch is admitted within the funds, once. When \<open>admit\<close> allows an invocation on a reachable
  ledger, its identifier was unknown and is now an active session that holds the estimate in reserve;
  what is available after accrual was positive and covered the estimate, drops by exactly the estimate
  and stays nonnegative; nothing was spent; no repair marker, cooldown, resumed provider session or
  uncalibrated live session of the model stood against it; and no other worker waits before it.
\<close>

theorem admission_within_funds:
  assumes "budget_reachable b" and "admit pr fresh clock r b = Inr (Allowed est, b')"
  shows "\<exists>st st'. current b = Inr st \<and> current b' = Inr st'
     \<and> rq_id r \<notin> fst ` set (sessions st)
     \<and> map_of (sessions st') (rq_id r) = Some (new_session r est clock)
     \<and> 0 < available (snd (accrue clock st)) \<and> est \<le> available (snd (accrue clock st))
     \<and> available st' = available (snd (accrue clock st)) - est \<and> 0 \<le> available st'
     \<and> spent st' = spent st
     \<and> \<not> (\<exists>s\<in>set (active_sessions st). given (s_archive s))
     \<and> cooldown_until st (rq_model r) \<le> clock
     \<and> (\<forall>f. first_waiter (waiter_fresh clock) (rq_model r) (map snd (waiting_state b st)) = Some f
             \<longrightarrow> wt_worker f = rq_worker r)"
proof -
  have "\<not> b_torn b" using assms(2) operations_read_ledger(4) by blast
  with assms(1) obtain st where cur: "current b = Inr st" and inv: "ledger_inv st"
    by (rule reachable_current)
  define base where "base = admit_base pr clock st"
  note ad = admit_allowed_state [OF assms(2) cur inv, folded base_def]
  note ok = wait_reason_None [OF ad(3)]
  define st' where "st' = base\<lparr>seq := Suc (seq st), sessions := sessions base @ [(rq_id r, new_session r est clock)],
           waiting := dict_del (rq_worker r) (waiting st)\<rparr>"
  have base: "reserved base = reserved (snd (accrue clock st))" "balance base = balance (snd (accrue clock st))"
    "spent base = spent st" "waiting_state b base = waiting_state b st"
    by (simp_all add: base_def admit_base_def waiting_state_def split: option.split)
  have "cooldown_until base (rq_model r) = cooldown_until st (rq_model r)"
    by (simp add: base_def admit_base_def cooldown_until_def mark_orphans_def)
  note base = base this
  have "rq_id r \<notin> fst ` set (sessions base)" using ad(1) by (simp add: base_def admit_base_def)
  then have "map_of (sessions st') (rq_id r) = Some (new_session r est clock)"
    by (simp add: st'_def map_add_def map_of_eq_None_iff [symmetric])
  moreover have "reserved st' = reserved base + est"
    by (simp add: st'_def reserved_def active_sessions_def session_list_def new_session_def reserve_of_def)
  moreover have "\<not> (\<exists>s\<in>set (active_sessions st). given (s_archive s))"
  proof
    assume "\<exists>s\<in>set (active_sessions st). given (s_archive s)"
    then obtain k s where "(k, s) \<in> set (sessions st)" "s_status s \<noteq> SettledS" "given (s_archive s)"
      by (auto simp: active_sessions_def session_list_def)
    then have "(if orphaned_bridge pr clock s then s\<lparr>s_status := Unresolved\<rparr> else s) \<in> set (active_sessions base)"
      by (force simp: active_sessions_def session_list_def base_def admit_base_def mark_orphans_def)
    with ok(1) \<open>given (s_archive s)\<close> show False by (auto split: if_splits)
  qed
  ultimately show ?thesis
    using cur ad(1,2,4) ok(3,5,6,7) base
    by (intro exI [of _ st] exI [of _ st'] conjI) (auto simp: st'_def available_def)
qed

theorem admission_within_funds_witness:
  "\<exists>st st'. current funded_ledger = Inr st \<and> current launched_ledger = Inr st'
     \<and> rq_id plain_request \<notin> fst ` set (sessions st)
     \<and> map_of (sessions st') (rq_id plain_request) = Some (new_session plain_request 1 0)
     \<and> available st' = available (snd (accrue 0 st)) - 1"
  using admission_within_funds [OF funded_reachable launch_plain] by blast

end
