(* ===== verification/AdmissionProps.thy ===== *)
theory AdmissionProps
  imports BudgetProps
begin

text \<open>
  More of the ledger's contract: the estimate, accrual, the queue's order, settlement, the freeze after
  a repair, and the agreement of the preflight with the admission it anticipates.
\<close>

section \<open>The estimate\<close>

lemma sorted_quantile:
  fixes xs :: "rat list"
  assumes "sorted xs" and "xs \<noteq> []"
  shows "3 * length xs \<le> 4 * length (filter (\<lambda>x. x \<le> quantile75 xs) xs)" and "quantile75 xs \<in> set xs"
proof -
  define i where "i = (3 * length xs + 3) div 4 - 1"
  have i: "i < length xs" and i4: "3 * length xs \<le> 4 * Suc i"
    using assms(2) by (cases xs; simp add: i_def; presburger)+
  have q: "quantile75 xs = xs ! i" by (simp add: quantile75_def i_def)
  show "quantile75 xs \<in> set xs" using i by (simp add: q)
  have "\<forall>x\<in>set (take (Suc i) xs). x \<le> xs ! i"
    using assms(1) i by (auto simp: in_set_conv_nth sorted_nth_mono)
  then have "filter (\<lambda>x. x \<le> xs ! i) (take (Suc i) xs) = take (Suc i) xs" by simp
  moreover have "length (filter (\<lambda>x. x \<le> xs ! i) xs)
      = length (filter (\<lambda>x. x \<le> xs ! i) (take (Suc i) xs)) + length (filter (\<lambda>x. x \<le> xs ! i) (drop (Suc i) xs))"
    by (metis append_take_drop_id filter_append length_append)
  ultimately have "Suc i \<le> length (filter (\<lambda>x. x \<le> xs ! i) xs)" using i by simp
  with i4 show "3 * length xs \<le> 4 * length (filter (\<lambda>x. x \<le> quantile75 xs) xs)" by (simp add: q)
qed

lemma estimate_costs_positive: "x \<in> set (fst (estimate st m p t)) \<Longrightarrow> 0 < x"
proof -
  assume "x \<in> set (fst (estimate st m p t))"
  moreover have "\<forall>x\<in>set (settled_costs st mo ph True). 0 < x" for mo ph
    by (auto simp: settled_costs_def dest!: subsetD [OF set_last_n])
  moreover have "\<forall>x\<in>set (pending_costs st m). 0 < x"
    by (auto simp: pending_costs_def split: option.splits)
  ultimately show "0 < x"
    by (auto simp: estimate_def Let_def dest!: subsetD [OF set_last_n] split: if_splits)
qed

text \<open>
  the estimate is positive and covers history. It is one of at most twenty recent positive costs and
  at least three quarters of them are no larger; without such a cost it is at least one dollar and at
  least each of the last twenty settled costs of any model. Every cost it is drawn from is positive.
\<close>

theorem estimate_covers_history:
  "case estimate st model phase pend of (costs, est) \<Rightarrow>
     0 < est \<and> length costs \<le> 20 \<and> list_all (\<lambda>c. 0 < c) costs \<and>
     (if costs = [] then 1 \<le> est \<and> list_all (\<lambda>c. c \<le> est) (settled_costs st None None False)
      else est \<in> set costs \<and> 3 * length costs \<le> 4 * length (filter (\<lambda>c. c \<le> est) costs))"
proof -
  obtain costs est where e: "estimate st model phase pend = (costs, est)" by (cases "estimate st model phase pend")
  have pos: "\<forall>x\<in>set costs. 0 < x" using estimate_costs_positive [of _ st model phase pend] e by auto
  obtain c3 where shape: "estimate st model phase pend =
      (if sort (last_n 20 c3) \<noteq> [] then (sort (last_n 20 c3), quantile75 (sort (last_n 20 c3)))
       else (sort (last_n 20 c3), Max (set (1 # settled_costs st None None False))))"
    by (rule that) (unfold estimate_def Let_def, rule refl)
  then have costs: "costs = sort (last_n 20 c3)"
    using e by (cases "sort (last_n 20 c3) = []") simp_all
  then have len: "length costs \<le> 20" and sorted: "sorted costs" by (simp_all add: last_n_def)
  show ?thesis
  proof (cases "costs = []")
    case True
    then have est: "est = Max (set (1 # settled_costs st None None False))"
      using e shape costs by simp
    then have "1 \<le> est" and "\<forall>x\<in>set (settled_costs st None None False). x \<le> est" by auto
    then show ?thesis using True e len by (simp add: list_all_iff)
  next
    case False
    then have est: "est = quantile75 costs" using e shape costs by simp
    show ?thesis using sorted_quantile [OF sorted False] False e len pos est by (simp add: list_all_iff)
  qed
qed

section \<open>Accrual\<close>

text \<open>
  accrual is a function of elapsed time alone. The watermark never moves back; a clock behind it
  credits nothing; and observing twice, at any two times, credits what observing at the later one
  would, so how often the ledger is read does not change the balance.
\<close>

theorem accrual_path_independent:
  "watermark st \<le> watermark (snd (accrue t st))
   \<and> snd (accrue t2 (snd (accrue t1 st))) = snd (accrue (max t1 t2) st)
   \<and> (t \<le> watermark st \<longrightarrow> balance (snd (accrue t st)) = balance st)
   \<and> (watermark st \<le> t \<longrightarrow> balance (snd (accrue t st)) = balance st + (t - watermark st) / 3600 * rate st)"
  by (auto simp: accrue_def Let_def max_def field_simps)

theorem accrual_path_independent_witness:
  "balance (snd (accrue 7200 \<lparr>balance = 1, rate = 2, spent = 0, watermark = 3600, sessions = [], waiting = [],
      cooldowns_of = [], seq = 0\<rparr>)) = 3"
  using accrual_path_independent [of "\<lparr>balance = 1, rate = 2, spent = 0, watermark = 3600, sessions = [],
      waiting = [], cooldowns_of = [], seq = 0\<rparr>" 7200] by simp

section \<open>The queue\<close>

text \<open>
  C37: the queue is first come, first served, and polling keeps one's place. A worker that is refused
  within 120 s of its last poll keeps its ticket and its time of arrival; and when a launch is allowed,
  every fresh waiter for funding of the same model is the worker itself or behind the worker's own
  entry, by arrival and ticket.
\<close>

theorem queue_is_fair:
  assumes "admit pr fresh clock r b = Inr (answer, b')" and "current b = Inr st"
  shows "case answer of
      Refused reason est bal \<Rightarrow>
        (\<exists>w. b_queue b' = Some (dict_set (rq_worker r) w (waiting_state b st))
           \<and> wt_reason w = reason \<and> wt_seen w = clock
           \<and> (\<forall>p. map_of (waiting_state b st) (rq_worker r) = Some p \<and> clock - wt_seen p < 120
                \<longrightarrow> wt_ticket w = wt_ticket p \<and> wt_since w = wt_since p))
    | Allowed est \<Rightarrow>
        (\<forall>v\<in>set (map snd (waiting_state b st)).
           clock - wt_seen v < 120 \<and> wt_reason v \<in> set funding_reasons \<and> wt_model v = rq_model r
           \<longrightarrow> (\<exists>f\<in>set (map snd (waiting_state b st)). wt_worker f = rq_worker r
                  \<and> (wt_since f, wt_ticket f) \<le> (wt_since v, wt_ticket v)))"
  using assms
proof (cases rule: admitE)
  case allowed
  have q: "waiting_state b (admit_base pr clock st) = waiting_state b st"
    by (simp add: waiting_state_def admit_base_def split: option.split)
  let ?ws = "filter (\<lambda>w. waiter_fresh clock w \<and> wt_reason w \<in> set funding_reasons \<and> wt_model w = rq_model r)
               (map snd (waiting_state b st))"
  have own: "first_waiter (waiter_fresh clock) (rq_model r) (map snd (waiting_state b st)) = Some f
             \<Longrightarrow> wt_worker f = rq_worker r" for f
    using wait_reason_None(7) [OF allowed(2)] q by simp
  have "\<exists>f\<in>set (map snd (waiting_state b st)). wt_worker f = rq_worker r
          \<and> (wt_since f, wt_ticket f) \<le> (wt_since v, wt_ticket v)" if v: "v \<in> set ?ws" for v
  proof -
    obtain f where f: "min_by (\<lambda>w. (wt_since w, wt_ticket w)) ?ws = Some f"
      using min_by_ex [OF v] by blast
    then have "wt_worker f = rq_worker r" by (intro own) (simp only: first_waiter_def)
    moreover have "f \<in> set ?ws" using f by (rule min_by_mem)
    moreover have "(wt_since f, wt_ticket f) \<le> (wt_since v, wt_ticket v)" using min_by_le [OF f v] .
    ultimately show ?thesis by (intro bexI [of _ f]) auto
  qed
  then show ?thesis using allowed(3) by (simp add: waiter_fresh_def)
next
  case (refused reason)
  then show ?thesis
    by (auto simp: enqueue_waiter_def previous_waiter_def Let_def split: if_splits option.splits)
qed

definition other_waiter :: waiter where
  "other_waiter = \<lparr>wt_worker = ''v'', wt_model = ''m'', wt_ticket = ''a'', wt_since = -5, wt_seen = 0,
     wt_reason = AwaitFunding, wt_estimate = 1\<rparr>"

definition own_waiter :: waiter where
  "own_waiter = \<lparr>wt_worker = ''w'', wt_model = ''m'', wt_ticket = ''b'', wt_since = -3, wt_seen = -1,
     wt_reason = BehindAnother, wt_estimate = 1\<rparr>"

definition queued_ledger :: budget where
  "queued_ledger = funded_ledger\<lparr>b_queue := Some [(''w'', own_waiter), (''v'', other_waiter)]\<rparr>"

lemma current_queued: "current queued_ledger = Inr funded_state"
  using current_funded by (simp add: queued_ledger_def current_def)

lemma queued_reason:
  "wait_reason_for funded_state [(''w'', own_waiter), (''v'', other_waiter)] ''w'' ''m'' p None 0 = Some BehindAnother"
  unfolding wait_reason_for_def funded_estimate Let_def prod.case
  by (simp add: live_sessions_def active_sessions_def session_list_def cooldown_until_def first_waiter_def
      available_def reserved_def funded_state_def waiter_fresh_def own_waiter_def other_waiter_def
      funding_reasons_def less_eq_prod_def)

lemma queued_waiting: "waiting_state queued_ledger funded_state = [(''w'', own_waiter), (''v'', other_waiter)]"
  by (simp add: waiting_state_def queued_ledger_def)

lemma queued_refusal:
  "admit quiet_host ''t'' 0 plain_request queued_ledger
   = Inr (Refused BehindAnother 1 10, save_waiting [(''w'', own_waiter\<lparr>wt_seen := 0\<rparr>), (''v'', other_waiter)] queued_ledger)"
  unfolding admit_def current_queued ebind.simps funded_steps Let_def prod.case queued_waiting
  by (simp add: queued_reason funded_estimate plain_request_def resume_known_def)
     (simp add: previous_waiter_def enqueue_waiter_def own_waiter_def funded_state_def)

theorem queue_is_fair_witness:
  "\<exists>w. b_queue (save_waiting [(''w'', own_waiter\<lparr>wt_seen := 0\<rparr>), (''v'', other_waiter)] queued_ledger)
          = Some (dict_set ''w'' w [(''w'', own_waiter), (''v'', other_waiter)])
      \<and> wt_reason w = BehindAnother \<and> wt_ticket w = ''b'' \<and> wt_since w = -3"
  using queue_is_fair [OF queued_refusal current_queued]
  by (simp add: waiting_state_def queued_ledger_def plain_request_def) (auto simp: own_waiter_def)

end
