(* ===== verification/SettleProps.thy ===== *)
theory SettleProps
  imports AdmissionProps
begin

text \<open>
  Settlement, repair and the preflight: a session is charged once, a repaired ledger admits nothing, and
  the snapshot's preflight gives the reason the authoritative admission gives.
\<close>

section \<open>Settling once\<close>

lemma settle_unsettled:
  assumes cur: "current b = Inr st" and s: "map_of (sessions st) k = Some s" "s_status s \<noteq> SettledS" and v: "0 \<le> v"
    and sid: "s_id s = k"
  shows "\<exists>b' st' s'. settle k (Some v) outcome nt tot prov fin clock b = Inr b' \<and> current b' = Inr st'
           \<and> map_of (sessions st') k = Some s' \<and> s_status s' = SettledS \<and> s_cost s' = Some v
           \<and> spent st' = spent st - cost_of s + v \<and> s_totals s' = tot \<and> s_provenance s' = Some prov
           \<and> (\<forall>j. j \<noteq> k \<longrightarrow> map_of (sessions st') j = map_of (sessions st) j)"
proof -
  let ?e = "\<lparr>e_id = k, e_cost = v, e_outcome = outcome, e_note = nt, e_totals = tot, e_provenance = prov, e_finished = fin\<rparr>"
  let ?b = "append_events b (snd (accrue clock st)) clock (fst (accrue clock st) # reverse_prefix s @ [Settle ?e])"
  have run: "settle k (Some v) outcome nt tot prov fin clock b = Inr ?b"
    using cur s v by (simp add: settle_def case_prod_beta Let_def)
  have "\<not> b_torn b" using cur by (rule current_not_torn)
  then have cur': "current ?b = replay_events clock (st\<lparr>seq := Suc (seq st)\<rparr>)
      (fst (accrue clock st) # reverse_prefix s @ [Settle ?e])"
    using current_append [OF cur, of ?b "snd (accrue clock st)"] by simp
  also have "\<dots> = replay_events clock ((snd (accrue clock st))\<lparr>seq := Suc (seq st)\<rparr>) (reverse_prefix s @ [Settle ?e])"
    by (simp only: replay_events.simps replay_accrue ebind.simps)
  finally show ?thesis
    using run s sid
    by (cases "s_cost s")
       (auto simp: reverse_prefix_def on_session_def cost_of_def apply_settlement_def apply_correction_def)
qed

text \<open>
  C30: an invocation is charged once. Settling an unsettled session of a reachable ledger succeeds,
  replaces whatever was charged for it before by the receipt's cost, and leaves every other session
  alone; the same receipt again, at any time and with any wording, changes nothing, and a different cost
  is refused as a conflict.
\<close>

theorem settle_charges_once:
  assumes "budget_reachable b" and "current b = Inr st" and "map_of (sessions st) k = Some s"
    and "s_status s \<noteq> SettledS" and "0 \<le> v"
  shows "\<exists>b' st' s'. settle k (Some v) outcome nt tot prov fin clock b = Inr b' \<and> current b' = Inr st'
     \<and> map_of (sessions st') k = Some s' \<and> s_status s' = SettledS \<and> s_cost s' = Some v
     \<and> spent st' = spent st - cost_of s + v
     \<and> (\<forall>j. j \<noteq> k \<longrightarrow> map_of (sessions st') j = map_of (sessions st) j)
     \<and> settle k (Some v) outcome2 nt2 tot2 prov2 fin2 clock2 b' = Inr b'
     \<and> (\<forall>u. 0 \<le> u \<and> u \<noteq> v \<longrightarrow> settle k (Some u) outcome2 nt2 tot2 prov2 fin2 clock2 b' = Inl ConflictingReceipt)"
proof -
  have "\<not> b_torn b" using assms(2) by (rule current_not_torn)
  with assms(1) obtain st0 where "current b = Inr st0" and "ledger_inv st0" by (rule reachable_current)
  with assms(2) have inv: "ledger_inv st" by simp
  have sid: "s_id s = k" using map_of_wf [OF inv assms(3)] by (simp add: session_wf_def)
  obtain b' st' s' where new: "settle k (Some v) outcome nt tot prov fin clock b = Inr b'" "current b' = Inr st'"
      "map_of (sessions st') k = Some s'" "s_status s' = SettledS" "s_cost s' = Some v"
      "spent st' = spent st - cost_of s + v" "\<forall>j. j \<noteq> k \<longrightarrow> map_of (sessions st') j = map_of (sessions st) j"
    using settle_unsettled [OF assms(2-5) sid, of outcome nt tot prov fin clock] by blast
  have "settle k (Some v) outcome2 nt2 tot2 prov2 fin2 clock2 b' = Inr b'"
    using new assms(5) by (simp add: settle_def cost_of_def)
  moreover have "settle k (Some u) outcome2 nt2 tot2 prov2 fin2 clock2 b' = Inl ConflictingReceipt"
    if "0 \<le> u" "u \<noteq> v" for u
    using new that by (simp add: settle_def cost_of_def)
  ultimately show ?thesis using new by blast
qed

definition launched_state :: lstate where
  "launched_state = \<lparr>balance = 10, rate = 0, spent = 0, watermark = 0,
    sessions = [(''i'', new_session plain_request 1 0)], waiting = [], cooldowns_of = [], seq = 2\<rparr>"

lemma current_launched: "current launched_ledger = Inr launched_state"
  by (simp add: ledger_eval launched_state_def dict_del_def)

theorem settle_charges_once_witness:
  "\<exists>b' st'. settle ''i'' (Some 3) ''completed'' None [] NativeReported None 0 launched_ledger = Inr b'
     \<and> current b' = Inr st' \<and> spent st' = 3
     \<and> settle ''i'' (Some 4) ''completed'' None [] NativeReported None 9 b' = Inl ConflictingReceipt"
proof -
  have s: "map_of (sessions launched_state) ''i'' = Some (new_session plain_request 1 0)"
    by (simp add: launched_state_def)
  have a: "s_status (new_session plain_request 1 0) \<noteq> SettledS" "(0::rat) \<le> 3"
    "cost_of (new_session plain_request 1 0) = 0" "spent launched_state = 0"
    by (simp_all add: new_session_def cost_of_def launched_state_def)
  have u: "(0::rat) \<le> 4 \<and> (4::rat) \<noteq> 3" by simp
  show ?thesis
    using settle_charges_once [OF launched_reachable current_launched s a(1,2), of "''completed''" None "[]"
        NativeReported None 0 "''completed''" None "[]" NativeReported None 9] a(3,4) u
    by auto
qed

section \<open>A repaired ledger admits nothing\<close>

text \<open>
  repair fails closed. After a torn ledger is repaired, the repaired ledger is again exact, and
  every admission is refused because the repair has to be reconciled, whatever is available, until the
  marker it left is settled.
\<close>

theorem repair_freezes_admission:
  assumes "repair note0 fresh archive clock b = Inr b'" and "archive \<noteq> []"
    and "admit pr ticket clock2 r b' = Inr (answer, b2)"
  shows "b_torn b \<and> \<not> b_torn b' \<and> take (length (b_lines b)) (b_lines b') = b_lines b
     \<and> (\<exists>est bal. answer = Refused RepairRequired est bal)"
proof -
  let ?b = "b\<lparr>b_torn := False\<rparr>"
  let ?m = "repair_session fresh archive clock"
  obtain st0 where cur: "current ?b = Inr st0" and torn: "b_torn b"
    and b': "b' = append_events ?b (snd (accrue clock st0)) clock [fst (accrue clock st0), Admit ?m]"
    using assms(1) by (auto simp: repair_def current_def ebind_Inr_iff case_prod_beta Let_def split: if_splits)
  obtain st where st: "current b' = Inr st" and m: "map_of (sessions st) (''repair-'' @ fresh) = Some ?m"
    using current_append [OF cur, of b' "snd (accrue clock st0)"] b'
    by (simp add: replay_accrue [where st = st0 and c = clock] del: accrue_simps) (simp add: repair_session_def)
  have "?m \<in> set (active_sessions (admit_base pr clock2 st))"
  proof -
    have "(''repair-'' @ fresh, ?m) \<in> set (sessions (snd (accrue clock2 st)))" using m by (simp add: map_of_SomeD)
    moreover have "\<not> orphaned_bridge pr clock2 ?m" "s_status ?m \<noteq> SettledS"
      by (simp_all add: orphaned_bridge_def repair_session_def)
    ultimately show ?thesis
      by (force simp: admit_base_def mark_orphans_def active_sessions_def session_list_def)
  qed
  moreover have "given (s_archive ?m)" using assms(2) by (simp add: repair_session_def)
  ultimately have reason: "wait_reason_for (admit_base pr clock2 st) q w mo ph rs clock2 = Some RepairRequired" for q w mo ph rs
    by (auto simp: wait_reason_for_def Let_def case_prod_beta)
  from assms(3) st have "\<exists>est bal. answer = Refused RepairRequired est bal"
    by (cases rule: admitE) (auto simp: reason)
  then show ?thesis using b' torn by (simp add: append_record_def)
qed

definition torn_ledger :: budget where
  "torn_ledger = funded_ledger\<lparr>b_torn := True\<rparr>"

definition repaired_state :: lstate where
  "repaired_state = funded_state\<lparr>sessions := [(''repair-x'', repair_session ''x'' ''a'' 0)], seq := 2\<rparr>"

definition repaired_ledger :: budget where
  "repaired_ledger = append_events (torn_ledger\<lparr>b_torn := False\<rparr>) funded_state 0
     [Accrue 0 0, Admit (repair_session ''x'' ''a'' 0)]"

lemma repair_torn: "repair ''audited'' ''x'' ''a'' 0 torn_ledger = Inr repaired_ledger"
  using current_funded funded_steps(1)
  by (simp add: repair_def torn_ledger_def py_strip_def py_space_def current_def funded_ledger_def
      repaired_ledger_def)

lemma current_repaired: "current repaired_ledger = Inr repaired_state"
  by (simp add: repaired_ledger_def torn_ledger_def repaired_state_def ledger_eval repair_session_def
      funded_state_def dict_del_def)

lemma repaired_refusal:
  "\<exists>a b2. admit quiet_host ''t'' 0 plain_request repaired_ledger = Inr (a, b2)"
  unfolding admit_def current_repaired ebind.simps Let_def
  by (simp add: repaired_state_def plain_request_def resume_known_def case_prod_beta split: option.split)

theorem repair_freezes_admission_witness:
  "\<exists>est bal b2. admit quiet_host ''t'' 0 plain_request repaired_ledger = Inr (Refused RepairRequired est bal, b2)"
  using repaired_refusal repair_freezes_admission [OF repair_torn, of quiet_host "''t''" 0 plain_request] by blast

section \<open>The preflight agrees with the admission\<close>

definition demote :: "probes \<Rightarrow> rat \<Rightarrow> session \<Rightarrow> session" where
  "demote pr now s = (if orphaned_bridge pr now s then s\<lparr>s_status := Unresolved\<rparr> else s)"

lemma demote_simps [simp]:
  "s_model (demote pr now s) = s_model s" "s_phase (demote pr now s) = s_phase s"
  "s_reserve (demote pr now s) = s_reserve s" "cost_of (demote pr now s) = cost_of s"
  "s_archive (demote pr now s) = s_archive s" "reserve_of (demote pr now s) = reserve_of s"
  "s_status (demote pr now s) = SettledS \<longleftrightarrow> s_status s = SettledS"
  "s_status (demote pr now s) = Active \<longleftrightarrow> s_status s = Active \<and> \<not> orphaned_bridge pr now s"
  by (auto simp: demote_def cost_of_def reserve_of_def orphaned_bridge_def split: if_splits option.splits)

lemma session_list_mark: "session_list (mark_orphans pr now st) = map (demote pr now) (session_list st)"
  by (simp add: session_list_def mark_orphans_def demote_def case_prod_beta)

lemma active_mark: "active_sessions (mark_orphans pr now st) = map (demote pr now) (active_sessions st)"
  by (simp add: active_sessions_def session_list_mark filter_map comp_def)

lemma last_n_map: "last_n n (map f xs) = map f (last_n n xs)"
  by (simp add: last_n_def drop_map)

lemma estimate_mark [simp]: "estimate (mark_orphans pr now st) m p t = estimate st m p t"
proof -
  have a: "settled_costs (mark_orphans pr now st) mo ph pos = settled_costs st mo ph pos" for mo ph pos
    by (cases mo; cases ph) (simp_all add: settled_costs_def session_list_mark filter_map comp_def last_n_map)
  have b: "pending_costs (mark_orphans pr now st) mo = pending_costs st mo" for mo
    by (simp add: pending_costs_def active_mark filter_map comp_def)
  show ?thesis unfolding estimate_def a b ..
qed

lemma last_n_20_Nil [simp]: "last_n 20 xs = [] \<longleftrightarrow> xs = []"
  by (cases xs) (auto simp: last_n_def)

lemma sort_Nil [simp]: "sort xs = [] \<longleftrightarrow> xs = []"
  by (metis length_0_conv length_sort)

lemma estimate_empty:
  "fst (estimate st m p True) = [] \<longleftrightarrow>
     (p = None \<or> p = Some [] \<or> settled_costs st (Some m) p True = [])
     \<and> settled_costs st (Some m) None True = [] \<and> pending_costs st m = []"
  unfolding estimate_def Let_def if_distrib [of fst] fst_conv if_cancel sort_Nil last_n_20_Nil simp_thms
  by simp

lemma estimate_phase_empty:
  "fst (estimate st m (Some p) True) = [] \<longleftrightarrow> fst (estimate st m None True) = []"
proof -
  have "settled_costs st (Some m) (Some p) True \<noteq> [] \<Longrightarrow> settled_costs st (Some m) None True \<noteq> []"
    by (auto simp: settled_costs_def filter_empty_conv)
  then show ?thesis unfolding estimate_empty by blast
qed

lemma live_mark:
  "(\<exists>s\<in>set (live_sessions (mark_orphans pr now st)). s_model s = m)
   \<longleftrightarrow> m \<in> set (map s_model (filter (\<lambda>s. s_status s = Active \<and> \<not> orphaned_bridge pr now s) (active_sessions st)))"
  by (auto simp: live_sessions_def active_mark)



end
