(* ===== verification/ReceiptProps.thy ===== *)
theory ReceiptProps
  imports SettleProps
begin

text \<open>
  What cost evidence becomes: native cumulative totals, estimates scaled under them, lower bounds, and
  usage journals of resumed sessions.
\<close>

section \<open>Estimates scaled under a native total\<close>

text \<open>The corrected cost of each event, in order.\<close>

definition corrected_costs :: "event list \<Rightarrow> rat list" where
  "corrected_costs es = map (\<lambda>e. case e of Correct c \<Rightarrow> c_cost c | _ \<Rightarrow> 0) es"

definition credited :: "event list \<Rightarrow> rat" where
  "credited es = sum_list (map (\<lambda>e. case e of Correct c \<Rightarrow> c_delta c | _ \<Rightarrow> 0) es)"

lemma clamp_estimates_end:
  "ps \<noteq> [] \<Longrightarrow> snd (clamp_estimates p nv ex w cur ps) = nv"
proof (induction ps arbitrary: cur)
  case Nil
  then show ?case by simp
next
  case (Cons q qs)
  then show ?case by (cases "qs = []") (simp_all add: Let_def case_prod_beta)
qed

lemma clamp_estimates_sum:
  "ps \<noteq> [] \<Longrightarrow> sum_list (corrected_costs (fst (clamp_estimates p nv ex w cur ps))) = nv - cur"
proof (induction ps arbitrary: cur)
  case Nil
  then show ?case by simp
next
  case (Cons q qs)
  then show ?case by (cases "qs = []") (simp_all add: Let_def case_prod_beta corrected_costs_def)
qed

lemma clamp_estimates_credit:
  "credited (fst (clamp_estimates p nv ex w cur ps))
   = sum_list (map cost_of ps) - sum_list (corrected_costs (fst (clamp_estimates p nv ex w cur ps)))"
proof (induction ps arbitrary: cur)
  case Nil
  then show ?case by (simp add: credited_def corrected_costs_def)
next
  case (Cons q qs)
  show ?case
    using Cons.IH [of "cur + (if qs = [] then nv - cur else if w \<noteq> 0 then (nv - ex) * cost_of q / w else 0)"]
    by (simp add: Let_def case_prod_beta credited_def corrected_costs_def)
qed

lemma clamp_estimates_nonneg:
  assumes "list_all (\<lambda>p. 0 \<le> cost_of p) ps" and "ex \<le> nv"
    and "cur + (nv - ex) * sum_list (map cost_of ps) / w \<le> nv" and "0 < w"
  shows "list_all (\<lambda>c. 0 \<le> c) (corrected_costs (fst (clamp_estimates p nv ex w cur ps)))"
  using assms
proof (induction ps arbitrary: cur)
  case Nil
  then show ?case by (simp add: corrected_costs_def)
next
  case (Cons q qs)
  have q: "0 \<le> (nv - ex) * cost_of q / w" using Cons.prems by simp
  have rest: "0 \<le> sum_list (map cost_of qs)"
    using Cons.prems(1) by (intro sum_list_nonneg) (auto simp: list_all_iff)
  show ?case
  proof (cases "qs = []")
    case True
    have "cur + (nv - ex) * cost_of q / w \<le> nv" using Cons.prems(3) True by simp
    with q have "cur \<le> nv" by linarith
    with True show ?thesis by (simp add: Let_def corrected_costs_def)
  next
    case False
    have "cur + (nv - ex) * cost_of q / w + (nv - ex) * sum_list (map cost_of qs) / w \<le> nv"
      using Cons.prems(3) by (simp add: distrib_left add_divide_distrib add.assoc)
    then have "list_all (\<lambda>c. 0 \<le> c)
        (corrected_costs (fst (clamp_estimates p nv ex w (cur + (nv - ex) * cost_of q / w) qs)))"
      using Cons.IH Cons.prems by simp
    with False Cons.prems(4) q show ?thesis by (simp add: Let_def case_prod_beta corrected_costs_def)
  qed
qed

text \<open>
  a native cumulative total below the estimates before it scales them, and only them, to fit. When
  \<open>clamp_provider\<close> corrects the estimated sessions of a provider, their new costs add up to exactly what
  the native total leaves above the last exact total, none of them is negative when the old costs were
  positive in sum, what is given back is what the old costs exceeded the new ones by, and the baseline
  becomes the native total itself, so the receipt that caused it is charged nothing for the estimates.
\<close>

theorem estimates_fit_native_total:
  assumes "clamp_provider priors provider native = Some (events, baseline)"
    and "list_all (\<lambda>p. 0 \<le> cost_of p) priors"
  shows "\<exists>ests exact. set ests \<subseteq> set priors \<and> list_all estimated ests \<and> ests \<noteq> []
     \<and> exact = exact_total provider (filter (\<lambda>p. provider \<in> set (map fst (s_totals p))) priors)
     \<and> exact \<le> native \<and> baseline = native
     \<and> sum_list (corrected_costs events) = native - exact
     \<and> (0 < sum_list (map cost_of ests) \<longrightarrow> list_all (\<lambda>c. 0 \<le> c) (corrected_costs events))
     \<and> credited events = sum_list (map cost_of ests) - (native - exact)"
proof -
  define ps where "ps = filter (\<lambda>p. provider \<in> set (map fst (s_totals p))) priors"
  define exact where "exact = exact_total provider ps"
  define ests where "ests = filter (\<lambda>p. estimated p \<and> exact < total_of (s_totals p) provider) ps"
  have r: "exact \<le> native" "ests \<noteq> []"
    and ev: "(events, baseline) = clamp_estimates provider native exact (sum_list (map cost_of ests)) exact ests"
  proof -
    have "(if native < exact \<or> ests = [] \<or> (\<exists>p\<in>set ests. set (map fst (s_totals p)) \<noteq> {provider}) then None
           else Some (clamp_estimates provider native exact (sum_list (map cost_of ests)) exact ests))
          = Some (events, baseline)"
      using assms(1) by (simp only: clamp_provider_def Let_def ps_def exact_def ests_def)
    then show "exact \<le> native" "ests \<noteq> []"
      "(events, baseline) = clamp_estimates provider native exact (sum_list (map cost_of ests)) exact ests"
      by (simp_all only: not_less split: if_splits) auto
  qed
  have e: "events = fst (clamp_estimates provider native exact (sum_list (map cost_of ests)) exact ests)"
    and base: "baseline = snd (clamp_estimates provider native exact (sum_list (map cost_of ests)) exact ests)"
    using arg_cong [OF ev, of fst] arg_cong [OF ev, of snd] by simp_all
  have "list_all (\<lambda>p. 0 \<le> cost_of p) ests" using assms(2) by (auto simp: ests_def ps_def list_all_iff)
  then have "0 < sum_list (map cost_of ests) \<longrightarrow> list_all (\<lambda>c. 0 \<le> c) (corrected_costs events)"
    unfolding e using r(1) by (intro impI clamp_estimates_nonneg) auto
  moreover have "credited events = sum_list (map cost_of ests) - (native - exact)"
    unfolding e clamp_estimates_credit clamp_estimates_sum [OF r(2)] ..
  moreover have "set ests \<subseteq> set priors" "list_all estimated ests" by (auto simp: ests_def ps_def list_all_iff)
  ultimately show ?thesis
    using r clamp_estimates_sum [OF r(2)] clamp_estimates_end [OF r(2)]
    by (intro exI [of _ ests] exI [of _ exact]) (simp add: e base exact_def ps_def)
qed

definition priced :: "string \<Rightarrow> rat \<Rightarrow> rat \<Rightarrow> session" where
  "priced k c t = (new_session plain_request 1 0)\<lparr>s_id := k, s_status := SettledS, s_cost := Some c,
     s_totals := [(''P'', t)], s_provenance := Some TokenPriced\<rparr>"

lemma priced_simps [simp]:
  "s_totals (priced k c t) = [(''P'', t)]" "cost_of (priced k c t) = c" "estimated (priced k c t)"
  "s_id (priced k c t) = k" "s_provenance (priced k c t) = Some TokenPriced"
  by (simp_all add: priced_def cost_of_def estimated_def estimate_provenances_def)

theorem estimates_fit_native_total_witness:
  "\<exists>events. clamp_provider [priced ''a'' 4 4, priced ''b'' 2 6] ''P'' 3 = Some (events, 3)
     \<and> sum_list (corrected_costs events) = 3 \<and> credited events = 3"
proof -
  let ?L = "[priced ''a'' 4 4, priced ''b'' 2 6]"
  have f: "filter (\<lambda>p. ''P'' \<in> set (map fst (s_totals p))) ?L = ?L" by simp
  have x: "exact_total ''P'' ?L = 0" by (simp add: exact_total_def)
  have g: "filter (\<lambda>p. estimated p \<and> 0 < total_of (s_totals p) ''P'') ?L = ?L" by (simp add: total_of_def)
  define events where "events = fst (clamp_estimates ''P'' 3 0 6 0 ?L)"
  have e: "clamp_provider ?L ''P'' 3 = Some (events, 3)"
    unfolding clamp_provider_def Let_def f x g by (simp add: events_def)
  have "list_all (\<lambda>p. 0 \<le> cost_of p) ?L" by simp
  from estimates_fit_native_total [OF e this] have "sum_list (corrected_costs events) = 3"
    unfolding f x by auto
  moreover have "credited events = 3" by (simp add: events_def credited_def)
  ultimately show ?thesis using e by blast
qed

end
