(* ===== verification/ReviewBoard.thy ===== *)
theory ReviewBoard
  imports Prelude
begin

text \<open>
  The review scoreboard behind its caches (\<open>tauceti_worker/review_state.py\<close>): what \<open>gh_meta\<close> serves and
  how far it may be trusted, the sidecar entitlement, the contest reader, and the predicates the survey
  gates on. Parsing a comment into a scoreboard or a contest belongs to the tools package: a parsed board
  has an object of states and a list of runs, whose values are arbitrary JSON.
\<close>

section \<open>Scoreboards\<close>

record board =
  b_mode :: json
  b_head :: json
  b_states :: "(string \<times> json) list"
  b_runs :: "json list"
  b_full_rounds :: "json option"
  b_round :: "json option"
  b_replies_through :: json
  b_submitted_by :: json

text \<open>\<open>{}\<close>. A run is represented by its \<open>verdict\<close>.\<close>

definition empty_board :: board where
  "empty_board = \<lparr>b_mode = JNull, b_head = JNull, b_states = [], b_runs = [], b_full_rounds = None,
                  b_round = None, b_replies_through = JNull, b_submitted_by = JNull\<rparr>"

datatype provenance_of = Fresh | Assumed | Stale | Missing | FetchFailed

type_synonym meta = "board \<times> provenance_of"

text \<open>\<open>str(v or "")\<close>; \<open>to_text\<close> is \<open>str\<close> on a value that is not a string.\<close>

definition str_or_empty :: "(json \<Rightarrow> string) \<Rightarrow> json \<Rightarrow> string" where
  "str_or_empty to_text v = (if \<not> truthy v then [] else case v of JStr s \<Rightarrow> s | _ \<Rightarrow> to_text v)"

text \<open>\<open>isinstance(v, int)\<close>, which a Python boolean satisfies.\<close>

fun py_int :: "json \<Rightarrow> int option" where
  "py_int (JNum (PInt i)) = Some i"
| "py_int (JBool b) = Some (if b then 1 else 0)"
| "py_int _ = None"

section \<open>The predicates\<close>

definition blocks_word :: "json \<Rightarrow> bool" where
  "blocks_word v \<longleftrightarrow> v \<in> {JStr ''blocking_request'', JStr ''blocking_block''}"

definition allowed_state :: "(string \<times> json) list \<Rightarrow> json \<Rightarrow> bool" where
  "allowed_state states v \<longleftrightarrow>
     v \<in> {JStr ''green'', JStr ''blocking_request'', JStr ''blocking_block''}
     \<or> (v = JStr ''stale'' \<and> list_ex (\<lambda>(k, u). blocks_word u) states)
     \<or> (v = JStr ''absent'' \<and> list_ex (\<lambda>(k, u). u = JStr ''blocking_block'') states)"

definition ledger_clean_head :: "(json \<Rightarrow> string) \<Rightarrow> board \<Rightarrow> string" where
  "ledger_clean_head to_text m =
     (if b_mode m = JStr ''init'' then []
      else if b_states m \<noteq> [] then
        (if list_all (\<lambda>(k, v). allowed_state (b_states m) v) (b_states m)
         then str_or_empty to_text (b_head m) else [])
      else if b_runs m \<noteq> [] \<and> list_all (\<lambda>v. v \<noteq> JStr ''error'') (b_runs m)
      then str_or_empty to_text (b_head m) else [])"

definition ledger_blocking :: "(json \<Rightarrow> string) \<Rightarrow> board \<Rightarrow> string \<Rightarrow> bool" where
  "ledger_blocking to_text m head =
     (if str_or_empty to_text (b_head m) \<noteq> head then False
      else if b_states m \<noteq> [] then list_ex (\<lambda>(k, v). v \<notin> {JStr ''green'', JStr ''stale''}) (b_states m)
      else list_ex (\<lambda>v. v \<notin> {JStr ''approve'', JStr ''error''}) (b_runs m))"

definition review_rounds :: "board \<Rightarrow> int \<Rightarrow> int" where
  "review_rounds m base =
     (let full = (case b_full_rounds m of None \<Rightarrow> None | Some v \<Rightarrow> py_int v);
          total = (case full of
                     Some n \<Rightarrow> n
                   | None \<Rightarrow> (case b_round m of None \<Rightarrow> 0
                             | Some v \<Rightarrow> (case py_int v of None \<Rightarrow> 0 | Some n \<Rightarrow> n)))
      in max 0 (total - base))"

section \<open>Caches\<close>

text \<open>
  A sidecar carries its own payload. \<open>fetched\<close> is \<open>None\<close> when the file's time is no number, and a
  sidecar that cannot be read or is no object is absent.
\<close>

datatype 'a payload = Present 'a | AbsentBoard | OtherStatus

record 'a sidecar =
  sc_updated :: string
  sc_fetched :: "rat option"
  sc_payload :: "'a payload"

record contest =
  ct_id :: int
  ct_rubric :: string
  ct_created :: "string option"

text \<open>
  The reader's state: the clocks this pass observed, the facts the shared service seeded, the comment
  memo (when and what, \<open>None\<close> a failed fetch), the sidecars and the legacy copy with its time.
\<close>

record facts =
  f_issue :: bool
  f_meta :: "board option"
  f_review :: bool
  f_contest :: "contest option"
  f_rebase_heads :: "string list"

record reader =
  rd_service :: bool
  rd_observed :: "(int \<times> string) list"
  rd_facts :: "(int \<times> facts) list"
  rd_memo :: "(int \<times> rat \<times> board option option) list"
  rd_key :: "(int \<times> board sidecar) list"
  rd_contest :: "(int \<times> contest option sidecar) list"
  rd_cache :: "(int \<times> rat \<times> board option) list"

definition sbcache_backstop_s :: rat where
  "sbcache_backstop_s = 1800"

definition sbcache_ttl :: rat where
  "sbcache_ttl = 120"

definition comments_memo_s :: rat where
  "comments_memo_s = 5"

text \<open>\<open>observe\<close>: the clocks of this pass replace the old ones, and a moved clock drops the memo.\<close>

definition observe :: "(int \<times> string) list \<Rightarrow> reader \<Rightarrow> reader" where
  "observe clocks st =
     (let seen = filter (\<lambda>(n, u). u \<noteq> []) clocks;
          moved = (\<lambda>n. map_of (rd_observed st) n \<noteq> None \<and> map_of seen n \<noteq> map_of (rd_observed st) n)
      in st\<lparr>rd_observed := seen, rd_memo := filter (\<lambda>(n, m). \<not> moved n) (rd_memo st)\<rparr>)"

definition entitled :: "reader \<Rightarrow> (int \<times> 'a sidecar) list \<Rightarrow> int \<Rightarrow> rat \<Rightarrow> 'a sidecar option" where
  "entitled st side pr now =
     (if rd_service st then None
      else case map_of (rd_observed st) pr of
             None \<Rightarrow> None
           | Some key \<Rightarrow>
               if key = [] then None
               else (case map_of side pr of
                       None \<Rightarrow> None
                     | Some sc \<Rightarrow>
                         if sc_updated sc \<noteq> key then None
                         else (case sc_fetched sc of
                                 None \<Rightarrow> None
                               | Some f \<Rightarrow> if 0 \<le> now - f \<and> now - f < sbcache_backstop_s then Some sc else None)))"

definition write_sidecar :: "reader \<Rightarrow> int \<Rightarrow> rat \<Rightarrow> 'a payload \<Rightarrow> (int \<times> 'a sidecar) list \<Rightarrow> (int \<times> 'a sidecar) list" where
  "write_sidecar st pr now p side =
     dict_set pr \<lparr>sc_updated = (case map_of (rd_observed st) pr of None \<Rightarrow> [] | Some k \<Rightarrow> k),
                  sc_fetched = Some now, sc_payload = p\<rparr> side"

section \<open>\<open>gh_meta\<close>\<close>

text \<open>
  The comments as \<open>scoreboard\<close> parses them: \<open>None\<close> a failed fetch, \<open>Some None\<close> no scoreboard. \<open>shared\<close>
  tells whether the read was served by a shared cache.
\<close>

definition issue_comments ::
  "(int \<Rightarrow> board option option) \<Rightarrow> bool \<Rightarrow> int \<Rightarrow> rat \<Rightarrow> reader \<Rightarrow> board option option \<times> reader" where
  "issue_comments fetch force pr now st =
     (case (if force then None else map_of (rd_memo st) pr) of
        Some (t, cs) \<Rightarrow>
          if now - t < comments_memo_s then (cs, st)
          else (fetch pr, st\<lparr>rd_memo := dict_set pr (now, fetch pr) (rd_memo st)\<rparr>)
      | None \<Rightarrow> (fetch pr, st\<lparr>rd_memo := dict_set pr (now, fetch pr) (rd_memo st)\<rparr>))"

definition live_meta ::
  "(int \<Rightarrow> board option option) \<Rightarrow> (int \<Rightarrow> bool) \<Rightarrow> bool \<Rightarrow> int \<Rightarrow> rat \<Rightarrow> reader \<Rightarrow> meta \<times> reader" where
  "live_meta fetch shared force pr now st =
     (let (comments, st1) = issue_comments fetch force pr now st
      in case comments of
           None \<Rightarrow>
             (case map_of (rd_cache st1) pr of
                Some (mtime, Some prior) \<Rightarrow> ((prior, Stale), st1)
              | _ \<Rightarrow> ((empty_board, FetchFailed), st1))
         | Some None \<Rightarrow>
             ((empty_board, Missing),
              st1\<lparr>rd_key := write_sidecar st1 pr now AbsentBoard (rd_key st1),
                  rd_cache := dict_del pr (rd_cache st1)\<rparr>)
         | Some (Some data) \<Rightarrow>
             ((data, if shared pr then Assumed else Fresh),
              st1\<lparr>rd_key := write_sidecar st1 pr now (Present data) (rd_key st1),
                  rd_cache := dict_set pr (now, Some data) (rd_cache st1)\<rparr>))"

definition cached_meta :: "int \<Rightarrow> rat \<Rightarrow> reader \<Rightarrow> meta option" where
  "cached_meta pr now st =
     (case entitled st (rd_key st) pr now of
        Some sc \<Rightarrow>
          (case sc_payload sc of
             Present m \<Rightarrow> Some (m, Assumed)
           | AbsentBoard \<Rightarrow> Some (empty_board, Missing)
           | OtherStatus \<Rightarrow> None)
      | None \<Rightarrow>
          if \<not> rd_service st \<and> (case map_of (rd_observed st) pr of None \<Rightarrow> True | Some k \<Rightarrow> k = [])
          then (case map_of (rd_cache st) pr of
                  Some (mtime, Some m) \<Rightarrow> if now - mtime < sbcache_ttl then Some (m, Assumed) else None
                | _ \<Rightarrow> None)
          else None)"

definition gh_meta ::
  "(int \<Rightarrow> board option option) \<Rightarrow> (int \<Rightarrow> bool) \<Rightarrow> bool \<Rightarrow> int \<Rightarrow> rat \<Rightarrow> reader \<Rightarrow> meta \<times> reader" where
  "gh_meta fetch shared force pr now st0 =
     (let st = (if force then st0\<lparr>rd_facts := dict_del pr (rd_facts st0)\<rparr> else st0)
      in case map_of (rd_facts st) pr of
           Some f \<Rightarrow>
             if f_issue f
             then (case f_meta f of None \<Rightarrow> ((empty_board, Missing), st) | Some m \<Rightarrow> ((m, Fresh), st))
             else (case (if force then None else cached_meta pr now st) of
                     Some m \<Rightarrow> (m, st) | None \<Rightarrow> live_meta fetch shared force pr now st)
         | None \<Rightarrow>
             (case (if force then None else cached_meta pr now st) of
                Some m \<Rightarrow> (m, st) | None \<Rightarrow> live_meta fetch shared force pr now st))"

section \<open>Contests and invalidation\<close>

definition newest_contest_reply ::
  "(int \<Rightarrow> contest option option) \<Rightarrow> bool \<Rightarrow> int \<Rightarrow> rat \<Rightarrow> reader \<Rightarrow> contest option \<times> reader" where
  "newest_contest_reply fetch force pr now st0 =
     (let st = (if force then st0\<lparr>rd_facts := dict_del pr (rd_facts st0)\<rparr> else st0);
          live = (case fetch pr of
                    None \<Rightarrow> (None, st)
                  | Some best \<Rightarrow> (best, st\<lparr>rd_contest := write_sidecar st pr now (Present best) (rd_contest st)\<rparr>));
          side = (if force then live
                  else case entitled st (rd_contest st) pr now of
                         Some sc \<Rightarrow> (case sc_payload sc of Present c \<Rightarrow> (c, st) | _ \<Rightarrow> live)
                       | None \<Rightarrow> live)
      in case map_of (rd_facts st) pr of
           Some f \<Rightarrow> if f_review f then (f_contest f, st) else side
         | None \<Rightarrow> side)"

definition bust :: "int \<Rightarrow> reader \<Rightarrow> reader" where
  "bust pr st = st\<lparr>rd_cache := dict_del pr (rd_cache st), rd_key := dict_del pr (rd_key st),
     rd_contest := dict_del pr (rd_contest st), rd_memo := dict_del pr (rd_memo st),
     rd_facts := dict_del pr (rd_facts st)\<rparr>"

end
