(* ===== verification/ReviewLaws.thy ===== *)
theory ReviewLaws
  imports ReviewBoard
begin

text \<open>
  How far a scoreboard may be trusted: what each provenance means, what a forced read guarantees before
  money is spent, and that a moved clock always forces a new read.
\<close>

lemma entitled_Some:
  "entitled st side pr now = Some sc \<longleftrightarrow> \<not> rd_service st \<and> map_of side pr = Some sc
     \<and> map_of (rd_observed st) pr = Some (sc_updated sc) \<and> sc_updated sc \<noteq> []
     \<and> (\<exists>f. sc_fetched sc = Some f \<and> 0 \<le> now - f \<and> now - f < sbcache_backstop_s)"
  by (auto simp: entitled_def split: option.splits)

lemma issue_comments_cases:
  "issue_comments fetch force pr now st = (cs, st') \<Longrightarrow>
     (cs = fetch pr \<or> (\<not> force \<and> (\<exists>t. map_of (rd_memo st) pr = Some (t, cs) \<and> now - t < comments_memo_s)))
     \<and> rd_cache st' = rd_cache st \<and> rd_key st' = rd_key st \<and> rd_observed st' = rd_observed st
     \<and> (force \<longrightarrow> cs = fetch pr)"
  by (auto simp: issue_comments_def split: option.splits if_splits)

lemma live_meta_spec:
  assumes "live_meta fetch shared force pr now st = ((m, prov), st')"
  obtains cs where
    "cs = fetch pr \<or> (\<not> force \<and> (\<exists>t. map_of (rd_memo st) pr = Some (t, cs) \<and> now - t < comments_memo_s))"
    and "case cs of
           None \<Rightarrow> rd_key st' = rd_key st \<and> rd_cache st' = rd_cache st
             \<and> (prov = Stale \<and> (\<exists>t. map_of (rd_cache st) pr = Some (t, Some m)) \<or> prov = FetchFailed \<and> m = empty_board)
         | Some None \<Rightarrow> m = empty_board \<and> prov = Missing \<and> map_of (rd_cache st') pr = None
         | Some (Some d) \<Rightarrow> m = d \<and> prov = (if shared pr then Assumed else Fresh)"
proof -
  obtain cs st1 where c: "issue_comments fetch force pr now st = (cs, st1)"
    by (cases "issue_comments fetch force pr now st")
  note ic = issue_comments_cases [OF c]
  have "case cs of
           None \<Rightarrow> rd_key st' = rd_key st \<and> rd_cache st' = rd_cache st
             \<and> (prov = Stale \<and> (\<exists>t. map_of (rd_cache st) pr = Some (t, Some m)) \<or> prov = FetchFailed \<and> m = empty_board)
         | Some None \<Rightarrow> m = empty_board \<and> prov = Missing \<and> map_of (rd_cache st') pr = None
         | Some (Some d) \<Rightarrow> m = d \<and> prov = (if shared pr then Assumed else Fresh)"
    using assms ic by (auto simp: live_meta_def c split: option.splits)
  with ic that show thesis by blast
qed

text \<open>
  every scoreboard carries the trust it earned. A forced read, which is what precedes spending, never
  comes from a cache: it is the live answer, an absence it finds is recorded and drops the old board, and
  only a failed fetch falls back on an old one, marked stale, without touching the recorded entitlement.
  Without force, \<open>stale\<close> still means the old copy after a failure, and \<open>assumed\<close> (unless the shared
  cache answered) means a sidecar written at the very clock this pass observed and under half an hour
  old, or, without a clock, a copy within its two minutes.
\<close>

theorem scoreboard_trust:
  assumes "gh_meta fetch shared force pr now st = ((m, prov), st')"
  shows "(force \<longrightarrow> (case fetch pr of
            None \<Rightarrow> prov \<in> {Stale, FetchFailed} \<and> rd_key st' = rd_key st
          | Some None \<Rightarrow> m = empty_board \<and> prov = Missing \<and> map_of (rd_cache st') pr = None
          | Some (Some d) \<Rightarrow> m = d \<and> prov = (if shared pr then Assumed else Fresh)))
     \<and> (prov = Stale \<longrightarrow> (\<exists>t. map_of (rd_cache st) pr = Some (t, Some m)))
     \<and> (prov = Assumed \<and> \<not> shared pr \<longrightarrow>
          (\<exists>sc f. map_of (rd_key st) pr = Some sc \<and> sc_payload sc = Present m
             \<and> map_of (rd_observed st) pr = Some (sc_updated sc) \<and> sc_fetched sc = Some f
             \<and> 0 \<le> now - f \<and> now - f < 1800)
          \<or> (\<exists>t. map_of (rd_cache st) pr = Some (t, Some m) \<and> now - t < 120))"
proof -
  define st0 where "st0 = (if force then st\<lparr>rd_facts := dict_del pr (rd_facts st)\<rparr> else st)"
  have same: "rd_key st0 = rd_key st" "rd_cache st0 = rd_cache st" "rd_observed st0 = rd_observed st"
    "rd_memo st0 = rd_memo st" by (simp_all add: st0_def)
  have facts: "force \<Longrightarrow> map_of (rd_facts st0) pr = None" by (simp add: st0_def)
  consider (fact) f where "\<not> force" "map_of (rd_facts st0) pr = Some f" "f_issue f"
      "prov \<in> {Missing, Fresh}"
    | (cached) "\<not> force" "cached_meta pr now st0 = Some (m, prov)"
    | (live) "live_meta fetch shared force pr now st0 = ((m, prov), st')"
    using assms facts
    by (auto simp: gh_meta_def st0_def [symmetric] Let_def split: option.splits if_splits)
  then show ?thesis
  proof cases
    case fact
    then show ?thesis by auto
  next
    case cached
    then show ?thesis
      using same
      by (auto simp: cached_meta_def entitled_Some sbcache_backstop_s_def sbcache_ttl_def
          split: option.splits payload.splits if_splits)
  next
    case live
    from live_meta_spec [OF live] obtain cs where
      cs: "cs = fetch pr \<or> (\<not> force \<and> (\<exists>t. map_of (rd_memo st0) pr = Some (t, cs) \<and> now - t < comments_memo_s))"
      and sp: "case cs of
           None \<Rightarrow> rd_key st' = rd_key st0 \<and> rd_cache st' = rd_cache st0
             \<and> (prov = Stale \<and> (\<exists>t. map_of (rd_cache st0) pr = Some (t, Some m)) \<or> prov = FetchFailed \<and> m = empty_board)
         | Some None \<Rightarrow> m = empty_board \<and> prov = Missing \<and> map_of (rd_cache st') pr = None
         | Some (Some d) \<Rightarrow> m = d \<and> prov = (if shared pr then Assumed else Fresh)" by blast
    have fc: "force \<longrightarrow> fetch pr = cs" using cs by blast
    show ?thesis
    proof (cases cs)
      case None
      with fc sp same show ?thesis by auto
    next
      case (Some d)
      with fc sp same show ?thesis by (cases d) (auto split: if_splits)
    qed
  qed
qed

definition sample_board :: board where
  "sample_board = empty_board\<lparr>b_head := JStr ''abc'', b_states := [(''proof'', JStr ''green'')]\<rparr>"

definition sample_reader :: reader where
  "sample_reader = \<lparr>rd_service = False, rd_observed = [(7, ''t1'')], rd_facts = [], rd_memo = [],
     rd_key = [(7, \<lparr>sc_updated = ''t1'', sc_fetched = Some 0, sc_payload = Present sample_board\<rparr>)],
     rd_contest = [], rd_cache = []\<rparr>"

theorem scoreboard_trust_witness:
  "\<exists>m st'. gh_meta (\<lambda>_. Some None) (\<lambda>_. False) True 7 10 sample_reader = ((m, Missing), st') \<and> m = empty_board"
proof -
  obtain m prov st' where g: "gh_meta (\<lambda>_. Some None) (\<lambda>_. False) True 7 10 sample_reader = ((m, prov), st')"
    by (metis surj_pair)
  from scoreboard_trust [OF g] have "m = empty_board \<and> prov = Missing" by simp
  with g show ?thesis by blast
qed

text \<open>
  a moved clock always forces a new read. When a pass observes a new \<open>updatedAt\<close> for a pull request
  whose recorded sidecar carries another, no cache, sidecar or memo of the previous pass answers: the
  scoreboard is what the fetch gives, and the sidecar written from it carries the new clock.
\<close>

theorem moved_clock_refetches:
  assumes "map_of (rd_observed st) pr = Some old" and "map_of clocks pr = Some new" and "new \<noteq> old" and "new \<noteq> []"
    and "map_of (rd_facts st) pr = None"
    and "\<forall>sc. map_of (rd_key st) pr = Some sc \<longrightarrow> sc_updated sc \<noteq> new"
    and "fetch pr = Some (Some d)" and "\<not> shared pr"
  shows "\<exists>st'. gh_meta fetch shared False pr now (observe clocks st) = ((d, Fresh), st')
     \<and> map_of (rd_key st') pr = Some \<lparr>sc_updated = new, sc_fetched = Some now, sc_payload = Present d\<rparr>"
proof -
  have seen: "map_of (filter (\<lambda>(n, u). u \<noteq> []) clocks) pr = Some new"
    using assms(2,4) by (induction clocks) (auto split: if_splits)
  have memo: "map_of (filter (\<lambda>(n, m). \<not> (P n)) xs) pr = None" if "P pr" for P and xs :: "(int \<times> 'z) list"
    using that by (induction xs) auto
  let ?st = "observe clocks st"
  have o: "map_of (rd_observed ?st) pr = Some new" "rd_facts ?st = rd_facts st" "rd_key ?st = rd_key st"
    "rd_service ?st = rd_service st"
    using seen by (simp_all add: observe_def Let_def)
  define moved where "moved = (\<lambda>n. map_of (rd_observed st) n \<noteq> None
      \<and> map_of (filter (\<lambda>(n, u). u \<noteq> []) clocks) n \<noteq> map_of (rd_observed st) n)"
  have r: "rd_memo ?st = filter (\<lambda>(n, m). \<not> moved n) (rd_memo st)"
    by (simp add: observe_def Let_def moved_def)
  have "moved pr" using seen assms(1,3) by (simp add: moved_def)
  then have m: "map_of (rd_memo ?st) pr = None" unfolding r by (rule memo)
  have "entitled ?st (rd_key ?st) pr now = None"
    using o assms(6) by (cases "entitled ?st (rd_key ?st) pr now") (auto simp: entitled_Some)
  then have "cached_meta pr now ?st = None" using o(1) assms(4) by (simp add: cached_meta_def)
  moreover have "issue_comments fetch False pr now ?st
      = (fetch pr, ?st\<lparr>rd_memo := dict_set pr (now, fetch pr) (rd_memo ?st)\<rparr>)"
    using m by (simp add: issue_comments_def)
  ultimately show ?thesis
    using o assms(5,7,8) by (simp add: gh_meta_def live_meta_def write_sidecar_def Let_def)
qed

theorem moved_clock_refetches_witness:
  "\<exists>st'. gh_meta (\<lambda>_. Some (Some empty_board)) (\<lambda>_. False) False 7 10 (observe [(7, ''t2'')] sample_reader)
     = ((empty_board, Fresh), st')"
  using moved_clock_refetches [of sample_reader 7 "''t1''" "[(7, ''t2'')]" "''t2''" "\<lambda>_. Some (Some empty_board)"
      empty_board "\<lambda>_. False" 10]
  by (auto simp: sample_reader_def)

section \<open>The predicates\<close>

text \<open>
  the two verdicts of a scoreboard fit together. At a head the board does not name, neither holds;
  a completed clean head that nothing blocks has every rubric green (or stale, or, without states, every
  run approved); a stale approval alone never completes a head; and a board in its initial mode
  completes none.
\<close>

theorem clean_and_unblocked_is_green:
  assumes "ledger_clean_head to_text m = head" and "head \<noteq> []"
  shows "str_or_empty to_text (b_head m) = head \<and> b_mode m \<noteq> JStr ''init''
     \<and> (\<not> ledger_blocking to_text m head \<longrightarrow>
          (b_states m \<noteq> [] \<longrightarrow> list_all (\<lambda>(k, v). v = JStr ''green'') (b_states m))
          \<and> (b_states m = [] \<longrightarrow> b_runs m \<noteq> [] \<and> list_all (\<lambda>v. v = JStr ''approve'') (b_runs m)))"
proof -
  have h: "str_or_empty to_text (b_head m) = head" "b_mode m \<noteq> JStr ''init''"
    using assms by (auto simp: ledger_clean_head_def split: if_splits)
  have "list_all (\<lambda>(k, v). v = JStr ''green'') (b_states m)"
    if nb: "\<not> ledger_blocking to_text m head" and ne: "b_states m \<noteq> []"
  proof -
    have gs: "\<forall>(k, v)\<in>set (b_states m). v \<in> {JStr ''green'', JStr ''stale''}"
      using nb ne h by (auto simp: ledger_blocking_def list_ex_iff)
    have al: "\<forall>(k, v)\<in>set (b_states m). allowed_state (b_states m) v"
      using assms h ne by (auto simp: ledger_clean_head_def list_all_iff split: if_splits)
    have nb: "\<not> list_ex (\<lambda>(k, u). blocks_word u) (b_states m)"
      using gs by (auto simp: list_ex_iff blocks_word_def)
    show ?thesis unfolding list_all_iff
    proof clarify
      fix k v assume kv: "(k, v) \<in> set (b_states m)"
      from bspec [OF al kv] have "allowed_state (b_states m) v" by simp
      then have "v \<noteq> JStr ''stale''" using nb by (auto simp: allowed_state_def)
      moreover from bspec [OF gs kv] have "v \<in> {JStr ''green'', JStr ''stale''}" by simp
      ultimately show "v = JStr ''green''" by blast
    qed
  qed
  moreover have "b_runs m \<noteq> [] \<and> list_all (\<lambda>v. v = JStr ''approve'') (b_runs m)"
    if "\<not> ledger_blocking to_text m head" "b_states m = []"
  proof -
    have ne: "b_runs m \<noteq> []" and "list_all (\<lambda>v. v \<noteq> JStr ''error'') (b_runs m)"
      using assms that(2) h by (simp_all add: ledger_clean_head_def split: if_splits)
    moreover have "list_all (\<lambda>v. v \<in> {JStr ''approve'', JStr ''error''}) (b_runs m)"
      using that h by (simp add: ledger_blocking_def list_all_iff list_ex_iff)
    ultimately show ?thesis unfolding list_all_iff by blast
  qed
  ultimately show ?thesis using h by blast
qed

theorem clean_and_unblocked_is_green_witness:
  "list_all (\<lambda>(k, v). v = JStr ''green'') (b_states sample_board)"
proof -
  have "ledger_clean_head (\<lambda>_. []) sample_board = ''abc''" "\<not> ledger_blocking (\<lambda>_. []) sample_board ''abc''"
    "b_states sample_board \<noteq> []"
    by (simp_all add: ledger_clean_head_def ledger_blocking_def sample_board_def empty_board_def
        allowed_state_def str_or_empty_def)
  with clean_and_unblocked_is_green [of "\<lambda>_. []" sample_board "''abc''"] show ?thesis by simp
qed

end
