(* ===== verification/Survey.thy ===== *)
theory Survey
  imports ReviewBoard
begin

text \<open>
  The read-only survey of \<open>tauceti_worker/survey.py\<close>: retry counters and verified rebase progress, the
  facts of a pull request, and the classification of every open pull request into the actionable and
  suppressed work of each stage. The roadmap reductions of the tools package (areas of a pull request)
  are parameters.
\<close>

section \<open>Budgets\<close>

definition max_fix_attempts :: int where "max_fix_attempts = 6"
definition max_review_errors :: int where "max_review_errors = 3"
definition max_review_contests :: int where "max_review_contests = 10"
definition max_review_contests_per_rubric :: int where "max_review_contests_per_rubric = 3"
definition max_ci_attempts :: int where "max_ci_attempts = 3"
definition max_ci_pr_attempts :: int where "max_ci_pr_attempts = 5"
definition max_rebase_attempts :: int where "max_rebase_attempts = 3"
definition max_bump_attempts :: int where "max_bump_attempts = 3"
definition max_bump_pr_attempts :: int where "max_bump_pr_attempts = 5"
definition max_lint_repair_attempts :: int where "max_lint_repair_attempts = 3"
definition max_lint_repair_pr_attempts :: int where "max_lint_repair_pr_attempts = 6"
definition contest_claim_ttl :: rat where "contest_claim_ttl = 3600"

lemmas budget_defs = max_fix_attempts_def max_review_errors_def max_review_contests_def
  max_review_contests_per_rubric_def max_ci_attempts_def max_ci_pr_attempts_def max_rebase_attempts_def
  max_bump_attempts_def max_bump_pr_attempts_def max_lint_repair_attempts_def max_lint_repair_pr_attempts_def

definition bump_head_prefix :: string where "bump_head_prefix = ''bump-mathlib/''"
definition lint_repair_head_prefix :: string where "lint_repair_head_prefix = ''lint-repair/''"
definition tauceti :: string where "tauceti = ''TauCetiProject/TauCeti''"
definition tauceti_owner :: string where "tauceti_owner = fst (split_once (CHR 0x2F) tauceti)"

section \<open>Counters\<close>

text \<open>The counter files by meaning; the names of different keys differ.\<close>

datatype ckey =
    RebasePr int
  | RebaseEpoch int string
  | RebaseBump int
  | ReviewErr int
  | ReviewContest int
  | ReviewContestRubric int string
  | FixHead int string
  | CiHead int string
  | CiPr int
  | BumpHead int string
  | BumpPr int
  | LintHead int string
  | LintPr int
  | Infra string int
  | ProgressErrors
  | ProgressAttempt
  | OtherCounter string

datatype cfile = NoFile | Unreadable | FileText string

datatype rebase_error = CounterUnreadable | CounterMalformed | CheckpointUnreadable
  | CheckpointSchema | CheckpointEvidence

datatype pfile = NoCheckpoint | BadCheckpoint | Checkpoint json

record counters =
  cn_files :: "ckey \<Rightarrow> cfile"
  cn_progress :: "int \<Rightarrow> pfile"
  cn_foreign :: "int \<Rightarrow> bool"
  cn_writable :: bool

text \<open>Names that start with \<open>rebase-pr-\<close>: unreadable evidence is an error there, and zero elsewhere.\<close>

fun strict_key :: "ckey \<Rightarrow> bool" where
  "strict_key (RebasePr n) = True"
| "strict_key (RebaseEpoch n e) = True"
| "strict_key _ = False"

definition read_counter :: "counters \<Rightarrow> ckey \<Rightarrow> rebase_error + int" where
  "read_counter st k =
     (case cn_files st k of
        NoFile \<Rightarrow> Inr 0
      | Unreadable \<Rightarrow> if strict_key k then Inl CounterUnreadable else Inr 0
      | FileText t \<Rightarrow>
          (let txt = py_strip t; ok = txt \<noteq> [] \<and> list_all is_digit txt
           in if \<not> ok \<and> strict_key k then Inl CounterMalformed
              else Inr (if ok then int (digits_nat txt) else 0)))"

text \<open>A counter of a name that is not strict.\<close>

definition count :: "counters \<Rightarrow> ckey \<Rightarrow> int" where
  "count st k = (case read_counter st k of Inl _ \<Rightarrow> 0 | Inr n \<Rightarrow> n)"

definition write_counter :: "(int \<Rightarrow> string) \<Rightarrow> ckey \<Rightarrow> int \<Rightarrow> counters \<Rightarrow> counters" where
  "write_counter dec k v st = st\<lparr>cn_files := (cn_files st)(k := FileText (dec v))\<rparr>"

definition incr_counter :: "(int \<Rightarrow> string) \<Rightarrow> ckey \<Rightarrow> counters \<Rightarrow> rebase_error + int \<times> counters" where
  "incr_counter dec k st = ebind (read_counter st k) (\<lambda>n. Inr (n + 1, write_counter dec k (n + 1) st))"

definition foreign_repair_launched :: "counters \<Rightarrow> int \<Rightarrow> bool" where
  "foreign_repair_launched st pr = cn_foreign st pr"

definition record_foreign_repair_launch :: "int \<Rightarrow> counters \<Rightarrow> counters" where
  "record_foreign_repair_launch pr st = st\<lparr>cn_foreign := (cn_foreign st)(pr := True)\<rparr>"

definition positive_stamp :: "json \<Rightarrow> bool" where
  "positive_stamp v = (case v of JNum (PInt i) \<Rightarrow> 0 < i | _ \<Rightarrow> False)"

definition rebase_progress :: "counters \<Rightarrow> int \<Rightarrow> rebase_error + string option" where
  "rebase_progress st pr =
     (case cn_progress st pr of
        NoCheckpoint \<Rightarrow> Inr None
      | BadCheckpoint \<Rightarrow> Inl CheckpointUnreadable
      | Checkpoint v \<Rightarrow>
          (case v of
             JObj d \<Rightarrow>
               if jget0 d ''schema'' \<noteq> JStr ''tauceti-rebase-progress/v1'' then Inl CheckpointSchema
               else (case jget0 d ''checkpoint'' of
                       JObj c \<Rightarrow>
                         (case jget0 c ''head'' of
                            JStr h \<Rightarrow>
                              if h = [] \<or> (jget0 c ''build_status_at'' \<noteq> JNull
                                            \<and> \<not> positive_stamp (jget0 c ''build_status_at''))
                              then Inl CheckpointEvidence else Inr (Some h)
                          | _ \<Rightarrow> Inl CheckpointEvidence)
                     | _ \<Rightarrow> Inl CheckpointEvidence)
           | _ \<Rightarrow> Inl CheckpointSchema))"

text \<open>\<open>epoch\<close> is the digest of the checkpoint.\<close>

definition rebase_budget_key :: "(string \<Rightarrow> string) \<Rightarrow> counters \<Rightarrow> int \<Rightarrow> rebase_error + ckey" where
  "rebase_budget_key epoch st pr =
     ebind (rebase_progress st pr) (\<lambda>c. Inr (case c of None \<Rightarrow> RebasePr pr | Some h \<Rightarrow> RebaseEpoch pr (epoch h)))"

section \<open>Pull requests\<close>

record prinfo =
  number :: int
  head_oid :: string
  head_ref :: string
  head_owner :: string
  head_repo :: string
  is_draft :: bool
  mergeable :: string
  author :: string
  build_success :: bool
  build_failed :: bool
  author_is_bot :: bool
  title :: string
  target_focuses :: "string list"
  labels :: "string list"
  build_status_at :: "int option"
  updated_at :: string
  bump_integration_failed :: bool

definition build_fail :: "string list" where
  "build_fail = [''FAILURE'', ''ERROR'', ''TIMED_OUT'', ''CANCELLED'', ''STARTUP_FAILURE'', ''ACTION_REQUIRED'']"

definition automatic_bump :: "prinfo \<Rightarrow> bool" where
  "automatic_bump p \<longleftrightarrow> author_is_bot p \<and> head_owner p @ ''/'' @ head_repo p = tauceti
     \<and> starts_with bump_head_prefix (head_ref p)"

text \<open>
  One row of the listing query, \<open>None\<close> for a field that is missing or null. The focuses named by the
  target markers of a body, and the time an ISO timestamp denotes, are parameters.
\<close>

record rollup =
  ru_context :: "string option"
  ru_state :: "string option"
  ru_started :: "string option"

record row =
  rw_number :: int
  rw_title :: "string option"
  rw_focuses :: "string list option"
  rw_body :: "string option"
  rw_head_oid :: "string option"
  rw_head_ref :: "string option"
  rw_owner :: "string option"
  rw_repo :: "string option"
  rw_draft :: bool
  rw_mergeable :: "string option"
  rw_author :: "string option"
  rw_is_bot :: bool
  rw_rollup :: "rollup list"
  rw_labels :: "string option list"
  rw_updated :: "string option"

definition or_default :: "'a \<Rightarrow> 'a option \<Rightarrow> 'a" where
  "or_default d v = (case v of None \<Rightarrow> d | Some x \<Rightarrow> x)"

definition posted_at :: "(string \<Rightarrow> rat option) \<Rightarrow> string option \<Rightarrow> int option" where
  "posted_at iso_ts s =
     (case s of None \<Rightarrow> None
      | Some t \<Rightarrow> if t = [] then None
                  else map_option (\<lambda>q. if 0 \<le> q then \<lfloor>q\<rfloor> else \<lceil>q\<rceil>) (iso_ts t))"

definition pr_of_row :: "(string \<Rightarrow> string list) \<Rightarrow> (string \<Rightarrow> rat option) \<Rightarrow> row \<Rightarrow> prinfo" where
  "pr_of_row focuses iso_ts d =
     (let build = filter (\<lambda>c. ru_context c = Some ''build'') (rw_rollup d);
          states = map ru_state build;
          posted = map the (filter (\<lambda>t. t \<noteq> None) (map (\<lambda>c. posted_at iso_ts (ru_started c)) build));
          failing = (\<lambda>s. case s of None \<Rightarrow> False | Some x \<Rightarrow> x \<in> set build_fail)
      in \<lparr>number = rw_number d, head_oid = or_default [] (rw_head_oid d),
          head_ref = or_default [] (rw_head_ref d), head_owner = or_default [] (rw_owner d),
          head_repo = or_default [] (rw_repo d), is_draft = rw_draft d,
          mergeable = or_default ''UNKNOWN'' (rw_mergeable d), author = or_default [] (rw_author d),
          build_success = states \<noteq> [] \<and> list_all (\<lambda>s. s = Some ''SUCCESS'') states,
          build_failed = list_ex failing states,
          author_is_bot = rw_is_bot d, title = or_default [] (rw_title d),
          target_focuses = (case rw_focuses d of Some f \<Rightarrow> f | None \<Rightarrow> focuses (or_default [] (rw_body d))),
          labels = map (or_default []) (rw_labels d),
          build_status_at = (if posted = [] then None else Some (Max (set posted))),
          updated_at = or_default [] (rw_updated d),
          bump_integration_failed =
            list_ex (\<lambda>c. ru_context c = Some ''bump-integration'' \<and> failing (ru_state c)) (rw_rollup d)\<rparr>)"

definition lower_labels :: "prinfo \<Rightarrow> string list" where
  "lower_labels p = map py_lower (labels p)"

definition hold_labels :: "string list" where
  "hold_labels = [''keep'', ''hold'', ''wip'', ''human'', ''on-hold'', ''do-not-close'']"

definition held :: "prinfo \<Rightarrow> bool" where
  "held p \<longleftrightarrow> list_ex (\<lambda>l. l \<in> set hold_labels) (lower_labels p)"

definition review_held :: "prinfo \<Rightarrow> bool" where
  "review_held p \<longleftrightarrow> list_ex (\<lambda>l. l \<in> {''hold'', ''wip'', ''human'', ''on-hold''}) (lower_labels p)"

definition needs_rebase :: "prinfo \<Rightarrow> bool" where
  "needs_rebase p \<longleftrightarrow> ''needs-rebase'' \<in> set (lower_labels p)"

text \<open>\<open>p.head_oid[:12]\<close>.\<close>

definition head12 :: "prinfo \<Rightarrow> string" where
  "head12 p = take 12 (head_oid p)"

section \<open>Verified rebase progress\<close>

definition observe_rebase_progress :: "prinfo \<Rightarrow> bool \<Rightarrow> counters \<Rightarrow> rebase_error + counters" where
  "observe_rebase_progress p handoff st =
     (if is_draft p \<or> handoff \<or> mergeable p \<noteq> ''MERGEABLE'' \<or> \<not> build_success p \<or> head_oid p = []
         \<or> needs_rebase p \<or> held p then Inr st
      else if (case build_status_at p of None \<Rightarrow> False | Some t \<Rightarrow> t \<le> 0) then Inr st
      else ebind (rebase_progress st (number p)) (\<lambda>c.
        if c = Some (head_oid p) then Inr st
        else if \<not> cn_writable st then Inr st
        else Inr (st\<lparr>cn_progress := (cn_progress st)(number p :=
               Checkpoint (JObj [(''schema'', JStr ''tauceti-rebase-progress/v1''),
                                 (''checkpoint'', JObj [(''head'', JStr (head_oid p))])]))\<rparr>)))"

section \<open>Candidates\<close>

datatype why =
    Conflicting
  | IntegrationRequest
  | ForeignRepair
  | DependencyBump
  | BudgetProblem why rebase_error
  | NotCleanlyReviewed
  | HistoryIncomplete
  | AuthorContest string
  | BlockingReview
  | AuthorActionRequested
  | FixesSpent
  | BuildFailed
  | BumpRed
  | BumpIntegration
  | LintRed

record candidate =
  k_pr :: int
  k_head :: string
  k_reason :: why
  k_attempts :: int
  k_budget :: int
  k_contest :: string
  k_reply :: int
  k_ready :: "int option"
  k_preferred :: string
  k_key :: "ckey option"
  k_foreign :: string
  k_integration :: bool
  k_final :: bool
  k_partial :: bool

definition candidate_of :: "prinfo \<Rightarrow> why \<Rightarrow> candidate" where
  "candidate_of p w = \<lparr>k_pr = number p, k_head = head_oid p, k_reason = w, k_attempts = 0, k_budget = 0,
     k_contest = [], k_reply = 0, k_ready = None, k_preferred = [], k_key = None, k_foreign = [],
     k_integration = False, k_final = False, k_partial = False\<rparr>"

text \<open>What one pull request adds to a stage.\<close>

datatype placement = Ignored | Actionable candidate | Suppressed candidate

definition place :: "bool \<Rightarrow> candidate \<Rightarrow> placement" where
  "place spent c = (if spent then Suppressed c else Actionable c)"

end
