(* ===== verification/SurveyStages.thy ===== *)
theory SurveyStages
  imports Survey
begin

text \<open>
  The stages of \<open>survey.survey\<close>, one function per stage for one pull request, their composition, and the
  orderings and counts around them (\<open>prioritize_review_candidates\<close>, \<open>bucket_status_labels\<close>,
  \<open>roadmap_open_count\<close>, \<open>progress_due\<close>). What the survey reads of GitHub is a context record.
\<close>

section \<open>What the pass reads\<close>

text \<open>
  \<open>x_requested\<close> is \<open>gh.rebase_requested\<close>, \<open>x_meta\<close> and \<open>x_reply\<close> the scoreboard and newest contest of a
  pull request, \<open>x_claim\<close> the age of the claim on a reply.
\<close>

record ctx =
  x_cached :: bool
  x_deep :: bool
  x_me :: string
  x_facts :: "int \<Rightarrow> facts option"
  x_requested :: "int \<Rightarrow> string \<Rightarrow> bool"
  x_meta :: "int \<Rightarrow> meta"
  x_reply :: "int \<Rightarrow> contest option"
  x_claim :: "int \<Rightarrow> rat option"
  x_iso :: "string \<Rightarrow> rat option"
  x_text :: "json \<Rightarrow> string"
  x_epoch :: "string \<Rightarrow> string"

definition issue_complete :: "ctx \<Rightarrow> int \<Rightarrow> bool" where
  "issue_complete x n = (case x_facts x n of None \<Rightarrow> False | Some f \<Rightarrow> f_issue f)"

definition history_ready :: "ctx \<Rightarrow> prinfo \<Rightarrow> bool" where
  "history_ready x p \<longleftrightarrow>
     (if \<not> x_cached x then True
      else (case x_facts x (number p) of None \<Rightarrow> False | Some f \<Rightarrow> f_issue f \<and> f_review f))"

section \<open>Rebase\<close>

definition rebase_handoff :: "ctx \<Rightarrow> string option \<Rightarrow> prinfo \<Rightarrow> bool" where
  "rebase_handoff x foreign p \<longleftrightarrow>
     foreign \<noteq> None \<or>
     (mergeable p \<noteq> ''CONFLICTING'' \<and> needs_rebase p
      \<and> (case x_facts x (number p) of
           Some f \<Rightarrow> if f_issue f then head_oid p \<in> set (f_rebase_heads f)
                     else x_requested x (number p) (head_oid p)
         | None \<Rightarrow> x_requested x (number p) (head_oid p)))"

definition rebase_budget :: "string option \<Rightarrow> int" where
  "rebase_budget foreign = (if foreign \<noteq> None then 1 else max_rebase_attempts)"

text \<open>The budget key and the attempts charged to it, after an attempt to observe progress.\<close>

definition rebase_charge ::
  "ctx \<Rightarrow> string option \<Rightarrow> bool \<Rightarrow> rebase_error option \<Rightarrow> counters \<Rightarrow> prinfo
   \<Rightarrow> ckey option \<times> (rebase_error + int)" where
  "rebase_charge x foreign handoff err st p =
     (case err of
        Some e \<Rightarrow> (None, Inl e)
      | None \<Rightarrow>
          (case (if handoff then Inr (RebasePr (number p)) else rebase_budget_key (x_epoch x) st (number p)) of
             Inl e \<Rightarrow> (None, Inl e)
           | Inr key \<Rightarrow>
               (Some key, ebind (read_counter st key) (\<lambda>n.
                  Inr (if foreign \<noteq> None \<and> foreign_repair_launched st (number p) then max 1 n else n)))))"

definition rebase_step ::
  "ctx \<Rightarrow> string option \<Rightarrow> counters \<Rightarrow> prinfo \<Rightarrow> bool \<times> placement \<times> counters" where
  "rebase_step x foreign st p =
     (if held p then (False, Ignored, st)
      else if x_cached x \<and> mergeable p \<noteq> ''CONFLICTING'' \<and> needs_rebase p \<and> \<not> issue_complete x (number p)
      then (True, Ignored, st)
      else
        (let handoff = rebase_handoff x foreign p
         in if automatic_bump p then
              (False,
               if mergeable p = ''CONFLICTING'' \<or> handoff
               then Actionable ((candidate_of p DependencyBump)\<lparr>k_key := Some (RebaseBump (number p))\<rparr>)
               else Ignored, st)
            else
              (let (err, st1) = (case observe_rebase_progress p (needs_rebase p) st of
                                   Inl e \<Rightarrow> (Some e, st) | Inr s \<Rightarrow> (None, s))
               in if mergeable p \<noteq> ''CONFLICTING'' \<and> \<not> handoff then (False, Ignored, st1)
                  else
                    (let reason = (if mergeable p \<noteq> ''CONFLICTING'' then IntegrationRequest else Conflicting);
                         c0 = (candidate_of p (if foreign \<noteq> None then ForeignRepair else reason))
                                \<lparr>k_foreign := or_default [] foreign, k_budget := rebase_budget foreign\<rparr>;
                         (key, charge) = rebase_charge x foreign handoff err st1 p;
                         c = (case charge of
                                Inl e \<Rightarrow> c0\<lparr>k_key := key, k_reason := BudgetProblem reason e,
                                           k_attempts := max_rebase_attempts\<rparr>
                              | Inr n \<Rightarrow> c0\<lparr>k_key := key, k_attempts := n\<rparr>)
                     in (False, place (k_budget c \<le> k_attempts c) c, st1)))))"

section \<open>Review\<close>

definition scoreboard_reviewer :: "board \<Rightarrow> string" where
  "scoreboard_reviewer m = (case b_submitted_by m of JStr s \<Rightarrow> s | _ \<Rightarrow> [])"

definition replies_through :: "board \<Rightarrow> int" where
  "replies_through m = (case py_int (b_replies_through m) of None \<Rightarrow> 0 | Some n \<Rightarrow> n)"

definition contest_spent :: "counters \<Rightarrow> prinfo \<Rightarrow> string \<Rightarrow> bool" where
  "contest_spent st p rubric \<longleftrightarrow>
     max_review_contests \<le> count st (ReviewContest (number p))
     \<or> max_review_contests_per_rubric \<le> count st (ReviewContestRubric (number p) rubric)
     \<or> max_review_errors \<le> count st (ReviewErr (number p))"

definition contest_step :: "ctx \<Rightarrow> counters \<Rightarrow> prinfo \<Rightarrow> board \<Rightarrow> placement" where
  "contest_step x st p m =
     (case x_reply x (number p) of
        None \<Rightarrow> Ignored
      | Some r \<Rightarrow>
          if ct_id r \<le> replies_through m then Ignored
          else if (case (if x_cached x then None else x_claim x (ct_id r)) of
                     None \<Rightarrow> False | Some age \<Rightarrow> age < contest_claim_ttl) then Ignored
          else place (\<not> automatic_bump p \<and> contest_spent st p (ct_rubric r))
                 ((candidate_of p (AuthorContest (ct_rubric r)))
                    \<lparr>k_contest := ct_rubric r, k_reply := ct_id r,
                     k_attempts := count st (ReviewContest (number p)), k_budget := max_review_contests,
                     k_ready := posted_at (x_iso x) (ct_created r), k_preferred := scoreboard_reviewer m\<rparr>))"

definition review_step :: "ctx \<Rightarrow> counters \<Rightarrow> prinfo \<Rightarrow> bool \<times> placement" where
  "review_step x st p =
     (if review_held p \<or> \<not> build_success p then (False, Ignored)
      else if \<not> x_deep x
      then (False, Actionable ((candidate_of p NotCleanlyReviewed)\<lparr>k_ready := build_status_at p\<rparr>))
      else if \<not> history_ready x p then
        (True,
         if ''awaiting-author'' \<in> set (labels p) \<or> ''ready-to-merge'' \<in> set (labels p) then Ignored
         else (let n = count st (ReviewErr (number p))
               in place (max_review_errors \<le> n)
                    ((candidate_of p HistoryIncomplete)\<lparr>k_attempts := n, k_budget := max_review_errors,
                       k_ready := build_status_at p, k_partial := True\<rparr>)))
      else
        (let m = fst (x_meta x (number p));
             n = count st (ReviewErr (number p))
         in if ledger_clean_head (x_text x) m \<noteq> head_oid p
            then (False, place (\<not> automatic_bump p \<and> max_review_errors \<le> n)
                   ((candidate_of p NotCleanlyReviewed)\<lparr>k_attempts := n, k_budget := max_review_errors,
                      k_ready := build_status_at p, k_preferred := scoreboard_reviewer m\<rparr>))
            else (False, contest_step x st p m)))"

section \<open>Fix\<close>

datatype fix_why =
    ReadFailed
  | HeadMoved string string
  | AwaitingFirstReview
  | AllGreen
  | NoVerdicts
  | ContestPending

datatype disposition = FixActionable | FixExhausted int | FixWaiting fix_why | FixSkip

definition fix_disposition ::
  "(json \<Rightarrow> string) \<Rightarrow> meta \<Rightarrow> string \<Rightarrow> bool \<Rightarrow> bool \<Rightarrow> int \<Rightarrow> bool \<Rightarrow> bool \<Rightarrow> disposition" where
  "fix_disposition to_text m head built blocking per_head pending unlimited =
     (let lh = str_or_empty to_text (b_head (fst m))
      in if lh \<noteq> head \<and> \<not> built then FixSkip
         else if snd m \<in> {FetchFailed, Stale} then FixWaiting ReadFailed
         else if lh \<noteq> head
         then FixWaiting (if lh \<noteq> [] then HeadMoved (take 12 lh) (take 12 head) else AwaitingFirstReview)
         else if \<not> blocking
         then FixWaiting (if b_states (fst m) \<noteq> [] \<or> b_runs (fst m) \<noteq> [] then AllGreen else NoVerdicts)
         else if pending then FixWaiting ContestPending
         else if \<not> unlimited \<and> max_fix_attempts \<le> per_head then FixExhausted per_head
         else FixActionable)"

definition pending_contest :: "ctx \<Rightarrow> prinfo \<Rightarrow> board \<Rightarrow> bool \<Rightarrow> bool" where
  "pending_contest x p m blocking \<longleftrightarrow>
     blocking \<and> str_or_empty (x_text x) (b_head m) = head_oid p
     \<and> (case x_reply x (number p) of None \<Rightarrow> False | Some r \<Rightarrow> replies_through m < ct_id r)"

definition own_human :: "ctx \<Rightarrow> prinfo \<Rightarrow> bool" where
  "own_human x p \<longleftrightarrow> author p = x_me x \<and> \<not> automatic_bump p"

definition fix_candidate :: "prinfo \<Rightarrow> why \<Rightarrow> int \<Rightarrow> candidate" where
  "fix_candidate p w n = (candidate_of p w)\<lparr>k_attempts := n, k_budget := max_fix_attempts\<rparr>"

text \<open>Whether it is a history gap, the placement, and the note for an idle fix worker.\<close>

definition fix_step :: "ctx \<Rightarrow> counters \<Rightarrow> prinfo \<Rightarrow> bool \<times> placement \<times> disposition option" where
  "fix_step x st p =
     (let n = count st (FixHead (number p) (head12 p))
      in if x_cached x \<and> \<not> build_success p then (False, Ignored, None)
         else if \<not> history_ready x p then
           (True,
            if ''awaiting-author'' \<in> set (labels p)
            then (let c = (fix_candidate p AuthorActionRequested n)
                            \<lparr>k_partial := True, k_final := max_fix_attempts - 1 \<le> n \<and> own_human x p\<rparr>
                  in place (max_fix_attempts \<le> n \<and> \<not> k_final c) c)
            else Ignored, None)
         else
           (let m = x_meta x (number p);
                blocking = ledger_blocking (x_text x) (fst m) (head_oid p)
            in case fix_disposition (x_text x) m (head_oid p) (build_success p) blocking n
                      (pending_contest x p (fst m) blocking) (automatic_bump p) of
                 FixSkip \<Rightarrow> (False, Ignored, None)
               | FixActionable \<Rightarrow>
                   (False, Actionable ((fix_candidate p BlockingReview n)
                             \<lparr>k_final := max_fix_attempts - 1 \<le> n \<and> own_human x p\<rparr>), None)
               | FixExhausted k \<Rightarrow>
                   (False,
                    if own_human x p then Actionable ((fix_candidate p FixesSpent n)\<lparr>k_final := True\<rparr>)
                    else Suppressed (fix_candidate p BlockingReview n), Some (FixExhausted k))
               | FixWaiting w \<Rightarrow> (False, Ignored, Some (FixWaiting w))))"

section \<open>Red builds\<close>

definition fix_ci_step :: "counters \<Rightarrow> prinfo \<Rightarrow> placement" where
  "fix_ci_step st p =
     (if \<not> build_failed p \<or> starts_with bump_head_prefix (head_ref p)
         \<or> starts_with lint_repair_head_prefix (head_ref p) then Ignored
      else (let per_head = count st (CiHead (number p) (head12 p));
                per_pr = count st (CiPr (number p))
            in place (max_ci_attempts \<le> per_head \<or> max_ci_pr_attempts \<le> per_pr)
                 ((candidate_of p BuildFailed)\<lparr>k_attempts := per_head, k_budget := max_ci_attempts\<rparr>)))"

definition bump_step :: "counters \<Rightarrow> prinfo \<Rightarrow> placement" where
  "bump_step st p =
     (let integration = build_success p \<and> bump_integration_failed p;
          branch = starts_with bump_head_prefix (head_ref p)
                   \<or> (integration \<and> head_ref p = ''hopscotch/lkg-bump'')
      in if \<not> (branch \<and> (build_failed p \<or> integration)) then Ignored
         else if held p \<or> needs_rebase p then Ignored
         else (let per_head = count st (BumpHead (number p) (head12 p));
                   per_pr = count st (BumpPr (number p))
               in place (\<not> automatic_bump p \<and> (max_bump_attempts \<le> per_head \<or> max_bump_pr_attempts \<le> per_pr))
                    ((candidate_of p (if integration then BumpIntegration else BumpRed))
                       \<lparr>k_attempts := per_head, k_budget := max_bump_attempts, k_integration := integration\<rparr>)))"

definition lint_step :: "counters \<Rightarrow> prinfo \<Rightarrow> placement" where
  "lint_step st p =
     (if \<not> (starts_with lint_repair_head_prefix (head_ref p) \<and> build_failed p) then Ignored
      else (let per_head = count st (LintHead (number p) (head12 p));
                per_pr = count st (LintPr (number p));
                capped = max_lint_repair_pr_attempts \<le> per_pr
            in place (max_lint_repair_attempts \<le> per_head \<or> capped)
                 ((candidate_of p LintRed)
                    \<lparr>k_attempts := (if capped then per_pr else per_head),
                     k_budget := (if capped then max_lint_repair_pr_attempts else max_lint_repair_attempts)\<rparr>)))"

section \<open>Whose pull requests are tended\<close>

definition nondraft :: "prinfo list \<Rightarrow> prinfo list" where
  "nondraft prs = filter (\<lambda>p. \<not> is_draft p \<and> \<not> (automatic_bump p \<and> held p)) prs"

datatype stage = Rebase | Bump | LintRepair | Progress | FixCi | Fix | Review | OverlapFix | OverlapScan | Roadmap

definition bot_stages :: "stage list" where
  "bot_stages = [Rebase, Fix, FixCi, Bump, LintRepair]"

definition bot_on_canonical :: "stage list \<Rightarrow> prinfo list \<Rightarrow> bool" where
  "bot_on_canonical enabled prs \<longleftrightarrow>
     list_ex (\<lambda>s. s \<in> set enabled) bot_stages
     \<and> list_ex (\<lambda>p. author_is_bot p \<and> head_owner p = tauceti_owner) (nondraft prs)"

definition tended :: "bool \<Rightarrow> stage list \<Rightarrow> string \<Rightarrow> prinfo list \<Rightarrow> prinfo list" where
  "tended may_push enabled me prs =
     (let tend_bot = bot_on_canonical enabled prs \<and> may_push
      in filter (\<lambda>p. (author p = me \<or> (tend_bot \<and> author_is_bot p \<and> head_owner p = tauceti_owner)) \<and> \<not> held p)
                (nondraft prs))"

text \<open>\<open>authorize\<close> is the operator's one-repair route: the exact head it covers and the base it repairs on.\<close>

definition foreign_repairs ::
  "(prinfo \<Rightarrow> string option) \<Rightarrow> prinfo list \<Rightarrow> prinfo list \<Rightarrow> (prinfo \<times> string) list" where
  "foreign_repairs authorize prs own =
     concat (map (\<lambda>p. if p \<in> set own then []
                      else case authorize p of None \<Rightarrow> [] | Some base \<Rightarrow> if base = [] then [] else [(p, base)]) prs)"

section \<open>The survey\<close>

record kinds =
  w_rebase :: "placement list"
  w_review :: "placement list"
  w_fix :: "placement list"
  w_fix_ci :: "placement list"
  w_bump :: "placement list"
  w_lint :: "placement list"
  w_waiting :: "(int \<times> disposition) list"
  w_gaps :: "int list"

fun rebase_all ::
  "ctx \<Rightarrow> (prinfo \<times> string option) list \<Rightarrow> counters \<Rightarrow> (int \<times> bool \<times> placement) list \<times> counters" where
  "rebase_all x [] st = ([], st)"
| "rebase_all x ((p, foreign) # ps) st =
     (let (gap, pl, st1) = rebase_step x foreign st p;
          (rest, st2) = rebase_all x ps st1
      in ((number p, gap, pl) # rest, st2))"

definition survey_kinds ::
  "ctx \<Rightarrow> stage list \<Rightarrow> bool \<Rightarrow> (prinfo \<Rightarrow> string option) \<Rightarrow> prinfo list \<Rightarrow> counters \<Rightarrow> kinds \<times> counters" where
  "survey_kinds x enabled may_push authorize prs st =
     (let open_prs = nondraft prs;
          mine = tended may_push enabled (x_me x) prs;
          route = (if Rebase \<in> set enabled
                   then map (\<lambda>p. (p, None)) mine
                        @ map (\<lambda>(p, base). (p, Some base)) (foreign_repairs authorize open_prs mine)
                   else []);
          (rebases, st1) = rebase_all x route st;
          reviews = (if Review \<in> set enabled then map (\<lambda>p. (number p, review_step x st1 p)) open_prs else []);
          fixes = (if x_deep x \<and> Fix \<in> set enabled then map (\<lambda>p. (number p, fix_step x st1 p)) mine else [])
      in (\<lparr>w_rebase = map (\<lambda>(n, g, pl). pl) rebases,
           w_review = map (\<lambda>(n, g, pl). pl) reviews,
           w_fix = map (\<lambda>(n, g, pl, d). pl) fixes,
           w_fix_ci = (if FixCi \<in> set enabled then map (fix_ci_step st1) mine else []),
           w_bump = (if Bump \<in> set enabled then map (bump_step st1) mine else []),
           w_lint = (if LintRepair \<in> set enabled then map (lint_step st1) mine else []),
           w_waiting = concat (map (\<lambda>(n, g, pl, d). case d of None \<Rightarrow> [] | Some w \<Rightarrow> [(n, w)]) fixes),
           w_gaps = sort (remdups (map fst (filter (\<lambda>(n, g, pl). g) rebases)
                      @ map fst (filter (\<lambda>(n, g, pl). g) reviews)
                      @ map fst (filter (\<lambda>(n, g, pl, d). g) fixes)))\<rparr>, st1))"

fun actionable_of :: "placement \<Rightarrow> candidate list" where
  "actionable_of (Actionable c) = [c]"
| "actionable_of _ = []"

fun suppressed_of :: "placement \<Rightarrow> candidate list" where
  "suppressed_of (Suppressed c) = [c]"
| "suppressed_of _ = []"

definition actionable :: "placement list \<Rightarrow> candidate list" where
  "actionable ps = concat (map actionable_of ps)"

definition suppressed :: "placement list \<Rightarrow> candidate list" where
  "suppressed ps = concat (map suppressed_of ps)"

text \<open>\<open>review_stuck\<close>: reviews that keep erroring, to be escalated.\<close>

definition review_stuck :: "kinds \<Rightarrow> int list" where
  "review_stuck k = map k_pr (filter (\<lambda>c. k_reason c = NotCleanlyReviewed) (suppressed (w_review k)))"

section \<open>The next automatic stage\<close>

definition auto_stages :: "bool \<Rightarrow> stage list" where
  "auto_stages roadmap_first =
     (if roadmap_first
      then [Rebase, Bump, LintRepair, Progress, FixCi, Fix, Roadmap, Review, OverlapFix, OverlapScan]
      else [Rebase, Bump, LintRepair, Progress, FixCi, Fix, Review, OverlapFix, OverlapScan, Roadmap])"

fun next_auto_stage :: "(stage \<Rightarrow> bool) \<Rightarrow> bool \<Rightarrow> stage list \<Rightarrow> stage option" where
  "next_auto_stage has_work backpressure [] = None"
| "next_auto_stage has_work backpressure (s # ss) =
     (if s = Roadmap then (if backpressure then next_auto_stage has_work backpressure ss else Some s)
      else if has_work s then Some s else next_auto_stage has_work backpressure ss)"

section \<open>Counts\<close>

definition status_labels :: "string list" where
  "status_labels = [''awaiting-CI'', ''awaiting-review'', ''review-in-progress'', ''ci-failed'',
                    ''awaiting-author'', ''ready-to-merge'']"

definition bucket_status_labels :: "prinfo list \<Rightarrow> string \<Rightarrow> (string \<times> nat \<times> nat) list \<times> nat" where
  "bucket_status_labels prs me =
     (map (\<lambda>l. (l, length (filter (\<lambda>p. l \<in> set (labels p)) prs),
                length (filter (\<lambda>p. l \<in> set (labels p) \<and> author p = me) prs))) status_labels,
      length (filter (\<lambda>p. \<not> list_ex (\<lambda>l. l \<in> set (labels p)) status_labels) prs))"

text \<open>\<open>focuses\<close> gives the roadmap areas of a pull request, \<open>None\<close> when they are unknown.\<close>

definition roadmap_open_count ::
  "(prinfo \<Rightarrow> string list option) \<Rightarrow> prinfo list \<Rightarrow> string \<Rightarrow> string list \<Rightarrow> nat" where
  "roadmap_open_count focuses prs only skip =
     (if only \<notin> {[], ''any'', ''auto''}
      then length (filter (\<lambda>p. case focuses p of None \<Rightarrow> True | Some areas \<Rightarrow> only \<in> set areas) prs)
      else length (filter (\<lambda>p. case focuses p of None \<Rightarrow> True
                                | Some areas \<Rightarrow> list_ex (\<lambda>a. a \<notin> set skip) areas) prs))"

section \<open>The order of reviews\<close>

definition review_affinity_grace_s :: rat where "review_affinity_grace_s = 1200"
definition review_age_scale_s :: rat where "review_age_scale_s = 3600"
definition review_age_cap_s :: rat where "review_age_cap_s = 86400"

definition review_age_weight :: "rat \<Rightarrow> candidate \<Rightarrow> rat" where
  "review_age_weight now c =
     (let waited = (case k_ready c of None \<Rightarrow> 0 | Some r \<Rightarrow> max 0 (now - of_int r))
      in 1 + min waited review_age_cap_s / review_age_scale_s)"

definition in_grace :: "string \<Rightarrow> rat \<Rightarrow> candidate \<Rightarrow> bool" where
  "in_grace login now c \<longleftrightarrow>
     py_strip (k_preferred c) \<noteq> [] \<and> login \<noteq> []
     \<and> (case k_ready c of None \<Rightarrow> False | Some r \<Rightarrow> max 0 (now - of_int r) < review_affinity_grace_s)"

definition owned_by :: "string \<Rightarrow> candidate \<Rightarrow> bool" where
  "owned_by login c \<longleftrightarrow> py_lower (py_strip (k_preferred c)) = login"

text \<open>\<open>neg_log\<close> is \<open>-math.log\<close>; \<open>draws\<close> the random numbers in the order they are drawn.\<close>

definition weighted :: "(rat \<Rightarrow> rat) \<Rightarrow> rat \<Rightarrow> rat list \<Rightarrow> candidate list \<Rightarrow> candidate list" where
  "weighted neg_log now draws items =
     map snd (sort_key fst
       (map (\<lambda>(d, c). (neg_log (max d (1 / 10 ^ 300)) / review_age_weight now c, c)) (zip draws items)))"

definition prioritize_review_candidates ::
  "(rat \<Rightarrow> rat) \<Rightarrow> rat list \<Rightarrow> rat \<Rightarrow> string \<Rightarrow> candidate list \<Rightarrow> candidate list \<times> candidate list" where
  "prioritize_review_candidates neg_log draws now reviewer cs =
     (let login = py_lower reviewer;
          owned = filter (\<lambda>c. in_grace login now c \<and> owned_by login c) cs;
          shared = filter (\<lambda>c. \<not> in_grace login now c) cs;
          deferred = filter (\<lambda>c. in_grace login now c \<and> \<not> owned_by login c) cs
      in (weighted neg_log now draws owned @ weighted neg_log now (drop (length owned) draws) shared, deferred))"

section \<open>Progress reports\<close>

text \<open>
  What \<open>progress_due\<close> looks at: the retained report and the authenticated actor, the receipt, the
  counters, the cached verdict with its age, and what the tool answers.
\<close>

record prepared =
  pp_actor :: string
  pp_retry :: rat

record due_facts =
  df_prepared :: "prepared option"
  df_actor :: "string option"
  df_receipt :: bool
  df_docs_retry :: rat
  df_mech_retry :: rat
  df_cached :: "(rat \<times> bool) option"
  df_last_attempt :: rat
  df_errors :: int
  df_tool :: "int option"

datatype due_why =
    PreparedNoActor | PreparedOtherActor | PreparedRetryLater | PreparedReady
  | ReceiptNeedsRecovery | DocsCooling | MechanicalCooling | CachedVerdict
  | AttemptGap | TooManyErrors | ToolDue | ToolNotDue | ToolFailed int | ToolNotRun

definition progress_ttl :: rat where "progress_ttl = 600"
definition progress_attempt_gap :: rat where "progress_attempt_gap = 28800"
definition max_progress_errors :: int where "max_progress_errors = 3"
definition ex_noprogress :: int where "ex_noprogress = 75"

fun given_actor :: "string option \<Rightarrow> bool" where
  "given_actor None = False"
| "given_actor (Some a) = (a \<noteq> [])"

text \<open>Without a fresh cached verdict: the verdict, its reason, and whether it is written to the cache.\<close>

definition due_uncached :: "rat \<Rightarrow> due_facts \<Rightarrow> bool \<times> due_why \<times> bool" where
  "due_uncached now f =
     (if df_last_attempt f \<noteq> 0 \<and> now - df_last_attempt f < progress_attempt_gap then (False, AttemptGap, False)
      else if max_progress_errors \<le> df_errors f then (False, TooManyErrors, False)
      else (case df_tool f of
              None \<Rightarrow> (False, ToolNotRun, True)
            | Some rc \<Rightarrow> if rc = 0 then (True, ToolDue, True)
                         else if rc = ex_noprogress then (False, ToolNotDue, True)
                         else (False, ToolFailed rc, True)))"

definition progress_due :: "rat \<Rightarrow> due_facts \<Rightarrow> bool \<times> due_why \<times> bool" where
  "progress_due now f =
     (case df_prepared f of
        Some p \<Rightarrow>
          if \<not> given_actor (df_actor f) then (False, PreparedNoActor, False)
          else if Some (pp_actor p) \<noteq> df_actor f then (False, PreparedOtherActor, False)
          else if now < pp_retry p then (False, PreparedRetryLater, False)
          else (True, PreparedReady, False)
      | None \<Rightarrow>
          if df_receipt f then (False, ReceiptNeedsRecovery, False)
          else if now < df_docs_retry f then (False, DocsCooling, False)
          else if now < df_mech_retry f then (False, MechanicalCooling, False)
          else (case df_cached f of
                  Some (mtime, due) \<Rightarrow> if now - mtime < progress_ttl then (due, CachedVerdict, False)
                                       else due_uncached now f
                | None \<Rightarrow> due_uncached now f))"

end
