(* ===== verification/SurveyLaws.thy ===== *)
theory SurveyLaws
  imports SurveyStages "HOL-Library.Multiset"
begin

text \<open>
  What the survey promises: only tended, unheld work within its budgets becomes actionable, unreadable
  retry evidence stops a rebase, a red build has one owner, a scoreboard is served with the trust it
  deserves, and the review order loses nobody.
\<close>

section \<open>Placement\<close>

lemma place_Actionable [simp]: "place spent c = Actionable d \<longleftrightarrow> \<not> spent \<and> d = c"
  by (auto simp: place_def)

lemma place_not_Ignored [simp]: "place spent c \<noteq> Ignored"
  by (simp add: place_def)

lemma candidate_of_simps [simp]:
  "k_pr (candidate_of p w) = number p" "k_head (candidate_of p w) = head_oid p"
  by (simp_all add: candidate_of_def)

lemma actionable_mem: "c \<in> set (actionable ps) \<longleftrightarrow> Actionable c \<in> set ps"
proof -
  have "c \<in> set (actionable_of q) \<longleftrightarrow> q = Actionable c" for q by (cases q) auto
  then show ?thesis by (auto simp: actionable_def)
qed

text \<open>What an actionable candidate of a pull request looks like.\<close>

definition within_budget :: "string \<Rightarrow> prinfo \<Rightarrow> candidate \<Rightarrow> bool" where
  "within_budget me p c \<longleftrightarrow> k_pr c = number p \<and> k_head c = head_oid p
     \<and> (automatic_bump p \<or> k_attempts c < k_budget c \<or> (k_final c \<and> author p = me))"

lemma rebase_step_within:
  "rebase_step x foreign st p = (g, Actionable c, st') \<Longrightarrow> within_budget me p c \<and> \<not> held p"
  by (auto simp: rebase_step_def within_budget_def Let_def case_prod_beta split: if_splits sum.splits)

lemma review_step_within:
  "review_step x st p = (g, Actionable c) \<Longrightarrow> x_deep x
   \<Longrightarrow> within_budget me p c \<and> \<not> review_held p \<and> build_success p"
  by (auto simp: review_step_def contest_step_def contest_spent_def within_budget_def Let_def
      split: if_splits option.splits)

lemma fix_step_within:
  "fix_step x st p = (g, Actionable c, d) \<Longrightarrow> within_budget (x_me x) p c"
  by (auto simp: fix_step_def fix_disposition_def within_budget_def own_human_def fix_candidate_def Let_def
      split: if_splits disposition.splits)

lemma fix_ci_step_within: "fix_ci_step st p = Actionable c \<Longrightarrow> within_budget me p c \<and> build_failed p"
  by (auto simp: fix_ci_step_def within_budget_def Let_def split: if_splits)

lemma bump_step_within: "bump_step st p = Actionable c \<Longrightarrow> within_budget me p c \<and> \<not> held p"
  by (auto simp: bump_step_def within_budget_def Let_def split: if_splits)

lemma lint_step_within: "lint_step st p = Actionable c \<Longrightarrow> within_budget me p c \<and> build_failed p"
  by (auto simp: lint_step_def within_budget_def Let_def budget_defs split: if_splits)

lemma rebase_all_mem:
  "(n, g, pl) \<in> set (fst (rebase_all x ps st)) \<Longrightarrow> \<exists>p foreign s. (p, foreign) \<in> set ps
     \<and> (\<exists>s'. rebase_step x foreign s p = (g, pl, s'))"
proof (induction x ps st rule: rebase_all.induct)
  case (1 x st)
  then show ?case by simp
next
  case (2 x p foreign ps st)
  obtain g1 pl1 st1 where r: "rebase_step x foreign st p = (g1, pl1, st1)" by (cases "rebase_step x foreign st p")
  from "2.prems" r have "(n, g, pl) = (number p, g1, pl1) \<or> (n, g, pl) \<in> set (fst (rebase_all x ps st1))"
    by (auto simp: Let_def case_prod_beta)
  then show ?case
  proof
    assume "(n, g, pl) = (number p, g1, pl1)"
    with r show ?thesis by auto
  next
    assume "(n, g, pl) \<in> set (fst (rebase_all x ps st1))"
    with "2.IH" [OF r [symmetric]] r show ?thesis by fastforce
  qed
qed

lemma tended_sub: "p \<in> set (tended mp en me prs) \<Longrightarrow> p \<in> set (nondraft prs) \<and> \<not> held p"
  by (auto simp: tended_def Let_def)

lemma foreign_sub: "(p, base) \<in> set (foreign_repairs auth prs own) \<Longrightarrow> p \<in> set prs \<and> auth p = Some base"
  by (auto simp: foreign_repairs_def split: if_splits option.splits)

definition writing_kinds :: "kinds \<Rightarrow> placement list" where
  "writing_kinds k = w_rebase k @ w_fix k @ w_fix_ci k @ w_bump k @ w_lint k"

definition may_write :: "ctx \<Rightarrow> stage list \<Rightarrow> bool \<Rightarrow> (prinfo \<Rightarrow> string option) \<Rightarrow> prinfo list \<Rightarrow> prinfo \<Rightarrow> bool" where
  "may_write x enabled may_push authorize prs p \<longleftrightarrow> p \<in> set (nondraft prs) \<and> \<not> held p
     \<and> (p \<in> set (tended may_push enabled (x_me x) prs) \<or> authorize p \<noteq> None)"

lemma tended_may_write:
  "p \<in> set (tended mp en (x_me x) prs) \<Longrightarrow> may_write x en mp auth prs p"
  by (simp add: may_write_def tended_sub)

lemma kinds_sub:
  assumes "survey_kinds x enabled mp auth prs st = (k, st')"
  obtains st1 where "set (w_review k) \<subseteq> (\<lambda>p. snd (review_step x st1 p)) ` set (nondraft prs)"
    and "set (w_fix k) \<subseteq> (\<lambda>p. fst (snd (fix_step x st1 p))) ` set (tended mp enabled (x_me x) prs)"
    and "set (w_fix_ci k) \<subseteq> fix_ci_step st1 ` set (tended mp enabled (x_me x) prs)"
    and "set (w_bump k) \<subseteq> bump_step st1 ` set (tended mp enabled (x_me x) prs)"
    and "set (w_lint k) \<subseteq> lint_step st1 ` set (tended mp enabled (x_me x) prs)"
    and "\<And>pl. pl \<in> set (w_rebase k) \<Longrightarrow> \<exists>p foreign s g s'. rebase_step x foreign s p = (g, pl, s')
           \<and> p \<in> set (nondraft prs) \<and> (p \<in> set (tended mp enabled (x_me x) prs) \<or> auth p \<noteq> None)"
proof -
  define mine where "mine = tended mp enabled (x_me x) prs"
  define route where "route = (if Rebase \<in> set enabled then map (\<lambda>p. (p, None)) mine
     @ map (\<lambda>(p, base). (p, Some base)) (foreign_repairs auth (nondraft prs) mine) else [])"
  have k: "k = fst (survey_kinds x enabled mp auth prs st)" using assms by simp
  have rb: "w_rebase k = map (\<lambda>(n, g, pl). pl) (fst (rebase_all x route st))"
    unfolding k by (simp add: survey_kinds_def Let_def case_prod_beta route_def mine_def)
  have route: "p \<in> set (nondraft prs) \<and> (p \<in> set mine \<or> auth p \<noteq> None)" if "(p, f) \<in> set route" for p f
    using that tended_sub foreign_sub by (fastforce simp: route_def mine_def split: if_splits)
  have "\<exists>p foreign s g s'. rebase_step x foreign s p = (g, pl, s')
           \<and> p \<in> set (nondraft prs) \<and> (p \<in> set mine \<or> auth p \<noteq> None)" if "pl \<in> set (w_rebase k)" for pl
  proof -
    from that rb obtain n g where "(n, g, pl) \<in> set (fst (rebase_all x route st))" by auto
    then show ?thesis using rebase_all_mem route by blast
  qed
  moreover have "set (w_review k) \<subseteq> (\<lambda>p. snd (review_step x (snd (rebase_all x route st)) p)) ` set (nondraft prs)"
    "set (w_fix k) \<subseteq> (\<lambda>p. fst (snd (fix_step x (snd (rebase_all x route st)) p))) ` set mine"
    "set (w_fix_ci k) \<subseteq> fix_ci_step (snd (rebase_all x route st)) ` set mine"
    "set (w_bump k) \<subseteq> bump_step (snd (rebase_all x route st)) ` set mine"
    "set (w_lint k) \<subseteq> lint_step (snd (rebase_all x route st)) ` set mine"
    unfolding k by (auto simp: survey_kinds_def Let_def case_prod_beta route_def mine_def)
  ultimately show thesis using that unfolding mine_def by blast
qed

lemma step_eq: "snd z = a \<Longrightarrow> z = (fst z, a)" "fst (snd y) = b \<Longrightarrow> y = (fst y, b, snd (snd y))"
  by auto

lemma review_allowed:
  assumes "survey_kinds x enabled may_push authorize prs st = (k, st')" and "x_deep x" and "c \<in> set (actionable (w_review k))"
  shows "\<exists>p\<in>set (nondraft prs). build_success p \<and> \<not> review_held p \<and> within_budget (x_me x) p c"
proof (rule kinds_sub [OF assms(1)])
  fix st1
  assume "set (w_review k) \<subseteq> (\<lambda>p. snd (review_step x st1 p)) ` set (nondraft prs)"
  then obtain p where p: "p \<in> set (nondraft prs)" "snd (review_step x st1 p) = Actionable c"
    using assms(3) unfolding actionable_mem by fastforce
  from p(1) review_step_within [OF step_eq(1) [OF p(2)] assms(2)] show ?thesis by blast
qed

lemma writing_allowed:
  assumes "survey_kinds x enabled may_push authorize prs st = (k, st')" and "c \<in> set (actionable (writing_kinds k))"
  shows "\<exists>p. may_write x enabled may_push authorize prs p \<and> within_budget (x_me x) p c"
proof -
  obtain st1 where "set (w_review k) \<subseteq> (\<lambda>p. snd (review_step x st1 p)) ` set (nondraft prs)"
    and fx: "set (w_fix k) \<subseteq> (\<lambda>p. fst (snd (fix_step x st1 p))) ` set (tended may_push enabled (x_me x) prs)"
    and ci: "set (w_fix_ci k) \<subseteq> fix_ci_step st1 ` set (tended may_push enabled (x_me x) prs)"
    and bp: "set (w_bump k) \<subseteq> bump_step st1 ` set (tended may_push enabled (x_me x) prs)"
    and lt: "set (w_lint k) \<subseteq> lint_step st1 ` set (tended may_push enabled (x_me x) prs)"
    and rb: "\<And>pl. pl \<in> set (w_rebase k) \<Longrightarrow> \<exists>p foreign s g s'. rebase_step x foreign s p = (g, pl, s')
           \<and> p \<in> set (nondraft prs) \<and> (p \<in> set (tended may_push enabled (x_me x) prs) \<or> authorize p \<noteq> None)"
    using kinds_sub [OF assms(1)] by blast
  have ok: "?thesis" if "p \<in> set (tended may_push enabled (x_me x) prs)" "within_budget (x_me x) p c" for p
    using that tended_may_write by blast
  consider "Actionable c \<in> set (w_rebase k)" | "Actionable c \<in> set (w_fix k)"
    | "Actionable c \<in> set (w_fix_ci k)" | "Actionable c \<in> set (w_bump k)" | "Actionable c \<in> set (w_lint k)"
    using assms(2) by (auto simp: actionable_mem writing_kinds_def)
  then show ?thesis
  proof cases
    case 1
    from rb [OF this] rebase_step_within show ?thesis unfolding may_write_def by blast
  next
    case 2
    with fx obtain p where p: "p \<in> set (tended may_push enabled (x_me x) prs)" "fst (snd (fix_step x st1 p)) = Actionable c"
      by fastforce
    from ok [OF p(1) fix_step_within [OF step_eq(2) [OF p(2)]]] show ?thesis .
  next
    case 3
    with ci obtain p where "p \<in> set (tended may_push enabled (x_me x) prs)" "fix_ci_step st1 p = Actionable c" by fastforce
    then show ?thesis using fix_ci_step_within ok by blast
  next
    case 4
    with bp obtain p where "p \<in> set (tended may_push enabled (x_me x) prs)" "bump_step st1 p = Actionable c" by fastforce
    then show ?thesis using bump_step_within ok by blast
  next
    case 5
    with lt obtain p where "p \<in> set (tended may_push enabled (x_me x) prs)" "lint_step st1 p = Actionable c" by fastforce
    then show ?thesis using lint_step_within ok by blast
  qed
qed

text \<open>
  the survey authorizes only work within its limits. Every actionable candidate of a deep survey
  names an open, non-draft pull request at its current head, with attempts below the budget, unless it
  is an automatic dependency bump or the final resolution of one's own pull request. The stages that
  write to a branch (rebase, fix, fix-ci, bump, lint-repair) act only on a tended pull request, or on
  the one the operator authorized, that carries no hold label; a review needs a green build.
\<close>

theorem survey_within_budgets:
  assumes "survey_kinds x enabled may_push authorize prs st = (k, st')" and "x_deep x"
  shows "(\<forall>c\<in>set (actionable (writing_kinds k)).
            \<exists>p. may_write x enabled may_push authorize prs p \<and> within_budget (x_me x) p c)
     \<and> (\<forall>c\<in>set (actionable (w_review k)).
            \<exists>p\<in>set (nondraft prs). build_success p \<and> \<not> review_held p \<and> within_budget (x_me x) p c)"
  using writing_allowed [OF assms(1)] review_allowed [OF assms] by blast

definition sample_pr :: prinfo where
  "sample_pr = \<lparr>number = 7, head_oid = ''abc'', head_ref = ''work'', head_owner = ''me'', head_repo = ''TauCeti'',
     is_draft = False, mergeable = ''MERGEABLE'', author = ''me'', build_success = False, build_failed = True,
     author_is_bot = False, title = [], target_focuses = [], labels = [], build_status_at = None,
     updated_at = [], bump_integration_failed = False\<rparr>"

definition no_counters :: counters where
  "no_counters = \<lparr>cn_files = (\<lambda>_. NoFile), cn_progress = (\<lambda>_. NoCheckpoint), cn_foreign = (\<lambda>_. False),
                  cn_writable = True\<rparr>"

definition sample_ctx :: ctx where
  "sample_ctx = \<lparr>x_cached = False, x_deep = True, x_me = ''me'', x_facts = (\<lambda>_. None),
     x_requested = (\<lambda>_ _. False), x_meta = (\<lambda>_. (empty_board, Missing)), x_reply = (\<lambda>_. None),
     x_claim = (\<lambda>_. None), x_iso = (\<lambda>_. None), x_text = (\<lambda>_. []), x_epoch = (\<lambda>h. h)\<rparr>"

lemma sample_survey:
  "writing_kinds (fst (survey_kinds sample_ctx [FixCi] False (\<lambda>_. None) [sample_pr] no_counters))
   = [Actionable ((candidate_of sample_pr BuildFailed)\<lparr>k_budget := 3\<rparr>)]"
  by (simp add: writing_kinds_def survey_kinds_def tended_def nondraft_def automatic_bump_def sample_pr_def
      sample_ctx_def held_def lower_labels_def fix_ci_step_def count_def read_counter_def no_counters_def
      starts_with_def bump_head_prefix_def lint_repair_head_prefix_def budget_defs place_def candidate_of_def)

theorem survey_within_budgets_witness:
  "\<exists>c p. c \<in> set (actionable (writing_kinds
        (fst (survey_kinds sample_ctx [FixCi] False (\<lambda>_. None) [sample_pr] no_counters))))
     \<and> may_write sample_ctx [FixCi] False (\<lambda>_. None) [sample_pr] p \<and> within_budget ''me'' p c"
proof -
  let ?S = "survey_kinds sample_ctx [FixCi] False (\<lambda>_. None) [sample_pr] no_counters"
  have d: "x_deep sample_ctx" "x_me sample_ctx = ''me''" by (simp_all add: sample_ctx_def)
  have c: "(candidate_of sample_pr BuildFailed)\<lparr>k_budget := 3\<rparr> \<in> set (actionable (writing_kinds (fst ?S)))"
    unfolding sample_survey by (simp add: actionable_def)
  with survey_within_budgets [OF prod.collapse [symmetric, of ?S] d(1)] d(2) show ?thesis by auto
qed

section \<open>Rebase evidence\<close>

text \<open>
  a rebase needs readable evidence below its limit. When the rebase stage makes a pull request other
  than an automatic bump actionable, it holds a budget key whose counter file was read, fewer than three
  attempts are charged to it, and none for the operator's foreign repair; the key is the epoch of the
  last verified green head, and plain for a requested handoff, which no green head can replenish.
\<close>

theorem rebase_needs_evidence:
  assumes "rebase_step x foreign st p = (g, Actionable c, st')" and "\<not> automatic_bump p"
  shows "\<exists>key n. k_key c = Some key \<and> read_counter st' key = Inr n \<and> n \<le> k_attempts c
     \<and> k_attempts c < rebase_budget foreign
     \<and> (if rebase_handoff x foreign p then key = RebasePr (number p)
        else rebase_budget_key (x_epoch x) st' (number p) = Inr key)
     \<and> (foreign \<noteq> None \<longrightarrow> \<not> foreign_repair_launched st' (number p))
     \<and> (mergeable p = ''CONFLICTING'' \<or> rebase_handoff x foreign p)"
proof -
  define handoff where "handoff = rebase_handoff x foreign p"
  obtain err st1 where e: "(case observe_rebase_progress p (needs_rebase p) st of
      Inl e \<Rightarrow> (Some e, st) | Inr s \<Rightarrow> (None, s)) = (err, st1)" by (metis surj_pair)
  obtain key charge where ch: "rebase_charge x foreign handoff err st1 p = (key, charge)" by (metis surj_pair)
  have nogo: "\<not> (mergeable p \<noteq> ''CONFLICTING'' \<and> \<not> handoff)" and st': "st' = st1"
    and c: "\<exists>n. charge = Inr n \<and> n < rebase_budget foreign \<and> k_attempts c = n \<and> k_key c = key"
    using assms
    by (auto simp: rebase_step_def Let_def e ch handoff_def [symmetric] rebase_budget_def max_rebase_attempts_def
        split: if_splits sum.splits)
  then obtain n where n: "charge = Inr n" "n < rebase_budget foreign" "k_attempts c = n" "k_key c = key" by blast
  from ch n(1) obtain kk m where kk: "key = Some kk" and m: "read_counter st1 kk = Inr m"
    and mn: "n = (if foreign \<noteq> None \<and> foreign_repair_launched st1 (number p) then max 1 m else m)"
    and key: "if handoff then kk = RebasePr (number p) else rebase_budget_key (x_epoch x) st1 (number p) = Inr kk"
    by (auto simp: rebase_charge_def ebind_Inr_iff split: option.splits sum.splits if_splits)
  have "foreign \<noteq> None \<longrightarrow> \<not> foreign_repair_launched st1 (number p)"
    using n(2) mn by (auto simp: rebase_budget_def)
  moreover have "m \<le> n" using mn by simp
  ultimately show ?thesis
    using n nogo kk m key unfolding st' handoff_def [symmetric] by (intro exI [of _ kk] exI [of _ m]) auto
qed

definition conflicting_pr :: prinfo where
  "conflicting_pr = sample_pr\<lparr>mergeable := ''CONFLICTING''\<rparr>"

lemma sample_rebase:
  "rebase_step sample_ctx None no_counters conflicting_pr
   = (False, Actionable ((candidate_of conflicting_pr Conflicting)\<lparr>k_budget := 3, k_key := Some (RebasePr 7)\<rparr>), no_counters)"
  by (simp add: rebase_step_def conflicting_pr_def sample_pr_def held_def lower_labels_def sample_ctx_def
      automatic_bump_def rebase_handoff_def observe_rebase_progress_def rebase_charge_def rebase_budget_key_def
      rebase_progress_def read_counter_def no_counters_def rebase_budget_def budget_defs place_def candidate_of_def
      or_default_def)

theorem rebase_needs_evidence_witness:
  "\<exists>key n. key = RebasePr 7 \<and> read_counter no_counters key = Inr n \<and> n < 3"
proof -
  have "\<not> automatic_bump conflicting_pr" by (simp add: automatic_bump_def conflicting_pr_def sample_pr_def)
  from rebase_needs_evidence [OF sample_rebase this] show ?thesis
    by (auto simp: rebase_budget_def budget_defs)
qed

section \<open>Who repairs a red build\<close>

text \<open>
  a red build has exactly one owner. For a pull request read from GitHub's listing, the fix-ci, bump
  and lint-repair stages never both take it; a red one is taken by fix-ci unless its branch is a
  dependency bump or a lint repair; and success and failure of the build exclude each other.
\<close>

theorem red_build_one_owner:
  assumes "p = pr_of_row focuses iso_ts row"
  shows "\<not> (build_success p \<and> build_failed p)
     \<and> (fix_ci_step st p \<noteq> Ignored \<longrightarrow> bump_step st p = Ignored \<and> lint_step st p = Ignored)
     \<and> (lint_step st p \<noteq> Ignored \<longrightarrow> bump_step st p = Ignored)
     \<and> (build_failed p \<longrightarrow> fix_ci_step st p \<noteq> Ignored
          \<or> starts_with bump_head_prefix (head_ref p) \<or> lint_step st p \<noteq> Ignored)"
proof -
  have bs: "\<not> (build_success p \<and> build_failed p)"
    unfolding assms pr_of_row_def Let_def
    by (auto simp: list_all_iff list_ex_iff build_fail_def split: option.splits)
  have pre: "\<not> (starts_with bump_head_prefix s \<and> starts_with lint_repair_head_prefix s)" for s
    by (cases s) (auto simp: starts_with_def bump_head_prefix_def lint_repair_head_prefix_def)
  have bump: "bump_step st p \<noteq> Ignored \<Longrightarrow> (starts_with bump_head_prefix (head_ref p) \<and> build_failed p)
      \<or> build_success p"
    by (auto simp: bump_step_def Let_def split: if_splits)
  have fci: "fix_ci_step st p = Ignored \<longleftrightarrow> \<not> (build_failed p \<and> \<not> starts_with bump_head_prefix (head_ref p)
      \<and> \<not> starts_with lint_repair_head_prefix (head_ref p))"
    by (auto simp: fix_ci_step_def Let_def)
  have lint: "lint_step st p = Ignored \<longleftrightarrow> \<not> (starts_with lint_repair_head_prefix (head_ref p) \<and> build_failed p)"
    by (auto simp: lint_step_def Let_def)
  show ?thesis using bs bump pre [of "head_ref p"] unfolding fci lint by blast
qed

definition red_row :: row where
  "red_row = \<lparr>rw_number = 7, rw_title = None, rw_focuses = Some [], rw_body = None, rw_head_oid = Some ''abc'',
     rw_head_ref = Some ''work'', rw_owner = None, rw_repo = None, rw_draft = False, rw_mergeable = None,
     rw_author = None, rw_is_bot = False,
     rw_rollup = [\<lparr>ru_context = Some ''build'', ru_state = Some ''FAILURE'', ru_started = None\<rparr>],
     rw_labels = [], rw_updated = None\<rparr>"

theorem red_build_one_owner_witness:
  "fix_ci_step no_counters (pr_of_row (\<lambda>_. []) (\<lambda>_. None) red_row) \<noteq> Ignored
   \<and> bump_step no_counters (pr_of_row (\<lambda>_. []) (\<lambda>_. None) red_row) = Ignored"
proof -
  have "build_failed (pr_of_row (\<lambda>_. []) (\<lambda>_. None) red_row)"
    "head_ref (pr_of_row (\<lambda>_. []) (\<lambda>_. None) red_row) = ''work''"
    by (simp_all add: pr_of_row_def red_row_def Let_def build_fail_def or_default_def)
  then have "fix_ci_step no_counters (pr_of_row (\<lambda>_. []) (\<lambda>_. None) red_row) \<noteq> Ignored"
    by (simp add: fix_ci_step_def starts_with_def bump_head_prefix_def lint_repair_head_prefix_def Let_def)
  then show ?thesis using red_build_one_owner [OF refl, where st = no_counters] by blast
qed

section \<open>The review order\<close>

lemma weighted_mset:
  assumes "length items \<le> length draws"
  shows "mset (weighted neg_log now draws items) = mset items"
proof -
  have "map snd (map (\<lambda>(d, c). (neg_log (max d (1 / 10 ^ 300)) / review_age_weight now c, c)) (zip draws items))
      = map snd (zip draws items)"
    by (simp add: case_prod_beta comp_def)
  also have "\<dots> = items" using assms by (simp add: map_snd_zip_take)
  finally have items: "map snd (map (\<lambda>(d, c). (neg_log (max d (1 / 10 ^ 300)) / review_age_weight now c, c))
      (zip draws items)) = items" .
  have "mset (weighted neg_log now draws items) = mset (map snd (map (\<lambda>(d, c).
      (neg_log (max d (1 / 10 ^ 300)) / review_age_weight now c, c)) (zip draws items)))"
    unfolding weighted_def by (simp only: mset_map mset_sort)
  then show ?thesis unfolding items .
qed

text \<open>
  ordering the reviews loses and invents nobody. The work list and the deferred list together are a
  rearrangement of the candidates; the worker's own units in their grace period come first; what is
  deferred is exactly what another named reviewer may still take first, so an unowned, undated or
  expired unit is always offered.
\<close>

theorem review_order_complete:
  assumes "prioritize_review_candidates neg_log draws now reviewer cs = (work, deferred)"
    and "length cs \<le> length draws"
  shows "mset work + mset deferred = mset cs
     \<and> (\<exists>n. list_all (\<lambda>c. in_grace (py_lower reviewer) now c \<and> owned_by (py_lower reviewer) c) (take n work)
            \<and> list_all (\<lambda>c. \<not> in_grace (py_lower reviewer) now c) (drop n work))
     \<and> deferred = filter (\<lambda>c. in_grace (py_lower reviewer) now c \<and> \<not> owned_by (py_lower reviewer) c) cs"
proof -
  define G where "G = in_grace (py_lower reviewer) now"
  define O' where "O' = owned_by (py_lower reviewer)"
  define a where "a = weighted neg_log now draws (filter (\<lambda>c. G c \<and> O' c) cs)"
  define b where "b = weighted neg_log now (drop (length (filter (\<lambda>c. G c \<and> O' c) cs)) draws) (filter (\<lambda>c. \<not> G c) cs)"
  have w: "work = a @ b" and d: "deferred = filter (\<lambda>c. G c \<and> \<not> O' c) cs"
    using assms(1) by (auto simp: prioritize_review_candidates_def Let_def a_def b_def G_def O'_def)
  have le: "length (filter (\<lambda>c. G c \<and> O' c) cs) + length (filter (\<lambda>c. \<not> G c) cs) \<le> length cs"
    by (induction cs) auto
  have ma: "mset a = mset (filter (\<lambda>c. G c \<and> O' c) cs)"
    unfolding a_def by (rule weighted_mset) (use le assms(2) in linarith)
  have mb: "mset b = mset (filter (\<lambda>c. \<not> G c) cs)"
    unfolding b_def by (rule weighted_mset) (use le assms(2) in simp)
  have "mset work + mset deferred = mset cs"
    unfolding w d mset_append ma mb by (induction cs) (auto simp: mset_filter)
  moreover have "list_all (\<lambda>c. G c \<and> O' c) a" "list_all (\<lambda>c. \<not> G c) b"
    using mset_eq_setD [OF ma] mset_eq_setD [OF mb] by (auto simp: list_all_iff)
  then have "list_all (\<lambda>c. G c \<and> O' c) (take (length a) work)" "list_all (\<lambda>c. \<not> G c) (drop (length a) work)"
    by (simp_all add: w)
  ultimately show ?thesis using d unfolding G_def O'_def by blast
qed

theorem review_order_complete_witness:
  "mset (fst (prioritize_review_candidates (\<lambda>d. 1 - d) [1/2] 0 ''me'' [candidate_of sample_pr NotCleanlyReviewed]))
   + mset (snd (prioritize_review_candidates (\<lambda>d. 1 - d) [1/2] 0 ''me'' [candidate_of sample_pr NotCleanlyReviewed]))
   = {#candidate_of sample_pr NotCleanlyReviewed#}"
  by (rule conjunct1 [OF review_order_complete [OF prod.collapse [symmetric],
      where cs = "[candidate_of sample_pr NotCleanlyReviewed]" and draws = "[1/2]", simplified mset.simps add_0_left]])
    simp

end
