(* ===== verification/OverlapState.thy ===== *)
theory OverlapState
  imports Prelude
begin

text \<open>
  The shared state of the Mathlib overlap phases (\<open>overlap_state.py\<close>): refs of a git repository that
  every worker can push, read and changed through \<open>State.read\<close> and the compare-and-swap \<open>State.cas\<close>,
  the scanner's cursor, and the expiring \<open>Lease\<close> with its acquire, heartbeat, require and release.

  A git object id is modelled by the object it names (parent, message, commit time), which is what a
  collision-free hash amounts to. The repository server is the listing, the availability of an
  object and the push reply that it answers with; git itself is a subprocess.
\<close>

section \<open>The remote repository\<close>

datatype oid = Oid (oid_parent: "oid option") (oid_message: "json option") (oid_time: int)

text \<open>What \<open>ls-remote\<close> prints in the first column: an id, or a text that is none.\<close>

datatype oid_text = Sha oid | NotSha string

datatype listing = ListFailed string | Rows "(oid_text \<times> string) list"

datatype push_reply = PushOk | PushFailed string

datatype overlap_error =
    GitFailed string
  | AmbiguousRef
  | MalformedRef
  | MalformedState
  | StatePushFailed string
  | MalformedCursor
  | InvalidMathlibCommit
  | MalformedLease
  | LeaseLost

type_synonym refs = "(string \<times> oid) list"

text \<open>What an undisturbed server lists for one ref.\<close>

definition honest_listing :: "refs \<Rightarrow> string \<Rightarrow> listing" where
  "honest_listing refs ref =
     Rows (case map_of refs ref of None \<Rightarrow> [] | Some i \<Rightarrow> [(Sha i, ref)])"

text \<open>
  \<open>git push --force-with-lease=ref:previous url new:ref\<close> on the server: the ref changes exactly when it
  still is \<open>previous\<close> (\<open>None\<close> is the absent ref); \<open>new = None\<close> deletes it.
\<close>

definition push_ref :: "string \<Rightarrow> oid option \<Rightarrow> oid option \<Rightarrow> refs \<Rightarrow> refs" where
  "push_ref ref previous new refs =
     (if map_of refs ref = previous
      then (case new of None \<Rightarrow> dict_del ref refs | Some i \<Rightarrow> dict_set ref i refs)
      else refs)"

section \<open>\<open>State\<close>\<close>

text \<open>\<open>State.read\<close>: the id of a ref and the decoded state its commit message holds.\<close>

definition read_state ::
  "listing \<Rightarrow> (oid \<Rightarrow> bool) \<Rightarrow> string \<Rightarrow> overlap_error + (oid \<times> jdict) option" where
  "read_state reply fetched ref =
     (case reply of
        ListFailed e \<Rightarrow> Inl (GitFailed e)
      | Rows [] \<Rightarrow> Inr None
      | Rows [(text, name)] \<Rightarrow>
          (case text of
             NotSha _ \<Rightarrow> Inl MalformedRef
           | Sha i \<Rightarrow>
               if name \<noteq> ref then Inl MalformedRef
               else if \<not> fetched i then Inl (GitFailed [])
               else (case oid_message i of
                       Some (JObj payload) \<Rightarrow> Inr (Some (i, payload))
                     | _ \<Rightarrow> Inl MalformedState))
      | Rows _ \<Rightarrow> Inl AmbiguousRef)"

text \<open>The commit \<open>State.cas\<close> creates before it pushes; a payload of \<open>None\<close> deletes the ref.\<close>

definition new_commit :: "oid option \<Rightarrow> jdict option \<Rightarrow> int \<Rightarrow> oid option" where
  "new_commit previous payload now =
     map_option (\<lambda>p. Oid previous (Some (JObj p)) now) payload"

text \<open>
  \<open>State.cas\<close> after its push: a failed push is reconciled by reading the ref again, since the server may
  have applied it and lost the reply; only an observed change or non-change decides.
\<close>

definition cas_result ::
  "push_reply \<Rightarrow> listing \<Rightarrow> (oid \<Rightarrow> bool) \<Rightarrow> string \<Rightarrow> oid option \<Rightarrow> oid option \<Rightarrow> overlap_error + bool" where
  "cas_result reply again fetched ref previous new =
     (case reply of
        PushOk \<Rightarrow> Inr True
      | PushFailed e \<Rightarrow>
          ebind (read_state again fetched ref) (\<lambda>observed.
            if map_option fst observed = new then Inr True
            else if map_option fst observed \<noteq> previous then Inr False
            else Inl (StatePushFailed e)))"

definition cursor_ref :: string where
  "cursor_ref = ''refs/tauceti-state/mathlib-overlap''"

definition cursor_schema :: string where
  "cursor_schema = ''tauceti-mathlib-overlap-cursor/v1''"

text \<open>\<open>SHA.fullmatch\<close>: forty lower-case hexadecimal digits.\<close>

definition is_sha :: "string \<Rightarrow> bool" where
  "is_sha s \<longleftrightarrow> length s = 40
     \<and> list_all (\<lambda>c. is_digit c \<or> (let n = of_char c :: nat in 97 \<le> n \<and> n \<le> 102)) s"

text \<open>
  \<open>State.cursor\<close>: no ref reads as the empty cursor. \<open>str(payload.get(...))\<close> of a value that is not a
  string is never forty hexadecimal digits unless it is a forty-digit number, which \<open>num_text\<close> prints.
\<close>

definition cursor_text :: "(json \<Rightarrow> string) \<Rightarrow> jdict \<Rightarrow> string" where
  "cursor_text text_of payload =
     (case jget payload ''mathlib_commit'' of None \<Rightarrow> [] | Some (JStr s) \<Rightarrow> s | Some v \<Rightarrow> text_of v)"

definition read_cursor ::
  "(json \<Rightarrow> string) \<Rightarrow> overlap_error + (oid \<times> jdict) option \<Rightarrow> overlap_error + (oid \<times> json) option" where
  "read_cursor text_of observed =
     ebind observed (\<lambda>obs. case obs of
        None \<Rightarrow> Inr None
      | Some (i, payload) \<Rightarrow>
          if jget payload ''schema'' \<noteq> Some (JStr cursor_schema) \<or> \<not> is_sha (cursor_text text_of payload)
          then Inl MalformedCursor
          else Inr (Some (i, jget0 payload ''mathlib_commit'')))"

definition cursor_payload :: "string \<Rightarrow> jdict" where
  "cursor_payload sha = [(''schema'', JStr cursor_schema), (''mathlib_commit'', JStr sha)]"

text \<open>\<open>State.advance\<close> up to its push: the commit that would become the cursor.\<close>

definition advance_commit :: "oid option \<Rightarrow> string \<Rightarrow> int \<Rightarrow> overlap_error + oid option" where
  "advance_commit previous sha now =
     (if \<not> is_sha sha then Inl InvalidMathlibCommit
      else Inr (new_commit previous (Some (cursor_payload sha)) now))"

section \<open>\<open>Lease\<close>\<close>

definition lease_schema :: string where
  "lease_schema = ''tauceti-claim/v1''"

definition lease_ref :: "string \<Rightarrow> string" where
  "lease_ref key = ''refs/tauceti-claims/'' @ key"

text \<open>\<open>Lease._payload\<close>.\<close>

definition lease_payload :: "string \<Rightarrow> string \<Rightarrow> int \<Rightarrow> rat \<Rightarrow> jdict" where
  "lease_payload key owner ttl now =
     [(''schema'', JStr lease_schema), (''owner'', JStr owner), (''resource'', JStr key),
      (''expires_at'', JNum (PInt (\<lfloor>now\<rfloor> + ttl)))]"

text \<open>The owner and expiry of a payload that \<open>Lease._read\<close> accepts.\<close>

definition lease_of :: "string \<Rightarrow> jdict \<Rightarrow> (string \<times> int) option" where
  "lease_of key payload =
     (if jget payload ''schema'' = Some (JStr lease_schema) \<and> jget payload ''resource'' = Some (JStr key)
      then (case (jget payload ''owner'', jget payload ''expires_at'') of
              (Some (JStr owner), Some (JNum (PInt e))) \<Rightarrow> Some (owner, e)
            | _ \<Rightarrow> None)
      else None)"

text \<open>\<open>Lease._read\<close>.\<close>

definition read_lease ::
  "string \<Rightarrow> overlap_error + (oid \<times> jdict) option \<Rightarrow> overlap_error + (oid \<times> string \<times> int) option" where
  "read_lease key observed =
     ebind observed (\<lambda>obs. case obs of
        None \<Rightarrow> Inr None
      | Some (i, payload) \<Rightarrow>
          (case lease_of key payload of None \<Rightarrow> Inl MalformedLease | Some oe \<Rightarrow> Inr (Some (i, oe))))"

record lease =
  ls_key :: string
  ls_ttl :: int
  ls_owner :: string
  ls_stop :: bool
  ls_lost :: bool
  ls_acquired :: bool

type_synonym lease_view = "overlap_error + (oid \<times> string \<times> int) option"

text \<open>
  What an operation does with the lease it observed: stop here with a state and a result, or push a
  swap of \<open>previous\<close> for a payload.
\<close>

datatype decision =
    Finish lease "overlap_error + bool"
  | Swap "oid option" "jdict option"

text \<open>\<open>Lease.acquire\<close>: only an absent or expired lease may be taken.\<close>

definition acquire_decision :: "rat \<Rightarrow> lease_view \<Rightarrow> lease \<Rightarrow> decision" where
  "acquire_decision now view l =
     (case view of
        Inl e \<Rightarrow> Finish l (Inl e)
      | Inr (Some (i, owner, e)) \<Rightarrow>
          if of_int e > now then Finish l (Inr False)
          else Swap (Some i) (Some (lease_payload (ls_key l) (ls_owner l) (ls_ttl l) now))
      | Inr None \<Rightarrow> Swap None (Some (lease_payload (ls_key l) (ls_owner l) (ls_ttl l) now)))"

definition acquire_end :: "overlap_error + bool \<Rightarrow> lease \<Rightarrow> lease \<times> (overlap_error + bool)" where
  "acquire_end r l = (case r of Inr True \<Rightarrow> (l\<lparr>ls_acquired := True\<rparr>, Inr True) | _ \<Rightarrow> (l, r))"

text \<open>The guard \<open>require\<close> and the heartbeat share: the lease is one's own and has not expired.\<close>

definition mine_and_live :: "rat \<Rightarrow> lease_view \<Rightarrow> lease \<Rightarrow> bool" where
  "mine_and_live now view l =
     (case view of Inr (Some (i, owner, e)) \<Rightarrow> owner = ls_owner l \<and> of_int e > now | _ \<Rightarrow> False)"

text \<open>\<open>Lease.require\<close>: \<open>Inr True\<close> is a normal return.\<close>

definition require :: "rat \<Rightarrow> lease_view \<Rightarrow> lease \<Rightarrow> lease \<times> (overlap_error + bool)" where
  "require now view l =
     (if ls_lost l then (l, Inl LeaseLost)
      else case view of
             Inl e \<Rightarrow> (l, Inl e)
           | Inr _ \<Rightarrow> if mine_and_live now view l then (l, Inr True)
                      else (l\<lparr>ls_lost := True\<rparr>, Inl LeaseLost))"

text \<open>One beat of \<open>Lease._heartbeat\<close>; an exception is a lost lease too.\<close>

definition beat_decision :: "rat \<Rightarrow> lease_view \<Rightarrow> lease \<Rightarrow> decision" where
  "beat_decision now view l =
     (if mine_and_live now view l
      then Swap (case view of Inr (Some (i, _)) \<Rightarrow> Some i | _ \<Rightarrow> None)
                (Some (lease_payload (ls_key l) (ls_owner l) (ls_ttl l) now))
      else Finish (l\<lparr>ls_lost := True\<rparr>) (Inr False))"

definition beat_end :: "overlap_error + bool \<Rightarrow> lease \<Rightarrow> lease \<times> (overlap_error + bool)" where
  "beat_end r l = (case r of Inr True \<Rightarrow> (l, Inr True) | _ \<Rightarrow> (l\<lparr>ls_lost := True\<rparr>, Inr False))"

text \<open>\<open>Lease.release\<close>: errors are logged and the lease is left to expire.\<close>

definition release_start :: "lease \<Rightarrow> lease" where
  "release_start l = l\<lparr>ls_acquired := False, ls_stop := True\<rparr>"

definition release_decision :: "lease_view \<Rightarrow> lease \<Rightarrow> decision" where
  "release_decision view l =
     (case view of
        Inr (Some (i, owner, e)) \<Rightarrow> if owner = ls_owner l then Swap (Some i) None else Finish l (Inr True)
      | _ \<Rightarrow> Finish l (Inr True))"

definition release_end :: "overlap_error + bool \<Rightarrow> lease \<Rightarrow> lease \<times> (overlap_error + bool)" where
  "release_end r l = (l, Inr True)"

end
