(* ===== verification/OverlapLocks.thy ===== *)
theory OverlapLocks
  imports OverlapState
begin

text \<open>
  Workers that compete for one shared lease. Each operation of a \<open>Lease\<close> is three separate accesses of
  the server (read the ref, push the swap, and read again when the push reports a failure) with the
  decision in between, and any of them may be interleaved with the operations of other workers, with
  the passing of time, with lost replies and with failed reads. The lease is at most one worker's
  while it has not expired, and a check that passes is current.
\<close>

section \<open>The system\<close>

text \<open>One operation at a time runs for a lease: its mutex, and the join in \<open>release\<close>.\<close>

datatype op = Acquire | Beat | Require | Release

datatype point =
    Ready
  | Deciding op lease_view
  | Pushing op "oid option" "oid option"
  | Settling op "oid option" "oid option" push_reply

record world =
  w_refs :: refs
  w_now :: rat
  w_lease :: "string \<Rightarrow> lease"
  w_point :: "string \<Rightarrow> point"

text \<open>Every worker's lease object is named by its owner (account, worker and a fresh id).\<close>

definition start_world :: "string \<Rightarrow> int \<Rightarrow> refs \<Rightarrow> rat \<Rightarrow> world" where
  "start_world key ttl refs now =
     \<lparr>w_refs = refs, w_now = now,
      w_lease = (\<lambda>c. \<lparr>ls_key = key, ls_ttl = ttl, ls_owner = c, ls_stop = False, ls_lost = False,
                      ls_acquired = False\<rparr>),
      w_point = (\<lambda>c. Ready)\<rparr>"

definition may_start :: "op \<Rightarrow> lease \<Rightarrow> bool" where
  "may_start opn l =
     (case opn of
        Acquire \<Rightarrow> True
      | Beat \<Rightarrow> ls_acquired l \<and> \<not> ls_stop l \<and> \<not> ls_lost l
      | Require \<Rightarrow> True
      | Release \<Rightarrow> ls_acquired l)"

definition started :: "op \<Rightarrow> lease \<Rightarrow> lease" where
  "started opn l = (if opn = Release then release_start l else l)"

definition decide :: "op \<Rightarrow> rat \<Rightarrow> lease_view \<Rightarrow> lease \<Rightarrow> decision" where
  "decide opn now view l =
     (case opn of
        Acquire \<Rightarrow> acquire_decision now view l
      | Beat \<Rightarrow> beat_decision now view l
      | Require \<Rightarrow> (let (l', r) = require now view l in Finish l' r)
      | Release \<Rightarrow> release_decision view l)"

definition finish_op :: "op \<Rightarrow> overlap_error + bool \<Rightarrow> lease \<Rightarrow> lease \<times> (overlap_error + bool)" where
  "finish_op opn r l =
     (case opn of Acquire \<Rightarrow> acquire_end r l | Beat \<Rightarrow> beat_end r l | Require \<Rightarrow> (l, r) | Release \<Rightarrow> release_end r l)"

text \<open>What a read of the lease may report: the ref as it is, or some failure.\<close>

definition possible_view :: "world \<Rightarrow> string \<Rightarrow> lease_view \<Rightarrow> bool" where
  "possible_view w key view \<longleftrightarrow>
     view = read_lease key (read_state (honest_listing (w_refs w) (lease_ref key)) (\<lambda>_. True) (lease_ref key))
     \<or> (\<exists>e. view = Inl e)"

definition now_int :: "rat \<Rightarrow> int" where
  "now_int now = \<lfloor>now\<rfloor>"

text \<open>
  The label is the worker whose access it is, and what the operation answers when it ends. A failed push
  may have been applied or not; a push that reports success was applied.
\<close>

inductive lease_step :: "string \<Rightarrow> world \<Rightarrow> (string \<times> op \<times> (overlap_error + bool) option) option \<Rightarrow> world \<Rightarrow> bool"
  for key :: string where
  Tick: "w_now w \<le> t \<Longrightarrow> lease_step key w None (w\<lparr>w_now := t\<rparr>)"
| Look: "w_point w c = Ready \<Longrightarrow> may_start opn (w_lease w c) \<Longrightarrow> possible_view w key view \<Longrightarrow>
     lease_step key w (Some (c, opn, None))
       (w\<lparr>w_lease := (w_lease w)(c := started opn (w_lease w c)), w_point := (w_point w)(c := Deciding opn view)\<rparr>)"
| Stop: "w_point w c = Deciding opn view \<Longrightarrow> decide opn (w_now w) view (w_lease w c) = Finish l r \<Longrightarrow>
     lease_step key w (Some (c, opn, Some r))
       (w\<lparr>w_lease := (w_lease w)(c := l), w_point := (w_point w)(c := Ready)\<rparr>)"
| Commit: "w_point w c = Deciding opn view \<Longrightarrow> decide opn (w_now w) view (w_lease w c) = Swap prev payload \<Longrightarrow>
     lease_step key w (Some (c, opn, None))
       (w\<lparr>w_point := (w_point w)(c := Pushing opn prev (new_commit prev payload (now_int (w_now w))))\<rparr>)"
| Push: "w_point w c = Pushing opn prev new \<Longrightarrow> reply = PushOk \<longrightarrow> map_of (w_refs w) (lease_ref key) = prev \<Longrightarrow>
     applied \<or> reply \<noteq> PushOk \<Longrightarrow>
     lease_step key w (Some (c, opn, None))
       (w\<lparr>w_refs := (if applied then push_ref (lease_ref key) prev new (w_refs w) else w_refs w),
          w_point := (w_point w)(c := Settling opn prev new reply)\<rparr>)"
| Settle: "w_point w c = Settling opn prev new reply \<Longrightarrow>
     listing = honest_listing (w_refs w) (lease_ref key) \<or> (\<exists>e. listing = ListFailed e) \<Longrightarrow>
     finish_op opn (cas_result reply listing fetched (lease_ref key) prev new) (w_lease w c) = (l, r) \<Longrightarrow>
     lease_step key w (Some (c, opn, Some r))
       (w\<lparr>w_lease := (w_lease w)(c := l), w_point := (w_point w)(c := Ready)\<rparr>)"

inductive lease_run :: "string \<Rightarrow> int \<Rightarrow> world \<Rightarrow> bool" for key :: string and ttl :: int where
  Start: "lease_run key ttl (start_world key ttl refs now)"
| Step: "lease_run key ttl w \<Longrightarrow> lease_step key w lab w' \<Longrightarrow> lease_run key ttl w'"

section \<open>A quiet server\<close>

text \<open>One whole operation with nothing in between: the code of \<open>Lease\<close> as it runs when nobody interferes.\<close>

definition quiet_op :: "op \<Rightarrow> rat \<Rightarrow> refs \<times> lease \<Rightarrow> (overlap_error + bool) \<times> refs \<times> lease" where
  "quiet_op opn now s =
     (let (refs, l0) = s;
          l = started opn l0;
          ref = lease_ref (ls_key l);
          view = read_lease (ls_key l) (read_state (honest_listing refs ref) (\<lambda>_. True) ref)
      in case decide opn now view l of
           Finish l' r \<Rightarrow> (r, refs, l')
         | Swap prev payload \<Rightarrow>
             (let new = new_commit prev payload (now_int now);
                  (l', r) = finish_op opn (cas_result PushOk (ListFailed []) (\<lambda>_. True) ref prev new) l
              in (r, push_ref ref prev new refs, l')))"

section \<open>The invariant\<close>

text \<open>The lease a ref holds, if it holds one.\<close>

definition held :: "string \<Rightarrow> oid option \<Rightarrow> (string \<times> int) option" where
  "held key tip =
     (case tip of Some (Oid p (Some (JObj d)) t) \<Rightarrow> lease_of key d | _ \<Rightarrow> None)"

definition shared_tip :: "string \<Rightarrow> world \<Rightarrow> oid option" where
  "shared_tip key w = map_of (w_refs w) (lease_ref key)"

definition live :: "rat \<Rightarrow> (string \<times> int) option \<Rightarrow> bool" where
  "live now h = (case h of None \<Rightarrow> False | Some (c, e) \<Rightarrow> of_int e > now)"

text \<open>What each point of an operation knows about the ref.\<close>

definition point_ok :: "string \<Rightarrow> world \<Rightarrow> string \<Rightarrow> bool" where
  "point_ok key w c =
     (case w_point w c of
        Ready \<Rightarrow> True
      | Deciding opn view \<Rightarrow>
          (case view of
             Inr (Some (i, d, e)) \<Rightarrow> held key (Some i) = Some (d, e)
               \<and> (d = c \<and> of_int e > w_now w \<longrightarrow> shared_tip key w = Some i)
           | _ \<Rightarrow> True)
      | Pushing opn prev new \<Rightarrow>
          (\<forall>d e. held key prev = Some (d, e) \<longrightarrow> d = c \<or> of_int e \<le> w_now w)
          \<and> (\<forall>d e. held key new = Some (d, e) \<longrightarrow> d = c)
          \<and> (new = None \<longrightarrow> opn = Release) \<and> (opn = Release \<longrightarrow> new = None) \<and> opn \<noteq> Require
          \<and> (new \<noteq> None \<longrightarrow> held key new \<noteq> None)
          \<and> (opn \<noteq> Acquire \<longrightarrow> (\<exists>e. held key prev = Some (c, e)))
      | Settling opn prev new reply \<Rightarrow>
          (\<forall>d e. held key new = Some (d, e) \<longrightarrow> d = c)
          \<and> (opn = Release \<longleftrightarrow> new = None) \<and> opn \<noteq> Require
          \<and> (reply = PushOk \<and> new \<noteq> None \<and> live (w_now w) (held key new) \<longrightarrow> shared_tip key w = new))"

definition lease_inv :: "string \<Rightarrow> int \<Rightarrow> world \<Rightarrow> bool" where
  "lease_inv key ttl w \<longleftrightarrow>
     (\<forall>c. ls_owner (w_lease w c) = c \<and> ls_key (w_lease w c) = key \<and> ls_ttl (w_lease w c) = ttl \<and> point_ok key w c)"

end
