(* ===== verification/OverlapProps.thy ===== *)
theory OverlapProps
  imports OverlapLaws
begin

text \<open>
  The properties of the shared lease and of the cursor: refinement of an abstract lock, currency of
  \<open>require\<close>, the sequential life of a lease on a quiet server, and the history of the cursor.
\<close>

section \<open>The abstract lock\<close>

text \<open>A lock with an expiry: it is free, or one worker's until a time.\<close>

record lock =
  lk_now :: rat
  lk_holder :: "(string \<times> int) option"

definition live_part :: "rat \<Rightarrow> (string \<times> int) option \<Rightarrow> (string \<times> int) option" where
  "live_part now h = (if live now h then h else None)"

inductive lock_step :: "lock \<Rightarrow> string option \<Rightarrow> lock \<Rightarrow> bool" where
  Pass: "lk_now L \<le> t \<Longrightarrow> lock_step L None \<lparr>lk_now = t, lk_holder = live_part t (lk_holder L)\<rparr>"
| Take: "lk_holder L = None \<or> (\<exists>e'. lk_holder L = Some (c, e')) \<Longrightarrow>
     lock_step L (Some c) (L\<lparr>lk_holder := live_part (lk_now L) (Some (c, e))\<rparr>)"
| Drop: "lk_holder L = None \<or> (\<exists>e'. lk_holder L = Some (c, e')) \<Longrightarrow>
     lock_step L (Some c) (L\<lparr>lk_holder := None\<rparr>)"
| Keep: "lock_step L who L"

definition abs_lock :: "string \<Rightarrow> world \<Rightarrow> lock" where
  "abs_lock key w = \<lparr>lk_now = w_now w, lk_holder = live_part (w_now w) (held key (shared_tip key w))\<rparr>"

lemma live_part_simps [simp]:
  "live_part now None = None"
  "live_part now (Some (c, e)) = (if of_int e > now then Some (c, e) else None)"
  by (simp_all add: live_part_def)

lemma live_part_later: "now \<le> t \<Longrightarrow> live_part t (live_part now h) = live_part t h"
  by (cases h) (auto simp: live_part_def live_def)

lemma push_lock:
  assumes "point_ok key w c" and "w_point w c = Pushing opn prev new" and "shared_tip key w = prev"
  shows "lock_step (abs_lock key w) (Some c)
           \<lparr>lk_now = w_now w, lk_holder = live_part (w_now w) (held key new)\<rparr>"
proof -
  have free: "lk_holder (abs_lock key w) = None \<or> (\<exists>e. lk_holder (abs_lock key w) = Some (c, e))"
  proof (cases "held key prev")
    case (Some de)
    then show ?thesis using assms by (cases de) (auto simp: abs_lock_def point_ok_def)
  qed (use assms(3) in \<open>simp add: abs_lock_def\<close>)
  show ?thesis
  proof (cases "held key new")
    case None
    then show ?thesis using lock_step.Drop [OF free] by (simp add: abs_lock_def)
  next
    case (Some de)
    moreover from this have "fst de = c" using assms(1,2) by (cases de) (auto simp: point_ok_def)
    ultimately show ?thesis using lock_step.Take [OF free, of "snd de"]
      by (cases de) (simp add: abs_lock_def split del: if_split)
  qed
qed

text \<open>
  C3: the shared lease is a lock. Whatever the workers, the clock, lost replies and failed reads do, each
  step of the system is a step of the abstract lock by the same worker: a lease that has not expired
  is changed by its holder alone, and it passes to another worker only once it is released or expired.
\<close>

theorem lease_refines_lock:
  assumes "lease_run key ttl w" and "lease_step key w lab w'"
  shows "lock_step (abs_lock key w) (map_option fst lab) (abs_lock key w')"
proof -
  have inv: "point_ok key w c" for c using lease_inv_run [OF assms(1)] by (simp add: lease_inv_def)
  have keep: "lock_step (abs_lock key w) who (abs_lock key w')"
    if "w_refs w' = w_refs w" "w_now w' = w_now w" for who
    using that lock_step.Keep by (simp add: abs_lock_def shared_tip_def)
  from assms(2) show ?thesis
  proof cases
    case (Tick t)
    then show ?thesis
      using lock_step.Pass [of "abs_lock key w" t] by (simp add: abs_lock_def shared_tip_def live_part_later)
  next
    case (Push c opn prev new reply applied)
    show ?thesis
    proof (cases "applied \<and> shared_tip key w = prev")
      case True
      then show ?thesis using push_lock [OF inv Push(3)] Push
        by (simp add: abs_lock_def shared_tip_def)
    next
      case False
      then show ?thesis using Push lock_step.Keep
        by (auto simp: abs_lock_def shared_tip_def)
    qed
  qed (use keep in \<open>auto\<close>)
qed

section \<open>Currency\<close>

text \<open>
  a passed check is current. When \<open>require\<close> returns normally, the shared ref holds, at that very
  moment and not only when it was read, the worker's own lease, not yet expired; so no two workers can
  pass at one instant. And when an operation of a worker ends with its swap accepted, with a lost reply
  or without, the ref is the commit it pushed, as long as that lease has not expired.
\<close>

theorem require_is_current:
  assumes "lease_run key ttl w" and "lease_step key w (Some (c, opn, Some (Inr True))) w'"
  shows "(opn = Require \<longrightarrow> (\<exists>i e. shared_tip key w' = Some i \<and> held key (Some i) = Some (c, e) \<and> of_int e > w_now w'))
    \<and> (\<forall>prev new reply. w_point w c = Settling opn prev new reply \<and> opn \<in> {Acquire, Beat} \<and> live (w_now w) (held key new)
          \<longrightarrow> shared_tip key w' = new)"
proof -
  have inv: "point_ok key w c" "ls_owner (w_lease w c) = c"
    using lease_inv_run [OF assms(1)] by (simp_all add: lease_inv_def)
  from assms(2) show ?thesis
  proof cases
    case (Stop view l)
    have "\<exists>i e. view = Inr (Some (i, c, e)) \<and> of_int e > w_now w" if "opn = Require"
      using Stop(3) that inv(2)
      by (auto simp: decide_def require_def mine_and_live_def split: if_splits sum.splits option.splits)
    then show ?thesis using inv(1) Stop by (auto simp: point_ok_def shared_tip_def)
  next
    case (Settle prev new reply listing fetched l)
    have tip: "shared_tip key w = new"
      if "opn \<in> {Acquire, Beat}" "live (w_now w) (held key new)"
    proof -
      have r: "cas_result reply listing fetched (lease_ref key) prev new = Inr True"
        using Settle(4) that(1) by (auto simp: finish_op_def acquire_end_def beat_end_def split: sum.splits bool.splits)
      show ?thesis
      proof (cases "reply = PushOk")
        case True
        then show ?thesis using inv(1) Settle(2) that by (cases new) (auto simp: point_ok_def)
      next
        case False
        then show ?thesis using cas_result_True [OF r False Settle(3)] by (simp add: shared_tip_def)
      qed
    qed
    then show ?thesis using Settle inv(1) by (auto simp: shared_tip_def point_ok_def)
  qed
qed

section \<open>A quiet server\<close>

lemma quiet_view:
  "read_lease key (read_state (honest_listing refs ref) (\<lambda>_. True) ref) =
     (case map_of refs ref of
        None \<Rightarrow> Inr None
      | Some i \<Rightarrow> (case held key (Some i) of None \<Rightarrow> Inl (case oid_message i of Some (JObj p) \<Rightarrow> MalformedLease | _ \<Rightarrow> MalformedState)
                  | Some oe \<Rightarrow> Inr (Some (i, oe))))"
  by (auto simp: read_honest read_lease_def held_def split: option.split json.split oid.split)

definition lease_at :: "string \<Rightarrow> refs \<Rightarrow> (string \<times> int) option" where
  "lease_at key refs = held key (map_of refs (lease_ref key))"

text \<open>
  the life of a lease. On a quiet server, an absent or expired lease is acquired, for \<open>ttl\<close> from
  now; until it expires its owner passes \<open>require\<close> and no other worker acquires it, and once it has
  expired \<open>require\<close> refuses, for good; a release leaves no lease behind.
\<close>

theorem lease_lifecycle:
  assumes "map_of refs (lease_ref (ls_key l)) = None
           \<or> (\<exists>d e. lease_at (ls_key l) refs = Some (d, e) \<and> of_int e \<le> now)"
    and "\<not> ls_lost l" and "ls_key l2 = ls_key l" and "ls_owner l2 \<noteq> ls_owner l"
  shows "\<exists>refs' l'. quiet_op Acquire now (refs, l) = (Inr True, refs', l') \<and> ls_acquired l'
     \<and> lease_at (ls_key l) refs' = Some (ls_owner l, \<lfloor>now\<rfloor> + ls_ttl l)
     \<and> (\<forall>t. t < of_int (\<lfloor>now\<rfloor> + ls_ttl l) \<longrightarrow>
            quiet_op Require t (refs', l') = (Inr True, refs', l')
            \<and> quiet_op Acquire t (refs', l2) = (Inr False, refs', l2))
     \<and> (\<forall>t. of_int (\<lfloor>now\<rfloor> + ls_ttl l) \<le> t \<longrightarrow>
            quiet_op Require t (refs', l') = (Inl LeaseLost, refs', l'\<lparr>ls_lost := True\<rparr>)
            \<and> fst (quiet_op Require t2 (refs', l'\<lparr>ls_lost := True\<rparr>)) = Inl LeaseLost)
     \<and> (\<exists>l''. quiet_op Release t3 (refs', l') = (Inr True, dict_del (lease_ref (ls_key l)) refs', l'')
             \<and> lease_at (ls_key l) (dict_del (lease_ref (ls_key l)) refs') = None)"
proof -
  let ?k = "ls_key l" and ?r = "lease_ref (ls_key l)" and ?p = "lease_payload (ls_key l) (ls_owner l) (ls_ttl l) now"
  let ?prev = "map_of refs ?r"
  let ?new = "Oid ?prev (Some (JObj ?p)) (now_int now)"
  let ?refs = "push_ref ?r ?prev (Some ?new) refs" and ?l = "l\<lparr>ls_acquired := True\<rparr>"
  have dec: "decide Acquire now (read_lease ?k (read_state (honest_listing refs ?r) (\<lambda>_. True) ?r)) l = Swap ?prev (Some ?p)"
  proof (cases ?prev)
    case None
    then show ?thesis by (simp add: quiet_view decide_def acquire_decision_def)
  next
    case (Some i)
    with assms(1) show ?thesis by (auto simp: quiet_view decide_def acquire_decision_def lease_at_def)
  qed
  have acq: "quiet_op Acquire now (refs, l) = (Inr True, ?refs, ?l)"
    unfolding quiet_op_def Let_def prod.case started_def
    by (simp add: dec cas_result_def new_commit_def finish_op_def acquire_end_def)
  have h: "held ?k (Some ?new) = Some (ls_owner l, \<lfloor>now\<rfloor> + ls_ttl l)" by simp
  have tip: "map_of ?refs ?r = Some ?new" by simp
  define new where "new = ?new"
  define rs where "rs = ?refs"
  have at': "read_lease ?k (read_state (honest_listing rs ?r) (\<lambda>_. True) ?r) = Inr (Some (new, ls_owner l, \<lfloor>now\<rfloor> + ls_ttl l))"
    unfolding rs_def quiet_view tip new_def option.case h ..
  have rsn: "map_of rs ?r = Some new" unfolding rs_def new_def by (rule tip)
  have acq': "quiet_op Acquire now (refs, l) = (Inr True, rs, ?l)" unfolding rs_def by (rule acq)
  have la: "lease_at ?k rs = Some (ls_owner l, \<lfloor>now\<rfloor> + ls_ttl l)"
    unfolding lease_at_def rsn new_def by (rule h)
  have rel: "\<exists>l''. quiet_op Release t3 (rs, ?l) = (Inr True, dict_del ?r rs, l'')"
    unfolding quiet_op_def Let_def
    by (simp add: at' started_def release_start_def decide_def release_decision_def
        cas_result_def finish_op_def release_end_def push_ref_def rsn)
  have req: "quiet_op Require t (rs, ?l) =
      (if t < of_int (\<lfloor>now\<rfloor> + ls_ttl l) then (Inr True, rs, ?l) else (Inl LeaseLost, rs, ?l\<lparr>ls_lost := True\<rparr>))" for t
    unfolding quiet_op_def Let_def
    by (simp add: at' started_def decide_def require_def mine_and_live_def assms(2))
  have lost: "fst (quiet_op Require t2 (rs, ?l\<lparr>ls_lost := True\<rparr>)) = Inl LeaseLost"
    unfolding quiet_op_def Let_def by (simp add: started_def decide_def require_def)
  have busy: "quiet_op Acquire t (rs, l2) = (Inr False, rs, l2)" if "t < of_int (\<lfloor>now\<rfloor> + ls_ttl l)" for t
    unfolding quiet_op_def Let_def
    using that by (simp add: assms(3) at' started_def decide_def acquire_decision_def)
  have gone: "lease_at ?k (dict_del ?r rs) = None" by (simp add: lease_at_def)
  have acquired: "ls_acquired ?l" by simp
  show ?thesis
    using acq' acquired la rel req lost busy gone not_less
    by (intro exI [of _ rs] exI [of _ ?l]) (simp only: if_True if_False simp_thms not_less [symmetric], auto)
qed

section \<open>The cursor\<close>

text \<open>A cell changed by compare and swap alone: what was accepted forms a chain.\<close>

locale swap_cell =
  fixes tip :: "'s \<Rightarrow> 'v option" and swap :: "'v option \<Rightarrow> 'v \<Rightarrow> 's \<Rightarrow> 's"
  assumes tip_swap: "tip (swap p n s) = (if tip s = p then Some n else tip s)"
begin

fun attempts :: "('v option \<times> 'v) list \<Rightarrow> 's \<Rightarrow> 's" where
  "attempts [] s = s"
| "attempts ((p, n) # xs) s = attempts xs (swap p n s)"

fun accepted :: "('v option \<times> 'v) list \<Rightarrow> 's \<Rightarrow> ('v option \<times> 'v) list" where
  "accepted [] s = []"
| "accepted ((p, n) # xs) s = (if tip s = p then [(p, n)] else []) @ accepted xs (swap p n s)"

fun chain :: "'v option \<Rightarrow> ('v option \<times> 'v) list \<Rightarrow> bool" where
  "chain t [] = True"
| "chain t ((p, n) # xs) = (p = t \<and> chain (Some n) xs)"

lemma accepted_chain: "chain (tip s) (accepted xs s)"
  by (induction xs s rule: accepted.induct) (auto simp: tip_swap)

lemma tip_attempts:
  "tip (attempts xs s) = (if accepted xs s = [] then tip s else Some (snd (last (accepted xs s))))"
  by (induction xs s rule: accepted.induct) (auto simp: tip_swap)

end

definition ref_tip :: "string \<Rightarrow> refs \<Rightarrow> oid option" where
  "ref_tip ref refs = map_of refs ref"

definition ref_swap :: "string \<Rightarrow> oid option \<Rightarrow> oid \<Rightarrow> refs \<Rightarrow> refs" where
  "ref_swap ref p n refs = push_ref ref p (Some n) refs"

interpretation cursor_cell: swap_cell "ref_tip ref" "ref_swap ref" for ref
  by unfold_locales (simp add: ref_tip_def ref_swap_def)

text \<open>
  A sequence of \<open>State.advance\<close> calls by any workers, each a previous cursor, a commit and a time, in
  the order in which the server sees their pushes; the result lists the advances that were accepted.
\<close>

fun advances :: "(oid option \<times> string \<times> int) list \<Rightarrow> refs \<Rightarrow> refs \<times> oid list" where
  "advances [] refs = (refs, [])"
| "advances ((prev, sha, t) # xs) refs =
     (case advance_commit prev sha t of
        Inr (Some new) \<Rightarrow>
          (let (refs', acc) = advances xs (ref_swap cursor_ref prev new refs)
           in (refs', (if ref_tip cursor_ref refs = prev then [new] else []) @ acc))
      | _ \<Rightarrow> advances xs refs)"

text \<open>The commits a cursor descends from, newest first.\<close>

fun ancestry :: "oid \<Rightarrow> oid list" where
  "ancestry (Oid p m t) = Oid p m t # (case p of None \<Rightarrow> [] | Some i \<Rightarrow> ancestry i)"

lemma ancestry_unfold: "ancestry i = i # (case oid_parent i of None \<Rightarrow> [] | Some j \<Rightarrow> ancestry j)"
  by (cases i) simp

definition tip_ancestry :: "refs \<Rightarrow> oid list" where
  "tip_ancestry refs = (case ref_tip cursor_ref refs of None \<Rightarrow> [] | Some i \<Rightarrow> ancestry i)"

definition cursor_value :: "oid \<Rightarrow> string option" where
  "cursor_value i = (case oid_message i of
      Some (JObj d) \<Rightarrow> (case jget d ''mathlib_commit'' of Some (JStr s) \<Rightarrow> Some s | _ \<Rightarrow> None) | _ \<Rightarrow> None)"

lemma advance_commit_cases:
  obtains "\<not> is_sha sha" and "advance_commit prev sha t = Inl InvalidMathlibCommit"
  | "is_sha sha" and "advance_commit prev sha t = Inr (Some (Oid prev (Some (JObj (cursor_payload sha))) t))"
  by (cases "is_sha sha") (auto simp: advance_commit_def new_commit_def)

lemma advances_ancestry:
  "advances xs refs = (refs', acc) \<Longrightarrow> tip_ancestry refs' = rev acc @ tip_ancestry refs"
proof (induction xs arbitrary: refs refs' acc)
  case (Cons x xs)
  obtain prev sha t where x: "x = (prev, sha, t)" by (cases x) auto
  show ?case
  proof (cases rule: advance_commit_cases [of sha prev t])
    case 1
    then show ?thesis using Cons x by auto
  next
    case 2
    let ?new = "Oid prev (Some (JObj (cursor_payload sha))) t"
    obtain refs1 acc1 where a: "advances xs (ref_swap cursor_ref prev ?new refs) = (refs1, acc1)" by fastforce
    then have "tip_ancestry refs' = rev acc1 @ tip_ancestry (ref_swap cursor_ref prev ?new refs)"
      using Cons 2 x by (auto simp: Let_def)
    moreover have "tip_ancestry (ref_swap cursor_ref prev ?new refs)
        = (if ref_tip cursor_ref refs = prev then ?new # tip_ancestry refs else tip_ancestry refs)"
      by (auto simp: tip_ancestry_def cursor_cell.tip_swap)
    ultimately show ?thesis using Cons.prems 2 x a by auto
  qed
qed auto

lemma advances_values:
  "advances xs refs = (refs', acc) \<Longrightarrow> i \<in> set acc \<Longrightarrow>
     \<exists>sha. is_sha sha \<and> oid_message i = Some (JObj (cursor_payload sha)) \<and> sha \<in> (fst \<circ> snd) ` set xs"
proof (induction xs arbitrary: refs refs' acc)
  case (Cons x xs)
  obtain prev sha t where x: "x = (prev, sha, t)" by (cases x) auto
  show ?case
  proof (cases rule: advance_commit_cases [of sha prev t])
    case 1
    then have "advances xs refs = (refs', acc)" using Cons.prems x by simp
    from Cons.IH [OF this Cons.prems(2)] show ?thesis by auto
  next
    case 2
    let ?new = "Oid prev (Some (JObj (cursor_payload sha))) t"
    obtain refs1 acc1 where a: "advances xs (ref_swap cursor_ref prev ?new refs) = (refs1, acc1)" by fastforce
    with Cons.prems 2 x consider "i = ?new" | "i \<in> set acc1" by (auto simp: Let_def split: if_splits)
    then show ?thesis using 2 x Cons.IH [OF a] by cases auto
  qed
qed auto

text \<open>
  the cursor keeps its whole history. Whatever workers try, in whatever order, every accepted advance
  has the one before it as its parent, so the cursor's ancestry is exactly the accepted advances, and a
  stale or invalid one changes nothing; reading the cursor gives back the commit of the last accepted
  advance.
\<close>

theorem cursor_keeps_history:
  assumes "advances xs refs = (refs', acc)"
  shows "tip_ancestry refs' = rev acc @ tip_ancestry refs
     \<and> (acc \<noteq> [] \<longrightarrow> (\<exists>i sha. ref_tip cursor_ref refs' = Some i \<and> i = last acc \<and> sha \<in> (fst \<circ> snd) ` set xs
          \<and> read_cursor text_of (read_state (honest_listing refs' cursor_ref) (\<lambda>_. True) cursor_ref) = Inr (Some (i, JStr sha))))
     \<and> (acc = [] \<longrightarrow> ref_tip cursor_ref refs' = ref_tip cursor_ref refs)"
proof -
  have anc: "tip_ancestry refs' = rev acc @ tip_ancestry refs" using assms by (rule advances_ancestry)
  have hd_anc: "ref_tip cursor_ref r = (if tip_ancestry r = [] then None else Some (hd (tip_ancestry r)))" for r
    by (auto simp: tip_ancestry_def ancestry_unfold split: option.split)
  have "\<exists>i sha. ref_tip cursor_ref refs' = Some i \<and> i = last acc \<and> sha \<in> (fst \<circ> snd) ` set xs
          \<and> read_cursor text_of (read_state (honest_listing refs' cursor_ref) (\<lambda>_. True) cursor_ref) = Inr (Some (i, JStr sha))"
    if ne: "acc \<noteq> []"
  proof -
    have tip: "ref_tip cursor_ref refs' = Some (last acc)" using ne anc by (simp add: hd_anc [of refs'] hd_rev)
    obtain sha where sha: "is_sha sha" "oid_message (last acc) = Some (JObj (cursor_payload sha))" "sha \<in> (fst \<circ> snd) ` set xs"
      using advances_values [OF assms last_in_set [OF ne]] by blast
    have "read_state (honest_listing refs' cursor_ref) (\<lambda>_. True) cursor_ref = Inr (Some (last acc, cursor_payload sha))"
      using tip sha(2) by (simp add: read_honest ref_tip_def)
    then show ?thesis using tip sha
      by (auto simp: read_cursor_def cursor_text_def cursor_payload_def jget0_def)
  qed
  moreover have "ref_tip cursor_ref refs' = ref_tip cursor_ref refs" if "acc = []"
    using anc that unfolding hd_anc [of refs'] hd_anc [of refs] by simp
  ultimately show ?thesis using anc by blast
qed

section \<open>Concrete runs\<close>

definition sha_a :: string where
  "sha_a = replicate 40 (CHR ''a'')"

lemma is_sha_a [simp]: "is_sha sha_a"
  by (simp add: is_sha_def sha_a_def is_digit_def numeral_eq_Suc)

text \<open>Worker \<open>a\<close> takes the free lease \<open>k\<close> and looks at it again for a check.\<close>

abbreviation lease_a :: "bool \<Rightarrow> lease" where
  "lease_a acq \<equiv> \<lparr>ls_key = ''k'', ls_ttl = 60, ls_owner = ''a'', ls_stop = False, ls_lost = False, ls_acquired = acq\<rparr>"

abbreviation commit_a :: oid where
  "commit_a \<equiv> Oid None (Some (JObj (lease_payload ''k'' ''a'' 60 0))) 0"

lemma acquired_run:
  obtains w where "lease_run ''k'' 60 w" and "w_point w ''a'' = Settling Acquire None (Some commit_a) PushOk"
    and "w_lease w ''a'' = lease_a False" and "w_now w = 0" and "w_refs w = [(lease_ref ''k'', commit_a)]"
proof -
  let ?w0 = "start_world ''k'' 60 [] 0"
  let ?w1 = "?w0\<lparr>w_lease := (w_lease ?w0)(''a'' := started Acquire (w_lease ?w0 ''a'')),
                w_point := (w_point ?w0)(''a'' := Deciding Acquire (Inr None))\<rparr>"
  have 1: "lease_step ''k'' ?w0 (Some (''a'', Acquire, None)) ?w1"
    by (rule Look) (simp_all add: start_world_def may_start_def possible_view_def quiet_view)
  let ?w2 = "?w1\<lparr>w_point := (w_point ?w1)(''a'' := Pushing Acquire None (new_commit None (Some (lease_payload ''k'' ''a'' 60 0)) (now_int (w_now ?w1))))\<rparr>"
  have 2: "lease_step ''k'' ?w1 (Some (''a'', Acquire, None)) ?w2"
    by (rule Commit [where view = "Inr None"])
      (simp_all add: start_world_def decide_def acquire_decision_def started_def)
  let ?w3 = "?w2\<lparr>w_refs := (if True then push_ref (lease_ref ''k'') None (Some commit_a) (w_refs ?w2) else w_refs ?w2),
                w_point := (w_point ?w2)(''a'' := Settling Acquire None (Some commit_a) PushOk)\<rparr>"
  have 3: "lease_step ''k'' ?w2 (Some (''a'', Acquire, None)) ?w3"
    by (rule Push) (simp_all add: start_world_def new_commit_def now_int_def)
  have "lease_run ''k'' 60 ?w3"
    using 1 2 3 lease_run.intros by blast
  then show thesis by (rule that) (simp_all add: start_world_def started_def push_ref_def)
qed

lemma checked_run:
  obtains w w' where "lease_run ''k'' 60 w" and "lease_step ''k'' w (Some (''a'', Require, Some (Inr True))) w'"
proof -
  obtain w where run: "lease_run ''k'' 60 w" and w: "w_point w ''a'' = Settling Acquire None (Some commit_a) PushOk"
    "w_lease w ''a'' = lease_a False" "w_now w = 0" "w_refs w = [(lease_ref ''k'', commit_a)]"
    by (rule acquired_run)
  let ?w1 = "w\<lparr>w_lease := (w_lease w)(''a'' := lease_a True), w_point := (w_point w)(''a'' := Ready)\<rparr>"
  have 1: "lease_step ''k'' w (Some (''a'', Acquire, Some (Inr True))) ?w1"
    by (rule Settle [OF w(1), of "ListFailed []"]) (simp_all add: w(2) finish_op_def acquire_end_def cas_result_def)
  let ?v = "Inr (Some (commit_a, ''a'', 60))"
  let ?w2 = "?w1\<lparr>w_lease := (w_lease ?w1)(''a'' := started Require (w_lease ?w1 ''a'')),
                w_point := (w_point ?w1)(''a'' := Deciding Require ?v)\<rparr>"
  have 2: "lease_step ''k'' ?w1 (Some (''a'', Require, None)) ?w2"
    by (rule Look) (simp_all add: may_start_def possible_view_def quiet_view w)
  let ?w3 = "?w2\<lparr>w_lease := (w_lease ?w2)(''a'' := lease_a True), w_point := (w_point ?w2)(''a'' := Ready)\<rparr>"
  have 3: "lease_step ''k'' ?w2 (Some (''a'', Require, Some (Inr True))) ?w3"
    by (rule Stop [where view = ?v])
      (simp_all add: w started_def decide_def require_def mine_and_live_def)
  have "lease_run ''k'' 60 ?w2" using run 1 2 lease_run.intros by blast
  then show thesis using 3 by (rule that)
qed

theorem lease_refines_lock_witness:
  "\<exists>w w'. lock_step (abs_lock ''k'' w) (Some ''a'') (abs_lock ''k'' w')"
proof -
  obtain w w' where "lease_run ''k'' 60 w" and "lease_step ''k'' w (Some (''a'', Require, Some (Inr True))) w'"
    by (rule checked_run)
  from lease_refines_lock [OF this] show ?thesis by auto
qed

theorem require_is_current_witness:
  "\<exists>w i e. shared_tip ''k'' w = Some i \<and> held ''k'' (Some i) = Some (''a'', e) \<and> of_int e > w_now w"
proof -
  obtain w w' where "lease_run ''k'' 60 w" and "lease_step ''k'' w (Some (''a'', Require, Some (Inr True))) w'"
    by (rule checked_run)
  from require_is_current [OF this] show ?thesis by blast
qed

theorem lease_lifecycle_witness:
  "\<exists>refs' l'. quiet_op Acquire 0 ([], lease_a False) = (Inr True, refs', l')
     \<and> quiet_op Acquire 59 (refs', (lease_a False)\<lparr>ls_owner := ''b''\<rparr>) = (Inr False, refs', (lease_a False)\<lparr>ls_owner := ''b''\<rparr>)"
  using lease_lifecycle [of "[]" "lease_a False" 0 "(lease_a False)\<lparr>ls_owner := ''b''\<rparr>" 0 0] by auto

theorem cursor_keeps_history_witness:
  "\<exists>refs' i. advances [(None, sha_a, 7), (None, sha_a, 9)] [] = (refs', [i])
     \<and> read_cursor (\<lambda>_. []) (read_state (honest_listing refs' cursor_ref) (\<lambda>_. True) cursor_ref) = Inr (Some (i, JStr sha_a))"
proof -
  obtain refs' i where "advances [(None, sha_a, 7), (None, sha_a, 9)] [] = (refs', [i])"
    by (simp add: advance_commit_def new_commit_def ref_tip_def ref_swap_def)
  with cursor_keeps_history [OF this, of "\<lambda>_. []"] show ?thesis by auto
qed

end
