(* ===== verification/OverlapScan.thy ===== *)
theory OverlapScan
  imports OverlapState
begin

text \<open>
  The overlap scanner (\<open>overlaps.py\<close>): which batch of Mathlib commits comes next, what an investigation
  must contain to count, how its findings are published as issues without duplicates, and how a scan
  puts these together under the lease. Git, the agent and GitHub are parameters or scripts of
  answers; the files of retained runs and the publication receipts are part of the state.
\<close>

section \<open>The next batch\<close>

text \<open>What the scanner asks of git about Mathlib's history.\<close>

record mathlib =
  ml_on_master :: "string \<Rightarrow> bool"
  ml_ancestor :: "string \<Rightarrow> string \<Rightarrow> bool"
  ml_first_parents :: "string \<Rightarrow> string \<Rightarrow> string list"
  ml_parent :: "string \<Rightarrow> string"

datatype scan_error =
    PinNotOnMaster
  | CursorNotAncestor
  | CursorOffFirstParents
  | NotAPositiveInteger
  | NoSharedWrite
  | NoPublicationRights
  | Uninitialized
  | Incomplete
  | UnreadableResult
  | DifferentBatch
  | UnaccountedCommit
  | MalformedFindings
  | LacksChangeCommit
  | Unclassified
  | Unhashable
  | MissingDeclarations
  | MissingText
  | InvalidSize
  | LacksEvidence
  | MalformedReceipt
  | CannotReconcile
  | UnconfirmedIssue
  | PublicationFailed
  | LeaseGone
  | CursorMoved

definition history_range_errors :: "scan_error list" where
  "history_range_errors = [PinNotOnMaster, CursorNotAncestor, CursorOffFirstParents]"

definition select_batch ::
  "mathlib \<Rightarrow> string \<Rightarrow> string \<Rightarrow> int \<Rightarrow> scan_error + string list" where
  "select_batch g cursor pin count =
     (if \<not> ml_on_master g pin then Inl PinNotOnMaster
      else if \<not> ml_ancestor g cursor pin then Inl CursorNotAncestor
      else (let commits = ml_first_parents g cursor pin
            in if commits \<noteq> [] \<and> ml_parent g (hd commits) \<noteq> cursor then Inl CursorOffFirstParents
               else if count < 1 then Inl NotAPositiveInteger
               else Inr (take (nat count) commits)))"

section \<open>Findings\<close>

record finding =
  fd_commit :: string
  fd_mathlib :: "string list"
  fd_tauceti :: "string list"
  fd_title :: string
  fd_body :: string

record packet =
  pk_from :: string
  pk_through :: string
  pk_pin :: string
  pk_commits :: "string list"

definition newline :: char where
  "newline = char_of (10 :: nat)"

fun infix_of :: "string \<Rightarrow> string \<Rightarrow> bool" where
  "infix_of p [] = (p = [])"
| "infix_of p (c # s) = (starts_with p (c # s) \<or> infix_of p s)"

definition name_ok :: "json \<Rightarrow> bool" where
  "name_ok v = (case v of JStr s \<Rightarrow> py_strip s \<noteq> [] \<and> newline \<notin> set s | _ \<Rightarrow> False)"

definition declarations :: "jdict \<Rightarrow> string \<Rightarrow> string list option" where
  "declarations d key =
     (case jget0 d key of
        JArr xs \<Rightarrow> if xs \<noteq> [] \<and> list_all name_ok xs
                   then Some (map (\<lambda>v. case v of JStr s \<Rightarrow> s | _ \<Rightarrow> []) xs) else None
      | _ \<Rightarrow> None)"

definition issue_text :: "jdict \<Rightarrow> string \<Rightarrow> string option" where
  "issue_text d key =
     (case jget0 d key of JStr s \<Rightarrow> if py_strip s \<noteq> [] then Some s else None | _ \<Rightarrow> None)"

definition classifications :: "string list" where
  "classifications = [''exact'', ''generalization'', ''equivalent'', ''partial'']"

text \<open>
  \<open>x not in {...}\<close> hashes \<open>x\<close>, so a classification that is a list or an object raises a \<open>TypeError\<close> instead of
  being reported as unclassified.
\<close>

definition classified :: "json \<Rightarrow> scan_error + bool" where
  "classified v =
     (case v of
        JStr s \<Rightarrow> Inr (s \<in> set classifications)
      | JArr _ \<Rightarrow> Inl Unhashable
      | JObj _ \<Rightarrow> Inl Unhashable
      | _ \<Rightarrow> Inr False)"

definition validate_finding :: "string list \<Rightarrow> json \<Rightarrow> scan_error + finding" where
  "validate_finding examined v =
     (case v of
        JObj d \<Rightarrow>
          (case jget0 d ''change_commit'' of
             JStr commit \<Rightarrow>
               if commit \<notin> set examined then Inl LacksChangeCommit
               else ebind (classified (jget0 d ''classification'')) (\<lambda>ok.
                 if \<not> ok then Inl Unclassified
                 else case (declarations d ''mathlib_declarations'', declarations d ''tauceti_declarations'') of
                        (Some ms, Some ts) \<Rightarrow>
                          (case (issue_text d ''title'', issue_text d ''body'') of
                             (Some title, Some body) \<Rightarrow>
                               if newline \<in> set title \<or> length title > 200 \<or> length body > 30000 then Inl InvalidSize
                               else if \<not> infix_of ''Preserve:'' body \<or> \<not> infix_of ''https://github.com/'' body
                               then Inl LacksEvidence
                               else Inr \<lparr>fd_commit = commit, fd_mathlib = ms, fd_tauceti = ts,
                                         fd_title = title, fd_body = body\<rparr>
                           | _ \<Rightarrow> Inl MissingText)
                      | _ \<Rightarrow> Inl MissingDeclarations)
           | _ \<Rightarrow> Inl LacksChangeCommit)
      | _ \<Rightarrow> Inl LacksChangeCommit)"

fun validate_findings :: "string list \<Rightarrow> json list \<Rightarrow> scan_error + finding list" where
  "validate_findings examined [] = Inr []"
| "validate_findings examined (v # vs) =
     ebind (validate_finding examined v) (\<lambda>f.
       ebind (validate_findings examined vs) (\<lambda>fs. Inr (f # fs)))"

definition validate_scan :: "json \<Rightarrow> packet \<Rightarrow> scan_error + finding list" where
  "validate_scan result batch =
     (case result of
        JObj d \<Rightarrow>
          if jget0 d ''complete'' \<noteq> JBool True then Inl Incomplete
          else if jget0 d ''from'' \<noteq> JStr (pk_from batch) \<or> jget0 d ''through'' \<noteq> JStr (pk_through batch)
          then Inl DifferentBatch
          else if jget0 d ''examined_commits'' \<noteq> JArr (map JStr (pk_commits batch)) then Inl UnaccountedCommit
          else (case jget0 d ''findings'' of
                  JArr vs \<Rightarrow> validate_findings (pk_commits batch) vs
                | _ \<Rightarrow> Inl MalformedFindings)
      | _ \<Rightarrow> Inl Incomplete)"

section \<open>Publication\<close>

text \<open>\<open>issue_id\<close>: \<open>digest\<close> is the SHA-256 of the JSON text of the three fields, in hexadecimal.\<close>

definition issue_id :: "(string \<times> string list \<times> string list \<Rightarrow> string) \<Rightarrow> finding \<Rightarrow> string" where
  "issue_id digest f = digest (fd_commit f, sort (fd_mathlib f), sort (fd_tauceti f))"

definition marker_open :: string where
  "marker_open = ''<!--tauceti-mathlib-overlap:v1 ''"

definition marker_close :: string where
  "marker_close = ''-->''"

definition marker :: "string \<Rightarrow> string" where
  "marker fingerprint = marker_open @ fingerprint @ marker_close"

definition is_hex :: "char \<Rightarrow> bool" where
  "is_hex c \<longleftrightarrow> is_digit c \<or> (let n = of_char c :: nat in 97 \<le> n \<and> n \<le> 102)"

text \<open>
  \<open>MARKER.finditer\<close>: a marker begins with the only \<open><\<close> it holds, so two matches never overlap and every
  position can be tried.
\<close>

definition marker_here :: "string \<Rightarrow> string option" where
  "marker_here s =
     (let fp = take 64 (drop (length marker_open) s)
      in if starts_with (marker fp) s \<and> length fp = 64 \<and> list_all is_hex fp then Some fp else None)"

fun find_markers :: "string \<Rightarrow> string list" where
  "find_markers [] = []"
| "find_markers (c # s) =
     (case marker_here (c # s) of None \<Rightarrow> [] | Some fp \<Rightarrow> [fp]) @ find_markers s"

record issue =
  is_number :: int
  is_labels :: "string list"
  is_text :: string

definition overlap_label :: string where
  "overlap_label = ''mathlib-overlap''"

definition confirm_publication :: "issue \<Rightarrow> string \<Rightarrow> scan_error + int" where
  "confirm_publication row fingerprint =
     (if is_number row \<le> 0 then Inl UnconfirmedIssue
      else if overlap_label \<notin> set (is_labels row) \<or> \<not> infix_of (marker fingerprint) (is_text row)
      then Inl UnconfirmedIssue
      else Inr (is_number row))"

text \<open>
  How GitHub answers one \<open>POST\<close> of an issue: whether it created it, whether it kept the label, and
  whether the answer could be read.
\<close>

record post =
  po_applied :: bool
  po_labelled :: bool
  po_readable :: bool

record publication =
  pb_issues :: "issue list"
  pb_receipts :: "(string \<times> jdict) list"
  pb_sent :: "(string \<times> post) list"

definition fresh_number :: "issue list \<Rightarrow> int" where
  "fresh_number rows = 1 + Max (insert 0 (is_number ` set rows))"

definition created_issue :: "post \<Rightarrow> string \<Rightarrow> finding \<Rightarrow> issue list \<Rightarrow> issue" where
  "created_issue p fingerprint f rows =
     \<lparr>is_number = fresh_number rows, is_labels = (if po_labelled p then [overlap_label] else []),
      is_text = fd_body f @ [newline, newline] @ marker fingerprint @ [newline]\<rparr>"

definition receipt :: "string \<Rightarrow> int \<Rightarrow> jdict" where
  "receipt fingerprint number =
     [(''number'', JNum (PInt number)), (''fingerprint'', JStr fingerprint)]"

definition receipt_number :: "string \<Rightarrow> jdict \<Rightarrow> int option" where
  "receipt_number fingerprint saved =
     (if jget saved ''fingerprint'' \<noteq> Some (JStr fingerprint) then None
      else (case jget saved ''number'' of
              Some (JNum (PInt n)) \<Rightarrow> if n \<le> 0 then None else Some n
            | _ \<Rightarrow> None))"

text \<open>The state after one \<open>POST\<close>; a readable answer leaves a receipt before anything else is checked.\<close>

definition after_post :: "post \<Rightarrow> string \<Rightarrow> finding \<Rightarrow> publication \<Rightarrow> publication" where
  "after_post p fingerprint f s =
     (let row = created_issue p fingerprint f (pb_issues s)
      in \<lparr>pb_issues = (if po_applied p then pb_issues s @ [row] else pb_issues s),
          pb_receipts = (if po_applied p \<and> po_readable p
                         then dict_set fingerprint (receipt fingerprint (is_number row)) (pb_receipts s)
                         else pb_receipts s),
          pb_sent = pb_sent s @ [(fingerprint, p)]\<rparr>)"

text \<open>
  The loop of \<open>publish\<close>. \<open>known\<close> maps the fingerprints of the inventory to issue numbers; the script gives,
  for each finding that reaches it, whether \<open>lease.require\<close> passes and how the \<open>POST\<close> is answered.
\<close>

fun publish_loop ::
  "(finding \<Rightarrow> string) \<Rightarrow> (string \<times> int) list \<Rightarrow> finding list \<Rightarrow> (bool \<times> post) list \<Rightarrow> publication
   \<Rightarrow> (scan_error + int list) \<times> publication" where
  "publish_loop ident known [] script s = (Inr [], s)"
| "publish_loop ident known (f # fs) script s =
     (let fp = ident f
      in case map_of known fp of
           Some n \<Rightarrow> (let (r, s') = publish_loop ident known fs script s in (ebind r (\<lambda>ns. Inr (n # ns)), s'))
         | None \<Rightarrow>
             (case map_of (pb_receipts s) fp of
                Some saved \<Rightarrow>
                  (case receipt_number fp saved of
                     None \<Rightarrow> (Inl MalformedReceipt, s)
                   | Some n \<Rightarrow>
                       (case find (\<lambda>row. is_number row = n) (pb_issues s) of
                          None \<Rightarrow> (Inl CannotReconcile, s)
                        | Some row \<Rightarrow>
                            (case confirm_publication row fp of
                               Inl e \<Rightarrow> (Inl e, s)
                             | Inr m \<Rightarrow>
                                 (let (r, s') = publish_loop ident ((fp, m) # known) fs script s
                                  in (ebind r (\<lambda>ns. Inr (m # ns)), s')))))
              | None \<Rightarrow>
                  (case script of
                     [] \<Rightarrow> (Inl LeaseGone, s)
                   | (held, p) # script' \<Rightarrow>
                       if \<not> held then (Inl LeaseGone, s)
                       else (let s1 = after_post p fp f s; row = created_issue p fp f (pb_issues s)
                             in if \<not> po_applied p \<or> \<not> po_readable p then (Inl PublicationFailed, s1)
                                else (case confirm_publication row fp of
                                        Inl e \<Rightarrow> (Inl e, s1)
                                      | Inr m \<Rightarrow>
                                          (let (r, s') = publish_loop ident ((fp, m) # known) fs script' s1
                                           in (ebind r (\<lambda>ns. Inr (m # ns)), s')))))))"

text \<open>The inventory of a fresh read: every labelled issue, later rows of one fingerprint winning.\<close>

definition known_issues :: "issue list \<Rightarrow> (string \<times> int) list" where
  "known_issues rows =
     rev (concat (map (\<lambda>row. map (\<lambda>fp. (fp, is_number row)) (find_markers (is_text row)))
                      (filter (\<lambda>row. overlap_label \<in> set (is_labels row)) rows)))"

definition publish ::
  "(finding \<Rightarrow> string) \<Rightarrow> finding list \<Rightarrow> (bool \<times> post) list \<Rightarrow> publication
   \<Rightarrow> (scan_error + int list) \<times> publication" where
  "publish ident findings script s =
     (if findings = [] then (Inr [], s)
      else publish_loop ident (known_issues (pb_issues s)) findings script s)"

section \<open>The scan\<close>

text \<open>
  A retained run: its packet, if the file is readable, and its result. \<open>usable_run\<close> is the body of the loop
  over retained runs: \<open>Inr None\<close> is \<open>continue\<close>; an exception other than the caught ones is \<open>Inl\<close>.
\<close>

type_synonym retained = "packet option \<times> json option"

definition usable_run ::
  "mathlib \<Rightarrow> string \<Rightarrow> string \<Rightarrow> retained \<Rightarrow> scan_error + (packet \<times> finding list) option" where
  "usable_run g cursor pin run =
     (case run of
        (Some pk, result) \<Rightarrow>
          if pk_from pk \<noteq> cursor \<or> pk_pin pk \<noteq> pin then Inr None
          else (case select_batch g cursor pin (int (length (pk_commits pk))) of
                  Inl _ \<Rightarrow> Inr None
                | Inr commits \<Rightarrow>
                    if commits \<noteq> pk_commits pk then Inr None
                    else (case result of
                            None \<Rightarrow> Inr None
                          | Some v \<Rightarrow>
                              (case validate_scan v pk of
                                 Inr fs \<Rightarrow> Inr (Some (pk, fs))
                               | Inl Unhashable \<Rightarrow> Inl Unhashable
                               | Inl _ \<Rightarrow> Inr None)))
      | (None, _) \<Rightarrow> Inr None)"

fun first_usable ::
  "mathlib \<Rightarrow> string \<Rightarrow> string \<Rightarrow> retained list \<Rightarrow> scan_error + (packet \<times> finding list) option" where
  "first_usable g cursor pin [] = Inr None"
| "first_usable g cursor pin (run # runs) =
     ebind (usable_run g cursor pin run) (\<lambda>u.
       case u of Some x \<Rightarrow> Inr (Some x) | None \<Rightarrow> first_usable g cursor pin runs)"

text \<open>What a scan has to publish and where the cursor goes then, or why there is nothing to publish.\<close>

datatype scan_plan = NothingToScan | AgentFailed int | Publish "finding list" string

record scan_env =
  se_shared :: bool
  se_rights :: bool
  se_lease :: bool
  se_cursor :: string
  se_pin :: string
  se_batch :: int
  se_only_scan :: bool
  se_runs :: "retained list"
  se_agent :: "packet \<Rightarrow> int \<times> json option"

definition make_packet :: "string \<Rightarrow> string \<Rightarrow> string list \<Rightarrow> packet" where
  "make_packet cursor pin commits =
     \<lparr>pk_from = cursor, pk_through = last commits, pk_pin = pin, pk_commits = commits\<rparr>"

definition investigate :: "scan_env \<Rightarrow> string list \<Rightarrow> scan_error + scan_plan" where
  "investigate x commits =
     (let pk = make_packet (se_cursor x) (se_pin x) commits; (rc, result) = se_agent x pk
      in if rc \<noteq> 0 then Inr (AgentFailed rc)
         else case result of
             None \<Rightarrow> Inl UnreadableResult
           | Some v \<Rightarrow> ebind (validate_scan v pk) (\<lambda>fs. Inr (Publish fs (last commits))))"

definition scan_plan_of :: "mathlib \<Rightarrow> scan_env \<Rightarrow> scan_error + scan_plan" where
  "scan_plan_of g x =
     (if \<not> se_shared x then Inl NoSharedWrite
      else if \<not> se_rights x then Inl NoPublicationRights
      else if \<not> se_lease x then Inr NothingToScan
      else if se_cursor x = [] then Inl Uninitialized
      else case select_batch g (se_cursor x) (se_pin x) (se_batch x) of
             Inl e \<Rightarrow> if e \<in> set history_range_errors \<and> \<not> se_only_scan x then Inr NothingToScan else Inl e
           | Inr commits \<Rightarrow>
               if commits = [] then Inr NothingToScan
               else ebind (first_usable g (se_cursor x) (se_pin x) (se_runs x)) (\<lambda>u.
                 case u of Some (pk, fs) \<Rightarrow> Inr (Publish fs (pk_through pk)) | None \<Rightarrow> investigate x commits))"

text \<open>
  \<open>do_scan\<close>: the findings are published, the lease is required, and the cursor moves from the value read
  under the lease; \<open>Some rc\<close> is the exit code, \<open>None\<close> no work.
\<close>

definition do_scan ::
  "mathlib \<Rightarrow> (finding \<Rightarrow> string) \<Rightarrow> scan_env \<Rightarrow> (bool \<times> post) list \<Rightarrow> bool \<Rightarrow> (string \<Rightarrow> bool) \<Rightarrow> publication
   \<Rightarrow> (scan_error + int option) \<times> publication \<times> string option" where
  "do_scan g ident x script held advance s =
     (case scan_plan_of g x of
        Inl e \<Rightarrow> (Inl e, s, None)
      | Inr NothingToScan \<Rightarrow> (Inr None, s, None)
      | Inr (AgentFailed rc) \<Rightarrow> (Inr (Some rc), s, None)
      | Inr (Publish fs target) \<Rightarrow>
          (let (r, s') = publish ident fs script s
           in case r of
                Inl e \<Rightarrow> (Inl e, s', None)
              | Inr numbers \<Rightarrow>
                  if \<not> held then (Inl LeaseGone, s', None)
                  else if \<not> advance target then (Inl CursorMoved, s', None)
                  else (Inr (Some 0), s', Some target)))"

section \<open>The adoption queue\<close>

definition holds_fix :: "string list" where
  "holds_fix = [''keep'', ''hold'', ''wip'', ''human'', ''on-hold'', ''do-not-close'']"

record issue_row =
  ir_number :: int
  ir_open :: bool
  ir_created :: string
  ir_labels :: "string list"
  ir_body :: string

definition adoptable :: "string list \<Rightarrow> issue_row \<Rightarrow> bool" where
  "adoptable in_flight row \<longleftrightarrow>
     ir_open row \<and> find_markers (ir_body row) \<noteq> []
     \<and> \<not> (\<exists>l\<in>set (ir_labels row). py_lower l \<in> set holds_fix)
     \<and> hd (find_markers (ir_body row)) \<notin> set in_flight"

text \<open>The numbers of the issues that \<open>survey_overlaps\<close> queues, and whether they are actionable.\<close>

definition overlap_fix_queue :: "string list \<Rightarrow> nat \<Rightarrow> nat \<Rightarrow> issue_row list \<Rightarrow> (int \<times> bool) list" where
  "overlap_fix_queue bodies mine limit rows =
     map (\<lambda>row. (ir_number row, mine < limit))
         (filter (adoptable (concat (map find_markers bodies)))
                 (sort_key ir_created (sort_key ir_number rows)))"

end
