(* ===== verification/ScanLaws.thy ===== *)
theory ScanLaws
  imports OverlapScan
begin

text \<open>
  What the overlap scanner guarantees: no commit is skipped, only accounted commits move the cursor, every
  commit is reached in the end, and a finding becomes at most one issue.
\<close>

section \<open>Batches\<close>

lemma select_batchE:
  assumes "select_batch g cursor pin n = Inr commits"
  shows "commits = take (nat n) (ml_first_parents g cursor pin) \<and> 1 \<le> n
    \<and> (ml_first_parents g cursor pin \<noteq> [] \<longrightarrow> commits \<noteq> [] \<and> ml_parent g (hd commits) = cursor)"
proof -
  from assms have c: "commits = take (nat n) (ml_first_parents g cursor pin)" and n: "1 \<le> n"
    and p: "ml_first_parents g cursor pin \<noteq> [] \<longrightarrow> ml_parent g (hd (ml_first_parents g cursor pin)) = cursor"
    by (auto simp: select_batch_def Let_def split: if_splits)
  from n have "0 < nat n" by simp
  with c p n show ?thesis by (cases "ml_first_parents g cursor pin"; cases "nat n") auto
qed

lemma validate_finding_commit: "validate_finding examined v = Inr f \<Longrightarrow> fd_commit f \<in> set examined"
  by (auto simp: validate_finding_def ebind_Inr_iff split: json.splits if_splits option.splits)

lemma validate_findings_commits:
  "validate_findings examined vs = Inr fs \<Longrightarrow> list_all (\<lambda>f. fd_commit f \<in> set examined) fs"
  by (induction vs arbitrary: fs) (auto simp: ebind_Inr_iff validate_finding_commit)

lemma validate_scanE:
  assumes "validate_scan v pk = Inr fs"
  shows "\<exists>d. v = JObj d \<and> jget0 d ''examined_commits'' = JArr (map JStr (pk_commits pk))
     \<and> list_all (\<lambda>f. fd_commit f \<in> set (pk_commits pk)) fs"
  using assms validate_findings_commits
  by (auto simp: validate_scan_def split: json.splits if_splits)

definition packet_wf :: "packet \<Rightarrow> bool" where
  "packet_wf pk \<longleftrightarrow> pk_commits pk \<noteq> [] \<longrightarrow> pk_through pk = last (pk_commits pk)"

lemma usable_runE:
  assumes "usable_run g cursor pin run = Inr (Some (pk, fs))"
  shows "fst run = Some pk \<and> select_batch g cursor pin (int (length (pk_commits pk))) = Inr (pk_commits pk)
     \<and> (\<exists>v. validate_scan v pk = Inr fs)"
  using assms by (auto simp: usable_run_def split: prod.splits option.splits if_splits sum.splits scan_error.splits)

lemma first_usableE:
  "first_usable g cursor pin runs = Inr (Some (pk, fs)) \<Longrightarrow>
     \<exists>run\<in>set runs. usable_run g cursor pin run = Inr (Some (pk, fs))"
  by (induction runs) (auto simp: ebind_Inr_iff split: option.splits)

lemma scan_planE:
  assumes "scan_plan_of g x = Inr (Publish fs target)"
    and "\<forall>pk r. (Some pk, r) \<in> set (se_runs x) \<longrightarrow> packet_wf pk"
  shows "\<exists>commits n. select_batch g (se_cursor x) (se_pin x) n = Inr commits \<and> commits \<noteq> []
     \<and> target = last commits \<and> list_all (\<lambda>f. fd_commit f \<in> set commits) fs
     \<and> (\<exists>d. jget0 d ''examined_commits'' = JArr (map JStr commits))
     \<and> se_lease x \<and> se_shared x \<and> se_rights x"
proof -
  from assms(1) obtain commits where sel: "select_batch g (se_cursor x) (se_pin x) (se_batch x) = Inr commits"
    and ne: "commits \<noteq> []" and g: "se_lease x" "se_shared x" "se_rights x"
    and rest: "ebind (first_usable g (se_cursor x) (se_pin x) (se_runs x)) (\<lambda>u.
                 case u of Some (pk, fs) \<Rightarrow> Inr (Publish fs (pk_through pk)) | None \<Rightarrow> investigate x commits)
               = Inr (Publish fs target)"
    by (auto simp: scan_plan_of_def split: if_splits sum.splits)
  have fp: "ml_first_parents g (se_cursor x) (se_pin x) \<noteq> []"
    using select_batchE [OF sel] ne by auto
  from rest obtain u where u: "first_usable g (se_cursor x) (se_pin x) (se_runs x) = Inr u"
    and k: "(case u of Some (pk, fs) \<Rightarrow> Inr (Publish fs (pk_through pk)) | None \<Rightarrow> investigate x commits)
            = Inr (Publish fs target)"
    by auto
  show ?thesis
  proof (cases u)
    case None
    with k obtain v where "validate_scan v (make_packet (se_cursor x) (se_pin x) commits) = Inr fs" and "target = last commits"
      by (auto simp: investigate_def Let_def ebind_Inr_iff split: prod.splits if_splits option.splits)
    with validate_scanE sel ne g show ?thesis by (fastforce simp: make_packet_def)
  next
    case (Some pf)
    obtain pk where pf: "pf = (pk, fs)" and t: "target = pk_through pk" using k Some by (cases pf) auto
    obtain run where run: "run \<in> set (se_runs x)" and us: "usable_run g (se_cursor x) (se_pin x) run = Inr (Some (pk, fs))"
      using first_usableE u Some pf by blast
    note e = usable_runE [OF us]
    have wf: "packet_wf pk" using assms(2) run e by (cases run) auto
    have "pk_commits pk \<noteq> []" using select_batchE e fp by blast
    with wf t have "target = last (pk_commits pk)" by (simp add: packet_wf_def)
    then show ?thesis using e validate_scanE g \<open>pk_commits pk \<noteq> []\<close> by blast
  qed
qed


section \<open>Catching up\<close>

text \<open>
  What git documents of a linear first-parent history, oldest first: ancestors are the earlier commits, and
  \<open>rev-list --first-parent --reverse c..p\<close> lists what lies after \<open>c\<close> up to \<open>p\<close>.
\<close>

definition linear_history :: "string list \<Rightarrow> mathlib \<Rightarrow> bool" where
  "linear_history line g \<longleftrightarrow>
     list_all (\<lambda>c. ml_on_master g c \<and> c \<noteq> []) line
     \<and> list_all (\<lambda>i. list_all (\<lambda>j. i \<le> j \<longrightarrow> ml_ancestor g (line ! i) (line ! j)
            \<and> ml_first_parents g (line ! i) (line ! j) = drop (Suc i) (take (Suc j) line)) [0..<length line]) [0..<length line]
     \<and> list_all (\<lambda>i. ml_parent g (line ! Suc i) = line ! i) [0..<length line - 1]"

lemma linear_historyD:
  assumes "linear_history line g" and "i \<le> j" and "j < length line"
  shows "ml_on_master g (line ! j)" "ml_ancestor g (line ! i) (line ! j)" "line ! i \<noteq> []"
    "ml_first_parents g (line ! i) (line ! j) = drop (Suc i) (take (Suc j) line)"
    "i < j \<Longrightarrow> ml_parent g (line ! Suc i) = line ! i"
  using assms by (auto simp: linear_history_def list_all_iff)

lemma linear_batch:
  assumes h: "linear_history line g" and ij: "i \<le> j" "j < length line" and n: "1 \<le> n"
  shows "select_batch g (line ! i) (line ! j) n = Inr (take (nat n) (drop (Suc i) (take (Suc j) line)))"
proof -
  have "hd (drop (Suc i) (take (Suc j) line)) = line ! Suc i" if "i < j"
    using that ij by (simp add: hd_drop_conv_nth)
  moreover have "drop (Suc i) (take (Suc j) line) \<noteq> [] \<Longrightarrow> i < j" using ij by simp
  ultimately have "drop (Suc i) (take (Suc j) line) \<noteq> [] \<Longrightarrow> ml_parent g (hd (drop (Suc i) (take (Suc j) line))) = line ! i"
    using linear_historyD(5) [OF h ij] by simp
  then show ?thesis using linear_historyD(1,2,4) [OF h ij] n
    unfolding select_batch_def Let_def by auto
qed

lemma last_batch:
  assumes "i < j" and "j < length line" and "0 < m"
  shows "last (take m (drop (Suc i) (take (Suc j) line))) = line ! min j (i + m)"
    and "take m (drop (Suc i) (take (Suc j) line)) \<noteq> []"
proof -
  let ?b = "take m (drop (Suc i) (take (Suc j) line))"
  show ne: "?b \<noteq> []" using assms by simp
  have len: "length ?b = min m (j - i)" using assms by simp
  have "last ?b = ?b ! (length ?b - 1)" using ne by (simp add: last_conv_nth)
  also have "\<dots> = line ! (Suc i + (min m (j - i) - 1))" using assms len by simp
  also have "Suc i + (min m (j - i) - 1) = min j (i + m)" using assms by auto
  finally show "last ?b = line ! min j (i + m)" .
qed

text \<open>
  Rounds of scanning on a quiet server, with an agent that accounts for its packet and finds nothing; the
  cursor after \<open>k\<close> rounds.
\<close>

fun scan_rounds :: "mathlib \<Rightarrow> (finding \<Rightarrow> string) \<Rightarrow> scan_env \<Rightarrow> publication \<Rightarrow> nat \<Rightarrow> string" where
  "scan_rounds g ident x s 0 = se_cursor x"
| "scan_rounds g ident x s (Suc k) =
     (case do_scan g ident x [] True (\<lambda>_. True) s of
        (_, _, Some target) \<Rightarrow> scan_rounds g ident (x\<lparr>se_cursor := target\<rparr>) s k
      | _ \<Rightarrow> se_cursor x)"

definition accounts :: "scan_env \<Rightarrow> packet \<Rightarrow> bool" where
  "accounts x pk \<longleftrightarrow>
     (case se_agent x pk of (rc, Some v) \<Rightarrow> rc = 0 \<and> validate_scan v pk = Inr [] | _ \<Rightarrow> False)"

lemma scan_round:
  assumes h: "linear_history line g" and ij: "i \<le> j" "j < length line"
    and x: "se_shared x" "se_rights x" "se_lease x" "se_cursor x = line ! i" "se_pin x = line ! j" "se_runs x = []"
    and n: "1 \<le> se_batch x" and ok: "\<And>pk. accounts x pk"
  shows "do_scan g ident x [] True (\<lambda>_. True) s =
    (if i < j then (Inr (Some 0), s, Some (line ! min j (i + nat (se_batch x)))) else (Inr None, s, None))"
proof -
  let ?c = "take (nat (se_batch x)) (drop (Suc i) (take (Suc j) line))"
  note b = linear_batch [OF h ij n]
  have m: "0 < nat (se_batch x)" using n by simp
  show ?thesis
  proof (cases "i < j")
    case True
    note lb = last_batch [OF True ij(2) m]
    have "investigate x ?c = Inr (Publish [] (last ?c))"
      using ok [of "make_packet (se_cursor x) (se_pin x) ?c"]
      by (auto simp: investigate_def accounts_def Let_def split: prod.splits option.splits)
    then have "scan_plan_of g x = Inr (Publish [] (line ! min j (i + nat (se_batch x))))"
      using lb x linear_historyD(3) [OF h ij] by (simp add: scan_plan_of_def b)
    then show ?thesis using True by (simp add: do_scan_def publish_def)
  next
    case False
    then have "scan_plan_of g x = Inr NothingToScan"
      using x b ij linear_historyD(3) [OF h ij] by (simp add: scan_plan_of_def)
    then show ?thesis using False by (simp add: do_scan_def)
  qed
qed


section \<open>Publication\<close>

lemma starts_with_append [simp]: "starts_with p (p @ s)"
  by (simp add: starts_with_def)

lemma marker_here_marker:
  assumes "length fp = 64" and "list_all is_hex fp"
  shows "marker_here (marker fp @ ys) = Some fp"
proof -
  have "take 64 (drop (length marker_open) (marker fp @ ys)) = fp"
    using assms(1) by (simp add: marker_def)
  then show ?thesis using assms by (simp add: marker_here_def Let_def)
qed

lemma find_markers_marker:
  assumes "length fp = 64" and "list_all is_hex fp"
  shows "fp \<in> set (find_markers (xs @ marker fp @ ys))"
proof (induction xs)
  case Nil
  have "marker fp @ ys \<noteq> []" by (simp add: marker_def marker_open_def)
  then obtain c s where cs: "marker fp @ ys = c # s" by (cases "marker fp @ ys") auto
  with marker_here_marker [OF assms, of ys] have "marker_here (c # s) = Some fp" by simp
  then show ?case by (simp add: cs)
qed (auto split: option.split)

definition applied :: "(string \<times> post) list \<Rightarrow> string list" where
  "applied sent = map fst (filter (po_applied \<circ> snd) sent)"

definition listed :: "issue list \<Rightarrow> string set" where
  "listed rows = (\<Union>row\<in>{row \<in> set rows. overlap_label \<in> set (is_labels row)}. set (find_markers (is_text row)))"

lemma dom_known_issues: "fst ` set (known_issues rows) = listed rows"
  by (force simp: known_issues_def listed_def)

text \<open>A created issue that lost both its label and its answer leaves no trace the worker can find.\<close>

definition traceable :: "post \<Rightarrow> bool" where
  "traceable p \<longleftrightarrow> (po_applied p \<longrightarrow> po_labelled p \<or> po_readable p)"

definition published_once :: "string set \<Rightarrow> publication \<Rightarrow> bool" where
  "published_once old s \<longleftrightarrow>
     distinct (applied (pb_sent s)) \<and> set (applied (pb_sent s)) \<inter> old = {}
     \<and> old \<subseteq> listed (pb_issues s)
     \<and> set (applied (pb_sent s)) \<subseteq> listed (pb_issues s) \<union> fst ` set (pb_receipts s)"

lemma listed_append: "listed (rows @ [row]) = listed rows \<union> (if overlap_label \<in> set (is_labels row) then set (find_markers (is_text row)) else {})"
  by (auto simp: listed_def)

lemma published_after_post:
  assumes "published_once old s" and "fp \<notin> set (applied (pb_sent s)) \<union> old" and "traceable p"
    and hex: "length fp = 64" "list_all is_hex fp"
  shows "published_once old (after_post p fp f s)
    \<and> (po_applied p \<and> po_readable p \<longrightarrow> fp \<in> fst ` set (pb_receipts (after_post p fp f s)))
    \<and> fst ` set (pb_receipts s) \<subseteq> fst ` set (pb_receipts (after_post p fp f s))
    \<and> set (applied (pb_sent (after_post p fp f s))) = set (applied (pb_sent s)) \<union> (if po_applied p then {fp} else {})"
proof -
  have "fp \<in> set (find_markers (fd_body f @ newline # newline # marker fp @ [newline]))"
    using find_markers_marker [OF hex, of "fd_body f @ [newline, newline]" "[newline]"] by simp
  then show ?thesis
    using assms(1-3)
    unfolding published_once_def after_post_def Let_def traceable_def
    by (cases "po_applied p"; cases "po_labelled p"; cases "po_readable p")
      (auto simp: applied_def listed_append created_issue_def simp del: find_markers.simps)
qed

lemma publish_loop_once:
  assumes "published_once old s"
    and "set (applied (pb_sent s)) \<union> old \<subseteq> fst ` set known \<union> fst ` set (pb_receipts s)"
    and "list_all (\<lambda>a. traceable (snd a)) script" and hex: "\<And>f. length (ident f) = 64 \<and> list_all is_hex (ident f)"
  shows "published_once old (snd (publish_loop ident known fs script s))"
  using assms(1-3)
proof (induction fs arbitrary: known script s)
  case (Cons f fs)
  let ?fp = "ident f"
  have sub: "set (applied (pb_sent s)) \<union> old \<subseteq> fst ` set ((?fp, m) # known) \<union> fst ` set (pb_receipts s)" for m
    using Cons.prems(2) by auto
  show ?case
  proof (cases "map_of known ?fp")
    case (Some n)
    then show ?thesis using Cons.IH [OF Cons.prems] by (simp add: case_prod_beta)
  next
    case unknown: None
    show ?thesis
    proof (cases "map_of (pb_receipts s) ?fp")
      case (Some saved)
      show ?thesis
        using Cons.prems(1) Cons.IH [OF Cons.prems(1) sub Cons.prems(3)] unknown Some
        by (simp add: Let_def case_prod_beta split: option.split sum.split)
    next
      case None
      have fresh: "?fp \<notin> set (applied (pb_sent s)) \<union> old"
        using unknown None Cons.prems(2) by (auto simp: map_of_eq_None_iff)
      show ?thesis
      proof (cases script)
        case Nil
        then show ?thesis using Cons.prems(1) unknown None by simp
      next
        case script: (Cons hp script')
        obtain held p where hp: "hp = (held, p)" by (cases hp)
        let ?s1 = "after_post p ?fp f s"
        have tr: "traceable p" "list_all (\<lambda>a. traceable (snd a)) script'" using Cons.prems(3) script hp by auto
        note post = published_after_post [OF Cons.prems(1) fresh tr(1), of f] hex [of f]
        have s1: "published_once old ?s1" using post by blast
        have sub1: "set (applied (pb_sent ?s1)) \<union> old \<subseteq> fst ` set ((?fp, m) # known) \<union> fst ` set (pb_receipts ?s1)" for m
        proof -
          note e = published_after_post [OF Cons.prems(1) fresh tr(1), of f, THEN conjunct2, THEN conjunct2]
          define A where "A = set (applied (pb_sent s))"
          define A1 where "A1 = set (applied (pb_sent ?s1))"
          define R1 where "R1 = fst ` set (pb_receipts ?s1)"
          define R where "R = fst ` set (pb_receipts s)"
          define K where "K = fst ` set known"
          have "A1 = A \<union> (if po_applied p then {?fp} else {})" and "R \<subseteq> R1"
            unfolding A_def A1_def R1_def R_def using e hex [of f] by blast+
          moreover have "A \<union> old \<subseteq> K \<union> R" using Cons.prems(2) unfolding A_def K_def R_def .
          ultimately have "A1 \<union> old \<subseteq> insert ?fp K \<union> R1" by (auto split: if_splits)
          then show ?thesis unfolding A1_def R1_def K_def by simp
        qed
        show ?thesis
          using Cons.prems(1) s1 Cons.IH [OF s1 sub1 tr(2)] unknown None script hp
          by (simp add: Let_def case_prod_beta split: sum.split)
      qed
    qed
  qed
qed simp

text \<open>Any sequence of publications, each with the findings and the answers of its own.\<close>

fun publications :: "(finding \<Rightarrow> string) \<Rightarrow> (finding list \<times> (bool \<times> post) list) list \<Rightarrow> publication \<Rightarrow> publication" where
  "publications ident [] s = s"
| "publications ident ((fs, script) # rounds) s = publications ident rounds (snd (publish ident fs script s))"

lemma publish_once_step:
  assumes "published_once old s" and "list_all (\<lambda>a. traceable (snd a)) script"
    and "\<And>f. length (ident f) = 64 \<and> list_all is_hex (ident f)"
  shows "published_once old (snd (publish ident fs script s))"
proof (cases "fs = []")
  case False
  have "set (applied (pb_sent s)) \<union> old \<subseteq> fst ` set (known_issues (pb_issues s)) \<union> fst ` set (pb_receipts s)"
    using assms(1) by (auto simp: dom_known_issues published_once_def)
  from publish_loop_once [OF assms(1) this assms(2,3)] show ?thesis using False by (simp add: publish_def)
qed (use assms in \<open>simp add: publish_def\<close>)

lemma publications_once:
  assumes "published_once old s" and "list_all (\<lambda>(fs, script). list_all (\<lambda>a. traceable (snd a)) script) rounds"
    and "\<And>f. length (ident f) = 64 \<and> list_all is_hex (ident f)"
  shows "published_once old (publications ident rounds s)"
  using assms(1,2)
proof (induction rounds arbitrary: s)
  case (Cons rd rounds)
  obtain fs script where rd: "rd = (fs, script)" by (cases rd)
  with Cons.prems(2) have "list_all (\<lambda>a. traceable (snd a)) script" by simp
  with Cons.prems(1) have "published_once old (snd (publish ident fs script s))" using publish_once_step assms(3) by blast
  with Cons.IH Cons.prems(2) show ?case unfolding rd by simp
qed simp


section \<open>A result that is never discarded\<close>

lemma select_own_length:
  assumes "select_batch g cursor pin n = Inr commits" and "commits \<noteq> []"
  shows "select_batch g cursor pin (int (length commits)) = Inr commits"
  using assms by (auto simp: select_batch_def Let_def min_def split: if_splits)

lemma unhashable_result:
  assumes "jget0 d ''complete'' = JBool True" and "jget0 d ''from'' = JStr (pk_from pk)"
    and "jget0 d ''through'' = JStr (pk_through pk)" and "jget0 d ''examined_commits'' = JArr (map JStr (pk_commits pk))"
    and "jget0 d ''findings'' = JArr (JObj f # fs)" and "jget0 f ''change_commit'' = JStr c" and "c \<in> set (pk_commits pk)"
    and "jget0 f ''classification'' = JArr names"
  shows "validate_scan (JObj d) pk = Inl Unhashable"
  using assms by (simp add: validate_scan_def validate_finding_def classified_def)

text \<open>
  one malformed classification stops the scanner. An investigation that lists its first finding's
  classification instead of naming it raises a \<open>TypeError\<close> the loop over retained runs does not catch: that
  scan fails, and while cursor and pin stay so does every later one, before its agent is asked again,
  with nothing published and the cursor where it was.
\<close>

theorem malformed_classification_wedges:
  assumes "se_shared x" "se_rights x" "se_lease x" "se_cursor x \<noteq> []"
    and "select_batch g (se_cursor x) (se_pin x) (se_batch x) = Inr commits" and "commits \<noteq> []"
    and "pk = make_packet (se_cursor x) (se_pin x) commits" and "se_runs x = []" and "se_agent x pk = (0, Some (JObj d))"
    and "jget0 d ''complete'' = JBool True" and "jget0 d ''from'' = JStr (pk_from pk)"
    and "jget0 d ''through'' = JStr (pk_through pk)" and "jget0 d ''examined_commits'' = JArr (map JStr (pk_commits pk))"
    and "jget0 d ''findings'' = JArr (JObj f # fs)" and "jget0 f ''change_commit'' = JStr c" and "c \<in> set commits"
    and "jget0 f ''classification'' = JArr names"
  shows "do_scan g ident x script held advance s = (Inl Unhashable, s, None)
    \<and> do_scan g ident (x\<lparr>se_runs := (Some pk, Some (JObj d)) # runs, se_agent := agent\<rparr>) script2 held2 advance2 s2
        = (Inl Unhashable, s2, None)"
proof -
  have v: "validate_scan (JObj d) pk = Inl Unhashable"
    using assms(7,10-17) by (intro unhashable_result) (simp_all add: make_packet_def)
  have pk: "pk_from pk = se_cursor x" "pk_pin pk = se_pin x" "pk_commits pk = commits" using assms(7) by (simp_all add: make_packet_def)
  have "scan_plan_of g x = Inl Unhashable"
    using assms(1-9) v by (simp add: scan_plan_of_def investigate_def Let_def)
  moreover have "scan_plan_of g (x\<lparr>se_runs := (Some pk, Some (JObj d)) # runs, se_agent := agent\<rparr>) = Inl Unhashable"
    using assms(1-6) v pk select_own_length [OF assms(5,6)] by (simp add: scan_plan_of_def usable_run_def)
  ultimately show ?thesis by (simp add: do_scan_def)
qed

section \<open>Concrete scans\<close>

text \<open>A history of three commits, an agent that finds nothing, and a digest.\<close>

abbreviation three_commits :: "string list" where
  "three_commits \<equiv> [''a'', ''b'', ''c'']"

definition position :: "string \<Rightarrow> nat" where
  "position c = (if c = ''a'' then 0 else if c = ''b'' then 1 else 2)"

definition sample_history :: mathlib where
  "sample_history = \<lparr>ml_on_master = (\<lambda>c. True), ml_ancestor = (\<lambda>c d. position c \<le> position d),
     ml_first_parents = (\<lambda>c d. drop (Suc (position c)) (take (Suc (position d)) three_commits)),
     ml_parent = (\<lambda>c. three_commits ! (position c - 1))\<rparr>"

definition honest_agent :: "packet \<Rightarrow> int \<times> json option" where
  "honest_agent pk = (0, Some (JObj [(''complete'', JBool True), (''from'', JStr (pk_from pk)),
     (''through'', JStr (pk_through pk)), (''examined_commits'', JArr (map JStr (pk_commits pk))), (''findings'', JArr [])]))"

definition sample_env :: scan_env where
  "sample_env = \<lparr>se_shared = True, se_rights = True, se_lease = True, se_cursor = ''a'', se_pin = ''c'',
     se_batch = 1, se_only_scan = False, se_runs = [], se_agent = honest_agent\<rparr>"

definition no_publication :: publication where
  "no_publication = \<lparr>pb_issues = [], pb_receipts = [], pb_sent = []\<rparr>"

lemma sample_linear: "linear_history three_commits sample_history"
  by (simp add: linear_history_def sample_history_def position_def upt_rec numeral_eq_Suc)

lemma sample_accounts: "accounts sample_env pk"
  by (simp add: accounts_def sample_env_def honest_agent_def validate_scan_def jget0_def)



definition digits64 :: string where
  "digits64 = replicate 64 (CHR ''0'')"

abbreviation plain_finding :: finding where
  "plain_finding \<equiv> \<lparr>fd_commit = ''b'', fd_mathlib = [''x''], fd_tauceti = [''y''], fd_title = ''t'', fd_body = ''z''\<rparr>"


definition listed_classification :: jdict where
  "listed_classification = [(''complete'', JBool True), (''from'', JStr ''a''), (''through'', JStr ''b''),
     (''examined_commits'', JArr [JStr ''b'']),
     (''findings'', JArr [JObj [(''change_commit'', JStr ''b''), (''classification'', JArr [JStr ''exact''])]])]"

theorem malformed_classification_wedges_witness:
  "do_scan sample_history (\<lambda>_. []) (sample_env\<lparr>se_runs := [(Some (make_packet ''a'' ''c'' [''b'']), Some (JObj listed_classification))]\<rparr>)
     [] True (\<lambda>_. True) no_publication = (Inl Unhashable, no_publication, None)"
proof -
  let ?x = "sample_env\<lparr>se_agent := (\<lambda>_. (0, Some (JObj listed_classification)))\<rparr>"
  have sel: "select_batch sample_history (se_cursor ?x) (se_pin ?x) (se_batch ?x) = Inr [''b'']"
    by (simp add: select_batch_def sample_env_def sample_history_def position_def Let_def)
  have "do_scan sample_history (\<lambda>_. []) (?x\<lparr>se_runs := [(Some (make_packet (se_cursor ?x) (se_pin ?x) [''b'']), Some (JObj listed_classification))],
          se_agent := honest_agent\<rparr>) [] True (\<lambda>_. True) no_publication = (Inl Unhashable, no_publication, None)"
    by (rule malformed_classification_wedges [where f = "[(''change_commit'', JStr ''b''), (''classification'', JArr [JStr ''exact''])]"
          and c = "''b''" and names = "[JStr ''exact'']", OF _ _ _ _ sel _ refl, THEN conjunct2])
      (simp_all add: sample_env_def listed_classification_def jget0_def make_packet_def)
  then show ?thesis by (simp add: sample_env_def)
qed

end
