(* ===== verification/LoopControl.thy ===== *)
theory LoopControl
  imports ClaudeUsage QuotaState BudgetView
begin

text \<open>
  The driver loop (\<open>loop.py\<close>) and the fleet admission it consults (\<open>fleet_capacity.admission_reason\<close>): what a
  cycle waits for before it launches a round, which model a round runs, and how long the loop sleeps
  after each kind of result. The round itself is a child process; its exit code, the status it leaves
  and the readings of providers, ledger and GitHub are the inputs of a cycle.
\<close>

section \<open>Constants\<close>

definition poll_s :: rat where "poll_s = 300"
definition interround :: rat where "interround = 20"
definition backoff_base :: nat where "backoff_base = 30"
definition backoff_max :: nat where "backoff_max = 900"
definition gh_min_budget :: int where "gh_min_budget = 200"

definition ex_documentation_wait :: int where "ex_documentation_wait = 79"
definition ex_admission_wait :: int where "ex_admission_wait = 76"
definition ex_github_wait :: int where "ex_github_wait = 77"
definition ex_recovery_idle :: int where "ex_recovery_idle = 80"
definition ex_claim_collision :: int where "ex_claim_collision = 81"

section \<open>Fleet admission\<close>

datatype fleet_reason =
    HeartbeatExpired
  | ClockInconsistent
  | CapacityReserved string
  | PolicyUnavailable

text \<open>
  \<open>admission_reason\<close>: \<open>policy\<close> is \<open>None\<close> without a policy path, \<open>Some None\<close> for a file that cannot be read or
  decoded. Without a policy a worker is not restrained; with one that is stale or malformed it is.
\<close>

definition policy_wf :: "jdict \<Rightarrow> (rat \<times> string list) option" where
  "policy_wf d =
     (case (jget d ''expires_at'', jget d ''workers'') of
        (Some (JNum n), Some (JArr ws)) \<Rightarrow>
          (case (finite_num (JNum n)) of
             Some e \<Rightarrow>
               if jget0 d ''version'' \<in> {JNum (PInt 1), JNum (PFloat 1), JBool True}
                  \<and> list_all (\<lambda>w. case w of JStr _ \<Rightarrow> True | _ \<Rightarrow> False) ws
               then Some (e, map (\<lambda>w. case w of JStr s \<Rightarrow> s | _ \<Rightarrow> []) ws) else None
           | None \<Rightarrow> None)
      | _ \<Rightarrow> None)"

definition reserved_text :: "(json \<Rightarrow> string) \<Rightarrow> jdict \<Rightarrow> string" where
  "reserved_text text_of d =
     take 500 (if truthy (jget0 d ''reason'')
               then (case jget0 d ''reason'' of JStr s \<Rightarrow> s | v \<Rightarrow> text_of v)
               else ''fleet capacity reserved for CI'')"

definition fleet_admission ::
  "(json \<Rightarrow> string) \<Rightarrow> json option option \<Rightarrow> string \<Rightarrow> rat \<Rightarrow> fleet_reason option" where
  "fleet_admission text_of policy worker now =
     (case policy of
        None \<Rightarrow> None
      | Some (Some (JObj d)) \<Rightarrow>
          (case policy_wf d of
             None \<Rightarrow> Some PolicyUnavailable
           | Some (expires, allowed) \<Rightarrow>
               if expires \<le> now then Some HeartbeatExpired
               else if expires > now + 30 then Some ClockInconsistent
               else if worker \<notin> set allowed then Some (CapacityReserved (reserved_text text_of d))
               else None)
      | Some _ \<Rightarrow> Some PolicyUnavailable)"

section \<open>When to read usage again\<close>

definition py_trunc :: "rat \<Rightarrow> int" where
  "py_trunc q = (if q < 0 then - \<lfloor>- q\<rfloor> else \<lfloor>q\<rfloor>)"

definition or_else :: "rat option \<Rightarrow> rat \<Rightarrow> rat" where
  "or_else v d = (case v of Some x \<Rightarrow> if x = 0 then d else x | None \<Rightarrow> d)"

definition nonzero :: "rat option \<Rightarrow> bool" where
  "nonzero v = (case v of Some x \<Rightarrow> x \<noteq> 0 | None \<Rightarrow> False)"

definition recheck_in :: "provider option \<Rightarrow> rat \<Rightarrow> rat" where
  "recheck_in prov now =
     (case prov of
        None \<Rightarrow> poll_s
      | Some p \<Rightarrow>
          if p_limited p \<and> p_error p \<noteq> None
          then of_int (py_trunc (max (min poll_s rate_limit_recheck_max_s)
                                     (min (or_else (p_retry p) poll_s) rate_limit_recheck_max_s)))
          else if nonzero (p_retry p) then of_int (py_trunc (max poll_s (the (p_retry p))))
          else if nonzero (p_next p) then max poll_s (min (of_int (py_trunc (the (p_next p) - now)) + 5) 3600)
          else poll_s)"

section \<open>Choosing a model\<close>

datatype agent = Auto | Paced pname | Unpaced string

definition provider_of_name :: "string \<Rightarrow> agent" where
  "provider_of_name s =
     (if s = ''codex'' then Paced Codex else if s = ''claude'' then Paced Claude else Unpaced s)"

type_synonym snap = "(pname \<times> provider) list"

text \<open>
  \<open>choose_model\<close>: with a quota command, the first word it prints when it succeeds; otherwise the pacer. The
  command's own entry of the snapshot has neither an error nor times and is not kept.
\<close>

definition choose_model ::
  "(int \<times> string list) option \<Rightarrow> agent \<Rightarrow> (unit \<Rightarrow> provider) \<Rightarrow> (unit \<Rightarrow> provider) \<Rightarrow> agent option \<times> snap" where
  "choose_model cmd agent codex claude =
     (case cmd of
        Some (rc, out) \<Rightarrow>
          (if rc = 0 \<and> out \<noteq> [] \<and> hd out \<noteq> [] then Some (provider_of_name (hd out)) else None, [])
      | None \<Rightarrow>
          (let (c, s) = choose_agent (case agent of Paced n \<Rightarrow> Some n | _ \<Rightarrow> None) codex claude
           in (map_option Paced c, s)))"

definition agent_reading :: "agent \<Rightarrow> snap \<Rightarrow> provider option" where
  "agent_reading agent s = (case agent of Paced n \<Rightarrow> map_of s n | _ \<Rightarrow> None)"

datatype quota_verdict = RunV | OverPaceV | WaitV

text \<open>\<open>_ignore_quota_verdict\<close>: pacing is overridden, availability is not.\<close>

definition ignore_quota_verdict :: "agent option \<Rightarrow> provider option \<Rightarrow> quota_verdict" where
  "ignore_quota_verdict chosen prov =
     (if chosen \<noteq> None then RunV
      else if (case prov of None \<Rightarrow> False | Some p \<Rightarrow> fst (unavail_reason p)) then OverPaceV else WaitV)"

definition claude_pending_init :: "snap \<Rightarrow> bool" where
  "claude_pending_init s = (case map_of s Claude of None \<Rightarrow> False | Some p \<Rightarrow> p_bootstrap p)"

datatype resolve_error = NeedsExplicitAgent | HardBlocked | NoModelUnderPace

text \<open>\<open>resolve_work_model\<close>: what a round launches, and whether it must ask for the bootstrap request first.\<close>

definition resolve_work_model ::
  "bool \<Rightarrow> bool \<Rightarrow> (int \<times> string list) option \<Rightarrow> agent \<Rightarrow> (unit \<Rightarrow> provider) \<Rightarrow> (unit \<Rightarrow> provider)
   \<Rightarrow> resolve_error + agent \<times> bool" where
  "resolve_work_model dry ignore_quota cmd agent codex claude =
     (if dry \<or> (case agent of Unpaced _ \<Rightarrow> True | _ \<Rightarrow> False) then Inr (agent, False)
      else if ignore_quota \<and> cmd = None \<and> agent = Auto then Inl NeedsExplicitAgent
      else let (chosen, s) = choose_model cmd agent codex claude
           in if ignore_quota \<and> cmd = None
              then (let verdict = ignore_quota_verdict chosen (agent_reading agent s)
                    in if verdict = WaitV \<and> agent = Paced Claude \<and> claude_pending_init s then Inr (Paced Claude, True)
                       else if verdict = WaitV then Inl HardBlocked
                       else Inr (agent, False))
              else case chosen of
                     None \<Rightarrow> if claude_pending_init s then Inr (Paced Claude, True) else Inl NoModelUnderPace
                   | Some m \<Rightarrow> Inr (m, False))"

section \<open>One cycle\<close>

record cycle =
  cy_now :: rat
  cy_worker :: string
  cy_fleet :: "fleet_reason option"
  cy_due :: bool
  cy_audit_only :: bool
  cy_scan_only :: bool
  cy_api :: bool
  cy_use_budget :: bool
  cy_budget :: "view option"
  cy_agent :: agent
  cy_ignore_quota :: bool
  cy_command :: "(int \<times> string list) option"
  cy_codex :: "unit \<Rightarrow> provider"
  cy_claude :: "unit \<Rightarrow> provider"
  cy_mirror :: bool
  cy_github :: "(string \<times> int \<times> int) list option"

record loop_state =
  lp_streak :: nat
  lp_admission :: nat
  lp_collision :: nat
  lp_probe_at :: rat

definition loop_start :: loop_state where
  "loop_start = \<lparr>lp_streak = 0, lp_admission = 0, lp_collision = 0, lp_probe_at = 0\<rparr>"

datatype wait_for = ForCapacity | ForBudget | ForQuota | ForGithub

datatype launch = Sleep wait_for rat | Stop_loop | Run agent bool bool

text \<open>\<open>nap\<close> of a budget pause.\<close>

definition budget_wake :: "view \<Rightarrow> string \<Rightarrow> wait_reason \<Rightarrow> rat option" where
  "budget_wake v worker reason =
     (if reason = ThroughputCooldown
      then (case pause_model v (Some worker) None of None \<Rightarrow> None | Some m \<Rightarrow> map_of (v_cooldowns v) m)
      else v_funding_at v)"

definition budget_nap :: "view \<Rightarrow> string \<Rightarrow> wait_reason \<Rightarrow> rat \<Rightarrow> rat" where
  "budget_nap v worker reason now =
     (let cap = (if reason \<in> {AwaitFunding, ThroughputCooldown} then 60 else 5);
          wake = budget_wake v worker reason
      in max 1 (min cap (if nonzero wake then the wake - now + 1 else cap)))"

definition budget_gate :: "cycle \<Rightarrow> rat option" where
  "budget_gate x =
     (if \<not> (cy_api x \<and> cy_use_budget x) then None
      else case cy_budget x of
             None \<Rightarrow> Some 5
           | Some v \<Rightarrow>
               (case admission_pause v (Some (cy_worker x)) None (cy_now x) of
                  None \<Rightarrow> None
                | Some reason \<Rightarrow> Some (budget_nap v (cy_worker x) reason (cy_now x))))"

text \<open>\<open>unpaced\<close>, and the decision of step 1.\<close>

definition unpaced :: "cycle \<Rightarrow> bool" where
  "unpaced x \<longleftrightarrow> (case cy_agent x of Unpaced _ \<Rightarrow> True | _ \<Rightarrow> False) \<or> cy_api x"

definition snap_nap :: "snap \<Rightarrow> rat \<Rightarrow> rat" where
  "snap_nap s now = (if s = [] then poll_s else Min (set (map (\<lambda>(n, p). recheck_in (Some p) now) s)))"

definition pick_model :: "cycle \<Rightarrow> launch" where
  "pick_model x =
     (if unpaced x then Run (cy_agent x) False False
      else if cy_ignore_quota x \<and> cy_command x = None
      then (if cy_agent x = Auto then Stop_loop
            else let (chosen, s) = choose_model None (cy_agent x) (cy_codex x) (cy_claude x);
                     prov = agent_reading (cy_agent x) s;
                     verdict = ignore_quota_verdict chosen prov
                 in if verdict = WaitV \<and> cy_agent x = Paced Claude \<and> claude_pending_init s
                    then Run (cy_agent x) True False
                    else if verdict = WaitV then Sleep ForQuota (recheck_in prov (cy_now x))
                    else Run (cy_agent x) False False)
      else let (chosen, s) = choose_model (cy_command x) (cy_agent x) (cy_codex x) (cy_claude x)
           in case chosen of
                Some m \<Rightarrow> Run m False False
              | None \<Rightarrow> if claude_pending_init s then Run (Paced Claude) True False
                        else Sleep ForQuota (snap_nap s (cy_now x)))"

text \<open>The GitHub preflight: the buckets a round spends, and the later of their resets.\<close>

definition watched :: "cycle \<Rightarrow> string list" where
  "watched x = (if cy_scan_only x then [''core''] else [''core'', ''graphql''])"

definition low_buckets :: "cycle \<Rightarrow> (string \<times> int \<times> int) list" where
  "low_buckets x =
     (if cy_mirror x then []
      else filter (\<lambda>(k, remaining, reset). k \<in> set (watched x) \<and> remaining < gh_min_budget)
             (case cy_github x of None \<Rightarrow> [] | Some bs \<Rightarrow> bs))"

definition github_nap :: "rat \<Rightarrow> (string \<times> int \<times> int) list \<Rightarrow> rat" where
  "github_nap now low =
     (let reset = Max (set (map (\<lambda>(k, remaining, reset). reset) low))
      in max poll_s (min (of_int (reset - py_trunc now + 5)) 3600))"

definition recovery_only :: "cycle \<Rightarrow> loop_state \<Rightarrow> bool" where
  "recovery_only x st \<longleftrightarrow> \<not> cy_audit_only x \<and> lp_probe_at st \<le> cy_now x \<and> cy_due x"

text \<open>The part of the loop before the child is started.\<close>

definition before_round :: "cycle \<Rightarrow> loop_state \<Rightarrow> launch" where
  "before_round x st =
     (if cy_fleet x \<noteq> None then Sleep ForCapacity 5
      else case (if recovery_only x st then None else budget_gate x) of
             Some nap \<Rightarrow> Sleep ForBudget nap
           | None \<Rightarrow>
               (case (if recovery_only x st then Run (cy_agent x) False True else pick_model x) of
                  Run m pending recovery \<Rightarrow>
                    if low_buckets x \<noteq> [] then Sleep ForGithub (github_nap (cy_now x) (low_buckets x))
                    else Run m pending recovery
                | other \<Rightarrow> other))"

section \<open>After the round\<close>

datatype run_state = WaitingCapacity | WaitingBudget | WaitingStorage | OtherState

record outcome =
  oc_now :: rat
  oc_fleet :: bool
  oc_state :: run_state
  oc_next :: "rat option"

text \<open>
  The rest of the loop body, from the exit code to the sleep: \<open>recovered\<close> says that the round was a recovery
  probe. The result is the new state and how long the loop sleeps.
\<close>

definition failure_nap :: "nat \<Rightarrow> rat" where
  "failure_nap streak = of_nat (min (backoff_base * 2 ^ min streak 5) backoff_max)"

definition admission_state :: "outcome \<Rightarrow> run_state" where
  "admission_state o' =
     (if oc_fleet o' then WaitingCapacity
      else if oc_state o' = OtherState then WaitingBudget else oc_state o')"

definition admission_nap :: "run_state \<Rightarrow> nat \<Rightarrow> rat" where
  "admission_nap s streak =
     (if s = WaitingStorage then 60 else of_nat (min 60 (5 * 2 ^ min (streak - 1) 4)))"

definition after_round :: "bool \<Rightarrow> int \<Rightarrow> outcome \<Rightarrow> loop_state \<Rightarrow> loop_state \<times> rat" where
  "after_round recovered rc oc st0 =
     (let st = (if recovered then st0\<lparr>lp_probe_at := oc_now oc + 300\<rparr> else st0)
      in if rc = ex_recovery_idle then (st\<lparr>lp_streak := 0\<rparr>, 0)
         else if rc = ex_claim_collision then
           (let c = Suc (lp_collision st) in (st\<lparr>lp_streak := 0, lp_collision := c\<rparr>, of_nat (min 30 (5 * (c - 1)))))
         else
           (let st = st\<lparr>lp_collision := 0\<rparr>
            in if rc = ex_documentation_wait then (st\<lparr>lp_streak := 0\<rparr>, 5)
               else if rc = ex_admission_wait then
                 (let s = admission_state oc;
                      k = (if s = WaitingBudget then Suc (lp_admission st) else 0)
                  in (st\<lparr>lp_admission := k\<rparr>, admission_nap s k))
               else
                 (let st = st\<lparr>lp_admission := 0\<rparr>
                  in if rc = ex_github_wait then
                       (st\<lparr>lp_streak := 0\<rparr>,
                        (case oc_next oc of Some t \<Rightarrow> max 1 (t - oc_now oc + 1) | None \<Rightarrow> 5))
                     else if rc = 0 then (st\<lparr>lp_streak := 0\<rparr>, interround)
                     else (let n = Suc (lp_streak st) in (st\<lparr>lp_streak := n\<rparr>, failure_nap n)))))"

text \<open>One whole iteration of \<open>cmd_loop\<close>, given the exit code and the status if a round is run.\<close>

datatype turn = Slept wait_for rat | Ran agent bool bool rat | Ended

definition loop_turn :: "cycle \<Rightarrow> int \<Rightarrow> outcome \<Rightarrow> loop_state \<Rightarrow> loop_state \<times> turn" where
  "loop_turn x rc oc st =
     (case before_round x st of
        Sleep w nap \<Rightarrow> (st, Slept w nap)
      | Stop_loop \<Rightarrow> (st, Ended)
      | Run m pending recovery \<Rightarrow>
          (let (st', nap) = after_round recovery rc oc st in (st', Ran m pending recovery nap)))"

fun loop_turns :: "(cycle \<times> int \<times> outcome) list \<Rightarrow> loop_state \<Rightarrow> loop_state \<times> turn list" where
  "loop_turns [] st = (st, [])"
| "loop_turns ((x, rc, oc) # xs) st =
     (let (st1, t) = loop_turn x rc oc st
      in if t = Ended then (st1, [t]) else (let (st2, ts) = loop_turns xs st1 in (st2, t # ts)))"

end
