(* ===== verification/LoopLaws.thy ===== *)
theory LoopLaws
  imports LoopControl
begin

text \<open>
  What the driver loop guarantees: it launches only what is ready, the round it launches decides the same
  as it did, its back-off follows a fixed schedule, and it never spins.
\<close>

section \<open>Fleet admission\<close>

lemma policy_wfE:
  assumes "policy_wf d = Some (e, ws)"
  shows "truthy (jget0 d ''version'') \<and> finite_num (jget0 d ''expires_at'') = Some e
    \<and> jget0 d ''workers'' = JArr (map JStr ws)"
proof -
  have m: "list_all (\<lambda>w. case w of JStr _ \<Rightarrow> True | _ \<Rightarrow> False) xs \<Longrightarrow>
      xs = map JStr (map (\<lambda>w. case w of JStr s \<Rightarrow> s | _ \<Rightarrow> []) xs)" for xs
    by (induction xs) (auto split: json.splits)
  from assms obtain n xs where a: "jget d ''expires_at'' = Some (JNum n)" "jget d ''workers'' = Some (JArr xs)"
    "finite_num (JNum n) = Some e" "jget0 d ''version'' \<in> {JNum (PInt 1), JNum (PFloat 1), JBool True}"
    "list_all (\<lambda>w. case w of JStr _ \<Rightarrow> True | _ \<Rightarrow> False) xs"
    "ws = map (\<lambda>w. case w of JStr s \<Rightarrow> s | _ \<Rightarrow> []) xs"
    by (auto simp: policy_wf_def split: option.splits json.splits if_splits)
  then show ?thesis using m [OF a(5)] by (auto simp: jget0_def)
qed

text \<open>
  fleet admission fails closed. A worker under a fleet policy is admitted only by a readable policy
  that names it and whose heartbeat expires within the next thirty seconds; every other state of the
  file holds it back, and only a worker without a policy is free.
\<close>

theorem fleet_fails_closed:
  assumes "fleet_admission text_of (Some policy) worker now = None"
  shows "\<exists>d e ws. policy = Some (JObj d) \<and> truthy (jget0 d ''version'')
     \<and> finite_num (jget0 d ''expires_at'') = Some e \<and> now < e \<and> e \<le> now + 30
     \<and> jget0 d ''workers'' = JArr (map JStr ws) \<and> worker \<in> set ws"
proof -
  from assms obtain d e ws where "policy = Some (JObj d)" "policy_wf d = Some (e, ws)" "now < e" "e \<le> now + 30" "worker \<in> set ws"
    by (auto simp: fleet_admission_def split: option.splits json.splits if_splits)
  with policy_wfE show ?thesis by blast
qed

definition sample_policy :: json where
  "sample_policy = JObj [(''version'', JNum (PInt 1)), (''expires_at'', JNum (PInt 20)), (''workers'', JArr [JStr ''w''])]"

theorem fleet_fails_closed_witness:
  "\<exists>d e ws. sample_policy = JObj d \<and> (0::rat) < e \<and> e \<le> 30 \<and> ''w'' \<in> set ws"
proof -
  have "fleet_admission (\<lambda>_. []) (Some (Some sample_policy)) ''w'' 0 = None"
    by (simp add: fleet_admission_def sample_policy_def policy_wf_def jget0_def)
  from fleet_fails_closed [OF this] show ?thesis by auto
qed

section \<open>Choosing\<close>

lemma choose_model_forced:
  "choose_model None (Paced n) codex claude =
     (let p = (case n of Codex \<Rightarrow> codex () | Claude \<Rightarrow> claude ())
      in (if p_available p then Some (Paced n) else None, [(n, p)]))"
  by (cases n) (auto simp: choose_model_def choose_agent_def)

lemma choose_model_auto:
  "choose_model None Auto codex claude =
     (if p_available (codex ()) then Some (Paced Codex)
      else if p_available (claude ()) then Some (Paced Claude) else None,
      [(Codex, codex ()), (Claude, claude ())])"
  by (auto simp: choose_model_def choose_agent_def)

definition reading_of :: "cycle \<Rightarrow> pname \<Rightarrow> provider" where
  "reading_of x n = (case n of Codex \<Rightarrow> cy_codex x () | Claude \<Rightarrow> cy_claude x ())"

lemma pick_modelE:
  assumes "pick_model x = Run m pending recovery" and "\<not> unpaced x" and "cy_command x = None"
  shows "\<exists>n. m = Paced n \<and> \<not> recovery \<and> (cy_agent x = Auto \<or> cy_agent x = Paced n)
    \<and> (pending \<longrightarrow> n = Claude \<and> p_bootstrap (reading_of x n) \<and> \<not> p_available (reading_of x n))
    \<and> (\<not> pending \<longrightarrow> p_available (reading_of x n) \<or> cy_ignore_quota x \<and> fst (unavail_reason (reading_of x n)))"
proof (cases "cy_agent x")
  case Auto
  then show ?thesis using assms
    by (auto simp: pick_model_def choose_model_auto reading_of_def claude_pending_init_def split: if_splits)
next
  case (Paced n)
  then show ?thesis using assms
    by (intro exI [of _ n], cases n; cases "cy_ignore_quota x"; cases "p_available (reading_of x n)")
      (auto simp: pick_model_def choose_model_forced reading_of_def claude_pending_init_def
        ignore_quota_verdict_def agent_reading_def Let_def split: if_splits)
qed (use assms in \<open>auto simp: unpaced_def\<close>)

lemma before_roundE:
  assumes "before_round x st = Run m pending recovery"
  shows "cy_fleet x = None \<and> low_buckets x = [] \<and> (recovery = recovery_only x st)
    \<and> (recovery \<longrightarrow> m = cy_agent x \<and> \<not> pending)
    \<and> (\<not> recovery \<longrightarrow> budget_gate x = None \<and> pick_model x = Run m pending False)"
proof -
  have p: "pick_model x = Run m' pending' r' \<Longrightarrow> \<not> r'" for m' pending' r'
    by (auto simp: pick_model_def Let_def split: if_splits option.splits prod.splits)
  show ?thesis
    using assms p by (auto simp: before_round_def split: if_splits option.splits launch.splits)
qed


section \<open>The child decides the same\<close>

lemma bootstrap_is_hard:
  assumes "p = claude_provider curve readings notes recorded now" and "p_bootstrap p"
  shows "\<not> fst (unavail_reason p)"
proof -
  from assms have "\<exists>w\<in>set (p_windows p). w_status w = Idle"
    by (auto simp: claude_provider_def Let_def filter_empty_conv)
  then have "filter (\<lambda>w. w_status w \<in> set hard_statuses) (p_windows p) \<noteq> []"
    by (auto simp: filter_empty_conv hard_statuses_def)
  then show ?thesis by (simp add: unavail_reason_def Let_def)
qed

text \<open>
  the round decides what the loop decided. The loop hands its child the model it chose together with
  \<open>--ignore-quota\<close>; from the same readings the child resolves to the same model and the same need of a
  bootstrap request, for a paced agent, with or without \<open>--ignore-quota\<close> in the parent.
\<close>

theorem round_agrees_with_loop:
  assumes "before_round x st = Run m pending False" and "\<not> unpaced x" and "cy_command x = None"
    and "cy_claude x () = claude_provider curve readings notes recorded now \<or> \<not> p_bootstrap (cy_claude x ())"
  shows "resolve_work_model False True None m (cy_codex x) (cy_claude x) = Inr (m, pending)"
proof -
  have pk: "pick_model x = Run m pending False" using before_roundE [OF assms(1)] by blast
  obtain n where n: "m = Paced n"
    and pend: "pending \<longrightarrow> n = Claude \<and> p_bootstrap (reading_of x n) \<and> \<not> p_available (reading_of x n)"
    and avail: "\<not> pending \<longrightarrow> p_available (reading_of x n) \<or> cy_ignore_quota x \<and> fst (unavail_reason (reading_of x n))"
    using pick_modelE [OF pk assms(2,3)] by blast
  have hard: "pending \<Longrightarrow> \<not> fst (unavail_reason (cy_claude x ()))"
    using bootstrap_is_hard [of "cy_claude x ()"] assms(4) pend by (auto simp: reading_of_def)
  show ?thesis
    using pend avail hard unfolding n
    by (cases n; cases pending)
      (auto simp: resolve_work_model_def choose_model_forced reading_of_def ignore_quota_verdict_def
        agent_reading_def claude_pending_init_def Let_def)
qed

section \<open>Back-off\<close>

text \<open>Exit codes that no branch of the loop treats specially.\<close>

definition failing :: "int \<Rightarrow> bool" where
  "failing rc \<longleftrightarrow> rc \<notin> {0, ex_documentation_wait, ex_admission_wait, ex_github_wait, ex_recovery_idle, ex_claim_collision}"

lemma after_failing:
  assumes "failing rc"
  shows "lp_streak (fst (after_round rec rc oc st)) = Suc (lp_streak st)"
    and "snd (after_round rec rc oc st) = failure_nap (Suc (lp_streak st))"
  using assms by (auto simp: after_round_def failing_def Let_def)

fun after_rounds :: "(bool \<times> int \<times> outcome) list \<Rightarrow> loop_state \<Rightarrow> loop_state \<times> rat list" where
  "after_rounds [] st = (st, [])"
| "after_rounds ((rec, rc, oc) # xs) st =
     (let (st1, nap) = after_round rec rc oc st; (st2, naps) = after_rounds xs st1 in (st2, nap # naps))"

lemma failure_nap_values:
  "failure_nap (Suc 0) = 60" "failure_nap (Suc (Suc 0)) = 120" "failure_nap (Suc (Suc (Suc 0))) = 240"
  "failure_nap (Suc (Suc (Suc (Suc 0)))) = 480"
  "5 \<le> n \<Longrightarrow> failure_nap n = 900"
  by (simp_all add: failure_nap_def backoff_base_def backoff_max_def numeral_eq_Suc min_def)

lemma failure_nap_bounds: "60 \<le> failure_nap (Suc n) \<and> failure_nap (Suc n) \<le> 900"
proof -
  consider "n = 0" | "n = 1" | "n = 2" | "n = 3" | "4 \<le> n" by linarith
  then show ?thesis
    by cases (simp_all add: failure_nap_def backoff_base_def backoff_max_def numeral_eq_Suc min_def)
qed

text \<open>
  the back-off schedule. After a productive round, consecutive rounds that fail make the loop sleep 60,
  120, 240 and 480 seconds and then 900 for as long as they fail: the first sleep is twice
  \<open>BACKOFF_BASE\<close>, no sleep exceeds \<open>BACKOFF_MAX\<close>, and the next productive round starts over.
\<close>

theorem backoff_schedule:
  assumes "list_all (\<lambda>(rec, rc, oc). failing rc) fails"
    and "after_rounds ((rec0, 0, oc0) # fails) st = (st', naps)"
  shows "naps = interround # take (length fails) ([60, 120, 240, 480] @ replicate (length fails) 900)
    \<and> lp_streak st' = length fails
    \<and> snd (after_round rec1 0 oc1 st') = interround \<and> lp_streak (fst (after_round rec1 0 oc1 st')) = 0"
proof -
  have gen: "lp_streak (fst (after_rounds fails s)) = lp_streak s + length fails
      \<and> snd (after_rounds fails s) = map (\<lambda>k. failure_nap (Suc (lp_streak s + k))) [0..<length fails]"
    if "list_all (\<lambda>(rec, rc, oc). failing rc) fails" for fails s
    using that
  proof (induction fails arbitrary: s)
    case (Cons x fails)
    obtain rec rc oc where x: "x = (rec, rc, oc)" by (cases x) auto
    let ?s1 = "fst (after_round rec rc oc s)"
    have f: "failing rc" using Cons.prems x by simp
    have "snd (after_rounds (x # fails) s) = failure_nap (Suc (lp_streak s)) # map (\<lambda>k. failure_nap (Suc (Suc (lp_streak s) + k))) [0..<length fails]"
      using Cons x after_failing [OF f, of rec oc s] by (simp add: case_prod_beta Let_def)
    also have "\<dots> = map (\<lambda>k. failure_nap (Suc (lp_streak s + k))) [0..<Suc (length fails)]"
      by (simp add: upt_conv_Cons map_Suc_upt [symmetric] del: upt_Suc)
    finally show ?case using Cons x after_failing [OF f, of rec oc s] by (simp add: case_prod_beta Let_def)
  qed simp
  let ?s1 = "fst (after_round rec0 0 oc0 st)"
  have z: "lp_streak (fst (after_round r 0 oc s)) = 0" "snd (after_round r 0 oc s) = interround" for r oc s
    by (auto simp: after_round_def Let_def ex_documentation_wait_def ex_admission_wait_def ex_github_wait_def
        ex_recovery_idle_def ex_claim_collision_def)
  have vals: "map (\<lambda>k. failure_nap (Suc k)) [0..<n] = take n ([60, 120, 240, 480] @ replicate n 900)" for n
  proof (rule nth_equalityI)
    fix i assume "i < length (map (\<lambda>k. failure_nap (Suc k)) [0..<n])"
    then have i: "i < n" by simp
    consider "i = 0" | "i = 1" | "i = 2" | "i = 3" | "4 \<le> i" by linarith
    then show "map (\<lambda>k. failure_nap (Suc k)) [0..<n] ! i = take n ([60, 120, 240, 480] @ replicate n 900) ! i"
      using i by cases (simp_all add: failure_nap_values numeral_eq_Suc nth_Cons')
  qed simp
  have "naps = interround # snd (after_rounds fails ?s1)" and "st' = fst (after_rounds fails ?s1)"
    using assms(2) z(2) by (auto simp: case_prod_beta Let_def)
  then show ?thesis using gen [OF assms(1), of ?s1] z vals by simp
qed

section \<open>Sleeping\<close>

lemma py_trunc_mono: "of_int a \<le> q \<Longrightarrow> 0 \<le> a \<Longrightarrow> a \<le> py_trunc q"
  by (auto simp: py_trunc_def le_floor_iff)

lemma py_trunc_le: "0 \<le> q \<Longrightarrow> of_int (py_trunc q) \<le> q"
  by (simp add: py_trunc_def)

lemma recheck_ge_poll: "300 \<le> recheck_in prov now"
proof (cases prov)
  case (Some p)
  have t: "(300::rat) \<le> of_int (py_trunc q)" if "300 \<le> q" for q
    using py_trunc_mono [of 300 q] that by simp
  have a: "(300::rat) \<le> of_int (py_trunc (max (min poll_s rate_limit_recheck_max_s) y))" for y
    by (rule t) (simp add: poll_s_def rate_limit_recheck_max_s_def)
  have b: "(300::rat) \<le> of_int (py_trunc (max poll_s y))" for y
    by (rule t) (simp add: poll_s_def)
  have c: "300 \<le> max poll_s y" for y by (simp add: poll_s_def)
  show ?thesis unfolding Some recheck_in_def option.case
    by (simp only: a b c split: if_split) (simp add: poll_s_def)
qed (simp add: recheck_in_def poll_s_def)

lemma recheck_le_hour:
  assumes "prov = None \<or> (\<exists>p. prov = Some p \<and> (p_limited p \<and> p_error p \<noteq> None \<or> \<not> nonzero (p_retry p)))"
  shows "recheck_in prov now \<le> 3600"
proof (cases prov)
  case (Some p)
  let ?q = "max (min poll_s rate_limit_recheck_max_s) (min (or_else (p_retry p) poll_s) rate_limit_recheck_max_s)"
  have "of_int (py_trunc ?q) \<le> ?q"
    by (rule py_trunc_le) (simp add: poll_s_def rate_limit_recheck_max_s_def max_def)
  also have "?q \<le> 900" by (simp add: poll_s_def rate_limit_recheck_max_s_def)
  finally have a: "of_int (py_trunc ?q) \<le> (3600::rat)" by simp
  have c: "max poll_s (min y 3600) \<le> 3600" for y by (simp add: poll_s_def)
  show ?thesis using assms unfolding Some recheck_in_def option.case
    by (simp only: a c split: if_split) (auto simp: poll_s_def)
qed (simp add: recheck_in_def poll_s_def)

lemma snap_nap_ge_poll: "300 \<le> snap_nap s now"
  by (auto simp: snap_nap_def poll_s_def recheck_ge_poll)

lemma pick_model_sleep: "pick_model x = Sleep w nap \<Longrightarrow> 300 \<le> nap"
  by (auto simp: pick_model_def Let_def recheck_ge_poll snap_nap_ge_poll split: if_splits option.splits prod.splits)

lemma budget_gate_bounds: "budget_gate x = Some nap \<Longrightarrow> 1 \<le> nap \<and> nap \<le> 60"
  by (auto simp: budget_gate_def budget_nap_def Let_def max_def min_def split: if_splits option.splits)

lemma before_round_sleep:
  assumes "before_round x st = Sleep w nap"
  shows "1 \<le> nap \<and> (w \<in> {ForCapacity, ForBudget} \<longrightarrow> nap \<le> 60) \<and> (w = ForGithub \<longrightarrow> 300 \<le> nap \<and> nap \<le> 3600)
    \<and> (w = ForQuota \<longrightarrow> 300 \<le> nap)"
proof -
  have w: "pick_model x = Sleep w' n' \<Longrightarrow> w' = ForQuota" for w' n'
    by (auto simp: pick_model_def Let_def split: if_splits option.splits prod.splits)
  have g: "300 \<le> github_nap t low \<and> github_nap t low \<le> 3600" for t low
    by (auto simp: github_nap_def Let_def poll_s_def)
  from assms consider "w = ForCapacity" "nap = 5" | "w = ForBudget" "budget_gate x = Some nap"
    | t low where "w = ForGithub" "nap = github_nap t low" | "pick_model x = Sleep w nap"
    unfolding before_round_def
    by (cases "cy_fleet x"; cases "recovery_only x st"; cases "budget_gate x"; cases "pick_model x";
        cases "low_buckets x = []") (simp_all, metis+)?
  then show ?thesis
  proof cases
    case 2
    then show ?thesis using budget_gate_bounds [of x nap] by simp
  next
    case 3
    then show ?thesis using g [of t low] by simp
  next
    case 4
    then show ?thesis using w [OF 4] pick_model_sleep [OF 4] by simp
  qed simp
qed

text \<open>
  the loop never spins. Every wait before a round sleeps at least a second, five minutes when it waits
  for quota or GitHub, a minute at most when it waits for capacity or funds; and after a round it goes
  on at once only for an idle recovery probe or for the first of a run of claim collisions, and never
  more than fifteen minutes later unless GitHub named the time.
\<close>

theorem loop_never_spins:
  assumes "loop_turn x rc oc st = (st', t)"
  shows "case t of
      Slept w nap \<Rightarrow> st' = st \<and> 1 \<le> nap \<and> (w \<in> {ForCapacity, ForBudget} \<longrightarrow> nap \<le> 60)
        \<and> (w = ForGithub \<longrightarrow> 300 \<le> nap \<and> nap \<le> 3600) \<and> (w = ForQuota \<longrightarrow> 300 \<le> nap)
    | Ran m pending recovery nap \<Rightarrow>
        (nap < 1 \<longrightarrow> rc = ex_recovery_idle \<or> rc = ex_claim_collision \<and> lp_collision st = 0 \<and> lp_collision st' = 1)
        \<and> 0 \<le> nap \<and> (rc \<noteq> ex_github_wait \<longrightarrow> nap \<le> 900)
    | Ended \<Rightarrow> st' = st"
proof (cases "before_round x st")
  case (Sleep w nap)
  then show ?thesis using assms before_round_sleep [OF Sleep] by (auto simp: loop_turn_def)
next
  case (Run m pending recovery)
  then have t: "t = Ran m pending recovery (snd (after_round recovery rc oc st))" and st': "st' = fst (after_round recovery rc oc st)"
    using assms by (auto simp: loop_turn_def case_prod_beta)
  have adm: "\<not> admission_nap s k < 1" "0 \<le> admission_nap s k" "admission_nap s k \<le> 900" for s k
    by (auto simp: admission_nap_def min_def)
  have fail: "\<not> failure_nap (Suc n) < 1" "0 \<le> failure_nap (Suc n)" "failure_nap (Suc n) \<le> 900" for n
    using failure_nap_bounds [of n] by auto
  show ?thesis
    unfolding t st' turn.case
    by (simp add: adm fail after_round_def Let_def interround_def ex_documentation_wait_def ex_admission_wait_def
        ex_github_wait_def ex_recovery_idle_def ex_claim_collision_def max_def min_def split: option.split)
qed (use assms in \<open>auto simp: loop_turn_def\<close>)

section \<open>Concrete turns\<close>

definition ready_cycle :: cycle where
  "ready_cycle = \<lparr>cy_now = 0, cy_worker = ''w'', cy_fleet = None, cy_due = False, cy_audit_only = False,
     cy_scan_only = False, cy_api = False, cy_use_budget = False, cy_budget = None, cy_agent = Auto,
     cy_ignore_quota = False, cy_command = None,
     cy_codex = (\<lambda>_. (failed_provider Codex NoCredentials None False)\<lparr>p_available := True\<rparr>),
     cy_claude = (\<lambda>_. failed_provider Claude NoCredentials None False), cy_mirror = False, cy_github = None\<rparr>"

definition plain_outcome :: outcome where
  "plain_outcome = \<lparr>oc_now = 0, oc_fleet = False, oc_state = OtherState, oc_next = None\<rparr>"

lemma ready_before: "before_round ready_cycle loop_start = Run (Paced Codex) False False"
  by (simp add: before_round_def recovery_only_def budget_gate_def pick_model_def unpaced_def choose_model_auto
      low_buckets_def ready_cycle_def)


theorem round_agrees_with_loop_witness:
  "resolve_work_model False True None (Paced Codex) (cy_codex ready_cycle) (cy_claude ready_cycle) = Inr (Paced Codex, False)"
  by (rule round_agrees_with_loop [OF ready_before])
    (simp_all add: ready_cycle_def unpaced_def failed_provider_def)

theorem backoff_schedule_witness:
  "snd (after_rounds [(False, 0, plain_outcome), (False, 1, plain_outcome), (False, 75, plain_outcome)] loop_start)
     = [interround, 60, 120]"
proof -
  obtain st' naps where r: "after_rounds [(False, 0, plain_outcome), (False, 1, plain_outcome), (False, 75, plain_outcome)] loop_start = (st', naps)"
    by fastforce
  have "list_all (\<lambda>(rec, rc, oc). failing rc) [(False, 1, plain_outcome), (False, 75, plain_outcome)]"
    by (simp add: failing_def ex_documentation_wait_def ex_admission_wait_def ex_github_wait_def
        ex_recovery_idle_def ex_claim_collision_def)
  from backoff_schedule [OF this r] have "naps = [interround, 60, 120]" by simp
  with r show ?thesis by (simp del: after_rounds.simps)
qed

theorem loop_never_spins_witness:
  "case loop_turn (ready_cycle\<lparr>cy_fleet := Some HeartbeatExpired\<rparr>) 0 plain_outcome loop_start of
     (st', Slept w nap) \<Rightarrow> st' = loop_start \<and> 1 \<le> nap | _ \<Rightarrow> False"
proof -
  have t: "loop_turn (ready_cycle\<lparr>cy_fleet := Some HeartbeatExpired\<rparr>) 0 plain_outcome loop_start
      = (loop_start, Slept ForCapacity 5)"
    by (simp add: loop_turn_def before_round_def)
  from loop_never_spins [OF t] show ?thesis by (simp add: t)
qed

end
