(* ===== verification/Outbox.thy ===== *)
theory Outbox
  imports Prelude
begin

text \<open>
  The durable publication outbox (\<open>github_outbox.py\<close>): every write to GitHub is recorded as an intent before
  it is sent, its answer is classified, and \<open>drain\<close> later resends what was certainly not applied and
  reconciles what may have been. The GitHub reads that reconciliation makes and the answers to the
  writes are parameters; an intent file is modelled by its fields.
\<close>

section \<open>Command lines\<close>

text \<open>\<open>_flag\<close>: the value of the first of some flags.\<close>

definition flag_inline :: "string list \<Rightarrow> string \<Rightarrow> string option" where
  "flag_inline flags arg =
     map_option (\<lambda>f. drop (Suc (length f)) arg) (find (\<lambda>f. starts_with (f @ ''='') arg) flags)"

fun flag_value :: "string list \<Rightarrow> string list \<Rightarrow> string option" where
  "flag_value flags [] = None"
| "flag_value flags [a] = flag_inline flags a"
| "flag_value flags (a # b # rest) =
     (if a \<in> set flags then Some b
      else case flag_inline flags a of Some v \<Rightarrow> Some v | None \<Rightarrow> flag_value flags (b # rest))"

definition local_operation :: "string list \<Rightarrow> bool" where
  "local_operation args \<longleftrightarrow> take 2 args \<in> {[''pr'', ''checkout''], [''repo'', ''clone'']}"

definition fork_args :: "string list \<Rightarrow> bool" where
  "fork_args args \<longleftrightarrow> take 2 args = [''repo'', ''fork'']"

definition name_char :: "char \<Rightarrow> bool" where
  "name_char c \<longleftrightarrow> is_digit c \<or> c \<in> set ''_.-''
     \<or> (let n = of_char c :: nat in 65 \<le> n \<and> n \<le> 90 \<or> 97 \<le> n \<and> n \<le> 122)"

definition remove_prefix :: "string \<Rightarrow> string \<Rightarrow> string" where
  "remove_prefix p s = (if starts_with p s then drop (length p) s else s)"

definition remove_suffix :: "string \<Rightarrow> string \<Rightarrow> string" where
  "remove_suffix p s = rev (remove_prefix (rev p) (rev s))"

definition slash :: char where "slash = CHR ''/''"

definition fork_upstream :: "string list \<Rightarrow> string option" where
  "fork_upstream args =
     (case args of
        a # b # name # flags \<Rightarrow>
          if [a, b] \<noteq> [''repo'', ''fork''] \<or> \<not> set flags \<subseteq> {''--clone=false'', ''--remote=false''} then None
          else (let up = rev (dropWhile (\<lambda>c. c = slash)
                         (rev (remove_suffix ''.git'' (remove_prefix ''https://github.com/'' name))))
                in case split_on slash up of
                     [owner, repo] \<Rightarrow>
                       if owner \<noteq> [] \<and> repo \<noteq> [] \<and> list_all name_char owner \<and> list_all name_char repo
                       then Some up else None
                   | _ \<Rightarrow> None)
      | _ \<Rightarrow> None)"

text \<open>The path segments of an API endpoint, with one leading slash allowed.\<close>

definition segments :: "string \<Rightarrow> string list" where
  "segments s = split_on slash (remove_prefix [slash] s)"

definition all_digits :: "string \<Rightarrow> bool" where
  "all_digits s \<longleftrightarrow> s \<noteq> [] \<and> list_all is_digit s"

definition is_comment_endpoint :: "string \<Rightarrow> bool" where
  "is_comment_endpoint s =
     (case segments s of
        [r, owner, repo, k, c, n] \<Rightarrow> r = ''repos'' \<and> owner \<noteq> [] \<and> repo \<noteq> []
           \<and> k \<in> {''issues'', ''pulls''} \<and> c = ''comments'' \<and> all_digits n
      | _ \<Rightarrow> False)"

definition is_issue_endpoint :: "string \<Rightarrow> bool" where
  "is_issue_endpoint s =
     (case segments s of [r, owner, repo, k] \<Rightarrow> r = ''repos'' \<and> owner \<noteq> [] \<and> repo \<noteq> [] \<and> k = ''issues'' | _ \<Rightarrow> False)"

text \<open>\<open>.../(issues|pulls)/N/(comments|comments/M/replies|reviews)\<close>; the reply's parent \<open>M\<close>.\<close>

definition discussion_endpoint :: "string \<Rightarrow> string option option" where
  "discussion_endpoint s =
     (case segments s of
        r # owner # repo # k # n # rest \<Rightarrow>
          if r = ''repos'' \<and> owner \<noteq> [] \<and> repo \<noteq> [] \<and> k \<in> {''issues'', ''pulls''} \<and> all_digits n
          then (case rest of
                  [x] \<Rightarrow> if x \<in> {''comments'', ''reviews''} then Some None else None
                | [x, m, y] \<Rightarrow> if x = ''comments'' \<and> all_digits m \<and> y = ''replies'' then Some (Some m) else None
                | _ \<Rightarrow> None)
          else None
      | _ \<Rightarrow> None)"

section \<open>Intents\<close>

datatype istatus = Prepared | Rejected | Sending | Ambiguous

text \<open>
  The fields of an intent file that the outbox reads. \<open>in_body\<close> is the body the publication carries, from its
  recorded context, its retained input or its \<open>body=\<close> argument.
\<close>

record intent =
  in_argv :: "string list"
  in_status :: istatus
  in_created :: rat
  in_updated :: "rat option"
  in_retry_at :: rat
  in_cwd :: "string option"
  in_repo :: "string option"
  in_pr :: "string option"
  in_body :: "string option"
  in_head :: "string option"
  in_expected :: "string option"
  in_actor :: "string option"
  in_upstream :: "string option"
  in_upstream_id :: "int option"
  in_absent_since :: "rat option"
  in_fork_retries :: nat
  in_assets :: "(nat \<times> string) list"
  in_input :: "string option"

text \<open>
  \<open>target\<close>: the repository and number a publication is about. The URL forms are searched in every
  argument; \<open>None\<close> is \<open>(None, None)\<close>.
\<close>

definition url_target :: "string \<Rightarrow> (string \<times> int) option" where
  "url_target rest =
     (case split_on slash rest of
        owner # repo # k # n # _ \<Rightarrow>
          (let ds = takeWhile is_digit n
           in if owner \<noteq> [] \<and> repo \<noteq> [] \<and> k \<in> {''issues'', ''pull'', ''pulls''} \<and> ds \<noteq> []
              then Some (owner @ [slash] @ repo, int (digits_nat ds)) else None)
      | _ \<Rightarrow> None)"

fun search_url :: "string \<Rightarrow> (string \<times> int) option" where
  "search_url [] = None"
| "search_url (c # s) =
     (if starts_with ''https://github.com/'' (c # s)
      then (case url_target (drop (length ''https://github.com/'') (c # s)) of
              Some t \<Rightarrow> Some t | None \<Rightarrow> search_url s)
      else search_url s)"

definition arg_target :: "string \<Rightarrow> (string \<times> int) option" where
  "arg_target arg =
     (case (if starts_with ''repos/'' (remove_prefix [slash] arg)
            then url_target (drop (length ''repos/'') (remove_prefix [slash] arg)) else None) of
        Some t \<Rightarrow> Some t | None \<Rightarrow> search_url arg)"

fun first_target :: "string list \<Rightarrow> (string \<times> int) option" where
  "first_target [] = None"
| "first_target (a # as) = (case arg_target a of Some t \<Rightarrow> Some t | None \<Rightarrow> first_target as)"

definition given_text :: "string option \<Rightarrow> bool" where
  "given_text v \<longleftrightarrow> v \<noteq> None \<and> v \<noteq> Some []"

definition target :: "intent \<Rightarrow> (string \<times> int) option" where
  "target i =
     (case first_target (in_argv i) of
        Some t \<Rightarrow> Some t
      | None \<Rightarrow>
          (let repo = (if given_text (in_repo i) then in_repo i else flag_value [''--repo'', ''-R''] (in_argv i));
               number = (case in_argv i of
                   a # b # n # _ \<Rightarrow> if a = ''pr'' \<and> all_digits n then Some n else in_pr i | _ \<Rightarrow> in_pr i)
           in case (repo, number) of
                (Some r, Some n) \<Rightarrow> if r \<noteq> [] \<and> all_digits n then Some (r, int (digits_nat n)) else None
              | _ \<Rightarrow> None))"

section \<open>Classifying an answer\<close>

record wire =
  wi_method :: string
  wi_status :: int
  wi_exhausted :: bool
  wi_graphql_read :: bool

record reply =
  rp_code :: int
  rp_text :: string
  rp_stdout :: "json option"
  rp_records :: "wire list"
  rp_before_request :: bool
  rp_content_throttle :: bool
  rp_retry_safe :: bool

fun contains :: "string \<Rightarrow> string \<Rightarrow> bool" where
  "contains p [] = (p = [])"
| "contains p (c # s) = (starts_with p (c # s) \<or> contains p s)"

definition quota_words :: "string list" where
  "quota_words = [''rate limit'', ''retry-after'', ''quota'', ''creation cap'']"

definition quota_reply :: "reply \<Rightarrow> bool" where
  "quota_reply r \<longleftrightarrow> list_ex (\<lambda>w. wi_exhausted w \<or> wi_status w = 429) (rp_records r)
     \<or> list_ex (\<lambda>p. contains p (py_lower (rp_text r))) quota_words"

definition reply_dict :: "reply \<Rightarrow> jdict" where
  "reply_dict r = (case rp_stdout r of Some (JObj d) \<Rightarrow> d | _ \<Rightarrow> [])"

definition reply_errors :: "reply \<Rightarrow> json list" where
  "reply_errors r = (case jget0 (reply_dict r) ''errors'' of JArr es \<Rightarrow> es | _ \<Rightarrow> [])"

definition rejected_logically :: "reply \<Rightarrow> bool" where
  "rejected_logically r \<longleftrightarrow> reply_errors r \<noteq> []
     \<and> (case jget0 (reply_dict r) ''data'' of
          JNull \<Rightarrow> True | JObj d \<Rightarrow> list_all (\<lambda>(k, v). v = JNull) d | _ \<Rightarrow> False)"

definition error_code :: "json \<Rightarrow> string option" where
  "error_code e =
     (case e of
        JObj d \<Rightarrow>
          (if truthy (jget0 d ''type'') then (case jget0 d ''type'' of JStr s \<Rightarrow> Some s | _ \<Rightarrow> None)
           else case jget0 d ''extensions'' of
                  JObj x \<Rightarrow> (case jget0 x ''code'' of JStr s \<Rightarrow> Some s | _ \<Rightarrow> None)
                | _ \<Rightarrow> None)
      | _ \<Rightarrow> None)"

definition terminal_types :: "string list" where
  "terminal_types = [''FORBIDDEN'', ''UNAUTHORIZED'', ''INSUFFICIENT_SCOPES'', ''NOT_FOUND'', ''GRAPHQL_VALIDATION_FAILED'']"

definition all_codes :: "string list \<Rightarrow> reply \<Rightarrow> bool" where
  "all_codes codes r \<longleftrightarrow> list_all (\<lambda>e. case error_code e of Some c \<Rightarrow> c \<in> set codes | None \<Rightarrow> False) (reply_errors r)"

definition write_records :: "reply \<Rightarrow> wire list" where
  "write_records r = filter (\<lambda>w. wi_method w \<notin> {''GET'', ''HEAD'', ''OPTIONS''} \<and> \<not> wi_graphql_read w) (rp_records r)"

definition rejected_records :: "reply \<Rightarrow> wire list" where
  "rejected_records r = (if write_records r \<noteq> [] then write_records r else rp_records r)"

definition auth_rejected :: "reply \<Rightarrow> bool" where
  "auth_rejected r \<longleftrightarrow> rejected_records r \<noteq> [] \<and> list_all (\<lambda>w. wi_status w = 401) (rejected_records r)"

definition client_rejected :: "reply \<Rightarrow> bool" where
  "client_rejected r \<longleftrightarrow> rejected_records r \<noteq> []
     \<and> list_all (\<lambda>w. 400 \<le> wi_status w \<and> wi_status w < 500) (rejected_records r)
     \<and> \<not> quota_reply r \<and> \<not> auth_rejected r"

definition definitive :: "reply \<Rightarrow> bool" where
  "definitive r \<longleftrightarrow> rp_before_request r \<or> auth_rejected r
     \<or> rejected_logically r \<and> all_codes [''RATE_LIMIT'', ''RATE_LIMITED''] r
     \<or> rp_content_throttle r \<and> rp_retry_safe r
     \<or> write_records r \<noteq> [] \<and> list_all (\<lambda>w. wi_status w \<in> {403, 429}) (write_records r)"

text \<open>What becomes of an intent: it stays in the outbox in some form, or leaves it.\<close>

datatype leave = Acknowledged | FoundApplied | Archived string

datatype fate = Stays intent | Leaves leave

text \<open>\<open>_finish_locked\<close>.\<close>

definition finish :: "rat \<Rightarrow> reply \<Rightarrow> intent \<Rightarrow> fate" where
  "finish now r i =
     (if rp_code r = 0 \<and> fork_args (in_argv i)
      then Stays (i\<lparr>in_status := Ambiguous, in_updated := Some now, in_retry_at := now + 60\<rparr>)
      else if rp_code r = 0 then Leaves Acknowledged
      else if rejected_logically r \<and> all_codes terminal_types r \<and> \<not> quota_reply r
      then Leaves (Archived ''GraphQL rejected the mutation'')
      else if client_rejected r then Leaves (Archived ''GitHub rejected the publication'')
      else Stays (i\<lparr>in_fork_retries := (if definitive r \<and> fork_args (in_argv i) then in_fork_retries i - 1 else in_fork_retries i),
                   in_status := (if definitive r then Rejected else Ambiguous),
                   in_retry_at := (if auth_rejected r then now + 300 else in_retry_at i),
                   in_updated := Some now\<rparr>))"

section \<open>Reconciliation\<close>

record item =
  it_body :: "string option"
  it_login :: string
  it_time :: "rat option"
  it_reply_to :: string
  it_is_pr :: bool

record live_pr =
  lv_state :: string
  lv_head :: string
  lv_login :: string
  lv_labels :: "string list"

record fork_evidence =
  fe_actor :: string
  fe_upstream_id :: int
  fe_fork :: bool
  fe_absent :: bool
  fe_observed :: rat

record evidence =
  ev_fork :: "fork_evidence option"
  ev_live :: "live_pr option"
  ev_thread :: "(bool option \<times> bool option) option option"
  ev_prs :: "(item list \<times> bool) option"
  ev_items :: "item list option"
  ev_actor :: "string option"
  ev_account :: "string option"

datatype verdict = VApplied | VAbsent | VUnknown | VObsolete | VPermanent

fun normalize_newlines :: "string \<Rightarrow> string" where
  "normalize_newlines [] = []"
| "normalize_newlines [c] = [c]"
| "normalize_newlines (c # d # s) =
     (if (of_char c :: nat) = 13 \<and> (of_char d :: nat) = 10 then d # normalize_newlines s
      else c # normalize_newlines (d # s))"

definition same_body :: "string option \<Rightarrow> string option \<Rightarrow> bool" where
  "same_body l r =
     (case (l, r) of
        (Some a, Some b) \<Rightarrow> py_strip (normalize_newlines a) = py_strip (normalize_newlines b)
      | _ \<Rightarrow> False)"

definition close_holds :: "string list" where
  "close_holds = [''keep'', ''hold'', ''wip'', ''human'', ''on-hold'', ''do-not-close'']"

definition hex40 :: "string \<Rightarrow> bool" where
  "hex40 s \<longleftrightarrow> length s = 40 \<and> list_all (\<lambda>c. is_digit c \<or> (let n = of_char c :: nat in 97 \<le> n \<and> n \<le> 102)) s"

definition reconcile_fork :: "rat \<Rightarrow> evidence \<Rightarrow> intent \<Rightarrow> verdict \<times> intent" where
  "reconcile_fork now ev i =
     (case (fork_upstream (in_argv i), ev_fork ev) of
        (Some up, Some e) \<Rightarrow>
          (let who = (if given_text (in_actor i) then in_actor i else ev_account ev)
           in if \<not> given_text who \<or> fe_actor e \<noteq> py_lower (the who) then (VUnknown, i)
              else if (case in_upstream_id i of None \<Rightarrow> False | Some n \<Rightarrow> n \<noteq> fe_upstream_id e) then (VUnknown, i)
              else if py_lower (case in_upstream i of None \<Rightarrow> up | Some u \<Rightarrow> u) \<noteq> py_lower up then (VUnknown, i)
              else (let j = i\<lparr>in_actor := Some (fe_actor e), in_upstream := Some up, in_upstream_id := Some (fe_upstream_id e)\<rparr>
                    in if fe_fork e then (VApplied, j)
                       else if \<not> fe_absent e then (VUnknown, j)
                       else (let first = (case in_absent_since j of None \<Rightarrow> fe_observed e | Some t \<Rightarrow> t);
                                 k = j\<lparr>in_absent_since := Some first\<rparr>;
                                 touched = (case in_updated k of None \<Rightarrow> in_created k | Some t \<Rightarrow> t)
                             in if fe_observed e - first < 300 \<or> now - touched < 300 then (VUnknown, k)
                                else if in_fork_retries k < 1 then (VAbsent, k) else (VUnknown, k))))
      | _ \<Rightarrow> (VUnknown, i))"

definition reconcile_close :: "evidence \<Rightarrow> intent \<Rightarrow> verdict" where
  "reconcile_close ev i =
     (case (target i, ev_live ev) of
        (Some t, Some live) \<Rightarrow>
          if lv_state live = ''closed'' then VApplied
          else if \<not> (case in_expected i of None \<Rightarrow> False | Some h \<Rightarrow> hex40 h) \<or> \<not> given_text (in_actor i) then VUnknown
          else if Some (lv_head live) \<noteq> in_expected i \<or> py_lower (lv_login live) \<noteq> py_lower (the (in_actor i))
               \<or> (\<exists>l\<in>set (lv_labels live). py_lower l \<in> set close_holds) then VObsolete
          else if lv_state live = ''open'' then VAbsent else VUnknown
      | _ \<Rightarrow> VUnknown)"

definition reconcile_thread :: "evidence \<Rightarrow> verdict" where
  "reconcile_thread ev =
     (case ev_thread ev of
        None \<Rightarrow> VUnknown
      | Some None \<Rightarrow> VPermanent
      | Some (Some (resolved, can)) \<Rightarrow>
          if resolved = Some True then VApplied
          else if can = Some False then VPermanent
          else if resolved = Some False \<and> can = Some True then VAbsent else VUnknown)"

text \<open>An item of a listing that acknowledges an intent.\<close>

definition pr_matches :: "string \<Rightarrow> intent \<Rightarrow> item \<Rightarrow> bool" where
  "pr_matches who i n \<longleftrightarrow> py_lower (it_login n) = py_lower who
     \<and> (in_created i = 0 \<or> (case it_time n of None \<Rightarrow> False | Some t \<Rightarrow> of_int \<lfloor>in_created i\<rfloor> - 300 \<le> t))"

definition issue_matches :: "string \<Rightarrow> intent \<Rightarrow> item \<Rightarrow> bool" where
  "issue_matches who i c \<longleftrightarrow> \<not> it_is_pr c \<and> same_body (it_body c) (in_body i) \<and> py_lower (it_login c) = who
     \<and> (case it_time c of None \<Rightarrow> False | Some t \<Rightarrow> in_created i - 300 \<le> t)"

definition recent :: "intent \<Rightarrow> item \<Rightarrow> bool" where
  "recent i c = (case it_time c of None \<Rightarrow> in_created i = 0 | Some t \<Rightarrow> of_int \<lfloor>in_created i\<rfloor> - 300 \<le> t)"

definition comment_matches :: "string \<Rightarrow> string option \<Rightarrow> intent \<Rightarrow> item \<Rightarrow> bool" where
  "comment_matches who parent i c \<longleftrightarrow> same_body (it_body c) (in_body i) \<and> py_lower (it_login c) = who
     \<and> (case parent of None \<Rightarrow> True | Some m \<Rightarrow> it_reply_to c = m) \<and> recent i c"

definition listed_verdict :: "bool \<Rightarrow> verdict" where
  "listed_verdict found = (if found then VApplied else VAbsent)"

definition head_owner :: "intent \<Rightarrow> string" where
  "head_owner i =
     (let h = the (in_head i)
      in if CHR '':'' \<in> set h then fst (split_once (CHR '':'') h)
         else fst (split_once slash (the (in_repo i))))"

definition reconcile_create :: "evidence \<Rightarrow> intent \<Rightarrow> verdict" where
  "reconcile_create ev i =
     (if \<not> given_text (in_repo i) \<or> \<not> given_text (in_head i) then VUnknown
      else case ev_prs ev of
             None \<Rightarrow> VUnknown
           | Some (nodes, paged) \<Rightarrow>
               if list_ex (pr_matches (head_owner i) i) nodes then VApplied
               else if paged then VUnknown else VAbsent)"

text \<open>The endpoint reconciliation looks at, and the method of an API call.\<close>

definition api_method :: "string list \<Rightarrow> string" where
  "api_method args =
     (case flag_value [''-X'', ''--method''] args of
        Some m \<Rightarrow> if m = [] then (if \<exists>a\<in>set args. a \<in> {''-f'', ''-F'', ''--input''} then ''POST'' else ''GET'')
                  else map (\<lambda>c. let n = of_char c :: nat in if 97 \<le> n \<and> n \<le> 122 then char_of (n - 32) else c) m
      | None \<Rightarrow> if \<exists>a\<in>set args. a \<in> {''-f'', ''-F'', ''--input''} then ''POST'' else ''GET'')"

definition api_call :: "intent \<Rightarrow> bool" where
  "api_call i \<longleftrightarrow> take 1 (in_argv i) = [''api'']"

text \<open>The first argument of an API call that is an endpoint below a repository.\<close>

definition api_endpoint :: "string list \<Rightarrow> string option" where
  "api_endpoint args =
     find (\<lambda>a. case segments a of r # owner # repo # x # _ \<Rightarrow> r = ''repos'' \<and> owner \<noteq> [] \<and> repo \<noteq> [] | _ \<Rightarrow> False)
       (tl args)"

definition idempotent_api :: "intent \<Rightarrow> bool" where
  "idempotent_api i \<longleftrightarrow> api_call i
     \<and> (api_method (in_argv i) \<in> {''PATCH'', ''PUT'', ''DELETE''}
        \<or> (case api_endpoint (in_argv i) of None \<Rightarrow> False | Some e \<Rightarrow> starts_with (rev ''/reactions'') (rev e)))"

definition creates_issue :: "intent \<Rightarrow> bool" where
  "creates_issue i \<longleftrightarrow> api_call i
     \<and> (case api_endpoint (in_argv i) of None \<Rightarrow> False | Some e \<Rightarrow> is_issue_endpoint e)"

text \<open>Whether an intent posts to a discussion, and the comment it replies to.\<close>

definition discussion_of :: "intent \<Rightarrow> string option option" where
  "discussion_of i =
     (if take 2 (in_argv i) \<in> {[''pr'', ''comment''], [''pr'', ''review'']}
      then (if target i = None then None else Some None)
      else if api_call i
      then (case api_endpoint (in_argv i) of None \<Rightarrow> None | Some e \<Rightarrow> discussion_endpoint e)
      else None)"

definition canonical_resolution :: string where
  "canonical_resolution =
     ''mutation($id:ID!){resolveReviewThread(input:{threadId:$id}){thread{isResolved}}}''"

definition resolution :: "string list \<Rightarrow> string option" where
  "resolution args =
     (if take 2 args \<noteq> [''api'', ''graphql''] then None
      else (let query = (case find (starts_with ''query='') args of None \<Rightarrow> [] | Some a \<Rightarrow> drop 6 a)
            in if filter (\<lambda>c. \<not> py_space c) query \<noteq> canonical_resolution then None
               else map_option (drop 3) (find (starts_with ''id='') args)))"

definition reconcile :: "rat \<Rightarrow> evidence \<Rightarrow> intent \<Rightarrow> verdict \<times> intent" where
  "reconcile now ev i =
     (let args = in_argv i
      in if fork_args args then reconcile_fork now ev i
         else if take 2 args = [''pr'', ''close''] then (reconcile_close ev i, i)
         else if given_text (resolution args) then (reconcile_thread ev, i)
         else if take 2 args = [''pr'', ''create''] then (reconcile_create ev i, i)
         else if idempotent_api i then (VAbsent, i)
         else if creates_issue i
         then (case (in_body i, ev_actor ev, ev_items ev) of
                 (Some b, Some who, Some items) \<Rightarrow>
                   (if who = [] then VUnknown else listed_verdict (list_ex (issue_matches who i) items), i)
               | _ \<Rightarrow> (VUnknown, i))
         else (case discussion_of i of
                 None \<Rightarrow> (VUnknown, i)
               | Some parent \<Rightarrow>
                   (case (in_body i, ev_actor ev, ev_items ev) of
                      (Some b, Some who, Some items) \<Rightarrow>
                        (if who = [] then VUnknown
                         else listed_verdict (list_ex (comment_matches who parent i) items), i)
                    | _ \<Rightarrow> (VUnknown, i))))"

end
