(* ===== verification/OutboxRun.thy ===== *)
theory OutboxRun
  imports Outbox
begin

text \<open>
  The operations on the outbox of one worker: \<open>prepare\<close>, which records an intent or finds the one already
  recorded, the first send, and \<open>drain\<close>, which revisits what was left in the order of creation.
\<close>

section \<open>Recording\<close>

text \<open>
  \<open>semantic_key\<close>: two commands with one key are the same publication. The digest is taken of these four
  parts, so they stand for it; a retained asset in the arguments counts by its index.
\<close>

definition has_field_file :: "string \<Rightarrow> bool" where
  "has_field_file a \<longleftrightarrow> contains ''=@'' a"

fun before_field_file :: "string \<Rightarrow> string" where
  "before_field_file [] = []"
| "before_field_file (c # s) = (if starts_with ''=@'' (c # s) then [] else c # before_field_file s)"

definition key_arg :: "(nat \<times> string) list \<Rightarrow> nat \<Rightarrow> string \<Rightarrow> string \<times> nat option" where
  "key_arg assets k a =
     (if map_of assets k = None then (a, None)
      else (if has_field_file a then before_field_file a @ ''=@'' else [], Some k))"

type_synonym skey = "(string \<times> nat option) list \<times> (string + string option) \<times> (nat \<times> string) list \<times> string option"

definition semantic_key :: "intent \<Rightarrow> skey" where
  "semantic_key i =
     (let args = map (\<lambda>(k, a). key_arg (in_assets i) k a) (zip [0..<length (in_argv i)] (in_argv i))
      in case fork_upstream (in_argv i) of
           Some up \<Rightarrow>
             (map (\<lambda>a. (a, None)) [''repo'', ''fork'', py_lower up, ''--clone=false''],
              Inl (py_lower up), in_assets i, in_input i)
         | None \<Rightarrow>
             (let flagged = flag_value [''--repo'', ''-R''] (in_argv i);
                  repo = (if given_text flagged then flagged else map_option fst (target i))
              in (args, (if given_text repo then Inl (the repo) else Inr (in_cwd i)), in_assets i, in_input i)))"

text \<open>
  The transport's reading of \<open>gh api ...\<close>: the first argument that is neither a flag nor the value of one, its
  leading slashes dropped.
\<close>

definition value_flags :: "string list" where
  "value_flags =
     [''--hostname'', ''--method'', ''-X'', ''--jq'', ''-q'', ''--header'', ''-H'', ''--field'', ''-F'',
      ''--raw-field'', ''-f'', ''--input'', ''--cache'', ''--template'', ''-t'']"

fun first_positional :: "bool \<Rightarrow> string list \<Rightarrow> string option" where
  "first_positional skip [] = None"
| "first_positional skip (a # rest) =
     (if skip then first_positional False rest
      else if a \<in> set value_flags then first_positional True rest
      else if starts_with ''-'' a then first_positional False rest
      else Some (dropWhile (\<lambda>c. c = slash) a))"

definition transport_endpoint :: "string list \<Rightarrow> string option" where
  "transport_endpoint args = (if take 1 args \<noteq> [''api''] then None else first_positional False (tl args))"

definition comment_patch :: "intent \<Rightarrow> string option" where
  "comment_patch i =
     (case transport_endpoint (in_argv i) of
        Some e \<Rightarrow> if is_comment_endpoint e \<and> flag_value [''-X'', ''--method''] (in_argv i) = Some ''PATCH'' then Some (py_lower e) else None
      | None \<Rightarrow> None)"

type_synonym box = "(string \<times> intent) list"

definition sendable :: "istatus \<Rightarrow> bool" where
  "sendable s \<longleftrightarrow> s \<in> {Prepared, Rejected}"

text \<open>\<open>supersede_comment_patches\<close>: a newer body of a comment replaces unsent and rejected edits of it.\<close>

definition supersede :: "intent \<Rightarrow> box \<Rightarrow> box" where
  "supersede i b =
     (case comment_patch i of
        None \<Rightarrow> b
      | Some e \<Rightarrow> filter (\<lambda>(k, old). \<not> (comment_patch old = Some e \<and> sendable (in_status old))) b)"

text \<open>
  \<open>prepare\<close>: \<open>exempt\<close> is an ephemeral or replaying environment, or a command the transport knows to be a read;
  \<open>name\<close> is the file name of a new intent. The result names the intent to send.
\<close>

definition prepare :: "bool \<Rightarrow> string \<Rightarrow> rat \<Rightarrow> intent \<Rightarrow> box \<Rightarrow> string option \<times> box" where
  "prepare exempt name now i b =
     (if exempt \<or> local_operation (in_argv i) then (None, b)
      else case find (\<lambda>(k, old). semantic_key old = semantic_key i) b of
             Some (k, old) \<Rightarrow> (Some k, b)
           | None \<Rightarrow> (Some name, dict_set name (i\<lparr>in_status := Prepared, in_created := now\<rparr>) (supersede i b)))"

definition may_send :: "string \<Rightarrow> box \<Rightarrow> bool" where
  "may_send k b \<longleftrightarrow> (case map_of b k of None \<Rightarrow> False | Some i \<Rightarrow> sendable (in_status i))"

definition settle_fate :: "string \<Rightarrow> fate \<Rightarrow> box \<Rightarrow> box" where
  "settle_fate k f b = (case f of Stays i \<Rightarrow> dict_set k i b | Leaves _ \<Rightarrow> dict_del k b)"

text \<open>\<open>sending\<close>: the intent is marked before the request is made.\<close>

definition mark_sending :: "rat \<Rightarrow> intent \<Rightarrow> intent" where
  "mark_sending now i = i\<lparr>in_status := Sending, in_updated := Some now\<rparr>"

text \<open>The transport's first attempt: \<open>sending\<close>, the request, \<open>finish\<close>.\<close>

definition first_send :: "rat \<Rightarrow> rat \<Rightarrow> reply \<Rightarrow> string \<Rightarrow> box \<Rightarrow> box option" where
  "first_send now later r k b =
     (case map_of b k of
        None \<Rightarrow> None
      | Some i \<Rightarrow> if sendable (in_status i)
                 then Some (settle_fate k (finish later r (mark_sending now i)) b) else None)"

section \<open>Draining\<close>

record surroundings =
  sr_now :: rat
  sr_readonly :: "string list \<Rightarrow> bool"
  sr_directory :: "string \<Rightarrow> bool"
  sr_evidence :: "string \<Rightarrow> evidence"
  sr_reply :: "string \<Rightarrow> reply option"

text \<open>
  What \<open>drain\<close> does with one intent: keep or drop it without a request, or send it, \<open>Send\<close> with the intent as
  it is written before the request.
\<close>

datatype choice = Keep intent bool bool | Drop leave | Send intent

definition optional_intent :: "intent \<Rightarrow> bool" where
  "optional_intent i \<longleftrightarrow> given_text (resolution (in_argv i))"

text \<open>The part of the loop body that may read GitHub: whether a request may be made now.\<close>

definition permission :: "surroundings \<Rightarrow> string \<Rightarrow> intent \<Rightarrow> verdict \<times> intent" where
  "permission x k i =
     (if sendable (in_status i) \<and> \<not> optional_intent i \<and> \<not> fork_args (in_argv i) then (VAbsent, i)
      else reconcile (sr_now x) (sr_evidence x k) i)"

definition drain_choice ::
  "surroundings \<Rightarrow> (string \<times> int) option list \<Rightarrow> string \<Rightarrow> intent \<Rightarrow> choice" where
  "drain_choice x blocked k i =
     (if in_retry_at i > sr_now x then Keep i True True
      else if target i \<noteq> None \<and> target i \<in> set blocked then Keep i True False
      else if local_operation (in_argv i) \<or> sr_readonly x (in_argv i)
      then Drop (Archived ''Read-only or local operation is not a GitHub publication'')
      else (let (v, j) = permission x k i
            in case v of
                 VApplied \<Rightarrow> Drop FoundApplied
               | VObsolete \<Rightarrow> Drop (Archived ''Recorded PR head, ownership or pause changed; closure not replayed'')
               | VPermanent \<Rightarrow> Drop (Archived ''Review-thread resolution unavailable for this account or target'')
               | VUnknown \<Rightarrow>
                   if optional_intent i then Keep i False False
                   else Keep (j\<lparr>in_retry_at := sr_now x
                                  + (if fork_args (in_argv i) \<and> 0 < in_fork_retries j then 3600 else 60)\<rparr>) True True
               | VAbsent \<Rightarrow>
                   (case in_cwd j of
                      None \<Rightarrow> Keep i True False
                    | Some d \<Rightarrow>
                        if \<not> sr_directory x d
                        then Drop (Archived ''Publication checkout no longer exists; retained for manual recovery'')
                        else Send (j\<lparr>in_fork_retries := in_fork_retries j + (if fork_args (in_argv i) then 1 else 0),
                                     in_status := Sending\<rparr>))))"

text \<open>
  One turn of the loop: the new outbox, whether the intent remains, whether it blocks its target, and
  whether a request was made. A failed subprocess leaves the intent ambiguous, and blocks nothing.
\<close>

definition drain_one ::
  "surroundings \<Rightarrow> (string \<times> int) option list \<Rightarrow> string \<Rightarrow> intent \<Rightarrow> box \<Rightarrow> box \<times> bool \<times> bool \<times> bool" where
  "drain_one x blocked k i b =
     (case drain_choice x blocked k i of
        Keep j remains blocks \<Rightarrow> (dict_set k j b, remains, blocks, False)
      | Drop why \<Rightarrow> (dict_del k b, False, False, False)
      | Send j \<Rightarrow>
          (case sr_reply x k of
             None \<Rightarrow> (dict_set k (j\<lparr>in_status := Ambiguous\<rparr>) b, True, False, True)
           | Some r \<Rightarrow>
               (let f = finish (sr_now x) r j; stays = (case f of Stays _ \<Rightarrow> \<not> optional_intent i | Leaves _ \<Rightarrow> False)
                in (settle_fate k f b, stays, stays, True))))"

text \<open>The loop of \<open>drain\<close> over the paths it listed at its start: what remains, and what was sent in which order.\<close>

fun drain_loop ::
  "surroundings \<Rightarrow> (string \<times> int) option list \<Rightarrow> string list \<Rightarrow> box \<Rightarrow> box \<times> string list \<times> string list" where
  "drain_loop x blocked [] b = (b, [], [])"
| "drain_loop x blocked (k # ks) b =
     (case map_of b k of
        None \<Rightarrow> drain_loop x blocked ks b
      | Some i \<Rightarrow>
          (let (b1, remains, blocks, sent) = drain_one x blocked k i b;
               (b2, left, sends) = drain_loop x (if blocks then target i # blocked else blocked) ks b1
           in (b2, (if remains then [k] else []) @ left, (if sent then [k] else []) @ sends)))"

definition creation_order :: "box \<Rightarrow> string list" where
  "creation_order b = map fst (sort_key (\<lambda>(k, i). in_created i) (sort_key fst b))"

definition drain :: "surroundings \<Rightarrow> box \<Rightarrow> box \<times> string list \<times> string list" where
  "drain x b = drain_loop x [] (creation_order b) b"

end
