(* ===== verification/OutboxLaws.thy ===== *)
theory OutboxLaws
  imports OutboxRun
begin

text \<open>
  What the outbox guarantees of publications: recorded once, applied at most once, never overtaken by a
  later one to the same target, and never forgotten without a reason.
\<close>

section \<open>The system\<close>

text \<open>Commands whose effect may be repeated without harm.\<close>

definition repeatable :: "string list \<Rightarrow> bool" where
  "repeatable args \<longleftrightarrow>
     take 1 args = [''api''] \<and> (api_method args \<in> {''PATCH'', ''PUT'', ''DELETE''}
        \<or> (case api_endpoint args of None \<Rightarrow> False | Some e \<Rightarrow> starts_with (rev ''/reactions'') (rev e)))
     \<or> take 2 args = [''pr'', ''close''] \<or> given_text (resolution args)"

text \<open>
  What GitHub and its transport promise: a request that never left, an authentication failure, a GraphQL
  answer that is all errors, a throttle marked safe to retry and a client error were not applied; and a
  complete listing or fork discovery shows what was applied.
\<close>

definition honest_reply :: "reply \<Rightarrow> bool \<Rightarrow> bool" where
  "honest_reply r done \<longleftrightarrow>
     (done \<longrightarrow> \<not> rp_before_request r \<and> \<not> auth_rejected r \<and> \<not> rejected_logically r
        \<and> \<not> (rp_content_throttle r \<and> rp_retry_safe r)
        \<and> \<not> (write_records r \<noteq> [] \<and> list_all (\<lambda>w. wi_status w \<in> {403, 429}) (write_records r)))"

definition honest_evidence :: "evidence \<Rightarrow> intent \<Rightarrow> bool \<Rightarrow> bool" where
  "honest_evidence ev i done \<longleftrightarrow>
     (done \<longrightarrow>
        (case ev_fork ev of None \<Rightarrow> True | Some e \<Rightarrow> fe_fork e \<or> \<not> fe_absent e)
        \<and> (case ev_prs ev of None \<Rightarrow> True | Some (nodes, paged) \<Rightarrow> paged \<or> list_ex (pr_matches (head_owner i) i) nodes)
        \<and> (case (ev_actor ev, ev_items ev) of
             (Some who, Some items) \<Rightarrow>
               (creates_issue i \<longrightarrow> list_ex (issue_matches who i) items)
               \<and> (\<forall>parent. discussion_of i = Some parent \<longrightarrow> list_ex (comment_matches who parent i) items)
           | _ \<Rightarrow> True))"

record system =
  sy_box :: box
  sy_effects :: "string \<Rightarrow> nat"
  sy_command :: "string \<Rightarrow> string list"

definition bump :: "string \<Rightarrow> bool \<Rightarrow> (string \<Rightarrow> nat) \<Rightarrow> string \<Rightarrow> nat" where
  "bump k done f = f(k := f k + (if done then 1 else 0))"

text \<open>A request may or may not be applied before its answer is lost with the process.\<close>

inductive outbox_step :: "system \<Rightarrow> system \<Rightarrow> bool" where
  Record: "prepare exempt name now i (sy_box s) = (Some name, b) \<Longrightarrow> map_of (sy_box s) name = None \<Longrightarrow>
     outbox_step s (s\<lparr>sy_box := b, sy_effects := (sy_effects s)(name := 0),
                     sy_command := (sy_command s)(name := in_argv i)\<rparr>)"
| Again: "prepare exempt name now i (sy_box s) = (found, sy_box s) \<Longrightarrow> outbox_step s s"
| First: "map_of (sy_box s) k = Some i \<Longrightarrow> first_send now later r k (sy_box s) = Some b \<Longrightarrow> honest_reply r done \<Longrightarrow>
     outbox_step s (s\<lparr>sy_box := b, sy_effects := bump k done (sy_effects s)\<rparr>)"
| Crash: "map_of (sy_box s) k = Some i \<Longrightarrow> may_send k (sy_box s) \<Longrightarrow>
     outbox_step s (s\<lparr>sy_box := dict_set k (mark_sending now i) (sy_box s), sy_effects := bump k done (sy_effects s)\<rparr>)"
| Drain: "map_of (sy_box s) k = Some i \<Longrightarrow> drain_one x blocked k i (sy_box s) = (b, remains, blocks, sent) \<Longrightarrow>
     honest_evidence (sr_evidence x k) i (0 < sy_effects s k) \<Longrightarrow>
     (case sr_reply x k of None \<Rightarrow> True | Some r \<Rightarrow> honest_reply r done) \<Longrightarrow> (done \<longrightarrow> sent) \<Longrightarrow>
     outbox_step s (s\<lparr>sy_box := b, sy_effects := bump k done (sy_effects s)\<rparr>)"
| DrainCrash: "map_of (sy_box s) k = Some i \<Longrightarrow> drain_choice x blocked k i = Send j \<Longrightarrow>
     honest_evidence (sr_evidence x k) i (0 < sy_effects s k) \<Longrightarrow>
     outbox_step s (s\<lparr>sy_box := dict_set k j (sy_box s), sy_effects := bump k done (sy_effects s)\<rparr>)"

inductive outbox_run :: "system \<Rightarrow> bool" where
  Empty: "outbox_run \<lparr>sy_box = [], sy_effects = (\<lambda>k. 0), sy_command = (\<lambda>k. [])\<rparr>"
| Next: "outbox_run s \<Longrightarrow> outbox_step s s' \<Longrightarrow> outbox_run s'"

section \<open>The invariant\<close>

text \<open>What identifies an intent, and is never changed while it waits.\<close>

definition same_command :: "intent \<Rightarrow> intent \<Rightarrow> bool" where
  "same_command i j \<longleftrightarrow> in_argv j = in_argv i \<and> in_assets j = in_assets i \<and> in_input j = in_input i
     \<and> in_cwd j = in_cwd i \<and> in_repo j = in_repo i \<and> in_pr j = in_pr i"

lemma same_command_refl [simp]: "same_command i i"
  by (simp add: same_command_def)

lemma same_command_key:
  assumes "same_command i j"
  shows "semantic_key j = semantic_key i"
proof -
  have e: "in_argv j = in_argv i" "in_assets j = in_assets i" "in_input j = in_input i"
    "in_cwd j = in_cwd i" "in_repo j = in_repo i" "in_pr j = in_pr i"
    using assms by (simp_all add: same_command_def)
  show ?thesis unfolding semantic_key_def target_def e ..
qed

definition outbox_inv :: "system \<Rightarrow> bool" where
  "outbox_inv s \<longleftrightarrow>
     distinct (map fst (sy_box s)) \<and> distinct (map (semantic_key \<circ> snd) (sy_box s))
     \<and> (\<forall>k. \<not> repeatable (sy_command s k) \<longrightarrow> sy_effects s k \<le> 1)
     \<and> (\<forall>k i. map_of (sy_box s) k = Some i \<longrightarrow> in_argv i = sy_command s k
          \<and> (\<not> repeatable (in_argv i) \<and> sendable (in_status i) \<longrightarrow> sy_effects s k = 0))"

lemma finish_stays:
  assumes "finish now r i = Stays j"
  shows "same_command i j \<and> (sendable (in_status j) \<longrightarrow> definitive r \<and> rp_code r \<noteq> 0)"
  using assms by (auto simp: finish_def same_command_def sendable_def split: if_splits)

lemma definitive_not_done: "definitive r \<Longrightarrow> honest_reply r done \<Longrightarrow> \<not> done"
  by (auto simp: definitive_def honest_reply_def)

lemma reconcile_fork_same:
  "same_command i (snd (reconcile_fork now ev i)) \<and> in_status (snd (reconcile_fork now ev i)) = in_status i"
  by (simp add: reconcile_fork_def Let_def same_command_def split: option.split)

lemma reconcile_fork_absent:
  assumes "reconcile_fork now ev i = (VAbsent, j)"
  shows "\<exists>e. ev_fork ev = Some e \<and> \<not> fe_fork e \<and> fe_absent e"
proof -
  have "fst (reconcile_fork now ev i) = VAbsent \<longrightarrow> (\<exists>e. ev_fork ev = Some e \<and> \<not> fe_fork e \<and> fe_absent e)"
    by (simp add: reconcile_fork_def Let_def split: option.split)
  with assms show ?thesis by simp
qed

text \<open>The branches of \<open>reconcile\<close> other than a fork leave the intent as it is.\<close>

lemma reconcile_cases:
  obtains "fork_args (in_argv i)" and "reconcile now ev i = reconcile_fork now ev i"
  | "\<not> fork_args (in_argv i)" and "snd (reconcile now ev i) = i"
proof (cases "fork_args (in_argv i)")
  case False
  have "snd (reconcile now ev i) = i"
    unfolding reconcile_def Let_def using False
    by (simp split: if_split option.split)
  with False that show thesis by blast
qed (use that in \<open>simp add: reconcile_def Let_def\<close>)

lemma reconcile_same:
  assumes "reconcile now ev i = (v, j)"
  shows "same_command i j \<and> in_status j = in_status i"
proof (cases rule: reconcile_cases [of i now ev])
  case 1
  then have "j = snd (reconcile_fork now ev i)" using assms by (metis snd_conv)
  then show ?thesis using reconcile_fork_same by simp
next
  case 2
  then show ?thesis using assms by simp
qed

lemma reconcile_absent:
  assumes "reconcile now ev i = (VAbsent, j)" and "honest_evidence ev i done" and "\<not> repeatable (in_argv i)"
  shows "\<not> done"
proof
  assume d: "done"
  have kinds: "take 2 (in_argv i) \<noteq> [''pr'', ''close'']" "\<not> given_text (resolution (in_argv i))" "\<not> idempotent_api i"
    using assms(3) by (auto simp: repeatable_def idempotent_api_def api_call_def)
  show False
  proof (cases "fork_args (in_argv i)")
    case True
    then have "reconcile_fork now ev i = (VAbsent, j)" using assms(1) by (simp add: reconcile_def Let_def)
    from reconcile_fork_absent [OF this] assms(2) d show False by (auto simp: honest_evidence_def)
  next
    case nf: False
    have create: "reconcile_create ev i \<noteq> VAbsent"
      using assms(2) d by (auto simp: reconcile_create_def honest_evidence_def split: option.split)
    show False
    proof (cases "take 2 (in_argv i) = [''pr'', ''create'']")
      case True
      then show False using assms(1) nf kinds create by (simp add: reconcile_def Let_def)
    next
      case nc: False
      obtain who items where ai: "ev_actor ev = Some who" "ev_items ev = Some items"
        using assms(1) nf nc kinds by (auto simp: reconcile_def Let_def split: if_splits option.splits)
      have "creates_issue i \<Longrightarrow> list_ex (issue_matches who i) items"
        and "discussion_of i = Some parent \<Longrightarrow> list_ex (comment_matches who parent i) items" for parent
        using assms(2) d ai by (auto simp: honest_evidence_def)
      then show False
        using assms(1) nf nc kinds ai
        by (simp add: reconcile_def Let_def listed_verdict_def split: if_splits option.splits)
    qed
  qed
qed

section \<open>Preservation\<close>

lemma same_command_trans: "same_command i j \<Longrightarrow> same_command j l \<Longrightarrow> same_command i l"
  by (simp add: same_command_def)

lemma same_command_argv: "same_command i j \<Longrightarrow> in_argv j = in_argv i"
  by (simp add: same_command_def)

lemma same_command_updates [simp]:
  "same_command i (j\<lparr>in_status := a\<rparr>) = same_command i j" "same_command i (j\<lparr>in_updated := u\<rparr>) = same_command i j"
  "same_command i (j\<lparr>in_retry_at := t\<rparr>) = same_command i j" "same_command i (j\<lparr>in_fork_retries := n\<rparr>) = same_command i j"
  by (simp_all add: same_command_def)

lemma keys_dict_set: "map_of b k = Some i \<Longrightarrow> map fst (dict_set k j b) = map fst b"
  by (induction b) (auto split: if_splits)

lemma skeys_dict_set:
  "map_of b k = Some i \<Longrightarrow> same_command i j \<Longrightarrow>
     map (semantic_key \<circ> snd) (dict_set k j b) = map (semantic_key \<circ> snd) b"
  by (induction b) (auto simp: same_command_key split: if_splits)

lemma distinct_map_dict_del: "distinct (map f b) \<Longrightarrow> distinct (map f (dict_del k b))"
  unfolding dict_del_def by (rule distinct_map_filter)

lemma permission_same:
  assumes "permission x k i = (v, j)"
  shows "same_command i j \<and> in_status j = in_status i"
  using assms reconcile_same by (auto simp: permission_def split: if_splits)

lemma permission_absent:
  assumes "permission x k i = (VAbsent, j)" and "honest_evidence (sr_evidence x k) i done" and "\<not> repeatable (in_argv i)"
  shows "sendable (in_status i) \<or> \<not> done"
  using reconcile_absent [of "sr_now x" "sr_evidence x k" i j "done"] assms
  by (cases "sendable (in_status i)") (simp_all add: permission_def)

lemma drain_choice_Keep:
  assumes "drain_choice x blocked k i = Keep j remains blocks"
  shows "same_command i j \<and> in_status j = in_status i"
proof -
  obtain v l where p: "permission x k i = (v, l)" by fastforce
  from permission_same [OF this] assms show ?thesis
    by (cases v) (simp_all add: drain_choice_def p Let_def split: if_splits option.splits, auto)
qed

lemma drain_choice_Send:
  assumes "drain_choice x blocked k i = Send j"
  obtains l where "permission x k i = (VAbsent, l)" and "same_command i j" and "in_status j = Sending"
proof -
  obtain v l where p: "permission x k i = (v, l)" by fastforce
  have v: "v = VAbsent"
    using assms by (cases v) (simp_all add: drain_choice_def p Let_def split: if_splits)
  have "j = l\<lparr>in_fork_retries := in_fork_retries l + (if fork_args (in_argv i) then 1 else 0), in_status := Sending\<rparr>"
    using assms by (simp add: drain_choice_def p v Let_def split: if_splits option.splits)
  with permission_same [OF p] that p v show thesis by simp
qed

text \<open>Writing or dropping the entry of one intent keeps the invariant if the effects allow it.\<close>

lemma inv_write:
  assumes "outbox_inv s" and "map_of (sy_box s) k = Some i" and "same_command i j"
    and "\<not> repeatable (in_argv i) \<Longrightarrow> done \<Longrightarrow> sy_effects s k = 0"
    and "\<not> repeatable (in_argv i) \<Longrightarrow> sendable (in_status j) \<Longrightarrow> \<not> done \<and> sy_effects s k = 0"
  shows "outbox_inv (s\<lparr>sy_box := dict_set k j (sy_box s), sy_effects := bump k done (sy_effects s)\<rparr>)"
  using assms keys_dict_set [OF assms(2), of j] skeys_dict_set [OF assms(2,3)]
  by (auto simp: outbox_inv_def bump_def same_command_argv [OF assms(3)] simp del: map_map)

lemma inv_drop:
  assumes "outbox_inv s" and "map_of (sy_box s) k = Some i"
    and "\<not> repeatable (in_argv i) \<Longrightarrow> done \<Longrightarrow> sy_effects s k = 0"
  shows "outbox_inv (s\<lparr>sy_box := dict_del k (sy_box s), sy_effects := bump k done (sy_effects s)\<rparr>)"
  using assms by (auto simp: outbox_inv_def bump_def distinct_map_dict_del)

lemma inv_settle:
  assumes inv: "outbox_inv s" and i: "map_of (sy_box s) k = Some i" and j: "same_command i j"
    and r: "honest_reply r done" and z: "\<not> repeatable (in_argv i) \<Longrightarrow> sy_effects s k = 0"
  shows "outbox_inv (s\<lparr>sy_box := settle_fate k (finish t r j) (sy_box s), sy_effects := bump k done (sy_effects s)\<rparr>)"
proof (cases "finish t r j")
  case (Stays l)
  note f = finish_stays [OF Stays]
  have "same_command i l" using f j same_command_trans by blast
  moreover have "sendable (in_status l) \<Longrightarrow> \<not> done" using f definitive_not_done r by blast
  ultimately have "outbox_inv (s\<lparr>sy_box := dict_set k l (sy_box s), sy_effects := bump k done (sy_effects s)\<rparr>)"
    using inv_write [OF inv i] z by blast
  then show ?thesis by (simp add: settle_fate_def Stays)
next
  case (Leaves why)
  then show ?thesis using inv_drop [OF inv i] z by (simp add: settle_fate_def)
qed

lemma unsent_effects:
  assumes "outbox_inv s" and "map_of (sy_box s) k = Some i" and "drain_choice x blocked k i = Send j"
    and "honest_evidence (sr_evidence x k) i (0 < sy_effects s k)" and "\<not> repeatable (in_argv i)"
  shows "sy_effects s k = 0"
proof -
  obtain l where "permission x k i = (VAbsent, l)" using drain_choice_Send [OF assms(3)] .
  from permission_absent [OF this assms(4,5)] show ?thesis
    using assms(1,2,5) by (auto simp: outbox_inv_def)
qed

lemma find_mem: "find P xs = Some x \<Longrightarrow> x \<in> set xs \<and> P x"
  by (induction xs) (auto split: if_splits)

lemma find_none: "find P xs = None \<Longrightarrow> x \<in> set xs \<Longrightarrow> \<not> P x"
  by (induction xs) (auto split: if_splits)

lemma prepare_new:
  assumes "prepare exempt name now i b = (Some name, b')" and "map_of b name = None"
  shows "b' = dict_set name (i\<lparr>in_status := Prepared, in_created := now\<rparr>) (supersede i b)
    \<and> (\<forall>(k, old)\<in>set b. semantic_key old \<noteq> semantic_key i)"
proof (cases "find (\<lambda>(k, old). semantic_key old = semantic_key i) b")
  case None
  then show ?thesis using assms find_none [OF None] by (auto simp: prepare_def split: if_splits)
next
  case (Some kl)
  then have "fst kl = name" using assms(1) by (auto simp: prepare_def split: if_splits prod.splits)
  with find_mem [OF Some] assms(2) show ?thesis by (cases kl) (force simp: map_of_eq_None_iff)
qed

lemma set_supersede: "set (supersede i b) \<subseteq> set b"
  by (auto simp: supersede_def split: option.splits)

lemma distinct_supersede: "distinct (map f b) \<Longrightarrow> distinct (map f (supersede i b))"
  by (auto simp: supersede_def distinct_map_filter split: option.split)

lemma dict_set_fresh: "map_of d k = None \<Longrightarrow> dict_set k v d = d @ [(k, v)]"
  by (induction d) (auto split: if_splits)

lemma semantic_key_stamp [simp]: "semantic_key (i\<lparr>in_status := a, in_created := t\<rparr>) = semantic_key i"
  using same_command_key [of i "i\<lparr>in_status := a, in_created := t\<rparr>"] by (simp add: same_command_def)

lemma inv_record:
  assumes inv: "outbox_inv s" and p: "prepare exempt name now i (sy_box s) = (Some name, b)" and fresh: "map_of (sy_box s) name = None"
  shows "outbox_inv (s\<lparr>sy_box := b, sy_effects := (sy_effects s)(name := 0), sy_command := (sy_command s)(name := in_argv i)\<rparr>)"
proof -
  let ?sup = "supersede i (sy_box s)" and ?j = "i\<lparr>in_status := Prepared, in_created := now\<rparr>"
  note n = prepare_new [OF p fresh]
  have none: "map_of ?sup name = None"
    using fresh set_supersede [of i "sy_box s"] by (force simp: map_of_eq_None_iff)
  have b: "b = ?sup @ [(name, ?j)]" using n dict_set_fresh [OF none] by simp
  have d: "distinct (map fst (sy_box s))" "distinct (map (semantic_key \<circ> snd) (sy_box s))"
    using inv by (simp_all add: outbox_inv_def)
  have mo: "map_of ?sup k = Some l \<Longrightarrow> map_of (sy_box s) k = Some l" for k l
    using set_supersede [of i "sy_box s"] map_of_SomeD [of ?sup k l] map_of_is_SomeI [OF d(1)] by blast
  have keys: "distinct (map fst b)"
    using distinct_supersede [OF d(1), of i] none by (auto simp: b map_of_eq_None_iff)
  have "semantic_key i \<notin> set (map (semantic_key \<circ> snd) ?sup)"
    using n set_supersede [of i "sy_box s"] by fastforce
  then have skeys: "distinct (map (semantic_key \<circ> snd) b)"
    using distinct_supersede [OF d(2), of i] by (simp add: b)
  have ents: "in_argv l = (if k = name then in_argv i else sy_command s k)
      \<and> (\<not> repeatable (in_argv l) \<and> sendable (in_status l) \<longrightarrow> k = name \<or> sy_effects s k = 0)"
    if "map_of b k = Some l" for k l
  proof (cases "k = name")
    case True
    then show ?thesis using that none by (auto simp: b map_of_append map_add_def split: option.splits)
  next
    case False
    then have "map_of (sy_box s) k = Some l" using that mo by (auto simp: b map_of_append map_add_def split: option.splits)
    with inv have "in_argv l = sy_command s k \<and> (\<not> repeatable (in_argv l) \<and> sendable (in_status l) \<longrightarrow> sy_effects s k = 0)"
      unfolding outbox_inv_def by blast
    with False show ?thesis by simp
  qed
  have "\<forall>k. \<not> repeatable (sy_command s k) \<longrightarrow> sy_effects s k \<le> 1" using inv by (simp add: outbox_inv_def)
  moreover have "\<forall>k l. map_of b k = Some l \<longrightarrow> in_argv l = ((sy_command s)(name := in_argv i)) k
      \<and> (\<not> repeatable (in_argv l) \<and> sendable (in_status l) \<longrightarrow> ((sy_effects s)(name := 0)) k = 0)"
    using ents by (metis fun_upd_apply)
  ultimately show ?thesis using keys skeys unfolding outbox_inv_def by (simp del: map_of_eq_Some_iff)
qed

lemma outbox_inv_step:
  assumes "outbox_step s s'" and inv: "outbox_inv s"
  shows "outbox_inv s'"
  using assms(1)
proof cases
  case (Record exempt name now i b)
  then show ?thesis using inv_record [OF inv] by simp
next
  case (First k i now later r b "done")
  then have send: "sendable (in_status i)" and b: "b = settle_fate k (finish later r (mark_sending now i)) (sy_box s)"
    by (auto simp: first_send_def split: if_splits)
  have "same_command i (mark_sending now i)" by (simp add: mark_sending_def)
  moreover have "\<not> repeatable (in_argv i) \<Longrightarrow> sy_effects s k = 0" using inv First(2) send by (auto simp: outbox_inv_def)
  ultimately show ?thesis unfolding First(1) b using inv_settle [OF inv First(2) _ First(4)] by blast
next
  case (Crash k i "done" now)
  have send: "sendable (in_status i)" using Crash by (simp add: may_send_def)
  have "\<not> repeatable (in_argv i) \<Longrightarrow> sy_effects s k = 0" using inv Crash(2) send by (auto simp: outbox_inv_def)
  then have "outbox_inv (s\<lparr>sy_box := dict_set k (mark_sending now i) (sy_box s), sy_effects := bump k done (sy_effects s)\<rparr>)"
    by (intro inv_write [OF inv Crash(2)]) (simp_all add: mark_sending_def sendable_def)
  then show ?thesis using Crash(1) by simp
next
  case (Drain k i x blocked b remains blocks sent "done")
  show ?thesis
  proof (cases "drain_choice x blocked k i")
    case (Keep j rem bl)
    then have nd: "\<not> done" and b: "b = dict_set k j (sy_box s)" using Drain by (auto simp: drain_one_def)
    have z: "\<not> repeatable (in_argv i) \<Longrightarrow> sendable (in_status j) \<Longrightarrow> sy_effects s k = 0"
      using drain_choice_Keep [OF Keep] inv Drain(2) by (auto simp: outbox_inv_def)
    show ?thesis unfolding Drain(1) b
      by (rule inv_write [OF inv Drain(2)]) (use drain_choice_Keep [OF Keep] nd z in auto)
  next
    case (Drop why)
    then have nd: "\<not> done" and b: "b = dict_del k (sy_box s)" using Drain by (auto simp: drain_one_def)
    show ?thesis unfolding Drain(1) b by (rule inv_drop [OF inv Drain(2)]) (use nd in simp)
  next
    case (Send j)
    note z = unsent_effects [OF inv Drain(2) Send Drain(4)]
    obtain l where j: "same_command i j" "in_status j = Sending" using drain_choice_Send [OF Send] .
    show ?thesis
    proof (cases "sr_reply x k")
      case None
      then have b: "b = dict_set k (j\<lparr>in_status := Ambiguous\<rparr>) (sy_box s)" using Drain(3) Send by (simp add: drain_one_def)
      show ?thesis unfolding Drain(1) b
        by (rule inv_write [OF inv Drain(2)]) (use z j in \<open>auto simp: sendable_def\<close>)
    next
      case (Some r)
      then have b: "b = settle_fate k (finish (sr_now x) r j) (sy_box s)"
        using Drain(3) Send by (simp add: drain_one_def case_prod_beta Let_def)
      have r: "honest_reply r done" using Drain(5) Some by simp
      show ?thesis unfolding Drain(1) b by (rule inv_settle [OF inv Drain(2) j(1) r z])
    qed
  qed
next
  case (DrainCrash k i x blocked j "done")
  note z = unsent_effects [OF inv DrainCrash(2,3,4)]
  obtain l where j: "same_command i j" "in_status j = Sending" using drain_choice_Send [OF DrainCrash(3)] .
  show ?thesis unfolding DrainCrash(1)
    by (rule inv_write [OF inv DrainCrash(2)]) (use z j in \<open>auto simp: sendable_def\<close>)
qed (use inv in simp)

lemma outbox_inv_run: "outbox_run s \<Longrightarrow> outbox_inv s"
  by (induction rule: outbox_run.induct) (simp_all add: outbox_inv_step, simp add: outbox_inv_def)

text \<open>
  C4: a publication is made at most once. However often a worker prepares, sends, crashes, loses answers and
  drains, the outbox holds one intent per publication, and no effect that must not be repeated, a
  comment, a review, a pull request, an issue, a fork, happens twice for one intent: what may have been
  applied is sent again only after GitHub itself showed that it was not.
\<close>

theorem published_at_most_once:
  assumes "outbox_run s"
  shows "distinct (map (semantic_key \<circ> snd) (sy_box s))
    \<and> (\<forall>k. repeatable (sy_command s k) \<or> sy_effects s k \<le> 1)"
  using outbox_inv_run [OF assms] by (auto simp: outbox_inv_def)

definition comment_intent :: intent where
  "comment_intent = \<lparr>in_argv = [''pr'', ''comment'', ''7'', ''--body'', ''hi''], in_status = Prepared, in_created = 0,
     in_updated = None, in_retry_at = 0, in_cwd = Some ''d'', in_repo = Some ''o/r'', in_pr = None, in_body = Some ''hi'',
     in_head = None, in_expected = None, in_actor = None, in_upstream = None, in_upstream_id = None,
     in_absent_since = None, in_fork_retries = 0, in_assets = [], in_input = None\<rparr>"

text \<open>A comment is recorded, sent and applied, and the process dies before the answer.\<close>

definition crashed_system :: system where
  "crashed_system = \<lparr>sy_box = [(''a'', mark_sending 1 comment_intent)], sy_effects = (\<lambda>k. 0)(''a'' := 1),
     sy_command = (\<lambda>k. [])(''a'' := in_argv comment_intent)\<rparr>"

lemma crashed_run: "outbox_run crashed_system"
proof -
  let ?s0 = "\<lparr>sy_box = [], sy_effects = (\<lambda>k. 0), sy_command = (\<lambda>k. [])\<rparr> :: system"
  let ?s1 = "?s0\<lparr>sy_box := [(''a'', comment_intent)], sy_effects := (sy_effects ?s0)(''a'' := 0),
                 sy_command := (sy_command ?s0)(''a'' := in_argv comment_intent)\<rparr>"
  have "prepare False ''a'' 0 comment_intent (sy_box ?s0) = (Some ''a'', [(''a'', comment_intent)])"
    by (simp add: prepare_def local_operation_def supersede_def comment_intent_def split: option.split)
  then have 1: "outbox_step ?s0 ?s1" by (rule Record) simp
  have "outbox_step ?s1 (?s1\<lparr>sy_box := dict_set ''a'' (mark_sending 1 comment_intent) (sy_box ?s1),
          sy_effects := bump ''a'' True (sy_effects ?s1)\<rparr>)"
    by (rule Crash [where i = comment_intent]) (simp_all add: may_send_def sendable_def comment_intent_def)
  with 1 have run: "outbox_run (?s1\<lparr>sy_box := dict_set ''a'' (mark_sending 1 comment_intent) (sy_box ?s1),
          sy_effects := bump ''a'' True (sy_effects ?s1)\<rparr>)"
    using outbox_run.intros by blast
  have "?s1\<lparr>sy_box := dict_set ''a'' (mark_sending 1 comment_intent) (sy_box ?s1),
          sy_effects := bump ''a'' True (sy_effects ?s1)\<rparr> = crashed_system"
    by (simp add: crashed_system_def bump_def fun_eq_iff)
  with run show ?thesis by simp
qed

theorem published_at_most_once_witness:
  "sy_effects crashed_system ''a'' = 1 \<and> (repeatable (sy_command crashed_system ''a'') \<or> sy_effects crashed_system ''a'' \<le> 1)"
  using published_at_most_once [OF crashed_run] by (simp add: crashed_system_def)

end
