(* ===== verification/OutboxOrder.thy ===== *)
theory OutboxOrder
  imports OutboxLaws
begin

text \<open>
  The order in which \<open>drain\<close> publishes, why an intent may leave the outbox, and that recording again the
  publication that waits finds it.
\<close>

section \<open>Order\<close>

lemma drain_one_others:
  assumes "drain_one x blocked k i b = (b', remains, blocks, sent)" and "k' \<noteq> k"
  shows "map_of b' k' = map_of b k'"
  using assms
  by (auto simp: drain_one_def settle_fate_def Let_def split: choice.splits option.splits fate.splits prod.splits)

lemma drain_one_sent:
  assumes "drain_one x blocked k i b = (b', remains, blocks, True)"
  shows "target i = None \<or> target i \<notin> set blocked"
proof -
  obtain j where "drain_choice x blocked k i = Send j"
    using assms by (auto simp: drain_one_def Let_def split: choice.splits)
  then show ?thesis by (auto simp: drain_choice_def split: if_splits)
qed

lemma drain_one_remains:
  assumes "drain_one x blocked k i b = (b', True, blocks, sent)"
    and "sr_reply x k \<noteq> None" and "in_cwd i \<noteq> None"
  shows "blocks \<or> target i \<in> set blocked"
proof (cases "drain_choice x blocked k i")
  case (Keep j r bl)
  obtain v l where p: "permission x k i = (v, l)" by fastforce
  have "in_cwd l \<noteq> None" using permission_same [OF p] assms(3) by (simp add: same_command_def)
  then show ?thesis using assms(1) Keep
    by (cases v) (simp_all add: drain_one_def drain_choice_def p Let_def split: if_splits option.splits)
next
  case (Send j)
  then show ?thesis using assms(1,2) by (auto simp: drain_one_def Let_def split: option.splits)
qed (use assms in \<open>simp add: drain_one_def\<close>)

lemma drain_loop_Cons:
  assumes "map_of b k = Some i" and "drain_one x blocked k i b = (b1, remains, blocks, sent)"
    and "drain_loop x (if blocks then target i # blocked else blocked) ks b1 = (b2, left1, sends1)"
  shows "drain_loop x blocked (k # ks) b
    = (b2, (if remains then [k] else []) @ left1, (if sent then [k] else []) @ sends1)"
  using assms by (simp add: Let_def)

lemma drain_loop_subsets:
  "drain_loop x blocked ks b = (b', left', sends) \<Longrightarrow> set left' \<subseteq> set ks \<and> set sends \<subseteq> set ks"
proof (induction ks arbitrary: blocked b b' left' sends)
  case (Cons k ks)
  then show ?case
    by (auto simp: Let_def split: option.splits prod.splits if_splits) blast+
qed simp

lemma drain_loop_blocked:
  assumes "drain_loop x blocked ks b = (b', left', sends)" and "distinct ks"
  shows "\<forall>k\<in>set sends. \<exists>i. map_of b k = Some i \<and> (target i = None \<or> target i \<notin> set blocked)"
  using assms
proof (induction ks arbitrary: blocked b b' left' sends)
  case (Cons k ks)
  show ?case
  proof (cases "map_of b k")
    case None
    then show ?thesis using Cons by simp
  next
    case (Some i)
    obtain b1 remains blocks sent where one: "drain_one x blocked k i b = (b1, remains, blocks, sent)"
      by (metis prod_cases4)
    let ?bl = "if blocks then target i # blocked else blocked"
    obtain b2 left1 sends1 where rest: "drain_loop x ?bl ks b1 = (b2, left1, sends1)" by (metis prod_cases3)
    have s: "sends = (if sent then [k] else []) @ sends1"
      using drain_loop_Cons [OF Some one rest] Cons.prems(1) by simp
    have ih: "\<forall>k\<in>set sends1. \<exists>i. map_of b1 k = Some i \<and> (target i = None \<or> target i \<notin> set ?bl)"
      using Cons.IH [OF rest] Cons.prems(2) by simp
    have sub: "set sends1 \<subseteq> set ks" using drain_loop_subsets [OF rest] by simp
    have "\<exists>i. map_of b k' = Some i \<and> (target i = None \<or> target i \<notin> set blocked)" if "k' \<in> set sends1" for k'
    proof -
      have "k' \<noteq> k" using that sub Cons.prems(2) by auto
      with ih that drain_one_others [OF one] show ?thesis by (auto split: if_splits)
    qed
    moreover have "target i = None \<or> target i \<notin> set blocked" if "sent" using drain_one_sent [of x blocked k i b b1 remains blocks] one that by simp
    ultimately show ?thesis using s Some by auto
  qed
qed simp

lemma drain_loop_order:
  assumes "drain_loop x blocked (pre @ k1 # rest) b = (b', left', sends)" and "distinct (pre @ k1 # rest)"
    and "map_of b k1 = Some i1" and "sr_reply x k1 \<noteq> None" and "in_cwd i1 \<noteq> None"
    and "k1 \<in> set left'" and "k2 \<in> set rest" and "k2 \<in> set sends"
    and "map_of b k2 = Some i2" and "target i1 \<noteq> None"
  shows "target i2 \<noteq> target i1"
  using assms(1,2,3,6,8,9)
proof (induction pre arbitrary: blocked b b' left' sends)
  case Nil
  obtain b1 remains blocks sent where one: "drain_one x blocked k1 i1 b = (b1, remains, blocks, sent)"
    by (metis prod_cases4)
  let ?bl = "if blocks then target i1 # blocked else blocked"
  obtain b2 left1 sends1 where r: "drain_loop x ?bl rest b1 = (b2, left1, sends1)" by (metis prod_cases3)
  have e: "left' = (if remains then [k1] else []) @ left1" "sends = (if sent then [k1] else []) @ sends1"
    using drain_loop_Cons [OF Nil(3) one r] Nil(1) by simp_all
  have "k1 \<notin> set left1" using drain_loop_subsets [OF r] Nil(2) by auto
  then have "remains" using e(1) Nil(4) by (auto split: if_splits)
  then have bl: "target i1 \<in> set ?bl" using drain_one_remains [of x blocked k1 i1 b b1 blocks sent] one assms(4,5) by auto
  have "k2 \<noteq> k1" using assms(7) Nil(2) by auto
  then have "k2 \<in> set sends1" and "map_of b1 k2 = Some i2"
    using e(2) Nil(5,6) drain_one_others [OF one, of k2] by (auto split: if_splits)
  with drain_loop_blocked [OF r] Nil(2) bl assms(10) show ?case by auto
next
  case (Cons k pre)
  have ks: "k1 \<noteq> k" "k2 \<noteq> k" using Cons.prems(2) assms(7) by auto
  show ?case
  proof (cases "map_of b k")
    case None
    then show ?thesis using Cons by simp
  next
    case (Some i)
    obtain b1 remains blocks sent where one: "drain_one x blocked k i b = (b1, remains, blocks, sent)"
      by (metis prod_cases4)
    let ?bl = "if blocks then target i # blocked else blocked"
    obtain b2 left1 sends1 where r: "drain_loop x ?bl (pre @ k1 # rest) b1 = (b2, left1, sends1)" by (metis prod_cases3)
    have e: "left' = (if remains then [k] else []) @ left1" "sends = (if sent then [k] else []) @ sends1"
      using drain_loop_Cons [OF Some one r] Cons.prems(1) by simp_all
    show ?thesis
      using Cons.IH [OF r] Cons.prems e ks drain_one_others [OF one] by (auto split: if_splits)
  qed
qed

text \<open>
  publications to one target keep their order. While an earlier intent for a pull request or issue
  remains in the outbox, \<open>drain\<close> sends none of the later ones for it; provided that the earlier one's
  request could be made and its directory is recorded.
\<close>

theorem drain_keeps_order:
  assumes "drain x b = (b', left', sends)" and "distinct (map fst b)"
    and "creation_order b = pre @ k1 # rest" and "k2 \<in> set rest"
    and "map_of b k1 = Some i1" and "map_of b k2 = Some i2" and "target i1 \<noteq> None" and "target i2 = target i1"
    and "sr_reply x k1 \<noteq> None" and "in_cwd i1 \<noteq> None" and "k1 \<in> set left'"
  shows "k2 \<notin> set sends"
proof
  assume s: "k2 \<in> set sends"
  have "distinct (creation_order b)"
    using assms(2) by (simp add: creation_order_def distinct_map)
  with drain_loop_order [of x "[]" pre k1 rest b b' left' sends i1 k2 i2] assms s show False
    by (auto simp: drain_def)
qed

definition earlier_comment :: intent where
  "earlier_comment = comment_intent"

definition later_comment :: intent where
  "later_comment = comment_intent\<lparr>in_argv := [''pr'', ''comment'', ''7'', ''--body'', ''ho''], in_created := 1, in_body := Some ''ho''\<rparr>"

definition failing_subprocess :: surroundings where
  "failing_subprocess = \<lparr>sr_now = 10, sr_readonly = (\<lambda>_. False), sr_directory = (\<lambda>_. True),
     sr_evidence = (\<lambda>_. \<lparr>ev_fork = None, ev_live = None, ev_thread = None, ev_prs = None, ev_items = None, ev_actor = None, ev_account = None\<rparr>),
     sr_reply = (\<lambda>k. if k = ''a'' then None else Some \<lparr>rp_code = 0, rp_text = [], rp_stdout = None, rp_records = [],
                  rp_before_request = False, rp_content_throttle = False, rp_retry_safe = False\<rparr>)\<rparr>"

text \<open>
  the exception to that order. When the subprocess of an earlier request itself fails, its intent is left
  ambiguous but its target is not blocked, and the same pass may send a later publication to the same
  target before it.
\<close>

theorem failed_subprocess_lets_later_pass:
  "\<exists>b'. drain failing_subprocess [(''a'', earlier_comment), (''b'', later_comment)] = (b', [''a''], [''a'', ''b''])
     \<and> target earlier_comment = Some (''o/r'', 7) \<and> target later_comment = Some (''o/r'', 7)"
proof -
  have t: "target earlier_comment = Some (''o/r'', 7)" "target later_comment = Some (''o/r'', 7)"
    by code_simp+
  have o: "optional_intent earlier_comment = False" "optional_intent later_comment = False"
    by code_simp+
  have f: "in_retry_at earlier_comment = 0" "in_retry_at later_comment = 0" "in_cwd earlier_comment = Some ''d''"
    "in_cwd later_comment = Some ''d''" "in_status earlier_comment = Prepared" "in_status later_comment = Prepared"
    "in_fork_retries earlier_comment = 0" "in_fork_retries later_comment = 0"
    by (simp_all add: earlier_comment_def later_comment_def comment_intent_def)
  have g: "local_operation (in_argv earlier_comment) = False" "local_operation (in_argv later_comment) = False"
    "fork_args (in_argv earlier_comment) = False" "fork_args (in_argv later_comment) = False"
    by code_simp+
  have h: "sr_now failing_subprocess = 10" "sr_readonly failing_subprocess = (\<lambda>_. False)"
    "sr_directory failing_subprocess = (\<lambda>_. True)"
    by (simp_all add: failing_subprocess_def)
  let ?e = "earlier_comment\<lparr>in_fork_retries := 0, in_status := Sending\<rparr>"
  let ?l = "later_comment\<lparr>in_fork_retries := 0, in_status := Sending\<rparr>"
  have c: "drain_choice failing_subprocess [] ''a'' earlier_comment = Send ?e"
    "drain_choice failing_subprocess [] ''b'' later_comment = Send ?l"
    by (simp_all add: drain_choice_def permission_def o t f g h sendable_def)
  have l: "finish 10 \<lparr>rp_code = 0, rp_text = [], rp_stdout = None, rp_records = [],
      rp_before_request = False, rp_content_throttle = False, rp_retry_safe = False\<rparr> ?l = Leaves Acknowledged"
    using g(4) by (simp add: finish_def)
  have ord: "creation_order [(''a'', earlier_comment), (''b'', later_comment)] = [''a'', ''b'']"
    by code_simp
  have "drain failing_subprocess [(''a'', earlier_comment), (''b'', later_comment)]
      = ([(''a'', ?e\<lparr>in_status := Ambiguous\<rparr>)], [''a''], [''a'', ''b''])"
    by (simp add: drain_def ord drain_one_def c h o l settle_fate_def dict_del_def failing_subprocess_def [THEN arg_cong [of _ _ sr_reply]])
  with t show ?thesis by blast
qed

definition quiet_subprocess :: surroundings where
  "quiet_subprocess = failing_subprocess\<lparr>sr_reply := (\<lambda>k. Some \<lparr>rp_code = 0, rp_text = [], rp_stdout = None, rp_records = [],
     rp_before_request = False, rp_content_throttle = False, rp_retry_safe = False\<rparr>)\<rparr>"

theorem drain_keeps_order_witness:
  "''b'' \<notin> set (snd (snd (drain quiet_subprocess [(''a'', earlier_comment\<lparr>in_retry_at := 20\<rparr>), (''b'', later_comment)])))"
proof -
  let ?a = "earlier_comment\<lparr>in_retry_at := 20\<rparr>" and ?b = "later_comment"
  have t: "target ?a = Some (''o/r'', 7)" "target ?b = Some (''o/r'', 7)" by code_simp+
  have ord: "creation_order [(''a'', ?a), (''b'', ?b)] = [] @ ''a'' # [''b'']" by code_simp
  obtain b' left' sends where d: "drain quiet_subprocess [(''a'', ?a), (''b'', ?b)] = (b', left', sends)"
    by (metis prod_cases3)
  have one: "drain_one quiet_subprocess [] ''a'' ?a [(''a'', ?a), (''b'', ?b)] = ([(''a'', ?a), (''b'', ?b)], True, True, False)"
    by (simp add: drain_one_def drain_choice_def quiet_subprocess_def failing_subprocess_def)
  have "''a'' \<in> set left'"
    using d unfolding drain_def ord by (auto simp: one Let_def split: prod.splits)
  then have "''b'' \<notin> set sends"
    by (intro drain_keeps_order [OF d _ ord, of "''b''" ?a ?b])
      (use t in \<open>auto simp: quiet_subprocess_def earlier_comment_def comment_intent_def\<close>)
  then show ?thesis by (simp add: d)
qed

section \<open>Recording again\<close>

text \<open>
  a publication that waits is found again. Preparing a publication and then any command that means the
  same, whatever its working name, time and status, gives the intent recorded first and changes nothing:
  the outbox never holds it twice.
\<close>

theorem prepare_finds_again:
  assumes "prepare False name now i b = (Some k, b1)" and "distinct (map fst b)"
    and "distinct (map (semantic_key \<circ> snd) b)" and "map_of b name = None"
    and "semantic_key i2 = semantic_key i" and "\<not> local_operation (in_argv i2)"
  shows "prepare False name2 now2 i2 b1 = (Some k, b1)
    \<and> (\<exists>j. map_of b1 k = Some j \<and> semantic_key j = semantic_key i)
    \<and> distinct (map (semantic_key \<circ> snd) b1)"
proof (cases "find (\<lambda>(k, old). semantic_key old = semantic_key i) b")
  case (Some kl)
  obtain l where kl: "kl = (k, l)" and b1: "b1 = b"
    using assms(1) Some by (cases kl) (auto simp: prepare_def split: if_splits)
  have "(k, l) \<in> set b \<and> semantic_key l = semantic_key i" using find_mem [OF Some] kl by simp
  then show ?thesis using Some assms(2,3,5,6) kl b1 by (auto simp: prepare_def)
next
  case None
  let ?j = "i\<lparr>in_status := Prepared, in_created := now\<rparr>" and ?sup = "supersede i b"
  have k: "k = name" and e: "b1 = dict_set name ?j ?sup"
    using assms(1) None by (auto simp: prepare_def split: if_splits)
  have none: "map_of ?sup name = None"
    using assms(4) set_supersede [of i b] by (force simp: map_of_eq_None_iff)
  have b1: "b1 = ?sup @ [(name, ?j)]" using e dict_set_fresh [OF none] by simp
  have no: "\<forall>x\<in>set ?sup. semantic_key (snd x) \<noteq> semantic_key i"
    using find_none [OF None] set_supersede [of i b] by fastforce
  have "find (\<lambda>(k, old). semantic_key old = semantic_key i2) (xs @ [(name, ?j)]) = Some (name, ?j)"
    if "\<forall>x\<in>set xs. semantic_key (snd x) \<noteq> semantic_key i" for xs
    using that assms(5) by (induction xs) auto
  from this [OF no] have "prepare False name2 now2 i2 b1 = (Some name, b1)"
    using assms(6) by (simp add: prepare_def b1)
  moreover have "map_of b1 name = Some ?j" using none by (simp add: b1 map_of_append map_add_def)
  moreover have "distinct (map (semantic_key \<circ> snd) b1)"
    using distinct_supersede [OF assms(3), of i] no by (auto simp: b1)
  ultimately show ?thesis using k by auto
qed

theorem prepare_finds_again_witness:
  "prepare False ''z'' 9 (earlier_comment\<lparr>in_status := Ambiguous\<rparr>) [(''a'', comment_intent)] = (Some ''a'', [(''a'', comment_intent)])"
proof -
  have p: "prepare False ''a'' 0 comment_intent [] = (Some ''a'', [(''a'', comment_intent)])"
    by (simp add: prepare_def local_operation_def supersede_def comment_intent_def split: option.split)
  have "semantic_key (earlier_comment\<lparr>in_status := Ambiguous\<rparr>) = semantic_key comment_intent"
    by (rule same_command_key) (simp add: same_command_def earlier_comment_def)
  from prepare_finds_again [OF p _ _ _ this] show ?thesis
    by (simp add: earlier_comment_def comment_intent_def local_operation_def)
qed

end
