(* ===== verification/Attempts.thy ===== *)
theory Attempts
  imports SurveyStages
begin

text \<open>
  The accounting of one work unit (\<open>work_units.py\<close>): the retry counters a repair charges before it starts and
  hands back when it never ran, the branch claim it takes (\<open>round.Claims\<close>), the shared shape of the repairs
  (\<open>_do_fixlike\<close> and the \<open>do_*\<close> units around it), and the restoration of attempts across GitHub pauses and
  refused admissions (\<open>_run_github_stage\<close>).

  What a unit observes of git, GitHub, the claim script and the agent is a record of parameters; the agent
  processes it starts are collected in \<open>wo_runs\<close>.
\<close>

section \<open>Counter files\<close>

text \<open>\<open>str(value)\<close> of an integer.\<close>

definition digit_char :: "nat \<Rightarrow> char" where
  "digit_char d = char_of (48 + d)"

fun nat_decimal :: "nat \<Rightarrow> string" where
  "nat_decimal n = (if n < 10 then [digit_char n] else nat_decimal (n div 10) @ [digit_char (n mod 10)])"

declare nat_decimal.simps [simp del]

definition decimal :: "int \<Rightarrow> string" where
  "decimal v = (if v < 0 then CHR ''-'' # nat_decimal (nat (- v)) else nat_decimal (nat v))"

text \<open>\<open>for key in keys: write(key, f(read(key)))\<close>, over any store of counters.\<close>

fun update_all ::
  "('s \<Rightarrow> 'k \<Rightarrow> 'e + int) \<Rightarrow> ('k \<Rightarrow> int \<Rightarrow> 's \<Rightarrow> 's) \<Rightarrow> ('k \<Rightarrow> int \<Rightarrow> int) \<Rightarrow> 'k list \<Rightarrow> 's \<Rightarrow> 'e + 's" where
  "update_all read_in write_in f [] s = Inr s"
| "update_all read_in write_in f (k # ks) s =
     ebind (read_in s k) (\<lambda>n. update_all read_in write_in f ks (write_in k (f k n) s))"

definition charge_all :: "ckey list \<Rightarrow> counters \<Rightarrow> rebase_error + counters" where
  "charge_all = update_all read_counter (write_counter decimal) (\<lambda>k n. n + 1)"

definition refund_all :: "ckey list \<Rightarrow> counters \<Rightarrow> rebase_error + counters" where
  "refund_all = update_all read_counter (write_counter decimal) (\<lambda>k n. max 0 (n - 1))"

text \<open>The values read before a unit, and their restoration; a later refund is never undone.\<close>

fun read_all :: "ckey list \<Rightarrow> counters \<Rightarrow> rebase_error + (ckey \<times> int) list" where
  "read_all [] s = Inr []"
| "read_all (k # ks) s = ebind (read_counter s k) (\<lambda>n. ebind (read_all ks s) (\<lambda>vs. Inr ((k, n) # vs)))"

definition restore_all :: "(ckey \<times> int) list \<Rightarrow> counters \<Rightarrow> rebase_error + counters" where
  "restore_all vs = update_all read_counter (write_counter decimal)
     (\<lambda>k n. case map_of vs k of None \<Rightarrow> n | Some v \<Rightarrow> min v n) (map fst vs)"

section \<open>Branch claims\<close>

text \<open>
  \<open>Claims\<close>: the claim the object holds, the heartbeat child it has a handle of, the children whose handle was
  replaced, the claims this worker has in the shared repository, and the environment of the push arbiter.
\<close>

record push_env =
  pu_ref :: string
  pu_expect :: string
  pu_remote :: "string \<times> string"
  pu_key :: "int option"

record claims =
  cl_held :: "int option"
  cl_beat :: "int option"
  cl_orphans :: "int list"
  cl_remote :: "int list"
  cl_push :: "push_env option"
  cl_collisions :: nat

definition start_heartbeat :: "int \<Rightarrow> claims \<Rightarrow> claims" where
  "start_heartbeat pr c =
     c\<lparr>cl_orphans := (case cl_beat c of None \<Rightarrow> [] | Some b \<Rightarrow> [b]) @ cl_orphans c, cl_beat := Some pr\<rparr>"

definition stop_heartbeat :: "claims \<Rightarrow> claims" where
  "stop_heartbeat c = c\<lparr>cl_beat := None\<rparr>"

definition release :: "claims \<Rightarrow> claims" where
  "release c =
     (case cl_held c of
        None \<Rightarrow> c
      | Some pr \<Rightarrow> c\<lparr>cl_held := None, cl_remote := remove1 pr (cl_remote c),
                     cl_push := map_option (\<lambda>p. p\<lparr>pu_key := None\<rparr>) (cl_push c)\<rparr>)"

text \<open>\<open>rc\<close> is the exit code of \<open>claim.sh acquire\<close>: 0 taken, 1 claimed elsewhere, anything else an error.\<close>

definition begin_branch_work ::
  "int \<Rightarrow> int \<Rightarrow> string \<Rightarrow> string \<Rightarrow> string \<times> string \<Rightarrow> claims \<Rightarrow> claims \<times> bool" where
  "begin_branch_work rc pr head refname remote c =
     (if rc = 1 then (c\<lparr>cl_collisions := Suc (cl_collisions c)\<rparr>, False)
      else (let env = \<lparr>pu_ref = refname, pu_expect = head, pu_remote = remote,
                       pu_key = (if rc = 0 then Some pr else None)\<rparr>;
                c1 = c\<lparr>cl_push := Some env\<rparr>
            in if rc = 0
               then (start_heartbeat pr (c1\<lparr>cl_held := Some pr, cl_remote := pr # cl_remote c\<rparr>), True)
               else (c1, True)))"

text \<open>The cleanups that a round runs when it ends.\<close>

definition round_cleanup :: "claims \<Rightarrow> claims" where
  "round_cleanup c = release (stop_heartbeat c)"

end
