(* ===== verification/WorkUnit.thy ===== *)
theory WorkUnit
  imports Attempts
begin

text \<open>
  The repairs of \<open>work_units.py\<close> as one shape (\<open>_do_fixlike\<close>), the units around it, and the guard that every
  unit runs under (\<open>_run_github_stage\<close>).
\<close>

section \<open>What a unit may end in\<close>

text \<open>
  The exceptions the guard tells apart. \<open>Refused\<close> is \<open>AdmissionUnavailable\<close>, \<open>CacheDown\<close> \<open>BuildCacheUnavailable\<close>,
  \<open>Collided\<close> \<open>ClaimCollision\<close>, \<open>CounterBroken\<close> \<open>RebaseBudgetUnavailable\<close>; \<open>NoProgressed\<close> is \<open>NoProgress\<close> itself.
\<close>

datatype exn = Died | NoProgressed | Collided | Refused | CacheDown | GithubPaused "rat option" | CounterBroken | OtherExn

fun is_no_progress :: "exn \<Rightarrow> bool" where
  "is_no_progress NoProgressed = True"
| "is_no_progress Collided = True"
| "is_no_progress Refused = True"
| "is_no_progress CacheDown = True"
| "is_no_progress (GithubPaused t) = True"
| "is_no_progress _ = False"

datatype unit_end = Rc int | Declined | Raised exn

record workshop =
  wo_counters :: counters
  wo_claims :: claims
  wo_runs :: "(stage \<times> int) list"
  wo_closes :: "int list"

text \<open>A loop over counters that may raise, and what follows it.\<close>

definition counting ::
  "(counters \<Rightarrow> rebase_error + counters) \<Rightarrow> workshop \<Rightarrow> (workshop \<Rightarrow> workshop \<times> unit_end) \<Rightarrow> workshop \<times> unit_end" where
  "counting f w k =
     (case f (wo_counters w) of Inl e \<Rightarrow> (w, Raised CounterBroken) | Inr c \<Rightarrow> k (w\<lparr>wo_counters := c\<rparr>))"

section \<open>The shape of a repair\<close>

datatype agent_end = Exits int | Throws exn

record fix_env =
  fe_pr :: "prinfo option"
  fe_me :: string
  fe_route1 :: "string option"
  fe_route2 :: "string option"
  fe_reselect :: bool
  fe_claim_rc :: int
  fe_batch :: bool
  fe_target :: "(int \<times> string) option"
  fe_bubble :: bool
  fe_prepared :: bool
  fe_checkout :: bool
  fe_rev :: "bool \<times> string"
  fe_handoff :: bool
  fe_agent :: agent_end
  fe_blocked :: "exn option"
  fe_infra :: bool

definition declined :: "ckey list \<Rightarrow> workshop \<Rightarrow> workshop \<times> unit_end" where
  "declined keys w = counting (refund_all keys) w (\<lambda>w'. (w', Declined))"

text \<open>\<open>decline_repair\<close>: the claim captured after it was taken is released first.\<close>

definition decline_repair :: "ckey list \<Rightarrow> workshop \<Rightarrow> workshop \<times> unit_end" where
  "decline_repair keys w =
     declined keys (if cl_held (wo_claims w) = None then w
                    else w\<lparr>wo_claims := release (stop_heartbeat (wo_claims w))\<rparr>)"

text \<open>Whether an explicit repair route still allows the base the candidate was selected for.\<close>

definition route_ok :: "fix_env \<Rightarrow> string \<Rightarrow> string option \<Rightarrow> bool" where
  "route_ok x foreign base =
     (case base of None \<Rightarrow> False | Some b \<Rightarrow> b \<noteq> [] \<and> (b = foreign \<or> fe_reselect x))"

definition stage_label :: "stage \<Rightarrow> string" where
  "stage_label s =
     (case s of Rebase \<Rightarrow> ''rebase'' | Bump \<Rightarrow> ''bump'' | LintRepair \<Rightarrow> ''lint-repair'' | Progress \<Rightarrow> ''progress''
      | FixCi \<Rightarrow> ''fix-ci'' | Fix \<Rightarrow> ''fix'' | Review \<Rightarrow> ''review'' | OverlapFix \<Rightarrow> ''overlap-fix''
      | OverlapScan \<Rightarrow> ''overlap-scan'' | Roadmap \<Rightarrow> ''roadmap'')"

definition max_infra_refunds :: int where "max_infra_refunds = 20"

text \<open>\<open>_refund_infra_failure\<close>, after an agent that returned \<open>rc\<close>.\<close>

definition refund_infra_failure ::
  "fix_env \<Rightarrow> stage \<Rightarrow> ckey list \<Rightarrow> int \<Rightarrow> int \<Rightarrow> workshop \<Rightarrow> workshop \<times> unit_end" where
  "refund_infra_failure x label keys pr rc w =
     (case fe_blocked x of
        Some f \<Rightarrow> if f \<noteq> Refused then counting (refund_all keys) w (\<lambda>w'. (w', Raised f)) else (w, Raised f)
      | None \<Rightarrow>
          if \<not> fe_infra x then (w, Rc rc)
          else counting (charge_all [Infra (stage_label label) pr]) w (\<lambda>w1.
                 if count (wo_counters w1) (Infra (stage_label label) pr) > max_infra_refunds then (w1, Rc rc)
                 else counting (refund_all keys) w1 (\<lambda>w2. (w2, Raised NoProgressed))))"

definition finish_repair :: "fix_env \<Rightarrow> stage \<Rightarrow> ckey list \<Rightarrow> candidate \<Rightarrow> int \<Rightarrow> workshop \<Rightarrow> workshop \<times> unit_end" where
  "finish_repair x label keys c rc w =
     (if rc = 0 then (w, Rc 0)
      else if k_foreign c = [] then refund_infra_failure x label keys (k_pr c) rc w
      else (w, Rc rc))"

text \<open>The head the repair starts from must be the selected one, for the labels that repair an exact head.\<close>

definition checkout_moved :: "fix_env \<Rightarrow> stage \<Rightarrow> candidate \<Rightarrow> bool" where
  "checkout_moved x label c \<longleftrightarrow>
     (label \<in> {Rebase, FixCi} \<or> label = Bump \<and> k_integration c)
     \<and> (\<not> fst (fe_rev x) \<or> (if snd (fe_rev x) = [] then k_head c else snd (fe_rev x)) \<noteq> k_head c)"

text \<open>Owned human pull requests hand retained work over; reading it may fail.\<close>

definition handoff_failed :: "fix_env \<Rightarrow> prinfo \<Rightarrow> stage \<Rightarrow> candidate \<Rightarrow> bool" where
  "handoff_failed x p label c \<longleftrightarrow>
     k_foreign c = [] \<and> label \<noteq> Bump \<and> \<not> automatic_bump p \<and> author p \<noteq> [] \<and> fe_me x \<noteq> []
     \<and> py_lower (author p) = py_lower (fe_me x) \<and> \<not> fe_handoff x"

definition log_run :: "stage \<Rightarrow> int \<Rightarrow> workshop \<Rightarrow> workshop" where
  "log_run s pr w = w\<lparr>wo_runs := wo_runs w @ [(s, pr)]\<rparr>"

text \<open>From the prompt to the return: in a bubble, or in the host's checkout.\<close>

definition run_repair ::
  "fix_env \<Rightarrow> prinfo \<Rightarrow> stage \<Rightarrow> ckey list \<Rightarrow> candidate \<Rightarrow> workshop \<Rightarrow> workshop \<times> unit_end" where
  "run_repair x p label keys c w =
     (if fe_bubble x
      then (case fe_agent x of
              Exits rc \<Rightarrow> finish_repair x label keys c rc (log_run label (k_pr c) w)
            | Throws e \<Rightarrow> (log_run label (k_pr c) w, Raised e))
      else if \<not> fe_prepared x \<or> \<not> fe_checkout x then (w, Rc 1)
      else if checkout_moved x label c \<or> handoff_failed x p label c then decline_repair keys w
      else (case fe_agent x of
              Exits rc \<Rightarrow> finish_repair x label keys c rc (log_run label (k_pr c) w)
            | Throws CacheDown \<Rightarrow> counting (refund_all keys) w (\<lambda>w'. (w', Raised CacheDown))
            | Throws e \<Rightarrow> (log_run label (k_pr c) w, Raised e)))"

definition fixlike :: "fix_env \<Rightarrow> stage \<Rightarrow> ckey list \<Rightarrow> candidate \<Rightarrow> workshop \<Rightarrow> workshop \<times> unit_end" where
  "fixlike x label keys c w =
     (case fe_pr x of
        None \<Rightarrow> (w, Raised Died)
      | Some p \<Rightarrow>
          if head_owner p = [] \<or> head_repo p = [] \<or> head_ref p = [] then (w, Declined)
          else if k_foreign c \<noteq> [] \<and> (label \<noteq> Rebase \<or> \<not> route_ok x (k_foreign c) (fe_route1 x)) then declined keys w
          else
            (let (cl, ok) = begin_branch_work (fe_claim_rc x) (k_pr c) (k_head c) (head_ref p)
                              (head_owner p, head_repo p) (wo_claims w);
                 w1 = w\<lparr>wo_claims := cl\<rparr>
             in if \<not> ok then declined keys w1
                else if k_foreign c \<noteq> [] \<and> cl_held cl \<noteq> Some (k_pr c) then declined keys w1
                else if k_foreign c \<noteq> [] \<and> \<not> route_ok x (k_foreign c) (fe_route2 x) then decline_repair keys w1
                else if label = Bump \<and> k_integration c \<and> \<not> fe_batch x then declined keys w1
                else if k_foreign c \<noteq> [] \<and> fe_target x \<noteq> Some (k_pr c, k_head c) then decline_repair keys w1
                else run_repair x p label keys c
                       (if k_foreign c \<noteq> []
                        then w1\<lparr>wo_counters := record_foreign_repair_launch (k_pr c) (wo_counters w1)\<rparr> else w1)))"

section \<open>The units\<close>

text \<open>\<open>charged\<close>, the counters a repair spends before it starts; \<open>None\<close> for a rebase without a selected budget.\<close>

definition unit_keys :: "stage \<Rightarrow> candidate \<Rightarrow> ckey list option" where
  "unit_keys s c =
     (let pr = k_pr c; h = take 12 (k_head c)
      in case s of
           Fix \<Rightarrow> Some [FixHead pr h]
         | FixCi \<Rightarrow> Some [CiHead pr h, CiPr pr]
         | Rebase \<Rightarrow> map_option (\<lambda>k. [k]) (k_key c)
         | Bump \<Rightarrow> Some [BumpHead pr h, BumpPr pr]
         | LintRepair \<Rightarrow> Some [LintHead pr h, LintPr pr]
         | Review \<Rightarrow> Some [ReviewErr pr]
         | Progress \<Rightarrow> Some [ProgressErrors]
         | _ \<Rightarrow> Some [])"

text \<open>\<open>do_fix\<close>, \<open>do_fix_ci\<close>, \<open>do_bump\<close>, \<open>do_lint_repair\<close>, and \<open>do_rebase\<close> with its one launch per route.\<close>

definition repair_unit :: "fix_env \<Rightarrow> stage \<Rightarrow> candidate \<Rightarrow> workshop \<Rightarrow> workshop \<times> unit_end" where
  "repair_unit x s c w =
     (case unit_keys s c of
        None \<Rightarrow> (w, Raised Died)
      | Some keys \<Rightarrow>
          if s = Rebase \<and> k_foreign c \<noteq> []
          then (case read_counter (wo_counters w) (hd keys) of
                  Inl e \<Rightarrow> (w, Raised CounterBroken)
                | Inr n \<Rightarrow> if 1 \<le> n \<or> foreign_repair_launched (wo_counters w) (k_pr c) then (w, Declined)
                           else counting (charge_all keys) w (fixlike x s keys c))
          else counting (charge_all keys) w (fixlike x s keys c))"

section \<open>The guard around a unit\<close>

record guard_env =
  ge_event :: bool
  ge_reset :: "rat option"
  ge_launched :: "bool option"
  ge_admitted :: "bool option"
  ge_blocked :: "exn option"

text \<open>\<open>check_result\<close>: an engine that swallowed a refusal still waited.\<close>

definition check_result :: "guard_env \<Rightarrow> unit_end \<Rightarrow> unit_end" where
  "check_result g r =
     (case r of
        Raised e \<Rightarrow> Raised e
      | _ \<Rightarrow> (case ge_blocked g of
                None \<Rightarrow> r
              | Some f \<Rightarrow> if r \<noteq> Rc 0 \<or> f = Refused \<and> ge_launched g \<noteq> Some True then Raised f else r))"

definition restoring :: "(ckey \<times> int) list \<Rightarrow> exn \<Rightarrow> workshop \<Rightarrow> workshop \<times> unit_end" where
  "restoring before e w = counting (restore_all before) w (\<lambda>w'. (w', Raised e))"

text \<open>\<open>refund_admission\<close>: only a refusal before the unit's first admission undoes an attempt.\<close>

definition refund_admission ::
  "guard_env \<Rightarrow> (ckey \<times> int) list \<Rightarrow> bool \<Rightarrow> int \<Rightarrow> workshop \<Rightarrow> workshop \<times> unit_end" where
  "refund_admission g before fresh_receipt pr w =
     (if ge_launched g = Some True \<or> ge_admitted g = Some True then (w, Raised Refused)
      else counting (restore_all before) w (\<lambda>w'.
        (if fresh_receipt \<and> (ge_launched g \<noteq> None \<or> ge_admitted g = Some False)
         then w'\<lparr>wo_counters := (wo_counters w')\<lparr>cn_foreign := (cn_foreign (wo_counters w'))(pr := False)\<rparr>\<rparr>
         else w', Raised Refused)))"

text \<open>The handlers of \<open>_run_github_stage\<close>, for the end \<open>r\<close> of the unit.\<close>

definition handle_end ::
  "guard_env \<Rightarrow> (ckey \<times> int) list \<Rightarrow> (ckey \<times> int) list \<Rightarrow> bool \<Rightarrow> int \<Rightarrow> workshop \<Rightarrow> unit_end \<Rightarrow> workshop \<times> unit_end" where
  "handle_end g before admission_before fresh_receipt pr w r =
     (case r of
        Raised e \<Rightarrow>
          if e = Refused then refund_admission g admission_before fresh_receipt pr w
          else if (case e of GithubPaused _ \<Rightarrow> True | _ \<Rightarrow> False) then restoring before e w
          else if is_no_progress e
          then (if e = NoProgressed \<and> ge_event g then restoring before (GithubPaused (ge_reset g)) w else (w, Raised e))
          else if ge_launched g = Some False \<and> ge_blocked g = Some Refused
          then refund_admission g admission_before fresh_receipt pr w
          else if ge_event g then restoring before (GithubPaused (ge_reset g)) w
          else (w, Raised e)
      | _ \<Rightarrow> if r \<noteq> Rc 0 \<and> ge_event g then restoring before (GithubPaused (ge_reset g)) w else (w, r))"

definition run_github_stage ::
  "guard_env \<Rightarrow> stage \<Rightarrow> candidate \<Rightarrow> (workshop \<Rightarrow> workshop \<times> unit_end) \<Rightarrow> workshop \<Rightarrow> workshop \<times> unit_end" where
  "run_github_stage g s c unit_fn w =
     (case unit_keys s c of
        None \<Rightarrow> (w, Raised Died)
      | Some keys \<Rightarrow>
          (case (read_all keys (wo_counters w),
                 read_all (keys @ (if s = Progress then [ProgressAttempt] else [])) (wo_counters w)) of
             (Inr before, Inr admission_before) \<Rightarrow>
               (let fresh_receipt = (s = Rebase \<and> k_foreign c \<noteq> [] \<and> \<not> cn_foreign (wo_counters w) (k_pr c));
                    (w1, r) = unit_fn w
                in handle_end g before admission_before fresh_receipt (k_pr c) w1 (check_result g r))
           | _ \<Rightarrow> (w, Raised CounterBroken)))"

end
