(* ===== verification/Dispatch.thy ===== *)
theory Dispatch
  imports WorkUnit
begin

text \<open>
  The launch of one chosen candidate (\<open>work_units.py\<close>): the last look at the pull request before anything is
  spent (\<open>_still_actionable\<close>), the closing of a spent one (\<open>_close_spent_pr\<close>), the review unit (\<open>do_review\<close>), the
  postcondition of an authoring round (\<open>_progressed\<close>) and \<open>dispatch\<close>, which puts them in order.
\<close>

section \<open>The last look\<close>

text \<open>The pull request as a fresh read gives it.\<close>

record fresh_pr =
  fp_head :: string
  fp_state :: string
  fp_draft :: bool
  fp_labels :: "string list"
  fp_mergeable :: string
  fp_base :: string
  fp_author :: string

record look =
  lk_live :: "fresh_pr option"
  lk_base :: string
  lk_requested :: bool
  lk_route :: "string option"
  lk_reselect :: bool
  lk_batch :: bool
  lk_pr :: "prinfo option"
  lk_me :: string
  lk_meta :: meta
  lk_reply :: "contest option"
  lk_claim_age :: "rat option"
  lk_text :: "json \<Rightarrow> string"

definition live_labels :: "fresh_pr \<Rightarrow> string list" where
  "live_labels v = map py_lower (fp_labels v)"

definition paused_labels :: "stage \<Rightarrow> string list" where
  "paused_labels s = [''hold'', ''wip'', ''human'', ''on-hold''] @ (if s = Review then [] else [''keep'', ''do-not-close''])"

definition paused :: "stage \<Rightarrow> fresh_pr \<Rightarrow> bool" where
  "paused s v \<longleftrightarrow> list_ex (\<lambda>l. l \<in> set (paused_labels s)) (live_labels v)"

definition rebase_still :: "look \<Rightarrow> candidate \<Rightarrow> bool" where
  "rebase_still x c \<longleftrightarrow>
     (if k_foreign c \<noteq> []
      then lk_pr x \<noteq> None
           \<and> (case lk_route x of None \<Rightarrow> False | Some b \<Rightarrow> b \<noteq> [] \<and> (b = k_foreign c \<or> lk_reselect x))
      else (case lk_live x of
              None \<Rightarrow> False
            | Some v \<Rightarrow> fp_head v = k_head c \<and> fp_state v = ''OPEN'' \<and> \<not> fp_draft v \<and> fp_base v = lk_base x
                \<and> \<not> paused Rebase v
                \<and> (fp_mergeable v = ''CONFLICTING'' \<or> ''needs-rebase'' \<in> set (live_labels v) \<and> lk_requested x)))"

definition fix_key :: "candidate \<Rightarrow> ckey" where
  "fix_key c = FixHead (k_pr c) (take 12 (k_head c))"

text \<open>A fixer's look at the scoreboard; the candidate learns whether this is its last attempt.\<close>

definition fix_still :: "look \<Rightarrow> counters \<Rightarrow> candidate \<Rightarrow> bool \<times> candidate" where
  "fix_still x st c =
     (case lk_pr x of
        None \<Rightarrow> (False, c)
      | Some p \<Rightarrow>
          (let m = lk_meta x; n = count st (fix_key c);
               blocking = ledger_blocking (lk_text x) (fst m) (k_head c);
               pending = blocking \<and> str_or_empty (lk_text x) (b_head (fst m)) = k_head c
                 \<and> (case lk_reply x of None \<Rightarrow> False | Some r \<Rightarrow> replies_through (fst m) < ct_id r);
               disp = fix_disposition (lk_text x) m (k_head c) (build_success p) blocking n pending (automatic_bump p);
               c' = c\<lparr>k_final := max_fix_attempts - 1 \<le> n \<and> author p = lk_me x \<and> \<not> automatic_bump p\<rparr>
           in (case disp of FixActionable \<Rightarrow> True | FixExhausted _ \<Rightarrow> k_final c' | _ \<Rightarrow> False, c')))"

definition contest_still :: "look \<Rightarrow> candidate \<Rightarrow> bool" where
  "contest_still x c \<longleftrightarrow>
     (case lk_reply x of
        None \<Rightarrow> False
      | Some r \<Rightarrow> ct_id r = k_reply c
          \<and> \<not> (case py_int (b_replies_through (fst (lk_meta x))) of None \<Rightarrow> False | Some n \<Rightarrow> ct_id r \<le> n)
          \<and> \<not> (case lk_claim_age x of None \<Rightarrow> False | Some a \<Rightarrow> a < contest_claim_ttl))"

definition still_actionable :: "look \<Rightarrow> counters \<Rightarrow> stage \<Rightarrow> candidate \<Rightarrow> bool \<times> candidate" where
  "still_actionable x st s c =
     (if s = Rebase then (rebase_still x c, c)
      else if s = Bump \<and> k_integration c then (lk_batch x, c)
      else if s \<noteq> Review \<and> s \<noteq> Fix then (True, c)
      else (case lk_live x of
              None \<Rightarrow> (False, c)
            | Some v \<Rightarrow>
                if fp_state v \<noteq> ''OPEN'' \<or> fp_draft v \<or> fp_head v \<noteq> k_head c \<or> paused s v then (False, c)
                else if k_partial c then (True, c)
                else if snd (lk_meta x) \<in> {Stale, FetchFailed} then (False, c)
                else if s = Fix then fix_still x st c
                else if k_contest c \<noteq> [] then (contest_still x c, c)
                else (ledger_clean_head (lk_text x) (fst (lk_meta x)) \<noteq> k_head c, c)))"

section \<open>Closing a spent pull request\<close>

record close_env =
  cx_look :: look
  cx_claim_rc :: int
  cx_live :: "fresh_pr option"
  cx_close_error :: "exn option"
  cx_after :: "string option"

definition release_all :: "workshop \<Rightarrow> workshop" where
  "release_all w = w\<lparr>wo_claims := release (stop_heartbeat (wo_claims w))\<rparr>"

text \<open>What the second fresh read must show: still open, not a draft, at the same head, one's own and not held.\<close>

definition may_close :: "close_env \<Rightarrow> candidate \<Rightarrow> bool" where
  "may_close x c \<longleftrightarrow>
     (case cx_live x of
        None \<Rightarrow> False
      | Some v \<Rightarrow> fp_state v = ''OPEN'' \<and> fp_head v = k_head c \<and> \<not> fp_draft v
          \<and> py_lower (fp_author v) = py_lower (lk_me (cx_look x)) \<and> \<not> paused Fix v)"

definition close_spent_pr :: "close_env \<Rightarrow> candidate \<Rightarrow> workshop \<Rightarrow> workshop \<times> unit_end" where
  "close_spent_pr x c w =
     (case lk_pr (cx_look x) of
        None \<Rightarrow> (w, Declined)
      | Some p \<Rightarrow>
          if author p \<noteq> lk_me (cx_look x) \<or> automatic_bump p \<or> k_foreign c \<noteq> []
             \<or> count (wo_counters w) (fix_key c) < max_fix_attempts then (w, Declined)
          else
            (let (cl, ok) = begin_branch_work (cx_claim_rc x) (k_pr c) (k_head c) (head_ref p)
                              (head_owner p, head_repo p) (wo_claims w);
                 w1 = w\<lparr>wo_claims := cl\<rparr>
             in if \<not> ok then (w1, Declined)
                else if \<not> fst (still_actionable (cx_look x) (wo_counters w) Fix (c\<lparr>k_partial := False\<rparr>))
                then (release_all w1, Declined)
                else if \<not> may_close x c then (release_all w1, Declined)
                else (let w2 = release_all (w1\<lparr>wo_closes := wo_closes w1 @ [k_pr c]\<rparr>)
                      in case cx_close_error x of
                           Some e \<Rightarrow> (w2, Raised e)
                         | None \<Rightarrow> (w2, if cx_after x \<in> {Some ''CLOSED'', Some ''MERGED''} then Rc 0 else Raised NoProgressed))))"

section \<open>Reviews\<close>

definition review_provider_down_exit :: int where "review_provider_down_exit = 3"
definition review_claimed_exit :: int where "review_claimed_exit = 81"

record review_env =
  rv_concrete :: bool
  rv_engine :: agent_end
  rv_unchanged :: bool
  rv_event :: bool

definition set_counter :: "ckey \<Rightarrow> int \<Rightarrow> workshop \<Rightarrow> workshop" where
  "set_counter k v w = w\<lparr>wo_counters := write_counter decimal k v (wo_counters w)\<rparr>"

definition bump_counter :: "ckey \<Rightarrow> workshop \<Rightarrow> workshop" where
  "bump_counter k w = set_counter k (count (wo_counters w) k + 1) w"

text \<open>
  \<open>do_review\<close>. Only counters whose unreadable file reads as zero are touched, so none of these raises.
\<close>

definition review_unit :: "guard_env \<Rightarrow> review_env \<Rightarrow> candidate \<Rightarrow> workshop \<Rightarrow> workshop \<times> unit_end" where
  "review_unit g x c w =
     (if \<not> rv_concrete x then (w, Raised Died)
      else (let w1 = log_run Review (k_pr c) w
            in case rv_engine x of
                 Throws e \<Rightarrow> (w1, Raised e)
               | Exits rc \<Rightarrow>
                   if check_result g (Rc rc) \<noteq> Rc rc then (w1, check_result g (Rc rc))
                   else if rc = review_claimed_exit then (w1, Declined)
                   else if rc = 0 then
                     (let w2 = set_counter (ReviewErr (k_pr c)) 0 w1
                      in if rv_unchanged x then (w2, Declined)
                         else (if k_contest c = [] then w2
                               else bump_counter (ReviewContestRubric (k_pr c) (k_contest c))
                                      (bump_counter (ReviewContest (k_pr c)) w2), Rc 0))
                   else if rv_event x then (w1, Raised NoProgressed)
                   else if rc = review_provider_down_exit then (w1, Raised NoProgressed)
                   else (bump_counter (ReviewErr (k_pr c)) w1, Rc rc)))"

section \<open>The postcondition of an authoring round\<close>

text \<open>What is remembered before the round: the head, comments and state of a pull request, or the open numbers.\<close>

datatype snapshot = OfPr string int string | OfNumbers "int list"

text \<open>What is seen after it: the same for a pull request, or for each open number whether its body, if readable, has a marker.\<close>

datatype later = LaterPr "(string \<times> int \<times> string) option" | LaterNumbers "(int \<times> bool option) list option"

definition closed_states :: "string list" where
  "closed_states = [''CLOSED'', ''MERGED'']"

definition progressed :: "bool \<Rightarrow> snapshot option \<Rightarrow> later \<Rightarrow> bool" where
  "progressed require_push pre after =
     (case pre of
        None \<Rightarrow> True
      | Some (OfPr h n st) \<Rightarrow>
          (case after of
             LaterPr (Some (h', n', st')) \<Rightarrow>
               st' \<in> set closed_states \<and> st \<notin> set closed_states \<or> h' \<noteq> h \<or> \<not> require_push \<and> n < n'
           | _ \<Rightarrow> True)
      | Some (OfNumbers ns) \<Rightarrow>
          (case after of
             LaterNumbers (Some now) \<Rightarrow> list_ex (\<lambda>(k, marker). k \<notin> set ns \<and> marker \<noteq> Some False) now
           | _ \<Rightarrow> True))"

section \<open>Dispatch\<close>

definition pr_tasks :: "stage list" where
  "pr_tasks = [Rebase, Bump, LintRepair, FixCi, Fix, Review]"

definition file_change_stages :: "stage list" where
  "file_change_stages = [Rebase, Fix, FixCi, Bump, LintRepair, Roadmap]"

definition progress_guarded :: "stage list" where
  "progress_guarded = [Rebase, Fix, FixCi, Bump, LintRepair, Roadmap]"

text \<open>\<open>_bubble\<close>: only \<open>progress\<close> and \<open>overlap-scan\<close> never run in the sandbox.\<close>

definition in_bubble :: "stage \<Rightarrow> bool \<Rightarrow> bool" where
  "in_bubble s sandbox_host \<longleftrightarrow> s \<notin> {Progress, OverlapScan} \<and> \<not> sandbox_host"

text \<open>\<open>_check_stage_read_quota\<close>: the latest reset of an exhausted bucket, if a stage that reads directly waits.\<close>

definition read_quota :: "bool \<Rightarrow> stage \<Rightarrow> (string \<times> int \<times> rat) list \<Rightarrow> rat option" where
  "read_quota state_url s budget =
     (let out = map (\<lambda>(k, n, reset). reset)
                  (filter (\<lambda>(k, n, reset). k \<in> {''core'', ''graphql''} \<and> n = 0) budget)
      in if state_url \<or> s \<in> {OverlapScan, OverlapFix} \<or> out = [] then None else Some (Max (set out)))"

record desk =
  dk_dry :: bool
  dk_host :: bool
  dk_pending :: bool
  dk_retained :: bool
  dk_state_url :: bool
  dk_budget1 :: "(string \<times> int \<times> rat) list"
  dk_budget2 :: "(string \<times> int \<times> rat) list"
  dk_probe :: bool
  dk_binary :: bool
  dk_account_problem :: bool
  dk_look :: look
  dk_fleet :: "string option"
  dk_probe_error :: "exn option"
  dk_bootstrap :: bool
  dk_claude_available :: bool
  dk_context_error :: "exn option"
  dk_guard :: guard_env
  dk_fix :: fix_env
  dk_review :: review_env
  dk_close :: close_env
  dk_other :: "workshop \<Rightarrow> workshop \<times> unit_end"
  dk_before :: "snapshot option"
  dk_automatic :: bool
  dk_after :: later
  dk_head :: "string option"
  dk_pending_after :: bool
  dk_clean :: bool

text \<open>\<open>_candidate_checkout_unchanged\<close>.\<close>

definition checkout_unchanged :: "desk \<Rightarrow> candidate \<Rightarrow> bool" where
  "checkout_unchanged d c \<longleftrightarrow>
     k_pr c \<noteq> 0 \<and> k_head c \<noteq> [] \<and> dk_head d = Some (k_head c) \<and> \<not> dk_pending_after d \<and> dk_clean d"

text \<open>
  Everything before the launch, in the code's order: \<open>Inl\<close> ends the dispatch, \<open>Inr\<close> goes on with the candidate
  as the last look left it.
\<close>

definition preflight :: "desk \<Rightarrow> stage \<Rightarrow> candidate \<Rightarrow> counters \<Rightarrow> unit_end + candidate" where
  "preflight d s c st =
     (if (\<not> in_bubble s (dk_host d) \<or> dk_probe d) \<and> \<not> dk_binary d then Inl (Raised NoProgressed)
      else if dk_account_problem d then Inl (Raised Died)
      else (let (still, c') = still_actionable (dk_look d) st s c
            in if \<not> still then Inl Declined
               else if dk_fleet d \<noteq> None then Inl (Raised Refused)
               else case dk_probe_error d of
                      Some e \<Rightarrow> Inl (Raised e)
                    | None \<Rightarrow>
                        if dk_bootstrap d \<and> \<not> dk_claude_available d then Inl (Raised NoProgressed)
                        else case read_quota (dk_state_url d) s (dk_budget2 d) of
                               Some t \<Rightarrow> Inl (Raised (GithubPaused (Some t)))
                             | None \<Rightarrow> (case dk_context_error d of Some e \<Rightarrow> Inl (Raised e) | None \<Rightarrow> Inr c')))"

definition unit_of :: "desk \<Rightarrow> stage \<Rightarrow> candidate \<Rightarrow> workshop \<Rightarrow> workshop \<times> unit_end" where
  "unit_of d s c =
     (if s \<in> {Rebase, Bump, LintRepair, FixCi, Fix} then repair_unit (dk_fix d) s c
      else if s = Review then review_unit (dk_guard d) (dk_review d) c
      else dk_other d)"

definition after_launch :: "desk \<Rightarrow> stage \<Rightarrow> candidate \<Rightarrow> workshop \<times> unit_end \<Rightarrow> workshop \<times> unit_end" where
  "after_launch d s c res =
     (let (w, r) = res
      in if r = Rc 0 \<and> s \<in> set progress_guarded
            \<and> \<not> progressed (k_final c \<or> dk_automatic d) (dk_before d) (dk_after d)
         then (w, if \<not> in_bubble s (dk_host d) \<and> checkout_unchanged d c then Declined else Raised NoProgressed)
         else (w, r))"

definition launch_unit :: "desk \<Rightarrow> stage \<Rightarrow> candidate \<Rightarrow> workshop \<Rightarrow> workshop \<times> unit_end" where
  "launch_unit d s c w = after_launch d s c (run_github_stage (dk_guard d) s c (unit_of d s c) w)"

definition dispatch :: "desk \<Rightarrow> stage \<Rightarrow> candidate \<Rightarrow> workshop \<Rightarrow> workshop \<times> unit_end" where
  "dispatch d s c w =
     (if dk_dry d then (w, Rc 0)
      else if k_pr c \<noteq> 0 \<and> dk_pending d then (w, Declined)
      else if k_pr c \<noteq> 0 \<and> s \<in> set file_change_stages \<and> dk_retained d then (w, Declined)
      else case read_quota (dk_state_url d) s (dk_budget1 d) of
             Some t \<Rightarrow> (w, Raised (GithubPaused (Some t)))
           | None \<Rightarrow>
               if s = Fix \<and> k_final c \<and> max_fix_attempts \<le> count (wo_counters w) (fix_key c)
               then close_spent_pr (dk_close d) c w
               else (case preflight d s c (wo_counters w) of
                       Inl r \<Rightarrow> (w, r)
                     | Inr c' \<Rightarrow> launch_unit d s c' w))"

end
