(* ===== verification/RoundPick.thy ===== *)
theory RoundPick
  imports Dispatch
begin

text \<open>
  One round of work (\<open>work_units.run_round\<close>): which tasks are wanted, the narrowings of the survey's queues
  (\<open>throttle_review\<close>, the orders within a stage, \<open>focus_prs\<close>), and the cascade that offers candidates to
  \<open>dispatch\<close> until one is performed.
\<close>

section \<open>Options\<close>

record project =
  pj_progress :: bool
  pj_overlap :: bool
  pj_audit :: bool

datatype task = Task stage | SecurityAudit

definition disabled :: "project option \<Rightarrow> task \<Rightarrow> bool" where
  "disabled p t =
     (case p of None \<Rightarrow> False
      | Some q \<Rightarrow> t = Task Progress \<and> \<not> pj_progress q
          \<or> t \<in> {Task OverlapFix, Task OverlapScan} \<and> \<not> pj_overlap q \<or> t = SecurityAudit \<and> \<not> pj_audit q)"

definition want :: "project option \<Rightarrow> task list \<Rightarrow> task \<Rightarrow> bool" where
  "want p only t =
     (if disabled p t then False
      else if t = SecurityAudit then t \<in> set only
      else only = [] \<or> t \<in> set only)"

record round_opts =
  ro_project :: "project option"
  ro_only :: "task list"
  ro_prs :: "int list"
  ro_min_queue :: int
  ro_min_age :: int
  ro_dry :: bool
  ro_scope :: "string option"
  ro_roadmap_first :: bool

section \<open>The survey as a round sees it\<close>

record view =
  vw_queue :: "stage \<Rightarrow> candidate list"
  vw_open :: "prinfo list"
  vw_stuck :: "int list"
  vw_backpressure :: bool
  vw_wait :: "bool option"
  vw_failed :: bool
  vw_idle_reason :: "stage \<Rightarrow> bool"

text \<open>\<open>{p.number: p.build_status_at for p in sv.open_prs}\<close>: a later row wins.\<close>

definition ready_at :: "prinfo list \<Rightarrow> int \<Rightarrow> int option" where
  "ready_at prs n = (case map_of (rev (map (\<lambda>p. (number p, build_status_at p)) prs)) n of None \<Rightarrow> None | Some t \<Rightarrow> t)"

definition too_young :: "prinfo list \<Rightarrow> rat \<Rightarrow> int \<Rightarrow> candidate \<Rightarrow> bool" where
  "too_young prs now min_age c =
     (case ready_at prs (k_pr c) of None \<Rightarrow> False | Some t \<Rightarrow> of_int t > now - of_int min_age * 60)"

definition throttle_review :: "int \<Rightarrow> int \<Rightarrow> prinfo list \<Rightarrow> rat \<Rightarrow> candidate list \<Rightarrow> candidate list" where
  "throttle_review min_queue min_age prs now queue =
     (if min_queue = 0 \<and> min_age = 0 then queue
      else if min_queue \<noteq> 0 \<and> int (length queue) < min_queue then []
      else if min_age = 0 then queue
      else filter (\<lambda>c. \<not> too_young prs now min_age c) queue)"

text \<open>\<open>focus_prs\<close>: only the stages that act on a pull request, and of them only the named ones.\<close>

definition focus_prs :: "int list \<Rightarrow> (stage \<Rightarrow> candidate list) \<Rightarrow> stage \<Rightarrow> candidate list" where
  "focus_prs prs queue s =
     (if prs = [] then queue s else filter (\<lambda>c. s \<in> set pr_tasks \<and> k_pr c \<in> set prs) (queue s))"

text \<open>
  What a round reads besides: the random order \<open>rn_spread\<close>, the review order (\<open>me()\<close> may fail, which leaves no
  reviewer), a hint that a branch is claimed by a peer, and what each dispatch observes.
\<close>

record surrounding =
  rn_now :: rat
  rn_spread :: "candidate list \<Rightarrow> candidate list"
  rn_me :: string
  rn_neg_log :: "rat \<Rightarrow> rat"
  rn_draws :: "rat list"
  rn_claimed :: "int \<Rightarrow> bool"
  rn_area :: why
  rn_desk :: "stage \<Rightarrow> candidate \<Rightarrow> desk"
  rn_audit :: unit_end

definition overlap_only :: "task list \<Rightarrow> bool" where
  "overlap_only only \<longleftrightarrow> only \<noteq> [] \<and> list_all (\<lambda>t. t \<in> {Task OverlapScan, Task OverlapFix}) only"

definition global_pick :: "round_opts \<Rightarrow> bool" where
  "global_pick o' \<longleftrightarrow> \<not> overlap_only (ro_only o') \<and> ro_prs o' = []
     \<and> ro_scope o' \<in> {None, Some [], Some ''auto'', Some ''any''}"

section \<open>Orders\<close>

definition review_queue :: "round_opts \<Rightarrow> surrounding \<Rightarrow> view \<Rightarrow> candidate list" where
  "review_queue o' n v =
     (let queue = throttle_review (ro_min_queue o') (ro_min_age o') (vw_open v) (rn_now n) (vw_queue v Review);
          affinity = list_ex (\<lambda>c. k_preferred c \<noteq> []
            \<and> (case k_ready c of None \<Rightarrow> False | Some r \<Rightarrow> max 0 (rn_now n - of_int r) < review_affinity_grace_s)) queue;
          (ordered, deferred) = prioritize_review_candidates (rn_neg_log n) (rn_draws n) (rn_now n)
                                  (if affinity then rn_me n else []) queue
      in if vw_backpressure v then ordered @ deferred else ordered)"

definition ordered_queue :: "round_opts \<Rightarrow> surrounding \<Rightarrow> view \<Rightarrow> stage \<Rightarrow> candidate list" where
  "ordered_queue o' n v s =
     (if s = Review then (if want (ro_project o') (ro_only o') (Task Review) then review_queue o' n v else vw_queue v Review)
      else if s \<in> {OverlapScan, OverlapFix} then vw_queue v s
      else if global_pick o' then sort_key k_pr (vw_queue v s)
      else rn_spread n (vw_queue v s))"

text \<open>The candidates in the order they are offered; \<open>roadmap\<close> has one, which no pull request stands for.\<close>

definition roadmap_candidate :: "why \<Rightarrow> candidate" where
  "roadmap_candidate area = \<lparr>k_pr = 0, k_head = [], k_reason = area, k_attempts = 0, k_budget = 0, k_contest = [],
     k_reply = 0, k_ready = None, k_preferred = [], k_key = None, k_foreign = [], k_integration = False, k_final = False,
     k_partial = False\<rparr>"

definition stage_agenda :: "round_opts \<Rightarrow> surrounding \<Rightarrow> view \<Rightarrow> stage \<Rightarrow> (stage \<times> candidate) list" where
  "stage_agenda o' n v s =
     (if \<not> want (ro_project o') (ro_only o') (Task s) then []
      else if s = Roadmap
      then (if ro_prs o' \<noteq> [] \<or> vw_backpressure v then [] else [(Roadmap, roadmap_candidate (rn_area n))])
      else map (Pair s) (focus_prs (ro_prs o') (ordered_queue o' n v) s))"

definition agenda :: "round_opts \<Rightarrow> surrounding \<Rightarrow> view \<Rightarrow> (stage \<times> candidate) list" where
  "agenda o' n v = concat (map (stage_agenda o' n v) (auto_stages (ro_roadmap_first o')))"

section \<open>The cascade\<close>

text \<open>A cheap hint that a peer holds the branch skips a candidate before any fresh read.\<close>

definition skipped :: "round_opts \<Rightarrow> surrounding \<Rightarrow> stage \<Rightarrow> candidate \<Rightarrow> bool" where
  "skipped o' n s c \<longleftrightarrow>
     global_pick o' \<and> \<not> ro_dry o' \<and> s \<in> set file_change_stages \<and> k_pr c \<noteq> 0 \<and> rn_claimed n (k_pr c)"

text \<open>
  The loop: the final state, the end of the unit that was performed if one was, whether a claim collided, and
  the candidates that were dispatched.
\<close>

fun cascade ::
  "round_opts \<Rightarrow> surrounding \<Rightarrow> (stage \<times> candidate) list \<Rightarrow> workshop
   \<Rightarrow> workshop \<times> unit_end option \<times> bool \<times> (stage \<times> candidate) list" where
  "cascade o' n [] w = (w, None, False, [])"
| "cascade o' n ((s, c) # rest) w =
     (if skipped o' n s c
      then (let (w', e, _, offered) = cascade o' n rest w in (w', e, True, offered))
      else (let (w1, r) = dispatch (rn_desk n s c) s c w;
                collided = (s \<noteq> Roadmap \<and> cl_collisions (wo_claims w) < cl_collisions (wo_claims w1))
            in if r \<noteq> Declined then (w1, Some r, collided, [(s, c)])
               else (let (w', e, more, offered) = cascade o' n rest w1 in (w', e, collided \<or> more, (s, c) # offered))))"

text \<open>The pull requests a round escalates: those whose review keeps erroring, within its targets, unless it is dry.\<close>

definition escalated :: "round_opts \<Rightarrow> view \<Rightarrow> int list" where
  "escalated o' v = (if ro_dry o' then [] else filter (\<lambda>n. ro_prs o' = [] \<or> n \<in> set (ro_prs o')) (vw_stuck v))"

definition idle_end :: "bool \<Rightarrow> unit_end" where
  "idle_end collided = Raised (if collided then Collided else NoProgressed)"

text \<open>The end of a round in which nothing was performed.\<close>

definition nothing_done :: "round_opts \<Rightarrow> view \<Rightarrow> bool \<Rightarrow> unit_end" where
  "nothing_done o' v collided =
     (if want (ro_project o') (ro_only o') (Task Roadmap) \<and> ro_prs o' = [] \<and> vw_backpressure v then idle_end collided
      else if ro_prs o' \<noteq> [] then idle_end collided
      else if Task Progress \<in> set (ro_only o') \<and> vw_idle_reason v Progress then Raised NoProgressed
      else if list_ex (\<lambda>s. Task s \<in> set (ro_only o') \<and> vw_idle_reason v s) [OverlapFix, OverlapScan] then Raised NoProgressed
      else idle_end collided)"

text \<open>The part of \<open>run_round\<close> after the survey; \<open>SharedStateUnavailable\<close> is a GitHub pause.\<close>

definition surveyed_round ::
  "round_opts \<Rightarrow> surrounding \<Rightarrow> view \<Rightarrow> workshop \<Rightarrow> workshop \<times> unit_end \<times> (stage \<times> candidate) list" where
  "surveyed_round o' n v w =
     (case vw_wait v of
        Some fatal \<Rightarrow> (w, Raised (if fatal then Died else GithubPaused None), [])
      | None \<Rightarrow>
          if vw_failed v then (w, Raised NoProgressed, [])
          else (let (w', e, collided, offered) = cascade o' n (agenda o' n v) w
                in (w', case e of Some r \<Rightarrow> r | None \<Rightarrow> nothing_done o' v collided, offered)))"

text \<open>
  \<open>run_round\<close>. A security audit runs first; mixed with other tasks its failure lets them run, and its success
  ends the round. \<open>view_of\<close> is the survey for the remaining options.
\<close>

definition run_round ::
  "round_opts \<Rightarrow> surrounding \<Rightarrow> (round_opts \<Rightarrow> view) \<Rightarrow> workshop \<Rightarrow> workshop \<times> unit_end \<times> (stage \<times> candidate) list" where
  "run_round o' n view_of w =
     (if SecurityAudit \<notin> set (ro_only o') then surveyed_round o' n (view_of o') w
      else (let others = filter (\<lambda>t. t \<noteq> SecurityAudit) (ro_only o')
            in if others = [] then (w, rn_audit n, [])
               else (case rn_audit n of
                       Raised e \<Rightarrow> if e = Died \<or> is_no_progress e
                                   then surveyed_round (o'\<lparr>ro_only := others\<rparr>) n (view_of (o'\<lparr>ro_only := others\<rparr>)) w
                                   else (w, Raised e, [])
                     | r \<Rightarrow> (w, r, []))))"

end
