(* ===== verification/AttemptLaws.thy ===== *)
theory AttemptLaws
  imports WorkUnit
begin

text \<open>
  What the accounting of attempts guarantees: printing and reading a counter are inverse, and a unit charges an
  attempt at most once, keeps it exactly when it ran, and runs no agent when it declines.
\<close>

section \<open>Printing and reading a counter\<close>

lemma digit_char_of: "d < 10 \<Longrightarrow> of_char (digit_char d) = 48 + d"
  by (simp add: digit_char_def of_char_of)

lemma is_digit_char [simp]: "d < 10 \<Longrightarrow> is_digit (digit_char d)"
  by (simp add: is_digit_def Let_def digit_char_of)

lemma digits_nat_snoc: "digits_nat (xs @ [c]) = 10 * digits_nat xs + (of_char c - 48)"
  by (simp add: digits_nat_def)

lemma digits_of_decimal: "digits_nat (nat_decimal n) = n"
proof (induction n rule: nat_decimal.induct)
  case (1 n)
  show ?case
  proof (cases "n < 10")
    case True
    then show ?thesis by (subst nat_decimal.simps) (simp add: digits_nat_def digit_char_of)
  next
    case False
    have "digits_nat (nat_decimal n) = 10 * digits_nat (nat_decimal (n div 10)) + (of_char (digit_char (n mod 10)) - 48)"
      using False by (subst nat_decimal.simps) (simp add: digits_nat_snoc)
    also have "\<dots> = 10 * (n div 10) + n mod 10" using 1 False by (simp add: digit_char_of)
    finally show ?thesis by simp
  qed
qed

lemma decimal_digits: "nat_decimal n \<noteq> [] \<and> list_all is_digit (nat_decimal n)"
proof (induction n rule: nat_decimal.induct)
  case (1 n)
  show ?case
  proof (cases "n < 10")
    case True
    then show ?thesis by (subst (1 2) nat_decimal.simps) simp
  next
    case False
    then show ?thesis using 1 by (subst (1 2) nat_decimal.simps) simp
  qed
qed

lemma digit_not_space: "is_digit c \<Longrightarrow> \<not> py_space c"
  by (auto simp: is_digit_def py_space_def Let_def)

lemma strip_digits:
  assumes "list_all is_digit s"
  shows "py_strip s = s"
proof -
  have "dropWhile py_space t = t" if "list_all is_digit t" for t
    using that digit_not_space by (cases t) auto
  then show ?thesis using assms by (simp add: py_strip_def)
qed

lemma read_written:
  assumes "0 \<le> v"
  shows "read_counter (write_counter decimal k v s) k = Inr v"
  using assms decimal_digits [of "nat v"] strip_digits [of "nat_decimal (nat v)"]
  by (simp add: read_counter_def write_counter_def decimal_def digits_of_decimal Let_def)

lemma read_other: "k \<noteq> k' \<Longrightarrow> read_counter (write_counter decimal k v s) k' = read_counter s k'"
  by (simp add: read_counter_def write_counter_def)

lemma read_nonneg: "read_counter s k = Inr n \<Longrightarrow> 0 \<le> n"
  by (auto simp: read_counter_def Let_def split: cfile.splits if_splits)

section \<open>Stores of counters\<close>

text \<open>What every loop over counters relies on: a written value is read back, and nothing else changes.\<close>

locale counter_store =
  fixes read_in :: "'s \<Rightarrow> 'k \<Rightarrow> 'e + int" and write_in :: "'k \<Rightarrow> int \<Rightarrow> 's \<Rightarrow> 's"
  assumes same: "0 \<le> v \<Longrightarrow> read_in (write_in k v s) k = Inr v"
    and other: "k \<noteq> k' \<Longrightarrow> read_in (write_in k v s) k' = read_in s k'"
    and nonneg: "read_in s k = Inr n \<Longrightarrow> 0 \<le> n"
begin

lemma update_all_reads:
  assumes "update_all read_in write_in f ks s = Inr s'" and "distinct ks"
    and "\<And>k n. k \<in> set ks \<Longrightarrow> 0 \<le> n \<Longrightarrow> 0 \<le> f k n"
  shows "read_in s' k = (if k \<in> set ks then map_sum (\<lambda>e. e) (f k) (read_in s k) else read_in s k)"
  using assms
proof (induction ks arbitrary: s)
  case (Cons a ks)
  obtain n where n: "read_in s a = Inr n"
    and rest: "update_all read_in write_in f ks (write_in a (f a n) s) = Inr s'"
    using Cons.prems(1) by auto
  have pos: "0 \<le> f a n" using Cons.prems(3) nonneg [OF n] by simp
  have "read_in s' k = (if k \<in> set ks then map_sum (\<lambda>e. e) (f k) (read_in (write_in a (f a n) s) k)
          else read_in (write_in a (f a n) s) k)"
    using Cons.IH [OF rest] Cons.prems by simp
  then show ?case using Cons.prems(2) n same [OF pos] other [of a k] by (cases "a = k") auto
qed simp

lemma update_all_ok:
  assumes "distinct ks" and "\<And>k. k \<in> set ks \<Longrightarrow> \<exists>n. read_in s k = Inr n"
    and "\<And>k n. k \<in> set ks \<Longrightarrow> 0 \<le> n \<Longrightarrow> 0 \<le> f k n"
  shows "\<exists>s'. update_all read_in write_in f ks s = Inr s'"
  using assms
proof (induction ks arbitrary: s)
  case (Cons a ks)
  obtain n where n: "read_in s a = Inr n" using Cons.prems(2) by auto
  have "\<exists>s'. update_all read_in write_in f ks (write_in a (f a n) s) = Inr s'"
  proof (rule Cons.IH)
    show "\<exists>m. read_in (write_in a (f a n) s) k = Inr m" if "k \<in> set ks" for k
      using Cons.prems(1,2) that other [of a k] by (cases "a = k") auto
  qed (use Cons.prems in auto)
  then show ?case using n by simp
qed simp

end

interpretation files: counter_store read_counter "write_counter decimal"
  by unfold_locales (auto simp: read_written read_other dest: read_nonneg)

text \<open>Reading the counters of an accounting state as numbers.\<close>

definition readable :: "counters \<Rightarrow> ckey list \<Rightarrow> bool" where
  "readable s ks \<longleftrightarrow> (\<forall>k\<in>set ks. \<exists>n. read_counter s k = Inr n)"

lemma count_nonneg: "0 \<le> count s k"
  by (auto simp: count_def split: sum.splits dest: read_nonneg)

lemma readable_count: "readable s ks \<Longrightarrow> k \<in> set ks \<Longrightarrow> read_counter s k = Inr (count s k)"
  by (auto simp: readable_def count_def)

lemma update_count:
  assumes "update_all read_counter (write_counter decimal) f ks s = Inr s'" and "distinct ks" and "readable s ks"
    and "\<And>k n. k \<in> set ks \<Longrightarrow> 0 \<le> n \<Longrightarrow> 0 \<le> f k n"
  shows "count s' k = (if k \<in> set ks then f k (count s k) else count s k)" and "readable s' ks"
    and "(\<exists>n. read_counter s' k = Inr n) = (\<exists>n. read_counter s k = Inr n)"
proof -
  note r = files.update_all_reads [OF assms(1,2,4)]
  have c: "read_counter s' k = (if k \<in> set ks then Inr (f k (count s k)) else read_counter s k)" for k
    using r [of k] readable_count [OF assms(3)] by simp
  show "count s' k = (if k \<in> set ks then f k (count s k) else count s k)" using c [of k] by (simp add: count_def)
  show "readable s' ks" using c by (simp add: readable_def)
  show "(\<exists>n. read_counter s' k = Inr n) = (\<exists>n. read_counter s k = Inr n)"
    using c [of k] readable_count [OF assms(3)] by auto
qed

section \<open>Balances of attempts\<close>

text \<open>
  From \<open>s\<close> to \<open>s'\<close> the charged counters moved by \<open>d\<close>, the allowance of refunds by \<open>i\<close>, and nothing else.
\<close>

definition moved :: "ckey list \<Rightarrow> ckey \<Rightarrow> int \<Rightarrow> int \<Rightarrow> counters \<Rightarrow> counters \<Rightarrow> bool" where
  "moved keys ik d i s s' \<longleftrightarrow>
     (\<forall>k. count s' k = count s k + (if k \<in> set keys then d else if k = ik then i else 0)
          \<and> ((\<exists>n. read_counter s' k = Inr n) = (\<exists>n. read_counter s k = Inr n)))"

lemma moved_refl: "moved keys ik 0 0 s s"
  by (simp add: moved_def)

lemma moved_trans:
  "moved keys ik d i s t \<Longrightarrow> moved keys ik d' i' t u \<Longrightarrow> moved keys ik (d + d') (i + i') s u"
  by (simp add: moved_def)

lemma moved_readable: "moved keys ik d i s s' \<Longrightarrow> readable s' ks = readable s ks"
  by (simp add: moved_def readable_def)

lemma moved_foreign: "moved keys ik 0 0 s (s\<lparr>cn_foreign := f\<rparr>)"
  by (simp add: moved_def count_def read_counter_def)

lemma charge_moved:
  assumes "readable s keys" and "distinct keys"
  shows "\<exists>s'. charge_all keys s = Inr s' \<and> moved keys ik 1 0 s s'"
proof -
  obtain s' where s': "charge_all keys s = Inr s'"
    using files.update_all_ok [OF assms(2), of s "\<lambda>k n. n + 1"] assms(1) by (auto simp: charge_all_def readable_def)
  note u = update_count [OF s' [unfolded charge_all_def] assms(2,1)]
  have "moved keys ik 1 0 s s'" using u(1,3) by (simp add: moved_def)
  with s' show ?thesis by blast
qed

lemma refund_moved:
  assumes "readable s keys" and "distinct keys" and "\<forall>k\<in>set keys. 1 \<le> count s k"
  shows "\<exists>s'. refund_all keys s = Inr s' \<and> moved keys ik (- 1) 0 s s'"
proof -
  obtain s' where s': "refund_all keys s = Inr s'"
    using files.update_all_ok [OF assms(2), of s "\<lambda>k n. max 0 (n - 1)"] assms(1) by (auto simp: refund_all_def readable_def)
  note u = update_count [OF s' [unfolded refund_all_def] assms(2,1)]
  have "moved keys ik (- 1) 0 s s'" using u(1,3) assms(3) by (auto simp: moved_def)
  with s' show ?thesis by blast
qed

lemma infra_moved:
  assumes "Infra l pr \<notin> set keys"
  shows "\<exists>s'. charge_all [Infra l pr] s = Inr s' \<and> moved keys (Infra l pr) 0 1 s s'"
proof -
  have r: "readable s [Infra l pr]" by (auto simp: readable_def read_counter_def Let_def split: cfile.splits)
  obtain s' where s': "charge_all [Infra l pr] s = Inr s'"
    using files.update_all_ok [of "[Infra l pr]" s "\<lambda>k n. n + 1"] r by (auto simp: charge_all_def readable_def)
  note u = update_count [OF s' [unfolded charge_all_def] _ r]
  have "moved keys (Infra l pr) 0 1 s s'" using u(1,3) assms by (auto simp: moved_def)
  with s' show ?thesis by blast
qed

section \<open>What a repair leaves\<close>

abbreviation infra_key :: "stage \<Rightarrow> candidate \<Rightarrow> ckey" where
  "infra_key s c \<equiv> Infra (stage_label s) (k_pr c)"

text \<open>
  The state \<open>w'\<close> and end \<open>r\<close> of a repair whose counters were charged before \<open>w\<close>: an attempt is handed back at
  most once, kept when the unit returns a status, and handed back after a run only out of the allowance.
\<close>

definition repair_post ::
  "fix_env \<Rightarrow> stage \<Rightarrow> ckey list \<Rightarrow> candidate \<Rightarrow> bool \<Rightarrow> workshop \<Rightarrow> workshop \<times> unit_end \<Rightarrow> bool" where
  "repair_post x s keys c usable w res \<longleftrightarrow>
     (\<exists>d i. moved keys (infra_key s c) d i (wo_counters w) (wo_counters (fst res))
        \<and> d \<in> {-1, 0} \<and> i \<in> {0, 1}
        \<and> (case snd res of
              Rc n \<Rightarrow> d = 0
            | Declined \<Rightarrow> wo_runs (fst res) = wo_runs w \<and> (usable \<longrightarrow> d = -1)
            | Raised e \<Rightarrow> e = CacheDown \<and> wo_runs (fst res) = wo_runs w \<longrightarrow> d = -1)
        \<and> wo_runs (fst res) \<in> {wo_runs w, wo_runs w @ [(s, k_pr c)]}
        \<and> (d = -1 \<and> wo_runs (fst res) \<noteq> wo_runs w \<and> fe_blocked x = None
            \<longrightarrow> i = 1 \<and> count (wo_counters (fst res)) (infra_key s c) \<le> max_infra_refunds
               \<and> snd res = Raised NoProgressed))"

lemma repair_postI:
  assumes "moved keys (infra_key s c) d i (wo_counters w) (wo_counters w')" and "d \<in> {-1, 0}" and "i \<in> {0, 1}"
    and "wo_runs w' \<in> {wo_runs w, wo_runs w @ [(s, k_pr c)]}"
    and "\<And>n. r = Rc n \<Longrightarrow> d = 0"
    and "r = Declined \<Longrightarrow> wo_runs w' = wo_runs w \<and> (usable \<longrightarrow> d = -1)"
    and "r = Raised CacheDown \<Longrightarrow> wo_runs w' = wo_runs w \<Longrightarrow> d = -1"
    and "d = -1 \<Longrightarrow> wo_runs w' \<noteq> wo_runs w \<Longrightarrow> fe_blocked x = None
       \<Longrightarrow> i = 1 \<and> count (wo_counters w') (infra_key s c) \<le> max_infra_refunds \<and> r = Raised NoProgressed"
  shows "repair_post x s keys c usable w (w', r)"
  unfolding repair_post_def using assms
  by (intro exI [of _ d] exI [of _ i]) (cases r; simp)

lemma declined_post:
  assumes "readable (wo_counters w) keys" "distinct keys" "\<forall>k\<in>set keys. 1 \<le> count (wo_counters w) k"
    and "wo_counters w1 = wo_counters w" "wo_runs w1 = wo_runs w"
  shows "repair_post x s keys c usable w (declined keys w1)"
proof -
  obtain t where t: "refund_all keys (wo_counters w) = Inr t" "moved keys (infra_key s c) (- 1) 0 (wo_counters w) t"
    using refund_moved [OF assms(1-3)] by blast
  have "declined keys w1 = (w1\<lparr>wo_counters := t\<rparr>, Declined)" using t(1) assms(4) by (simp add: declined_def counting_def)
  then show ?thesis using t(2) assms(5) by (auto intro: repair_postI)
qed

lemma decline_repair_post:
  assumes "readable (wo_counters w) keys" "distinct keys" "\<forall>k\<in>set keys. 1 \<le> count (wo_counters w) k"
    and "wo_counters w1 = wo_counters w" "wo_runs w1 = wo_runs w"
  shows "repair_post x s keys c usable w (decline_repair keys w1)"
  unfolding decline_repair_def using assms by (intro declined_post) simp_all

lemma finish_post:
  assumes "readable (wo_counters w) keys" "distinct keys" "\<forall>k\<in>set keys. 1 \<le> count (wo_counters w) k"
    and "infra_key s c \<notin> set keys" and "wo_counters w1 = wo_counters w" "wo_runs w1 = wo_runs w @ [(s, k_pr c)]"
  shows "repair_post x s keys c usable w (finish_repair x s keys c rc w1)"
proof -
  let ?ik = "infra_key s c"
  have stay: "repair_post x s keys c usable w (w1, r)" if "r \<noteq> Declined" for r
    using that assms(5,6) moved_refl by (intro repair_postI [of keys s c 0 0]) auto
  obtain t where t: "refund_all keys (wo_counters w) = Inr t" "moved keys ?ik (- 1) 0 (wo_counters w) t"
    using refund_moved [OF assms(1-3)] by blast
  obtain u where u: "charge_all [?ik] (wo_counters w) = Inr u" "moved keys ?ik 0 1 (wo_counters w) u"
    using infra_moved [OF assms(4)] by blast
  have "readable u keys" "\<forall>k\<in>set keys. 1 \<le> count u k"
    using u(2) assms(1,3) moved_readable [OF u(2)] by (simp_all add: moved_def)
  then obtain v where v: "refund_all keys u = Inr v" "moved keys ?ik (- 1) 0 u v"
    using refund_moved assms(2) by blast
  have v2: "moved keys ?ik (- 1) 1 (wo_counters w) v" using moved_trans [OF u(2) v(2)] by simp
  have same: "count v ?ik = count u ?ik" using v(2) assms(4) by (simp add: moved_def)
  show ?thesis
  proof (cases "rc = 0 \<or> k_foreign c \<noteq> []")
    case True
    then show ?thesis using stay by (auto simp: finish_repair_def)
  next
    case False
    then have fin: "finish_repair x s keys c rc w1 = refund_infra_failure x s keys (k_pr c) rc w1" by (simp add: finish_repair_def)
    show ?thesis
    proof (cases "fe_blocked x")
      case (Some f)
      then show ?thesis using t assms(5,6) stay
        by (auto simp: fin refund_infra_failure_def counting_def intro!: repair_postI)
    next
      case None
      show ?thesis
      proof (cases "fe_infra x \<and> count u ?ik \<le> max_infra_refunds")
        case True
        then have "finish_repair x s keys c rc w1 = (w1\<lparr>wo_counters := v\<rparr>, Raised NoProgressed)"
          using None u(1) v(1) assms(5) by (simp add: fin refund_infra_failure_def counting_def)
        then show ?thesis using v2 True same assms(6) by (auto intro!: repair_postI)
      next
        case False
        then consider "\<not> fe_infra x" | "fe_infra x" "count u ?ik > max_infra_refunds" by force
        then show ?thesis
        proof cases
          case 1
          then show ?thesis using None stay by (simp add: fin refund_infra_failure_def)
        next
          case 2
          then have "finish_repair x s keys c rc w1 = (w1\<lparr>wo_counters := u\<rparr>, Rc rc)"
            using None u(1) assms(5) by (simp add: fin refund_infra_failure_def counting_def)
          then show ?thesis using u(2) assms(6) by (auto intro!: repair_postI)
        qed
      qed
    qed
  qed
qed

lemma run_post:
  assumes "readable (wo_counters w) keys" "distinct keys" "\<forall>k\<in>set keys. 1 \<le> count (wo_counters w) k"
    and "infra_key s c \<notin> set keys" and "wo_counters w1 = wo_counters w" "wo_runs w1 = wo_runs w"
  shows "repair_post x s keys c usable w (run_repair x p s keys c w1)"
proof -
  have ran: "wo_counters (log_run s (k_pr c) w1) = wo_counters w"
      "wo_runs (log_run s (k_pr c) w1) = wo_runs w @ [(s, k_pr c)]"
    using assms(5,6) by (simp_all add: log_run_def)
  have fin: "repair_post x s keys c usable w (finish_repair x s keys c rc (log_run s (k_pr c) w1))" for rc
    using assms(1-4) ran by (rule finish_post)
  have thrown: "repair_post x s keys c usable w (log_run s (k_pr c) w1, Raised e)" for e
    using ran moved_refl by (intro repair_postI [of keys s c 0 0]) auto
  obtain t where t: "refund_all keys (wo_counters w) = Inr t" "moved keys (infra_key s c) (- 1) 0 (wo_counters w) t"
    using refund_moved [OF assms(1-3)] by blast
  have cache: "repair_post x s keys c usable w (counting (refund_all keys) w1 (\<lambda>w'. (w', Raised CacheDown)))"
    using t assms(5,6) by (auto simp: counting_def intro!: repair_postI)
  have dec: "repair_post x s keys c usable w (decline_repair keys w1)"
    using assms(1-3,5,6) by (rule decline_repair_post)
  have one: "repair_post x s keys c usable w (w1, Rc 1)"
    using assms(5,6) moved_refl by (intro repair_postI [of keys s c 0 0]) auto
  consider (bubble) "fe_bubble x" | (unprepared) "\<not> fe_bubble x" "\<not> fe_prepared x \<or> \<not> fe_checkout x"
    | (moved) "\<not> fe_bubble x" "\<not> (\<not> fe_prepared x \<or> \<not> fe_checkout x)" "checkout_moved x s c \<or> handoff_failed x p s c"
    | (host) "\<not> fe_bubble x" "\<not> (\<not> fe_prepared x \<or> \<not> fe_checkout x)" "\<not> (checkout_moved x s c \<or> handoff_failed x p s c)"
    by blast
  then show ?thesis
  proof cases
    case bubble
    then show ?thesis using fin thrown by (cases "fe_agent x") (simp_all add: run_repair_def)
  next
    case unprepared
    then show ?thesis using one by (simp add: run_repair_def)
  next
    case moved
    then show ?thesis using dec by (simp only: run_repair_def if_False if_True)
  next
    case host
    show ?thesis
    proof (cases "fe_agent x")
      case (Exits rc)
      then show ?thesis using host fin by (simp add: run_repair_def)
    next
      case (Throws e)
      then show ?thesis using host cache thrown by (cases e) (simp_all add: run_repair_def)
    qed
  qed
qed

text \<open>Whether the pull request still has a head branch to push to.\<close>

definition usable_head :: "fix_env \<Rightarrow> bool" where
  "usable_head x \<longleftrightarrow>
     (case fe_pr x of None \<Rightarrow> False | Some p \<Rightarrow> head_owner p \<noteq> [] \<and> head_repo p \<noteq> [] \<and> head_ref p \<noteq> [])"

lemma post_foreign:
  assumes "repair_post x s keys c usable (w\<lparr>wo_counters := record_foreign_repair_launch pr (wo_counters w)\<rparr>) res"
  shows "repair_post x s keys c usable w res"
proof -
  let ?w = "w\<lparr>wo_counters := record_foreign_repair_launch pr (wo_counters w)\<rparr>"
  obtain d i where m: "moved keys (infra_key s c) d i (wo_counters ?w) (wo_counters (fst res))"
    and rest: "d \<in> {-1, 0}" "i \<in> {0, 1}" "wo_runs (fst res) \<in> {wo_runs ?w, wo_runs ?w @ [(s, k_pr c)]}"
      "case snd res of Rc n \<Rightarrow> d = 0 | Declined \<Rightarrow> wo_runs (fst res) = wo_runs ?w \<and> (usable \<longrightarrow> d = -1)
            | Raised e \<Rightarrow> e = CacheDown \<and> wo_runs (fst res) = wo_runs ?w \<longrightarrow> d = -1"
      "d = -1 \<and> wo_runs (fst res) \<noteq> wo_runs ?w \<and> fe_blocked x = None
            \<longrightarrow> i = 1 \<and> count (wo_counters (fst res)) (infra_key s c) \<le> max_infra_refunds \<and> snd res = Raised NoProgressed"
    using assms unfolding repair_post_def by blast
  have "moved keys (infra_key s c) d i (wo_counters w) (wo_counters (fst res))"
    using m by (simp add: moved_def record_foreign_repair_launch_def count_def read_counter_def)
  moreover have "wo_runs ?w = wo_runs w" by simp
  ultimately show ?thesis using rest unfolding repair_post_def by metis
qed

lemma if_post:
  "(b \<Longrightarrow> repair_post x s keys c u w r) \<Longrightarrow> (\<not> b \<Longrightarrow> repair_post x s keys c u w r')
   \<Longrightarrow> repair_post x s keys c u w (if b then r else r')"
  by simp

lemma fixlike_post:
  assumes "readable (wo_counters w) keys" "distinct keys" "\<forall>k\<in>set keys. 1 \<le> count (wo_counters w) k"
    and "infra_key s c \<notin> set keys"
  shows "repair_post x s keys c (usable_head x) w (fixlike x s keys c w)"
proof -
  have dec: "repair_post x s keys c (usable_head x) w (declined keys (w\<lparr>wo_claims := cl\<rparr>))" for cl
    using assms(1-3) by (intro declined_post) simp_all
  have dec0: "repair_post x s keys c (usable_head x) w (declined keys w)"
    using assms(1-3) by (intro declined_post) simp_all
  have decr: "repair_post x s keys c (usable_head x) w (decline_repair keys (w\<lparr>wo_claims := cl\<rparr>))" for cl
    using assms(1-3) by (intro decline_repair_post) simp_all
  have run: "repair_post x s keys c (usable_head x) w (run_repair x p s keys c (w\<lparr>wo_claims := cl\<rparr>))" for cl p
    using assms by (intro run_post) simp_all
  have runf: "repair_post x s keys c (usable_head x) w (run_repair x p s keys c
      (w\<lparr>wo_claims := cl, wo_counters := record_foreign_repair_launch pr (wo_counters w)\<rparr>))" for cl p pr
  proof (rule post_foreign [where pr = pr], rule run_post)
    show "readable (wo_counters (w\<lparr>wo_counters := record_foreign_repair_launch pr (wo_counters w)\<rparr>)) keys"
      using assms(1) by (simp add: readable_def read_counter_def record_foreign_repair_launch_def)
    show "\<forall>k\<in>set keys. 1 \<le> count (wo_counters (w\<lparr>wo_counters := record_foreign_repair_launch pr (wo_counters w)\<rparr>)) k"
      using assms(3) by (simp add: count_def read_counter_def record_foreign_repair_launch_def)
  qed (use assms in simp_all)
  have died: "repair_post x s keys c (usable_head x) w (w, Raised Died)"
    using moved_refl by (intro repair_postI [of keys s c 0 0]) auto
  have gone: "repair_post x s keys c (usable_head x) w (w, Declined)" if "\<not> usable_head x"
    using that moved_refl by (intro repair_postI [of keys s c 0 0]) auto
  show ?thesis
  proof (cases "fe_pr x")
    case None
    then show ?thesis using died by (simp add: fixlike_def)
  next
    case (Some p)
    obtain cl ok where bw: "begin_branch_work (fe_claim_rc x) (k_pr c) (k_head c) (head_ref p)
                              (head_owner p, head_repo p) (wo_claims w) = (cl, ok)" by fastforce
    have runf': "repair_post x s keys c (usable_head x) w (run_repair x p s keys c ((w\<lparr>wo_claims := cl\<rparr>)
        \<lparr>wo_counters := record_foreign_repair_launch (k_pr c) (wo_counters (w\<lparr>wo_claims := cl\<rparr>))\<rparr>))"
      using runf by simp
    have gone': "repair_post x s keys c (usable_head x) w (w, Declined)"
      if "head_owner p = [] \<or> head_repo p = [] \<or> head_ref p = []"
      using that Some by (intro gone) (auto simp: usable_head_def)
    show ?thesis
      unfolding fixlike_def Some bw option.case Let_def prod.case if_distrib [of "run_repair x p s keys c"]
      by (intro if_post; (rule dec dec0 decr run runf' | erule gone'))
  qed
qed

end
