(* ===== verification/WorkLaws.thy ===== *)
theory WorkLaws
  imports AttemptLaws
begin

text \<open>
  The accounting of a whole unit under its guard, the bound on how often one head is repaired, and what becomes
  of the branch claim.
\<close>

section \<open>A charged unit\<close>

definition repair_stages :: "stage list" where
  "repair_stages = [Rebase, Bump, LintRepair, FixCi, Fix]"

lemma unit_keys_distinct: "unit_keys s c = Some keys \<Longrightarrow> distinct keys"
  by (cases s) (auto simp: unit_keys_def Let_def)

definition unit_post ::
  "fix_env \<Rightarrow> stage \<Rightarrow> ckey list \<Rightarrow> candidate \<Rightarrow> workshop \<Rightarrow> workshop \<times> unit_end \<Rightarrow> bool" where
  "unit_post x s keys c w res \<longleftrightarrow>
     (\<exists>d i. moved keys (infra_key s c) d i (wo_counters w) (wo_counters (fst res))
        \<and> d \<in> {0, 1} \<and> i \<in> {0, 1}
        \<and> (case snd res of
              Rc n \<Rightarrow> d = 1
            | Declined \<Rightarrow> wo_runs (fst res) = wo_runs w \<and> (usable_head x \<longrightarrow> d = 0)
            | Raised e \<Rightarrow> e = CacheDown \<and> wo_runs (fst res) = wo_runs w \<longrightarrow> d = 0)
        \<and> wo_runs (fst res) \<in> {wo_runs w, wo_runs w @ [(s, k_pr c)]}
        \<and> (d = 0 \<and> wo_runs (fst res) \<noteq> wo_runs w \<and> fe_blocked x = None
            \<longrightarrow> i = 1 \<and> count (wo_counters (fst res)) (infra_key s c) \<le> max_infra_refunds
               \<and> snd res = Raised NoProgressed))"

lemma charged_post:
  assumes "readable (wo_counters w) keys" "distinct keys" "infra_key s c \<notin> set keys"
  shows "unit_post x s keys c w (counting (charge_all keys) w (fixlike x s keys c))"
proof -
  obtain t where t: "charge_all keys (wo_counters w) = Inr t" "moved keys (infra_key s c) 1 0 (wo_counters w) t"
    using charge_moved [OF assms(1,2)] by blast
  let ?w = "w\<lparr>wo_counters := t\<rparr>"
  have r: "readable t keys" using t(2) assms(1) by (simp add: moved_readable)
  have pos: "\<forall>k\<in>set keys. 1 \<le> count t k"
    using t(2) count_nonneg [of "wo_counters w"] by (auto simp: moved_def)
  define res where "res = fixlike x s keys c ?w"
  have eq: "counting (charge_all keys) w (fixlike x s keys c) = res"
    using t(1) by (simp add: counting_def res_def)
  have runs: "wo_runs ?w = wo_runs w" and cnt: "wo_counters ?w = t" by simp_all
  have "repair_post x s keys c (usable_head x) ?w res"
    unfolding res_def using r pos assms(2,3) by (intro fixlike_post) simp_all
  then obtain d i where m: "moved keys (infra_key s c) d i t (wo_counters (fst res))" and d: "d \<in> {-1, 0}" "i \<in> {0, 1}"
    and e: "case snd res of Rc n \<Rightarrow> d = 0 | Declined \<Rightarrow> wo_runs (fst res) = wo_runs w \<and> (usable_head x \<longrightarrow> d = -1)
         | Raised e \<Rightarrow> e = CacheDown \<and> wo_runs (fst res) = wo_runs w \<longrightarrow> d = -1"
    and l: "wo_runs (fst res) \<in> {wo_runs w, wo_runs w @ [(s, k_pr c)]}"
    and q: "d = -1 \<and> wo_runs (fst res) \<noteq> wo_runs w \<and> fe_blocked x = None
         \<longrightarrow> i = 1 \<and> count (wo_counters (fst res)) (infra_key s c) \<le> max_infra_refunds \<and> snd res = Raised NoProgressed"
    unfolding repair_post_def runs cnt by blast
  have "moved keys (infra_key s c) (1 + d) i (wo_counters w) (wo_counters (fst res))"
    using moved_trans [OF t(2) m] by simp
  moreover have "case snd res of Rc n \<Rightarrow> 1 + d = 1 | Declined \<Rightarrow> wo_runs (fst res) = wo_runs w \<and> (usable_head x \<longrightarrow> 1 + d = 0)
         | Raised e \<Rightarrow> e = CacheDown \<and> wo_runs (fst res) = wo_runs w \<longrightarrow> 1 + d = 0"
    using e by (cases "snd res") simp_all
  moreover have "1 + d \<in> {0, 1}" and "1 + d = 0 \<Longrightarrow> d = -1" using d by auto
  ultimately show ?thesis unfolding unit_post_def eq using d(2) l q by blast
qed

lemma repair_unit_post:
  assumes "unit_keys s c = Some keys" and "readable (wo_counters w) keys" and "infra_key s c \<notin> set keys"
  shows "unit_post x s keys c w (repair_unit x s c w)"
proof -
  have still: "unit_post x s keys c w (w, r)" if "\<forall>n. r \<noteq> Rc n" for r
    using that moved_refl unfolding unit_post_def
    by (intro exI [of _ 0] exI [of _ 0]) (cases r; simp)
  have main: "unit_post x s keys c w (counting (charge_all keys) w (fixlike x s keys c))"
    using assms(2) unit_keys_distinct [OF assms(1)] assms(3) by (rule charged_post)
  show ?thesis using assms(1) still main
    by (auto simp: repair_unit_def split: sum.split)
qed

section \<open>Restoration\<close>

lemma read_all_values:
  "read_all ks s = Inr vs \<Longrightarrow> map fst vs = ks \<and> (\<forall>k\<in>set ks. map_of vs k = Some (count s k))"
proof (induction ks arbitrary: vs)
  case (Cons a ks)
  obtain n us where n: "read_counter s a = Inr n" and us: "read_all ks s = Inr us" "vs = (a, n) # us"
    using Cons.prems by (auto simp: ebind_Inr_iff)
  have "count s a = n" using n by (simp add: count_def)
  then show ?case using Cons.IH [OF us(1)] us(2) by auto
qed simp

lemma read_all_ok: "readable s ks \<Longrightarrow> \<exists>vs. read_all ks s = Inr vs"
  by (induction ks) (auto simp: readable_def)

lemma restore_moved:
  assumes "read_all keys s = Inr vs" and "moved keys ik d i s t" and "0 \<le> d" and "distinct keys" and "readable s keys"
  shows "\<exists>u. restore_all vs t = Inr u \<and> moved keys ik 0 i s u"
proof -
  let ?f = "\<lambda>k n. case map_of vs k of None \<Rightarrow> n | Some v \<Rightarrow> min v n"
  note v = read_all_values [OF assms(1)]
  have rt: "readable t keys" using assms(2,5) by (simp add: moved_readable)
  have pos: "0 \<le> ?f k n" if "k \<in> set keys" "0 \<le> n" for k n
    using v that count_nonneg [of s k] by auto
  obtain u where u: "restore_all vs t = Inr u"
    using files.update_all_ok [OF assms(4), of t ?f] rt pos v by (auto simp: restore_all_def readable_def)
  have "update_all read_counter (write_counter decimal) ?f keys t = Inr u" using u v by (simp add: restore_all_def)
  note c = update_count [OF this assms(4) rt pos]
  have "moved keys ik 0 i s u"
    unfolding moved_def using c(1,3) assms(2,3) v by (auto simp: moved_def)
  with u show ?thesis by blast
qed

lemma handle_end_cases:
  assumes "restore_all b (wo_counters w1) = Inr t" and "handle_end g b b fresh pr w1 r = (w', r')"
  shows "w' = w1 \<and> (r' = r \<and> (\<forall>t. r \<noteq> Raised (GithubPaused t))
                         \<and> (r = Raised Refused \<longrightarrow> ge_launched g = Some True \<or> ge_admitted g = Some True)
                     \<or> r' = Raised Refused \<and> (ge_launched g = Some True \<or> ge_admitted g = Some True))
    \<or> (\<exists>f. wo_runs w' = wo_runs w1 \<and> wo_counters w' = t\<lparr>cn_foreign := f\<rparr>)
        \<and> (r' = Raised Refused \<or> (\<exists>z. r' = Raised (GithubPaused z)))"
proof -
  have t: "\<exists>f. t\<lparr>cn_foreign := f\<rparr> = t" by (rule exI [of _ "cn_foreign t"]) simp
  define stays where "stays \<longleftrightarrow> ge_launched g = Some True \<or> ge_admitted g = Some True"
  have pause: "restoring b e w1 = (w1\<lparr>wo_counters := t\<rparr>, Raised e)" for e
    using assms(1) by (simp add: restoring_def counting_def)
  have same: "t\<lparr>cn_foreign := cn_foreign t\<rparr> = t" by simp
  define f where "f = (if fresh \<and> (ge_launched g \<noteq> None \<or> ge_admitted g = Some False)
    then (cn_foreign t)(pr := False) else cn_foreign t)"
  have refund: "refund_admission g b fresh pr w1
      = (if stays then w1 else w1\<lparr>wo_counters := t\<lparr>cn_foreign := f\<rparr>\<rparr>, Raised Refused)"
    using assms(1) same by (auto simp: refund_admission_def counting_def stays_def f_def)
  define paused where "paused z = (w1\<lparr>wo_counters := t\<rparr>, Raised (GithubPaused z))" for z
  have res: "(w', r') = refund_admission g b fresh pr w1 \<or> (\<exists>z. (w', r') = paused z)
      \<or> (w', r') = (w1, r) \<and> r \<noteq> Raised Refused \<and> (\<forall>z. r \<noteq> Raised (GithubPaused z))"
  proof (cases r)
    case (Raised e)
    show ?thesis unfolding assms(2) [symmetric] handle_end_def Raised unit_end.case
      by (cases e) (simp_all add: pause paused_def)
  qed (use assms(2) in \<open>auto simp: handle_end_def pause paused_def split: if_splits\<close>)
  then consider "(w', r') = refund_admission g b fresh pr w1" | z where "(w', r') = paused z"
    | "(w', r') = (w1, r)" "r \<noteq> Raised Refused" "\<forall>z. r \<noteq> Raised (GithubPaused z)" by blast
  then show ?thesis
  proof cases
    case 1
    then show ?thesis unfolding refund by (cases stays) (auto simp: stays_def)
  next
    case 2
    then have "wo_runs w' = wo_runs w1 \<and> wo_counters w' = t\<lparr>cn_foreign := cn_foreign t\<rparr> \<and> r' = Raised (GithubPaused z)"
      by (simp add: paused_def)
    then show ?thesis by blast
  next
    case 3
    then show ?thesis by blast
  qed
qed

section \<open>Attempts\<close>

text \<open>What a unit leaves under its guard: the counters moved by \<open>d\<close> and \<open>i\<close>.\<close>

definition guard_post ::
  "fix_env \<Rightarrow> guard_env \<Rightarrow> stage \<Rightarrow> ckey list \<Rightarrow> candidate \<Rightarrow> workshop \<Rightarrow> workshop \<Rightarrow> unit_end \<Rightarrow> int \<Rightarrow> int \<Rightarrow> bool" where
  "guard_post x g s keys c w w' r d i \<longleftrightarrow>
     moved keys (infra_key s c) d i (wo_counters w) (wo_counters w') \<and> d \<in> {0, 1} \<and> i \<in> {0, 1}
     \<and> wo_runs w' \<in> {wo_runs w, wo_runs w @ [(s, k_pr c)]}
     \<and> (\<forall>n. r = Rc n \<longrightarrow> d = 1)
     \<and> (r = Declined \<longrightarrow> wo_runs w' = wo_runs w \<and> (usable_head x \<longrightarrow> d = 0))
     \<and> (\<forall>t. r = Raised (GithubPaused t) \<longrightarrow> d = 0)
     \<and> (r = Raised Refused \<and> ge_launched g \<noteq> Some True \<and> ge_admitted g \<noteq> Some True \<longrightarrow> d = 0)
     \<and> (r = Raised CacheDown \<and> wo_runs w' = wo_runs w \<longrightarrow> d = 0)
     \<and> (d = 0 \<and> wo_runs w' \<noteq> wo_runs w \<and> fe_blocked x = None
          \<and> r \<noteq> Raised Refused \<and> (\<forall>t. r \<noteq> Raised (GithubPaused t))
         \<longrightarrow> i = 1 \<and> count (wo_counters w') (infra_key s c) \<le> max_infra_refunds)"

lemma guarded_unit:
  assumes "unit_keys s c = Some keys" and "s \<noteq> Progress" and "readable (wo_counters w) keys" and "infra_key s c \<notin> set keys"
    and "ge_blocked g \<in> {None, Some Refused, Some NoProgressed}"
    and "run_github_stage g s c (repair_unit x s c) w = (w', r)"
  shows "\<exists>d i. guard_post x g s keys c w w' r d i"
proof -
  obtain before where b: "read_all keys (wo_counters w) = Inr before" using read_all_ok [OF assms(3)] by blast
  define fresh where "fresh \<longleftrightarrow> s = Rebase \<and> k_foreign c \<noteq> [] \<and> \<not> cn_foreign (wo_counters w) (k_pr c)"
  obtain w1 r1 where u: "repair_unit x s c w = (w1, r1)" by fastforce
  have h: "handle_end g before before fresh (k_pr c) w1 (check_result g r1) = (w', r)"
    using assms(1,2,6) b u by (simp add: run_github_stage_def fresh_def Let_def)
  have "unit_post x s keys c w (w1, r1)"
    using repair_unit_post [OF assms(1,3,4)] u by metis
  then obtain d i where m: "moved keys (infra_key s c) d i (wo_counters w) (wo_counters w1)" and di: "d \<in> {0, 1}" "i \<in> {0, 1}"
    and e: "case r1 of Rc n \<Rightarrow> d = 1 | Declined \<Rightarrow> wo_runs w1 = wo_runs w \<and> (usable_head x \<longrightarrow> d = 0)
            | Raised e \<Rightarrow> e = CacheDown \<and> wo_runs w1 = wo_runs w \<longrightarrow> d = 0"
    and l: "wo_runs w1 \<in> {wo_runs w, wo_runs w @ [(s, k_pr c)]}"
    and q: "d = 0 \<and> wo_runs w1 \<noteq> wo_runs w \<and> fe_blocked x = None
         \<longrightarrow> i = 1 \<and> count (wo_counters w1) (infra_key s c) \<le> max_infra_refunds \<and> r1 = Raised NoProgressed"
    unfolding unit_post_def fst_conv snd_conv by blast
  obtain t where t: "restore_all before (wo_counters w1) = Inr t" "moved keys (infra_key s c) 0 i (wo_counters w) t"
    using restore_moved [OF b m _ unit_keys_distinct [OF assms(1)] assms(3)] di(1) by auto
  have chk: "check_result g r1 = r1 \<or> check_result g r1 \<in> {Raised Refused, Raised NoProgressed}"
    using assms(5) by (auto simp: check_result_def split: unit_end.splits option.splits)
  have plain: "guard_post x g s keys c w w1 r1 d i"
    if "\<forall>t. r1 \<noteq> Raised (GithubPaused t)" "r1 = Raised Refused \<longrightarrow> ge_launched g = Some True \<or> ge_admitted g = Some True"
    unfolding guard_post_def using m di l q that e by (cases r1) auto
  have noprog: "guard_post x g s keys c w w1 (Raised NoProgressed) d i"
    unfolding guard_post_def using m di l q by simp
  have kept: "guard_post x g s keys c w w1 (Raised Refused) d i" if "ge_launched g = Some True \<or> ge_admitted g = Some True"
    unfolding guard_post_def using m di l q that by auto
  have undone: "guard_post x g s keys c w w' r 0 i"
    if "wo_runs w' = wo_runs w1" "wo_counters w' = t\<lparr>cn_foreign := f\<rparr>" "r = Raised Refused \<or> (\<exists>z. r = Raised (GithubPaused z))" for f
  proof -
    have "moved keys (infra_key s c) 0 i (wo_counters w) (wo_counters w')"
      using moved_trans [OF t(2) moved_foreign] that(2) by simp
    then show ?thesis unfolding guard_post_def using di l that(1,3) by auto
  qed
  from handle_end_cases [OF t(1) h] show ?thesis
  proof (elim disjE conjE)
    assume a: "w' = w1" "r = check_result g r1" "\<forall>t. check_result g r1 \<noteq> Raised (GithubPaused t)"
      "check_result g r1 = Raised Refused \<longrightarrow> ge_launched g = Some True \<or> ge_admitted g = Some True"
    from chk consider "check_result g r1 = r1" | "check_result g r1 = Raised Refused" | "check_result g r1 = Raised NoProgressed"
      by blast
    then show ?thesis
    proof cases
      case 1
      then show ?thesis using plain a by auto
    next
      case 2
      then show ?thesis using kept a by auto
    next
      case 3
      then show ?thesis using noprog a by auto
    qed
  next
    assume "w' = w1" "r = Raised Refused" "ge_launched g = Some True"
    then show ?thesis using kept by auto
  next
    assume "w' = w1" "r = Raised Refused" "ge_admitted g = Some True"
    then show ?thesis using kept by auto
  next
    assume "\<exists>f. wo_runs w' = wo_runs w1 \<and> wo_counters w' = t\<lparr>cn_foreign := f\<rparr>" "r = Raised Refused"
    then show ?thesis using undone by blast
  next
    assume "\<exists>f. wo_runs w' = wo_runs w1 \<and> wo_counters w' = t\<lparr>cn_foreign := f\<rparr>" "\<exists>z. r = Raised (GithubPaused z)"
    then show ?thesis using undone by blast
  qed
qed


section \<open>How often one head is repaired\<close>

text \<open>
  Rounds that repair one head: the survey offers it while its counter is below the budget. For each round, its
  end and whether an agent was run.
\<close>

primrec fix_rounds :: "candidate \<Rightarrow> (guard_env \<times> fix_env) list \<Rightarrow> workshop \<Rightarrow> workshop \<times> (bool \<times> unit_end) list" where
  "fix_rounds c [] w = (w, [])"
| "fix_rounds c (e # es) w =
     (if max_fix_attempts \<le> count (wo_counters w) (FixHead (k_pr c) (take 12 (k_head c))) then (w, [])
      else (let (w1, r) = run_github_stage (fst e) Fix c (repair_unit (snd e) Fix c) w;
                (w2, rs) = fix_rounds c es w1
            in (w2, (wo_runs w1 \<noteq> wo_runs w, r) # rs)))"

text \<open>Rounds that ran an agent and were neither paused by GitHub nor refused.\<close>

definition paid :: "bool \<times> unit_end \<Rightarrow> bool" where
  "paid e \<longleftrightarrow> fst e \<and> snd e \<noteq> Raised Refused \<and> (\<forall>t. snd e \<noteq> Raised (GithubPaused t))"

lemma nonstrict_readable: "\<forall>k\<in>set ks. \<not> strict_key k \<Longrightarrow> readable s ks"
  by (auto simp: readable_def read_counter_def Let_def split: cfile.split)

lemma fix_round_potential:
  assumes "ge_blocked g \<in> {None, Some Refused, Some NoProgressed}" and "fe_blocked x = None"
    and "run_github_stage g Fix c (repair_unit x Fix c) w = (w', r)"
  shows "count (wo_counters w) (FixHead (k_pr c) (take 12 (k_head c))) + min 20 (count (wo_counters w) (infra_key Fix c))
           + (if paid (wo_runs w' \<noteq> wo_runs w, r) then 1 else 0)
         \<le> count (wo_counters w') (FixHead (k_pr c) (take 12 (k_head c))) + min 20 (count (wo_counters w') (infra_key Fix c))"
    and "count (wo_counters w') (FixHead (k_pr c) (take 12 (k_head c)))
         \<le> count (wo_counters w) (FixHead (k_pr c) (take 12 (k_head c))) + 1"
proof -
  let ?k = "FixHead (k_pr c) (take 12 (k_head c))"
  have keys: "unit_keys Fix c = Some [?k]" by (simp add: unit_keys_def Let_def)
  have "readable (wo_counters w) [?k]" by (rule nonstrict_readable) simp
  then obtain d i where gp: "guard_post x g Fix [?k] c w w' r d i"
    using guarded_unit [OF keys _ _ _ assms(1,3)] by fastforce
  then have mv: "moved [?k] (infra_key Fix c) d i (wo_counters w) (wo_counters w')" by (simp add: guard_post_def)
  have m: "count (wo_counters w') ?k = count (wo_counters w) ?k + d"
      "count (wo_counters w') (infra_key Fix c) = count (wo_counters w) (infra_key Fix c) + i"
    using mv by (simp_all add: moved_def)
  have di: "d \<in> {0, 1}" "i \<in> {0, 1}" using gp by (simp_all add: guard_post_def)
  have q: "d = 0 \<and> wo_runs w' \<noteq> wo_runs w \<and> r \<noteq> Raised Refused \<and> (\<forall>t. r \<noteq> Raised (GithubPaused t))
         \<longrightarrow> i = 1 \<and> count (wo_counters w') (infra_key Fix c) \<le> 20"
    using gp assms(2) unfolding guard_post_def max_infra_refunds_def by blast
  show "count (wo_counters w') ?k \<le> count (wo_counters w) ?k + 1" using m(1) di(1) by auto
  show "count (wo_counters w) ?k + min 20 (count (wo_counters w) (infra_key Fix c))
           + (if paid (wo_runs w' \<noteq> wo_runs w, r) then 1 else 0)
         \<le> count (wo_counters w') ?k + min 20 (count (wo_counters w') (infra_key Fix c))"
    using m di q by (auto simp: paid_def min_def)
qed


section \<open>What becomes of the claim\<close>

text \<open>
  a claim that a declined candidate leaves behind. A bump that failed in integration is declined without
  an agent when its batch has gone, but its branch claim stays held; once the round claims another pull
  request, the first claim's heartbeat has lost its handle and keeps renewing it, and the cleanups at the
  end of the round release the second claim alone. Declined through \<open>decline_repair\<close>, as when the checkout
  has moved, the same candidate leaves nothing behind.
\<close>

theorem declined_bump_keeps_its_claim:
  assumes "fe_pr x = Some p" and "head_owner p \<noteq> []" and "head_repo p \<noteq> []" and "head_ref p \<noteq> []"
    and "k_foreign c = []" and "k_integration c" and "fe_claim_rc x = 0"
    and "wo_claims w = \<lparr>cl_held = None, cl_beat = None, cl_orphans = [], cl_remote = [], cl_push = None, cl_collisions = n\<rparr>"
    and "pr2 \<noteq> k_pr c"
  shows "(\<not> fe_batch x \<longrightarrow>
       (let (w1, r) = repair_unit x Bump c w;
            cl = round_cleanup (fst (begin_branch_work 0 pr2 head2 ref2 remote2 (wo_claims w1)))
        in r = Declined \<and> wo_runs w1 = wo_runs w \<and> cl_remote cl = [k_pr c] \<and> cl_orphans cl = [k_pr c]))
    \<and> (fe_batch x \<and> \<not> fe_bubble x \<and> fe_prepared x \<and> fe_checkout x \<and> \<not> fst (fe_rev x) \<longrightarrow>
       (let (w1, r) = repair_unit x Bump c w;
            cl = round_cleanup (fst (begin_branch_work 0 pr2 head2 ref2 remote2 (wo_claims w1)))
        in r = Declined \<and> wo_runs w1 = wo_runs w \<and> cl_remote cl = [] \<and> cl_orphans cl = []))"
proof -
  let ?keys = "[BumpHead (k_pr c) (take 12 (k_head c)), BumpPr (k_pr c)]"
  have keys: "unit_keys Bump c = Some ?keys" by (simp add: unit_keys_def Let_def)
  have ok: "readable s ?keys" for s by (rule nonstrict_readable) simp
  obtain t where t: "charge_all ?keys (wo_counters w) = Inr t" "moved ?keys (infra_key Bump c) 1 0 (wo_counters w) t"
    using charge_moved [OF ok] by fastforce
  have "count t k = count (wo_counters w) k + 1" if "k \<in> set ?keys" for k
    using t(2) that by (simp add: moved_def)
  then have "\<forall>k\<in>set ?keys. 1 \<le> count t k" using count_nonneg [of "wo_counters w"] by simp
  then obtain u where u: "refund_all ?keys t = Inr u" using refund_moved [OF ok, of t] by auto
  note defs = fixlike_def repair_unit_def keys counting_def declined_def decline_repair_def begin_branch_work_def
    start_heartbeat_def stop_heartbeat_def release_def round_cleanup_def run_repair_def checkout_moved_def
  show ?thesis
    by (intro conjI impI) (use assms t(1) u in \<open>simp_all add: defs\<close>)
qed

section \<open>Concrete units\<close>

definition idle_claims :: claims where
  "idle_claims = \<lparr>cl_held = None, cl_beat = None, cl_orphans = [], cl_remote = [], cl_push = None, cl_collisions = 0\<rparr>"

definition fresh_shop :: workshop where
  "fresh_shop = \<lparr>wo_counters = \<lparr>cn_files = (\<lambda>_. NoFile), cn_progress = (\<lambda>_. NoCheckpoint), cn_foreign = (\<lambda>_. False),
     cn_writable = True\<rparr>, wo_claims = idle_claims, wo_runs = [], wo_closes = []\<rparr>"

definition some_pr :: prinfo where
  "some_pr = \<lparr>number = 7, head_oid = ''h'', head_ref = ''b'', head_owner = ''o'', head_repo = ''r'', is_draft = False,
     mergeable = ''MERGEABLE'', author = ''me'', build_success = True, build_failed = False, author_is_bot = False,
     title = [], target_focuses = [], labels = [], build_status_at = None, updated_at = [], bump_integration_failed = False\<rparr>"

definition failing_agent :: fix_env where
  "failing_agent = \<lparr>fe_pr = Some some_pr, fe_me = ''me'', fe_route1 = None, fe_route2 = None, fe_reselect = False,
     fe_claim_rc = 0, fe_batch = False, fe_target = None, fe_bubble = True, fe_prepared = True, fe_checkout = True,
     fe_rev = (True, ''h''), fe_handoff = True, fe_agent = Exits 1, fe_blocked = None, fe_infra = False\<rparr>"

definition calm_guard :: guard_env where
  "calm_guard = \<lparr>ge_event = False, ge_reset = None, ge_launched = None, ge_admitted = None, ge_blocked = None\<rparr>"

abbreviation fix_me :: candidate where
  "fix_me \<equiv> candidate_of some_pr BlockingReview"



theorem declined_bump_keeps_its_claim_witness:
  "cl_remote (round_cleanup (fst (begin_branch_work 0 8 [] [] ([], [])
     (wo_claims (fst (repair_unit failing_agent Bump (fix_me\<lparr>k_integration := True\<rparr>) fresh_shop)))))) = [7]"
proof -
  have c: "k_pr (fix_me\<lparr>k_integration := True\<rparr>) = 7" by (simp add: candidate_of_def some_pr_def)
  have "let (w1, r) = repair_unit failing_agent Bump (fix_me\<lparr>k_integration := True\<rparr>) fresh_shop;
            cl = round_cleanup (fst (begin_branch_work 0 8 [] [] ([], []) (wo_claims w1)))
        in r = Declined \<and> wo_runs w1 = wo_runs fresh_shop \<and> cl_remote cl = [k_pr (fix_me\<lparr>k_integration := True\<rparr>)]
           \<and> cl_orphans cl = [k_pr (fix_me\<lparr>k_integration := True\<rparr>)]"
    by (rule declined_bump_keeps_its_claim [of failing_agent some_pr, THEN conjunct1, THEN mp])
      (simp_all add: failing_agent_def some_pr_def candidate_of_def fresh_shop_def idle_claims_def)
  then show ?thesis unfolding c by (simp add: case_prod_beta Let_def)
qed

end
