(* ===== verification/DispatchLaws.thy ===== *)
theory DispatchLaws
  imports WorkLaws Dispatch
begin

text \<open>
  What a launch guarantees: an agent runs only after the last look, a pull request is closed only when it is
  one's own and spent, and a review's error counter is charged for its own errors alone.
\<close>

section \<open>What a unit does not touch\<close>

named_theorems keeps_intros \<open>parts of the state that an operation keeps\<close>

definition keeps :: "(workshop \<Rightarrow> 'a) \<Rightarrow> workshop \<Rightarrow> workshop \<times> unit_end \<Rightarrow> bool" where
  "keeps f w res \<longleftrightarrow> f (fst res) = f w"

lemma keeps_if [keeps_intros]: "keeps f w r \<Longrightarrow> keeps f w r' \<Longrightarrow> keeps f w (if b then r else r')"
  by simp

lemma keeps_refl [keeps_intros]: "keeps f w (w, r)"
  by (simp add: keeps_def)

lemma keeps_counting [keeps_intros]:
  "(\<And>c. keeps wo_closes w (k (w\<lparr>wo_counters := c\<rparr>))) \<Longrightarrow> keeps wo_closes w (counting g w k)"
  by (simp add: counting_def keeps_def split: sum.split)

lemma keeps_moved [keeps_intros]:
  "keeps wo_closes w (w\<lparr>wo_counters := c\<rparr>, r)" "keeps wo_closes w (w\<lparr>wo_claims := cl\<rparr>, r)"
  "keeps wo_closes w (log_run s pr w, r)"
  by (simp_all add: keeps_def log_run_def)

lemma keeps_declined [keeps_intros]: "wo_closes w1 = wo_closes w \<Longrightarrow> keeps wo_closes w (declined keys w1)"
  by (simp add: declined_def counting_def keeps_def split: sum.split)

lemma keeps_decline_repair [keeps_intros]: "wo_closes w1 = wo_closes w \<Longrightarrow> keeps wo_closes w (decline_repair keys w1)"
  by (simp add: decline_repair_def keeps_declined)

lemma keeps_finish: "wo_closes w1 = wo_closes w \<Longrightarrow> keeps wo_closes w (finish_repair x s keys c rc w1)"
  by (auto simp: finish_repair_def refund_infra_failure_def keeps_def counting_def split: option.split sum.split)

lemma keeps_run: "wo_closes w1 = wo_closes w \<Longrightarrow> keeps wo_closes w (run_repair x p s keys c w1)"
  by (auto simp: run_repair_def keeps_def counting_def log_run_def split: agent_end.split exn.split sum.split
      intro!: keeps_finish [unfolded keeps_def] keeps_decline_repair [unfolded keeps_def])

lemma keeps_fixlike: "keeps wo_closes w (fixlike x s keys c w)"
proof (cases "fe_pr x")
  case (Some p)
  obtain cl ok where bw: "begin_branch_work (fe_claim_rc x) (k_pr c) (k_head c) (head_ref p)
                            (head_owner p, head_repo p) (wo_claims w) = (cl, ok)" by fastforce
  show ?thesis
    unfolding fixlike_def Some bw option.case Let_def prod.case if_distrib [of "run_repair x p s keys c"]
    by (intro keeps_intros keeps_run) simp_all
qed (simp add: fixlike_def keeps_refl)

lemma keeps_repair: "keeps wo_closes w (repair_unit x s c w)"
proof -
  have "keeps wo_closes w (counting (charge_all keys) w (fixlike x s keys c))" for keys
  proof (rule keeps_counting)
    show "keeps wo_closes w (fixlike x s keys c (w\<lparr>wo_counters := t\<rparr>))" for t
      using keeps_fixlike [of "w\<lparr>wo_counters := t\<rparr>"] by (simp add: keeps_def)
  qed
  then show ?thesis by (auto simp: repair_unit_def keeps_refl split: option.split sum.split)
qed

lemma handle_end_keeps:
  "wo_closes (fst (handle_end g b a fresh pr w r)) = wo_closes w"
  "wo_runs (fst (handle_end g b a fresh pr w r)) = wo_runs w"
proof -
  have e: "wo_closes (fst (restoring b e w)) = wo_closes w" "wo_runs (fst (restoring b e w)) = wo_runs w"
    "wo_closes (fst (refund_admission g a fresh pr w)) = wo_closes w" "wo_runs (fst (refund_admission g a fresh pr w)) = wo_runs w" for e
    by (simp_all add: restoring_def refund_admission_def counting_def split: sum.split)
  show "wo_closes (fst (handle_end g b a fresh pr w r)) = wo_closes w"
    "wo_runs (fst (handle_end g b a fresh pr w r)) = wo_runs w"
    by (cases r; simp add: handle_end_def e)+
qed

lemma guard_keeps_closes:
  assumes "\<And>w. keeps wo_closes w (u w)"
  shows "keeps wo_closes w (run_github_stage g s c u w)"
  using assms by (simp add: run_github_stage_def keeps_def Let_def case_prod_beta handle_end_keeps split: option.split sum.split)

lemma unit_keeps_closes: "s \<in> set pr_tasks \<Longrightarrow> keeps wo_closes w (unit_of d s c w)"
proof -
  assume s: "s \<in> set pr_tasks"
  have "keeps wo_closes w (review_unit g x c w)" for g x
    by (simp add: review_unit_def keeps_def log_run_def set_counter_def bump_counter_def Let_def split: agent_end.split)
  then show ?thesis using s keeps_repair by (auto simp: unit_of_def pr_tasks_def)
qed

lemma launch_keeps_closes:
  assumes "s \<in> set pr_tasks"
  shows "wo_closes (fst (launch_unit d s c w)) = wo_closes w"
  using guard_keeps_closes [of "unit_of d s c" w "dk_guard d" s c] unit_keeps_closes [OF assms]
  by (simp add: launch_unit_def after_launch_def case_prod_beta keeps_def Let_def)

lemma close_runs: "wo_runs (fst (close_spent_pr x c w)) = wo_runs w"
  by (simp add: close_spent_pr_def release_all_def Let_def case_prod_beta split: option.split)

section \<open>The last look\<close>

lemma still_fresh:
  assumes "fst (still_actionable x st s c)" and "s \<in> {Review, Fix} \<or> s = Rebase \<and> k_foreign c = []"
  shows "\<exists>v. lk_live x = Some v \<and> fp_state v = ''OPEN'' \<and> \<not> fp_draft v \<and> fp_head v = k_head c \<and> \<not> paused s v"
proof (cases "s = Rebase")
  case True
  then show ?thesis using assms by (auto simp: still_actionable_def rebase_still_def split: option.splits)
next
  case False
  then have s: "s \<in> {Review, Fix}" using assms(2) by blast
  then show ?thesis using assms(1) False
    by (cases "lk_live x") (auto simp: still_actionable_def split: if_split_asm)
qed

lemma preflight_ok:
  assumes "preflight d s c st = Inr c'"
  shows "(in_bubble s (dk_host d) \<and> \<not> dk_probe d \<or> dk_binary d) \<and> \<not> dk_account_problem d
    \<and> still_actionable (dk_look d) st s c = (True, c') \<and> dk_fleet d = None \<and> dk_probe_error d = None
    \<and> (dk_bootstrap d \<longrightarrow> dk_claude_available d) \<and> read_quota (dk_state_url d) s (dk_budget2 d) = None
    \<and> dk_context_error d = None"
proof -
  obtain b c1 where s: "still_actionable (dk_look d) st s c = (b, c1)" by fastforce
  show ?thesis using assms unfolding preflight_def s Let_def prod.case
    by (cases b; simp split: if_split_asm option.split_asm)
qed

text \<open>
  C5: an agent runs only after the last look. When \<open>dispatch\<close> starts an agent on a pull request, it was not a
  dry run, no earlier publication or retained repair of that pull request was pending, neither reading of
  the rate limits was exhausted, the agent's binary, account and model access were there, the fleet
  admitted the worker, an unopened Claude window had been opened, and the fresh reading still wanted the
  unit: for a review, a fix or a rebase the pull request was open, ready, at the surveyed head, and
  carried no label that pauses that stage.
\<close>

theorem agent_runs_after_last_look:
  assumes "dispatch d s c w = (w', r)" and "wo_runs w' \<noteq> wo_runs w" and "s \<in> set pr_tasks" and "k_pr c \<noteq> 0"
  shows "\<not> dk_dry d \<and> \<not> dk_pending d \<and> (s \<noteq> Review \<longrightarrow> \<not> dk_retained d)
    \<and> read_quota (dk_state_url d) s (dk_budget1 d) = None \<and> read_quota (dk_state_url d) s (dk_budget2 d) = None
    \<and> (in_bubble s (dk_host d) \<and> \<not> dk_probe d \<or> dk_binary d) \<and> \<not> dk_account_problem d
    \<and> dk_probe_error d = None \<and> dk_fleet d = None \<and> (dk_bootstrap d \<longrightarrow> dk_claude_available d)
    \<and> fst (still_actionable (dk_look d) (wo_counters w) s c)
    \<and> (s \<in> {Review, Fix} \<or> s = Rebase \<and> k_foreign c = [] \<longrightarrow>
         (\<exists>v. lk_live (dk_look d) = Some v \<and> fp_state v = ''OPEN'' \<and> \<not> fp_draft v \<and> fp_head v = k_head c \<and> \<not> paused s v))"
proof -
  let ?close = "s = Fix \<and> k_final c \<and> max_fix_attempts \<le> count (wo_counters w) (fix_key c)"
  have same: "dispatch d s c w = (w, q) \<Longrightarrow> False" for q using assms(1,2) by auto
  have dry: "\<not> dk_dry d" using same by (auto simp: dispatch_def)
  have pend: "\<not> dk_pending d" using same dry assms(4) by (auto simp: dispatch_def)
  have ret: "\<not> (s \<in> set file_change_stages \<and> dk_retained d)" using same dry pend assms(4) by (auto simp: dispatch_def)
  have q1: "read_quota (dk_state_url d) s (dk_budget1 d) = None"
    using same dry pend ret by (cases "read_quota (dk_state_url d) s (dk_budget1 d)") (auto simp: dispatch_def)
  have eq: "dispatch d s c w = (if ?close then close_spent_pr (dk_close d) c w
      else case preflight d s c (wo_counters w) of Inl r \<Rightarrow> (w, r) | Inr c' \<Rightarrow> launch_unit d s c' w)"
    using dry pend ret q1 by (auto simp: dispatch_def)
  have nclose: "\<not> ?close"
  proof
    assume ?close
    then have "close_spent_pr (dk_close d) c w = (w', r)" using eq assms(1) by simp
    then show False using close_runs [of "dk_close d" c w] assms(2) by simp
  qed
  obtain c' where pre: "preflight d s c (wo_counters w) = Inr c'"
    using eq nclose same by (cases "preflight d s c (wo_counters w)") auto
  note p = preflight_ok [OF pre]
  have still: "fst (still_actionable (dk_look d) (wo_counters w) s c)" using p by simp
  have changes: "s \<noteq> Review \<Longrightarrow> s \<in> set file_change_stages"
    using assms(3) by (auto simp: pr_tasks_def file_change_stages_def)
  show ?thesis using dry pend ret q1 p still still_fresh [OF still] changes by blast
qed

section \<open>Closing\<close>

text \<open>
  C25: only one's own spent pull request is closed. A dispatch closes at most the candidate's pull request, and
  only in a fix that has used up its attempts, on a pull request of the worker's own account that no bot
  opened, whose fresh reading still shows unresolved findings at the surveyed head, and which a second
  fresh reading shows open, ready, at that head, by that author and without a hold label; no agent runs,
  and the branch claim is given back.
\<close>

theorem closes_only_own_spent:
  assumes "dispatch d s c w = (w', r)" and "wo_closes w' \<noteq> wo_closes w" and "s \<in> set pr_tasks"
  shows "s = Fix \<and> max_fix_attempts \<le> count (wo_counters w) (fix_key c) \<and> wo_closes w' = wo_closes w @ [k_pr c]
    \<and> wo_runs w' = wo_runs w \<and> cl_held (wo_claims w') = None
    \<and> (\<exists>p. lk_pr (cx_look (dk_close d)) = Some p \<and> author p = lk_me (cx_look (dk_close d)) \<and> \<not> automatic_bump p)
    \<and> fst (still_actionable (cx_look (dk_close d)) (wo_counters w) Fix (c\<lparr>k_partial := False\<rparr>))
    \<and> (\<exists>v. cx_live (dk_close d) = Some v \<and> fp_state v = ''OPEN'' \<and> fp_head v = k_head c \<and> \<not> fp_draft v
         \<and> py_lower (fp_author v) = py_lower (lk_me (cx_look (dk_close d))) \<and> \<not> paused Fix v)
    \<and> (r = Rc 0 \<longrightarrow> cx_after (dk_close d) \<in> {Some ''CLOSED'', Some ''MERGED''})"
proof -
  let ?x = "dk_close d"
  have launch: "wo_closes (fst (launch_unit d s c' w)) = wo_closes w" for c' using launch_keeps_closes [OF assms(3)] .
  have cl: "s = Fix" "max_fix_attempts \<le> count (wo_counters w) (fix_key c)" "close_spent_pr ?x c w = (w', r)"
    using assms(1,2) launch by (auto simp: dispatch_def split: if_splits option.splits sum.splits) (metis fst_conv)+
  have held: "cl_held (release (stop_heartbeat z)) = None" for z
    by (simp add: release_def stop_heartbeat_def split: option.split)
  obtain p where p: "lk_pr (cx_look ?x) = Some p" "author p = lk_me (cx_look ?x)" "\<not> automatic_bump p" "k_foreign c = []"
    using cl(3) assms(2) by (auto simp: close_spent_pr_def split: option.splits if_splits)
  obtain v cr where bw: "begin_branch_work (cx_claim_rc ?x) (k_pr c) (k_head c) (head_ref p)
                              (head_owner p, head_repo p) (wo_claims w) = (v, cr)" by fastforce
  let ?w1 = "w\<lparr>wo_claims := v\<rparr>" and ?w2 = "release_all (w\<lparr>wo_claims := v, wo_closes := wo_closes w @ [k_pr c]\<rparr>)"
  let ?still = "fst (still_actionable (cx_look ?x) (wo_counters w) Fix (c\<lparr>k_partial := False\<rparr>))"
  have eq: "(w', r) = (if \<not> cr then (?w1, Declined) else if \<not> ?still then (release_all ?w1, Declined)
      else if \<not> may_close ?x c then (release_all ?w1, Declined)
      else (case cx_close_error ?x of Some e \<Rightarrow> (?w2, Raised e)
            | None \<Rightarrow> (?w2, if cx_after ?x \<in> {Some ''CLOSED'', Some ''MERGED''} then Rc 0 else Raised NoProgressed)))"
    unfolding cl(3) [symmetric] close_spent_pr_def p(1) option.case bw Let_def prod.case using cl(2) p by (simp cong: option.case_cong)
  have nochange: "wo_closes (release_all ?w1) = wo_closes w" by (simp add: release_all_def)
  have c2: "cr" "?still" "may_close ?x c" using eq assms(2) nochange by (auto split: if_splits)
  then have fin: "w' = ?w2" "r = Rc 0 \<longrightarrow> cx_after ?x \<in> {Some ''CLOSED'', Some ''MERGED''}"
    using eq by (auto split: option.splits)
  show ?thesis using cl(1,2) p(1-3) c2(2,3) fin held
    by (auto simp: release_all_def may_close_def split: option.splits)
qed

section \<open>Reviews\<close>

lemma count_write: "0 \<le> v \<Longrightarrow> count (write_counter decimal k v s) k' = (if k = k' then v else count s k')"
  using read_written [of v k s] read_other [of k k' v s] by (auto simp: count_def)

definition review_counted :: "candidate \<Rightarrow> counters \<Rightarrow> counters" where
  "review_counted c s =
     (let s0 = write_counter decimal (ReviewErr (k_pr c)) 0 s;
          s1 = write_counter decimal (ReviewContest (k_pr c)) (count s (ReviewContest (k_pr c)) + 1) s0
      in if k_contest c = [] then s0
         else write_counter decimal (ReviewContestRubric (k_pr c) (k_contest c))
                (count s (ReviewContestRubric (k_pr c) (k_contest c)) + 1) s1)"

lemma review_unit_effect:
  assumes "review_unit g x c w = (w1, r1)"
  shows "(\<forall>n. r1 \<noteq> Rc n) \<and> wo_counters w1 \<in> {wo_counters w, write_counter decimal (ReviewErr (k_pr c)) 0 (wo_counters w)}
      \<and> (rv_engine x \<in> {Exits review_claimed_exit, Exits review_provider_down_exit} \<longrightarrow> wo_counters w1 = wo_counters w)
    \<or> r1 = Rc 0 \<and> rv_engine x = Exits 0 \<and> wo_counters w1 = review_counted c (wo_counters w)
    \<or> (\<exists>n. r1 = Rc n \<and> n \<noteq> 0 \<and> rv_engine x = Exits n \<and> n \<notin> {review_claimed_exit, review_provider_down_exit}
         \<and> wo_counters w1 = write_counter decimal (ReviewErr (k_pr c)) (count (wo_counters w) (ReviewErr (k_pr c)) + 1) (wo_counters w))"
proof (cases "rv_engine x")
  case (Throws e)
  then show ?thesis using assms by (auto simp: review_unit_def log_run_def split: if_splits)
next
  case (Exits rc)
  have chk: "check_result g (Rc rc) = Rc rc \<or> (\<forall>n. check_result g (Rc rc) \<noteq> Rc n)"
    by (auto simp: check_result_def split: option.split)
  have cnt: "0 \<le> count s k + 1" for s k using count_nonneg [of s k] by simp
  show ?thesis
    using assms chk Exits
    by (auto simp: cnt count_nonneg review_unit_def log_run_def set_counter_def bump_counter_def review_counted_def Let_def count_write
        review_claimed_exit_def review_provider_down_exit_def split: if_splits)
qed

text \<open>
  a review is charged for its own errors alone. Its error counter grows by one exactly when the review
  engine ends with an error of its own: not when the provider is down, a peer holds the head, GitHub
  pauses or the admission refuses it; a published review resets it, and a contest is counted, once per
  pull request and once per rubric, exactly when its answer is published. No other counter moves.
\<close>

theorem review_charged_for_its_errors:
  assumes "run_github_stage g Review c (review_unit g x c) w = (w', r)"
  shows "(\<forall>n. r = Rc n \<and> n \<noteq> 0 \<longrightarrow> rv_engine x = Exits n \<and> n \<notin> {review_claimed_exit, review_provider_down_exit}
         \<and> count (wo_counters w') (ReviewErr (k_pr c)) = count (wo_counters w) (ReviewErr (k_pr c)) + 1)
    \<and> ((\<forall>n. r \<noteq> Rc n) \<longrightarrow> count (wo_counters w') (ReviewErr (k_pr c)) \<in> {0, count (wo_counters w) (ReviewErr (k_pr c))}
         \<and> (rv_engine x \<in> {Exits review_claimed_exit, Exits review_provider_down_exit} \<longrightarrow>
              count (wo_counters w') (ReviewErr (k_pr c)) = count (wo_counters w) (ReviewErr (k_pr c))))
    \<and> (r = Rc 0 \<longrightarrow> count (wo_counters w') (ReviewErr (k_pr c)) = 0)
    \<and> (\<forall>k. k \<noteq> ReviewErr (k_pr c) \<longrightarrow> count (wo_counters w') k = count (wo_counters w) k
         + (if r = Rc 0 \<and> k_contest c \<noteq> [] \<and> k \<in> {ReviewContest (k_pr c), ReviewContestRubric (k_pr c) (k_contest c)}
            then 1 else 0))"
proof -
  let ?e = "ReviewErr (k_pr c)" and ?s = "wo_counters w"
  have ok: "readable s [?e]" for s by (rule nonstrict_readable) simp
  obtain before where b: "read_all [?e] ?s = Inr before" using read_all_ok [OF ok] by blast
  have vals: "map fst before = [?e]" "map_of before ?e = Some (count ?s ?e)" using read_all_values [OF b] by auto
  obtain w1 r1 where u: "review_unit g x c w = (w1, r1)" by fastforce
  have h: "handle_end g before before False (k_pr c) w1 (check_result g r1) = (w', r)"
    using assms b u by (simp add: run_github_stage_def unit_keys_def Let_def)
  let ?f = "\<lambda>k n. case map_of before k of None \<Rightarrow> n | Some v \<Rightarrow> min v n"
  have pos: "0 \<le> ?f k n" if "k \<in> set [?e]" "0 \<le> n" for k n using that vals count_nonneg [of ?s ?e] by auto
  obtain t where t: "restore_all before (wo_counters w1) = Inr t"
    using files.update_all_ok [of "[?e]" "wo_counters w1" ?f] ok pos vals(1) by (auto simp: restore_all_def readable_def)
  have "update_all read_counter (write_counter decimal) ?f [?e] (wo_counters w1) = Inr t"
    using t vals(1) by (simp add: restore_all_def)
  then have ct: "count t k = (if k = ?e then min (count ?s ?e) (count (wo_counters w1) ?e) else count (wo_counters w1) k)" for k
    using update_count(1) [of ?f "[?e]" "wo_counters w1" t k] ok pos vals(2) by auto
  have cf: "count (t\<lparr>cn_foreign := f\<rparr>) k = count t k" for f k by (simp add: count_def read_counter_def)
  have z: "count (write_counter decimal ?e v ?s) k = (if k = ?e then v else count ?s k)" if "0 \<le> v" for v k
    using that by (simp add: count_write)
  have nn: "0 \<le> count ?s k" for k by (rule count_nonneg)
  from review_unit_effect [OF u] show ?thesis
  proof (elim disjE)
    assume a: "(\<forall>n. r1 \<noteq> Rc n) \<and> wo_counters w1 \<in> {?s, write_counter decimal ?e 0 ?s}
      \<and> (rv_engine x \<in> {Exits review_claimed_exit, Exits review_provider_down_exit} \<longrightarrow> wo_counters w1 = ?s)"
    have nrc: "check_result g r1 \<noteq> Rc n" for n using a by (auto simp: check_result_def split: unit_end.split option.split)
    from handle_end_cases [OF t h] have "(\<forall>n. r \<noteq> Rc n) \<and> (wo_counters w' = wo_counters w1 \<or> (\<exists>f. wo_counters w' = t\<lparr>cn_foreign := f\<rparr>))"
      using nrc by auto
    then show ?thesis using a ct cf z [of 0] nn by (auto simp: min_def)
  next
    assume a: "r1 = Rc 0 \<and> rv_engine x = Exits 0 \<and> wo_counters w1 = review_counted c ?s"
    have "check_result g r1 = r1" using u a
      by (auto simp: review_unit_def check_result_def split: if_splits option.splits)
    then have "w' = w1" "r = Rc 0" using h a by (simp_all add: handle_end_def)
    then show ?thesis using a nn by (auto simp: review_counted_def Let_def count_write)
  next
    assume "\<exists>n. r1 = Rc n \<and> n \<noteq> 0 \<and> rv_engine x = Exits n \<and> n \<notin> {review_claimed_exit, review_provider_down_exit}
         \<and> wo_counters w1 = write_counter decimal ?e (count ?s ?e + 1) ?s"
    then obtain n where a: "r1 = Rc n" "n \<noteq> 0" "rv_engine x = Exits n" "n \<notin> {review_claimed_exit, review_provider_down_exit}"
      "wo_counters w1 = write_counter decimal ?e (count ?s ?e + 1) ?s" by blast
    have "check_result g r1 = r1" using u a(1-4)
      by (auto simp: review_unit_def check_result_def split: if_splits option.splits)
    then have "(w', r) = (if ge_event g then (w1\<lparr>wo_counters := t\<rparr>, Raised (GithubPaused (ge_reset g))) else (w1, Rc n))"
      using h a(1,2) t by (auto simp: handle_end_def restoring_def counting_def)
    then show ?thesis using a ct z [of "count ?s ?e + 1"] nn by (auto split: if_splits)
  qed
qed

section \<open>The claim of an attempt that landed nothing\<close>

lemma unchanged_launch:
  assumes "fe_pr (dk_fix d) = Some p" and "head_owner p \<noteq> []" and "head_repo p \<noteq> []" and "head_ref p \<noteq> []"
    and "k_foreign c = []" and "fe_claim_rc (dk_fix d) = 0" and "fe_agent (dk_fix d) = Exits 0"
    and "\<not> fe_bubble (dk_fix d)" "fe_prepared (dk_fix d)" "fe_checkout (dk_fix d)" "fe_handoff (dk_fix d)"
    and "ge_blocked (dk_guard d) = None" and "dk_host d" and "checkout_unchanged d c"
    and "\<not> progressed (k_final c \<or> dk_automatic d) (dk_before d) (dk_after d)"
  shows "\<exists>t. launch_unit d Fix c w = (w\<lparr>wo_counters := t, wo_claims := fst (begin_branch_work 0 (k_pr c) (k_head c) (head_ref p)
      (head_owner p, head_repo p) (wo_claims w)), wo_runs := wo_runs w @ [(Fix, k_pr c)]\<rparr>, Declined)"
proof -
  let ?keys = "[FixHead (k_pr c) (take 12 (k_head c))]"
  have keys: "unit_keys Fix c = Some ?keys" by (simp add: unit_keys_def Let_def)
  have ok: "readable s ?keys" for s by (rule nonstrict_readable) simp
  obtain t where t: "charge_all ?keys (wo_counters w) = Inr t" using charge_moved [OF ok] by fastforce
  obtain b where b: "read_all ?keys (wo_counters w) = Inr b" using read_all_ok [OF ok] by blast
  let ?cl = "fst (begin_branch_work 0 (k_pr c) (k_head c) (head_ref p) (head_owner p, head_repo p) (wo_claims w))"
  have unit: "repair_unit (dk_fix d) Fix c w
      = (w\<lparr>wo_counters := t, wo_claims := ?cl, wo_runs := wo_runs w @ [(Fix, k_pr c)]\<rparr>, Rc 0)"
    using assms(1-11) t keys
    by (simp add: repair_unit_def counting_def fixlike_def begin_branch_work_def run_repair_def checkout_moved_def
        handoff_failed_def finish_repair_def log_run_def)
  have "launch_unit d Fix c w = (w\<lparr>wo_counters := t, wo_claims := ?cl, wo_runs := wo_runs w @ [(Fix, k_pr c)]\<rparr>, Declined)"
    using unit assms(12-15) keys b
    by (simp add: launch_unit_def run_github_stage_def unit_of_def check_result_def handle_end_def after_launch_def
        progress_guarded_def in_bubble_def)
  then show ?thesis by blast
qed

text \<open>
  a claim that outlives its candidate. A repair on the host whose agent succeeds but lands nothing, with its
  checkout unchanged, is declined so that the round can take another candidate, but its branch claim stays
  held; once the round claims another pull request, the first claim's heartbeat child has lost its handle
  and keeps renewing it, and the cleanups at the end of the round release the second claim alone.
\<close>

theorem unchanged_attempt_keeps_its_claim:
  assumes "fe_pr (dk_fix d) = Some p" and "head_owner p \<noteq> []" and "head_repo p \<noteq> []" and "head_ref p \<noteq> []"
    and "k_foreign c = []" and "fe_claim_rc (dk_fix d) = 0" and "fe_agent (dk_fix d) = Exits 0"
    and "\<not> fe_bubble (dk_fix d)" "fe_prepared (dk_fix d)" "fe_checkout (dk_fix d)" "fe_handoff (dk_fix d)"
    and "ge_blocked (dk_guard d) = None" and "dk_host d" and "checkout_unchanged d c"
    and "\<not> progressed (k_final c \<or> dk_automatic d) (dk_before d) (dk_after d)"
    and "wo_claims w = \<lparr>cl_held = None, cl_beat = None, cl_orphans = [], cl_remote = [], cl_push = None, cl_collisions = n\<rparr>"
    and "pr2 \<noteq> k_pr c"
  shows "let (w1, r) = launch_unit d Fix c w;
             cl = round_cleanup (fst (begin_branch_work 0 pr2 head2 ref2 remote2 (wo_claims w1)))
         in r = Declined \<and> wo_runs w1 = wo_runs w @ [(Fix, k_pr c)] \<and> cl_remote cl = [k_pr c] \<and> cl_orphans cl = [k_pr c]"
proof -
  obtain t where "launch_unit d Fix c w = (w\<lparr>wo_counters := t, wo_claims := fst (begin_branch_work 0 (k_pr c) (k_head c) (head_ref p)
      (head_owner p, head_repo p) (wo_claims w)), wo_runs := wo_runs w @ [(Fix, k_pr c)]\<rparr>, Declined)"
    using unchanged_launch [OF assms(1-15)] by blast
  then show ?thesis using assms(16,17)
    by (simp add: begin_branch_work_def start_heartbeat_def stop_heartbeat_def release_def round_cleanup_def)
qed

section \<open>Concrete launches\<close>

definition fresh_look :: look where
  "fresh_look = \<lparr>lk_live = Some \<lparr>fp_head = ''h'', fp_state = ''OPEN'', fp_draft = False, fp_labels = [], fp_mergeable = ''MERGEABLE'',
       fp_base = ''main'', fp_author = ''me''\<rparr>, lk_base = ''main'', lk_requested = False, lk_route = None, lk_reselect = False,
     lk_batch = False, lk_pr = Some some_pr, lk_me = ''me'',
     lk_meta = (empty_board\<lparr>b_head := JStr ''h'', b_states := [(''a'', JStr ''blocking_block'')]\<rparr>, Fresh),
     lk_reply = None, lk_claim_age = None, lk_text = (\<lambda>_. [])\<rparr>"

definition idle_desk :: desk where
  "idle_desk = \<lparr>dk_dry = False, dk_host = True, dk_pending = False, dk_retained = False, dk_state_url = True,
     dk_budget1 = [], dk_budget2 = [], dk_probe = False, dk_binary = True, dk_account_problem = False, dk_look = fresh_look,
     dk_fleet = None, dk_probe_error = None, dk_bootstrap = False, dk_claude_available = False, dk_context_error = None,
     dk_guard = calm_guard, dk_fix = failing_agent\<lparr>fe_bubble := False, fe_agent := Exits 0\<rparr>,
     dk_review = \<lparr>rv_concrete = True, rv_engine = Exits 2, rv_unchanged = False, rv_event = False\<rparr>,
     dk_close = \<lparr>cx_look = fresh_look, cx_claim_rc = 0, cx_live = lk_live fresh_look, cx_close_error = None, cx_after = Some ''CLOSED''\<rparr>,
     dk_other = (\<lambda>w. (w, Rc 0)), dk_before = Some (OfPr ''h'' 0 ''OPEN''), dk_automatic = False,
     dk_after = LaterPr (Some (''h'', 0, ''OPEN'')), dk_head = Some ''h'', dk_pending_after = False, dk_clean = True\<rparr>"

lemma idle_still: "still_actionable fresh_look (wo_counters fresh_shop) Fix fix_me = (True, fix_me)"
  by (simp add: still_actionable_def fresh_look_def fix_still_def some_pr_def candidate_of_def paused_def live_labels_def
      fresh_shop_def count_def read_counter_def fix_disposition_def ledger_blocking_def str_or_empty_def automatic_bump_def
      max_fix_attempts_def Let_def fix_key_def)

lemmas idle_defs = idle_desk_def failing_agent_def some_pr_def candidate_of_def calm_guard_def checkout_unchanged_def
  progressed_def closed_states_def fresh_shop_def idle_claims_def

lemma idle_launch:
  "\<exists>w1. launch_unit idle_desk Fix fix_me fresh_shop = (w1, Declined) \<and> wo_runs w1 = [(Fix, 7)]"
proof -
  have "\<exists>t. launch_unit idle_desk Fix fix_me fresh_shop = (fresh_shop\<lparr>wo_counters := t, wo_claims := fst (begin_branch_work 0 (k_pr fix_me)
      (k_head fix_me) (head_ref some_pr) (head_owner some_pr, head_repo some_pr) (wo_claims fresh_shop)),
      wo_runs := wo_runs fresh_shop @ [(Fix, k_pr fix_me)]\<rparr>, Declined)"
    by (rule unchanged_launch) (simp_all add: idle_defs)
  then show ?thesis by (auto simp: idle_defs)
qed

theorem unchanged_attempt_keeps_its_claim_witness:
  "let (w1, r) = launch_unit idle_desk Fix fix_me fresh_shop;
       cl = round_cleanup (fst (begin_branch_work 0 8 [] [] ([], []) (wo_claims w1)))
   in r = Declined \<and> wo_runs w1 = wo_runs fresh_shop @ [(Fix, k_pr fix_me)] \<and> cl_remote cl = [k_pr fix_me] \<and> cl_orphans cl = [k_pr fix_me]"
  by (rule unchanged_attempt_keeps_its_claim [of idle_desk some_pr]) (simp_all add: idle_defs)

lemma idle_dispatch: "\<exists>w1. dispatch idle_desk Fix fix_me fresh_shop = (w1, Declined) \<and> wo_runs w1 = [(Fix, 7)]"
proof -
  obtain w1 where l: "launch_unit idle_desk Fix fix_me fresh_shop = (w1, Declined)" "wo_runs w1 = [(Fix, 7)]"
    using idle_launch by blast
  have "preflight idle_desk Fix fix_me (wo_counters fresh_shop) = Inr fix_me"
    unfolding preflight_def using idle_still by (simp add: idle_desk_def read_quota_def)
  then have "dispatch idle_desk Fix fix_me fresh_shop = (w1, Declined)"
    using l(1) by (simp add: dispatch_def idle_desk_def read_quota_def candidate_of_def)
  then show ?thesis using l(2) by blast
qed

theorem agent_runs_after_last_look_witness:
  "\<exists>v. lk_live (dk_look idle_desk) = Some v \<and> fp_state v = ''OPEN'' \<and> fp_head v = ''h'' \<and> \<not> paused Fix v"
proof -
  obtain w1 where d: "dispatch idle_desk Fix fix_me fresh_shop = (w1, Declined)" "wo_runs w1 = [(Fix, 7)]"
    using idle_dispatch by blast
  have "wo_runs w1 \<noteq> wo_runs fresh_shop" using d(2) by (simp add: fresh_shop_def)
  then show ?thesis
    using agent_runs_after_last_look [OF d(1)] by (auto simp: pr_tasks_def candidate_of_def some_pr_def)
qed

definition spent_shop :: workshop where
  "spent_shop = fresh_shop\<lparr>wo_counters := (wo_counters fresh_shop)\<lparr>cn_files := (\<lambda>_. FileText ''6'')\<rparr>\<rparr>"

lemma spent_count: "count (wo_counters spent_shop) k = 6"
  by (simp add: spent_shop_def fresh_shop_def count_def read_counter_def py_strip_def py_space_def is_digit_def digits_nat_def Let_def)

lemma spent_still: "still_actionable fresh_look (wo_counters spent_shop) Fix (fix_me\<lparr>k_final := True, k_partial := False\<rparr>)
    = (True, fix_me\<lparr>k_final := True, k_partial := False\<rparr>)"
  by (simp add: still_actionable_def fresh_look_def fix_still_def some_pr_def candidate_of_def paused_def live_labels_def
      spent_count fix_disposition_def ledger_blocking_def str_or_empty_def automatic_bump_def max_fix_attempts_def Let_def)

theorem closes_only_own_spent_witness:
  "\<exists>w' r. dispatch idle_desk Fix (fix_me\<lparr>k_final := True\<rparr>) spent_shop = (w', r) \<and> wo_closes w' = [7] \<and> cl_held (wo_claims w') = None"
proof -
  obtain w' r where d: "dispatch idle_desk Fix (fix_me\<lparr>k_final := True\<rparr>) spent_shop = (w', r)" by fastforce
  have cx: "cx_look (dk_close idle_desk) = fresh_look" "cx_claim_rc (dk_close idle_desk) = 0"
      "cx_close_error (dk_close idle_desk) = None" "may_close (dk_close idle_desk) (fix_me\<lparr>k_final := True\<rparr>)"
    by (simp_all add: idle_desk_def may_close_def fresh_look_def paused_def live_labels_def candidate_of_def some_pr_def)
  have fl: "lk_pr fresh_look = Some some_pr" "lk_me fresh_look = author some_pr" "\<not> automatic_bump some_pr"
      "k_foreign (fix_me\<lparr>k_final := True\<rparr>) = []"
    by (simp_all add: fresh_look_def some_pr_def automatic_bump_def candidate_of_def)
  have "dispatch idle_desk Fix (fix_me\<lparr>k_final := True\<rparr>) spent_shop
      = close_spent_pr (dk_close idle_desk) (fix_me\<lparr>k_final := True\<rparr>) spent_shop"
    by (simp add: dispatch_def read_quota_def spent_count max_fix_attempts_def idle_desk_def)
  then have "wo_closes w' \<noteq> wo_closes spent_shop"
    using d spent_still cx fl
    by (auto simp: spent_count max_fix_attempts_def close_spent_pr_def begin_branch_work_def release_all_def Let_def)
  from closes_only_own_spent [OF d this] have "wo_closes w' = wo_closes spent_shop @ [7] \<and> cl_held (wo_claims w') = None"
    by (simp add: pr_tasks_def candidate_of_def some_pr_def)
  then show ?thesis using d by (simp add: spent_shop_def fresh_shop_def)
qed

theorem review_charged_for_its_errors_witness:
  "count (wo_counters (fst (run_github_stage calm_guard Review fix_me (review_unit calm_guard (dk_review idle_desk) fix_me) fresh_shop)))
     (ReviewErr 7) = 1"
proof -
  obtain w' r where u: "run_github_stage calm_guard Review fix_me (review_unit calm_guard (dk_review idle_desk) fix_me) fresh_shop = (w', r)"
    by fastforce
  have r: "r = Rc 2"
    using u by (auto simp: run_github_stage_def unit_keys_def read_counter_def review_unit_def check_result_def handle_end_def
        idle_desk_def calm_guard_def fresh_shop_def review_claimed_exit_def review_provider_down_exit_def log_run_def
        bump_counter_def set_counter_def Let_def)
  have "count (wo_counters w') (ReviewErr (k_pr fix_me)) = count (wo_counters fresh_shop) (ReviewErr (k_pr fix_me)) + 1"
    using review_charged_for_its_errors [OF u] r by auto
  then show ?thesis using u by (simp add: candidate_of_def some_pr_def fresh_shop_def count_def read_counter_def)
qed

end
