(* ===== verification/RoundLaws.thy ===== *)
theory RoundLaws
  imports RoundPick DispatchLaws SurveyLaws
begin

text \<open>
  What one round promises: candidates are offered in the order of the agenda until one is performed, a
  targeted round touches its targets only, authoring is the last resort, and everything offered comes
  from the survey's queues.
\<close>

section \<open>What a dispatch adds\<close>

text \<open>A step starts at most the one agent it is for.\<close>

definition starts :: "stage \<Rightarrow> int \<Rightarrow> workshop \<Rightarrow> workshop \<times> unit_end \<Rightarrow> bool" where
  "starts s pr w res \<longleftrightarrow> wo_runs (fst res) \<in> {wo_runs w, wo_runs w @ [(s, pr)]}"

named_theorems starts_intros \<open>steps that start at most one agent\<close>

lemma starts_if [starts_intros]: "starts s pr w r \<Longrightarrow> starts s pr w r' \<Longrightarrow> starts s pr w (if b then r else r')"
  by simp

lemma starts_same [starts_intros]: "wo_runs w1 = wo_runs w \<Longrightarrow> starts s pr w (w1, r)"
  by (simp add: starts_def)

lemma starts_logged [starts_intros]: "wo_runs w1 = wo_runs w \<Longrightarrow> starts s pr w (log_run s pr w1, r)"
  by (simp add: starts_def log_run_def)

lemma starts_counting:
  "(\<And>t. starts s pr w (k (w1\<lparr>wo_counters := t\<rparr>))) \<Longrightarrow> starts s pr w (w1, Raised CounterBroken) \<Longrightarrow> starts s pr w (counting g w1 k)"
  by (simp add: counting_def starts_def split: sum.split)

lemma starts_declined [starts_intros]: "wo_runs w1 = wo_runs w \<Longrightarrow> starts s pr w (declined keys w1)"
  unfolding declined_def by (rule starts_counting) (simp_all add: starts_def)

lemma starts_decline_repair [starts_intros]: "wo_runs w1 = wo_runs w \<Longrightarrow> starts s pr w (decline_repair keys w1)"
  by (simp add: decline_repair_def starts_declined)

lemma starts_finish:
  "wo_runs w1 = wo_runs w \<Longrightarrow> starts s (k_pr c) w (finish_repair x l keys c rc (log_run s (k_pr c) w1))"
  by (auto simp: finish_repair_def refund_infra_failure_def starts_def counting_def log_run_def split: option.split sum.split)

lemma starts_run: "wo_runs w1 = wo_runs w \<Longrightarrow> starts s (k_pr c) w (run_repair x p s keys c w1)"
  unfolding run_repair_def
  by (intro starts_if; simp split: agent_end.split exn.split
      add: starts_finish starts_decline_repair starts_logged starts_same starts_counting)

lemma starts_fixlike: "wo_runs w1 = wo_runs w \<Longrightarrow> starts s (k_pr c) w (fixlike x s keys c w1)"
proof (cases "fe_pr x")
  case (Some p)
  assume same: "wo_runs w1 = wo_runs w"
  obtain cl ok where bw: "begin_branch_work (fe_claim_rc x) (k_pr c) (k_head c) (head_ref p)
                            (head_owner p, head_repo p) (wo_claims w1) = (cl, ok)" by fastforce
  show ?thesis
    unfolding fixlike_def Some bw option.case Let_def prod.case if_distrib [of "run_repair x p s keys c"]
    using same by (intro starts_intros starts_run) simp_all
qed (simp add: fixlike_def starts_same)

lemma starts_repair: "starts s (k_pr c) w (repair_unit x s c w)"
proof -
  have "starts s (k_pr c) w (counting (charge_all keys) w (fixlike x s keys c))" for keys
    by (rule starts_counting) (simp_all add: starts_fixlike starts_same)
  then show ?thesis by (auto simp: repair_unit_def starts_same split: option.split sum.split)
qed

lemma starts_review: "starts Review (k_pr c) w (review_unit g x c w)"
  by (simp add: review_unit_def starts_def log_run_def set_counter_def bump_counter_def Let_def split: agent_end.split)

lemma starts_launch:
  assumes "s \<in> set pr_tasks"
  shows "starts s (k_pr c) w (launch_unit d s c w)"
proof -
  have u: "starts s (k_pr c) w (unit_of d s c w)"
    using assms starts_repair starts_review by (auto simp: unit_of_def pr_tasks_def)
  have "wo_runs (fst (run_github_stage g s c f w)) \<in> {wo_runs w, wo_runs (fst (f w))}" for g f
    by (simp add: run_github_stage_def Let_def case_prod_beta handle_end_keeps split: option.split sum.split)
  then have "starts s (k_pr c) w (run_github_stage (dk_guard d) s c (unit_of d s c) w)"
    using u unfolding starts_def by (metis insert_iff singletonD)
  moreover have "wo_runs (fst (after_launch d s c res)) = wo_runs (fst res)" for res
    by (simp add: after_launch_def case_prod_beta Let_def)
  ultimately show ?thesis by (simp only: starts_def launch_unit_def)
qed

lemma still_same_pr: "still_actionable x st s c = (b, c') \<Longrightarrow> k_pr c' = k_pr c"
  by (auto simp: still_actionable_def fix_still_def Let_def split: if_splits option.splits)

lemma preflight_same_pr: "preflight d s c st = Inr c' \<Longrightarrow> k_pr c' = k_pr c"
  using preflight_ok still_same_pr by blast

lemma close_closes: "wo_closes (fst (close_spent_pr x c w)) \<in> {wo_closes w, wo_closes w @ [k_pr c]}"
  by (simp add: close_spent_pr_def release_all_def Let_def case_prod_beta split: option.split)

definition adds :: "stage \<Rightarrow> int \<Rightarrow> workshop \<Rightarrow> workshop \<times> unit_end \<Rightarrow> bool" where
  "adds s pr w res \<longleftrightarrow> starts s pr w res \<and> wo_closes (fst res) \<in> {wo_closes w, wo_closes w @ [pr]}"

lemma adds_if: "adds s pr w r \<Longrightarrow> adds s pr w r' \<Longrightarrow> adds s pr w (if b then r else r')"
  by simp

lemma adds_same: "adds s pr w (w, r)"
  by (simp add: adds_def starts_def)

lemma dispatch_adds:
  assumes "s \<in> set pr_tasks"
  shows "adds s (k_pr c) w (dispatch d s c w)"
proof -
  have cl: "adds s (k_pr c) w (close_spent_pr (dk_close d) c w)"
    using close_runs close_closes by (simp add: adds_def starts_def)
  have la: "adds s (k_pr c) w (launch_unit d s c' w)" if "preflight d s c (wo_counters w) = Inr c'" for c'
    using starts_launch [OF assms, of c' w d] preflight_same_pr [OF that] launch_keeps_closes [OF assms]
    by (simp add: adds_def)
  have pre: "adds s (k_pr c) w (case preflight d s c (wo_counters w) of Inl r \<Rightarrow> (w, r) | Inr c' \<Rightarrow> launch_unit d s c' w)"
    using la adds_same by (cases "preflight d s c (wo_counters w)") auto
  show ?thesis unfolding dispatch_def
    by (cases "read_quota (dk_state_url d) s (dk_budget1 d)"; simp only: option.case; intro adds_if adds_same cl pre)
qed

section \<open>The cascade\<close>

definition attempt :: "surrounding \<Rightarrow> stage \<times> candidate \<Rightarrow> workshop \<Rightarrow> workshop \<times> unit_end" where
  "attempt n sc w = dispatch (rn_desk n (fst sc) (snd sc)) (fst sc) (snd sc) w"

text \<open>The state after a list of dispatches, and whether every one of them was declined.\<close>

fun worked :: "surrounding \<Rightarrow> (stage \<times> candidate) list \<Rightarrow> workshop \<Rightarrow> workshop" where
  "worked n [] w = w"
| "worked n (sc # l) w = worked n l (fst (attempt n sc w))"

fun all_declined :: "surrounding \<Rightarrow> (stage \<times> candidate) list \<Rightarrow> workshop \<Rightarrow> bool" where
  "all_declined n [] w = True"
| "all_declined n (sc # l) w = (snd (attempt n sc w) = Declined \<and> all_declined n l (fst (attempt n sc w)))"

definition unskipped :: "round_opts \<Rightarrow> surrounding \<Rightarrow> (stage \<times> candidate) list \<Rightarrow> (stage \<times> candidate) list" where
  "unskipped o' n = filter (\<lambda>(s, c). \<not> skipped o' n s c)"

definition cascade_post ::
  "surrounding \<Rightarrow> (stage \<times> candidate) list \<Rightarrow> workshop
   \<Rightarrow> workshop \<times> unit_end option \<times> (stage \<times> candidate) list \<Rightarrow> bool" where
  "cascade_post n todo w res \<longleftrightarrow>
     (case res of
        (w', None, offered) \<Rightarrow> offered = todo \<and> all_declined n todo w \<and> w' = worked n todo w
      | (w', Some r, offered) \<Rightarrow> r \<noteq> Declined
          \<and> (\<exists>front sc rest. todo = offered @ rest \<and> offered = front @ [sc] \<and> all_declined n front w
               \<and> attempt n sc (worked n front w) = (w', r)))"

lemma cascade_spec: "cascade o' n l w = (w', e, col, offered) \<Longrightarrow> cascade_post n (unskipped o' n l) w (w', e, offered)"
proof (induction o' n l w arbitrary: w' e col offered rule: cascade.induct)
  case (1 o' n w)
  then show ?case by (simp add: cascade_post_def unskipped_def)
next
  case (2 o' n s c rest w)
  obtain w1 r where d: "dispatch (rn_desk n s c) s c w = (w1, r)" by fastforce
  have at1: "attempt n (s, c) w = (w1, r)" using d by (simp add: attempt_def)
  consider (skip) "skipped o' n s c" | (hit) "\<not> skipped o' n s c" "r \<noteq> Declined" | (miss) "\<not> skipped o' n s c" "r = Declined"
    by blast
  then show ?case
  proof cases
    case skip
    obtain m where "cascade o' n rest w = (w', e, m, offered)" using 2(3) skip by (auto split: prod.splits)
    from 2(1) [OF skip this] skip show ?thesis by (simp add: unskipped_def)
  next
    case hit
    then have "w' = w1" "e = Some r" "offered = [(s, c)]" using 2(3) d by (auto simp: Let_def)
    then show ?thesis using hit at1
      by (auto simp: cascade_post_def unskipped_def intro!: exI [of _ "[]"])
  next
    case miss
    obtain m offered' where r: "cascade o' n rest w1 = (w', e, m, offered')" and o: "offered = (s, c) # offered'"
      using 2(3) d miss by (auto simp: Let_def split: prod.splits)
    have "cascade_post n (unskipped o' n rest) w1 (w', e, offered')"
      using 2(2) [OF miss(1) d [symmetric] refl refl] miss(2) r by simp
    then show ?thesis
    proof (cases e)
      case None
      then show ?thesis using \<open>cascade_post _ _ _ _\<close> miss at1 o by (simp add: cascade_post_def unskipped_def)
    next
      case (Some q)
      then obtain front sc tl where "q \<noteq> Declined" "unskipped o' n rest = offered' @ tl" "offered' = front @ [sc]"
        "all_declined n front w1" "attempt n sc (worked n front w1) = (w', q)"
        using \<open>cascade_post _ _ _ _\<close> by (auto simp: cascade_post_def)
      then show ?thesis using Some miss at1 o
        by (cases sc) (auto simp: cascade_post_def unskipped_def intro!: exI [of _ "(s, c) # front"])
    qed
  qed
qed

lemma surveyed_cascade:
  assumes "surveyed_round o' n v w = (w', r, offered)" and "vw_wait v = None" and "\<not> vw_failed v"
  obtains e col where "cascade_post n (unskipped o' n (agenda o' n v)) w (w', e, offered)"
    and "r = (case e of Some q \<Rightarrow> q | None \<Rightarrow> nothing_done o' v col)"
proof -
  obtain e col where c: "cascade o' n (agenda o' n v) w = (w', e, col, offered)"
    and r: "r = (case e of Some q \<Rightarrow> q | None \<Rightarrow> nothing_done o' v col)"
    using assms by (auto simp: surveyed_round_def split: prod.splits)
  from that cascade_spec [OF c] r show ?thesis by blast
qed

lemma surveyed_offered:
  assumes "surveyed_round o' n v w = (w', r, offered)"
  shows "\<exists>rest. vw_wait v = None \<and> \<not> vw_failed v \<and> unskipped o' n (agenda o' n v) = offered @ rest \<and> w' = worked n offered w
    \<or> offered = [] \<and> w' = w"
proof (cases "vw_wait v = None \<and> \<not> vw_failed v")
  case True
  then obtain e where "cascade_post n (unskipped o' n (agenda o' n v)) w (w', e, offered)"
    using surveyed_cascade assms by metis
  moreover have "worked n (a @ [sc]) u = fst (attempt n sc (worked n a u))" for a sc u
    by (induction a arbitrary: u) auto
  ultimately show ?thesis using True by (cases e) (auto simp: cascade_post_def)
qed (use assms in \<open>auto simp: surveyed_round_def split: option.splits if_splits prod.splits\<close>)

lemma unskipped_sub: "unskipped o' n l = offered @ rest \<Longrightarrow> set offered \<subseteq> set l"
  by (drule arg_cong [where f = set]) (auto simp: unskipped_def)

lemma nothing_done_end: "nothing_done o' v col \<in> {Raised NoProgressed, Raised Collided}"
  by (simp add: nothing_done_def idle_end_def)

text \<open>
  C24: the first candidate that is performed decides the round. The dispatched candidates are a prefix of the
  agenda without the skipped ones, in its order, each on the state its predecessors left. Either all of
  them were declined and the round ends with no progress or a claim collision, or all but the last were, and
  the last one's end is the round's; nothing after it is dispatched.
\<close>

theorem first_performed_wins:
  assumes "surveyed_round o' n v w = (w', r, offered)" and "vw_wait v = None" and "\<not> vw_failed v"
  shows "\<exists>rest. filter (\<lambda>(s, c). \<not> skipped o' n s c) (agenda o' n v) = offered @ rest
    \<and> (rest = [] \<and> all_declined n offered w \<and> w' = worked n offered w \<and> r \<in> {Raised NoProgressed, Raised Collided}
       \<or> (\<exists>front s c. offered = front @ [(s, c)] \<and> all_declined n front w \<and> r \<noteq> Declined
            \<and> dispatch (rn_desk n s c) s c (worked n front w) = (w', r)))"
proof -
  obtain e col where p: "cascade_post n (unskipped o' n (agenda o' n v)) w (w', e, offered)"
    and r: "r = (case e of Some q \<Rightarrow> q | None \<Rightarrow> nothing_done o' v col)"
    using surveyed_cascade [OF assms] by blast
  show ?thesis
  proof (cases e)
    case None
    then show ?thesis using p r nothing_done_end by (simp add: cascade_post_def unskipped_def [symmetric])
  next
    case (Some q)
    then show ?thesis using p r by (fastforce simp: cascade_post_def unskipped_def [symmetric] attempt_def)
  qed
qed

section \<open>Authoring\<close>

lemma all_declined_append: "all_declined n (a @ b) w \<Longrightarrow> all_declined n a w"
  by (induction a arbitrary: w) auto

lemma stage_agenda_fst: "(s', c) \<in> set (stage_agenda o' n v s) \<Longrightarrow> s' = s"
  by (auto simp: stage_agenda_def split: if_splits)

definition before_roadmap :: "round_opts \<Rightarrow> surrounding \<Rightarrow> view \<Rightarrow> (stage \<times> candidate) list" where
  "before_roadmap o' n v = concat (map (stage_agenda o' n v) (takeWhile (\<lambda>s. s \<noteq> Roadmap) (auto_stages (ro_roadmap_first o'))))"

lemma agenda_split:
  "\<exists>after. agenda o' n v = before_roadmap o' n v @ stage_agenda o' n v Roadmap @ after
     \<and> (\<forall>sc\<in>set (before_roadmap o' n v) \<union> set after. fst sc \<noteq> Roadmap)"
proof -
  define post where "post = tl (dropWhile (\<lambda>s. s \<noteq> Roadmap) (auto_stages (ro_roadmap_first o')))"
  have s: "auto_stages (ro_roadmap_first o') = takeWhile (\<lambda>s. s \<noteq> Roadmap) (auto_stages (ro_roadmap_first o')) @ Roadmap # post"
    "Roadmap \<notin> set post" by (simp_all add: auto_stages_def post_def)
  have "agenda o' n v = before_roadmap o' n v @ stage_agenda o' n v Roadmap @ concat (map (stage_agenda o' n v) post)"
    unfolding agenda_def by (subst s(1)) (simp add: before_roadmap_def)
  moreover have "\<forall>sc\<in>set (before_roadmap o' n v) \<union> set (concat (map (stage_agenda o' n v) post)). fst sc \<noteq> Roadmap"
    using s(2) by (auto simp: before_roadmap_def dest!: stage_agenda_fst set_takeWhileD)
  ultimately show ?thesis by blast
qed

text \<open>
  authoring is the last resort. A round that offers a new roadmap pull request had a complete survey, was
  allowed the task, names no pull requests and is not at the limit of open ones; everything the agenda has
  before authoring was offered first, in order, and declined, or skipped because a peer holds it.
\<close>

theorem authoring_is_last_resort:
  assumes "surveyed_round o' n v w = (w', r, offered)" and "(Roadmap, c) \<in> set offered"
  shows "vw_wait v = None \<and> \<not> vw_failed v \<and> ro_prs o' = [] \<and> \<not> vw_backpressure v
    \<and> want (ro_project o') (ro_only o') (Task Roadmap) \<and> c = roadmap_candidate (rn_area n)
    \<and> all_declined n (unskipped o' n (before_roadmap o' n v)) w
    \<and> (\<exists>rest. offered = unskipped o' n (before_roadmap o' n v) @ (Roadmap, c) # rest)"
proof -
  let ?pre = "unskipped o' n (before_roadmap o' n v)"
  have ne: "offered \<noteq> []" using assms(2) by auto
  have ok: "vw_wait v = None" "\<not> vw_failed v" using surveyed_offered [OF assms(1)] ne by auto
  obtain e col where p: "cascade_post n (unskipped o' n (agenda o' n v)) w (w', e, offered)"
    using surveyed_cascade [OF assms(1) ok] by blast
  obtain after where ag: "agenda o' n v = before_roadmap o' n v @ stage_agenda o' n v Roadmap @ after"
    and other: "\<forall>sc\<in>set (before_roadmap o' n v) \<union> set after. fst sc \<noteq> Roadmap" using agenda_split by blast
  obtain tail where un: "unskipped o' n (agenda o' n v) = offered @ tail"
    using p by (auto simp: cascade_post_def split: option.splits)
  have "(Roadmap, c) \<in> set (agenda o' n v)"
    using assms(2) unskipped_sub [OF un] by blast
  moreover have "(Roadmap, c) \<notin> set (before_roadmap o' n v) \<union> set after" using other by force
  ultimately have ra: "(Roadmap, c) \<in> set (stage_agenda o' n v Roadmap)" using ag by simp
  then have g: "ro_prs o' = []" "\<not> vw_backpressure v" "want (ro_project o') (ro_only o') (Task Roadmap)"
      "c = roadmap_candidate (rn_area n)" and one: "stage_agenda o' n v Roadmap = [(Roadmap, c)]"
    by (auto simp: stage_agenda_def split: if_splits)
  have "\<not> skipped o' n Roadmap c" by (simp add: skipped_def g(4) roadmap_candidate_def)
  then have "?pre @ (Roadmap, c) # unskipped o' n after = offered @ tail"
    using un by (simp add: ag one unskipped_def)
  moreover have "(Roadmap, c) \<notin> set ?pre" using other by (force simp: unskipped_def)
  ultimately obtain rest where off: "offered = ?pre @ (Roadmap, c) # rest"
    using assms(2) by (auto simp: append_eq_append_conv2 append_eq_Cons_conv Cons_eq_append_conv)
  have "all_declined n ?pre w"
  proof (cases e)
    case None
    then have "all_declined n offered w" using p by (simp add: cascade_post_def)
    then show ?thesis unfolding off by (rule all_declined_append)
  next
    case (Some q)
    then obtain front sc where f: "offered = front @ [sc]" "all_declined n front w" using p by (auto simp: cascade_post_def)
    then have "\<exists>l. front = ?pre @ l" using off by (cases rest rule: rev_cases) auto
    then show ?thesis using f(2) all_declined_append by blast
  qed
  then show ?thesis using ok g off by blast
qed

section \<open>Targets\<close>

lemma agenda_targets:
  assumes "(s, c) \<in> set (agenda o' n v)" and "ro_prs o' \<noteq> []"
  shows "s \<in> set pr_tasks \<and> k_pr c \<in> set (ro_prs o') \<and> want (ro_project o') (ro_only o') (Task s)"
  using assms by (auto simp: agenda_def stage_agenda_def focus_prs_def pr_tasks_def split: if_splits)

lemma worked_adds:
  assumes "\<forall>(s, c)\<in>set l. s \<in> set pr_tasks"
  shows "\<exists>runs closes. wo_runs (worked n l w) = wo_runs w @ runs \<and> wo_closes (worked n l w) = wo_closes w @ closes
    \<and> set runs \<subseteq> (\<lambda>(s, c). (s, k_pr c)) ` set l \<and> set closes \<subseteq> (\<lambda>(s, c). k_pr c) ` set l
    \<and> length runs \<le> length l \<and> length closes \<le> length l"
  using assms
proof (induction l arbitrary: w)
  case Nil
  then show ?case by simp
next
  case (Cons sc l)
  obtain s c where sc: "sc = (s, c)" by fastforce
  let ?w1 = "fst (attempt n sc w)"
  have "adds s (k_pr c) w (dispatch (rn_desk n s c) s c w)" by (rule dispatch_adds) (use Cons.prems sc in auto)
  then obtain r1 c1 where a: "wo_runs ?w1 = wo_runs w @ r1" "wo_closes ?w1 = wo_closes w @ c1"
    "r1 = [] \<or> r1 = [(s, k_pr c)]" "c1 = [] \<or> c1 = [k_pr c]"
    by (auto simp: adds_def starts_def attempt_def sc)
  obtain r2 c2 where b: "wo_runs (worked n l ?w1) = wo_runs ?w1 @ r2" "wo_closes (worked n l ?w1) = wo_closes ?w1 @ c2"
    "set r2 \<subseteq> (\<lambda>(s, c). (s, k_pr c)) ` set l" "set c2 \<subseteq> (\<lambda>(s, c). k_pr c) ` set l" "length r2 \<le> length l" "length c2 \<le> length l"
    using Cons.IH [of ?w1] Cons.prems by auto
  show ?case
    by (rule exI [of _ "r1 @ r2"], rule exI [of _ "c1 @ c2"]) (use a b sc in auto)
qed

lemma run_round_surveyed:
  assumes "run_round o' n view_of w = (w', r, offered)"
  obtains "offered = []" "w' = w"
  | o2 where "o2 = o' \<or> o2 = o'\<lparr>ro_only := filter (\<lambda>t. t \<noteq> SecurityAudit) (ro_only o')\<rparr> \<and> ro_only o2 \<noteq> []"
    "surveyed_round o2 n (view_of o2) w = (w', r, offered)"
proof (cases "SecurityAudit \<in> set (ro_only o')")
  case False
  then show ?thesis using assms that(2) [of o'] by (simp add: run_round_def)
next
  case True
  let ?o2 = "o'\<lparr>ro_only := filter (\<lambda>t. t \<noteq> SecurityAudit) (ro_only o')\<rparr>"
  have "offered = [] \<and> w' = w \<or> ro_only ?o2 \<noteq> [] \<and> surveyed_round ?o2 n (view_of ?o2) w = (w', r, offered)"
    using assms True by (auto simp: run_round_def Let_def split: if_split_asm unit_end.split_asm)
  then show ?thesis using that by blast
qed

text \<open>
  C23: a targeted round stays on its targets. Whatever the survey found, a round that names pull requests
  offers only stages that act on a pull request, only for the named ones and only of wanted tasks; every
  agent it starts and every pull request it closes is a named one, at most one for each candidate offered;
  and it escalates none but the named.
\<close>

theorem targeted_round_stays_on_target:
  assumes "run_round o' n view_of w = (w', r, offered)" and "ro_prs o' \<noteq> []"
  shows "(\<forall>(s, c)\<in>set offered. s \<in> set pr_tasks \<and> k_pr c \<in> set (ro_prs o') \<and> want (ro_project o') (ro_only o') (Task s))
    \<and> (\<exists>runs closes. wo_runs w' = wo_runs w @ runs \<and> wo_closes w' = wo_closes w @ closes
         \<and> set runs \<subseteq> (\<lambda>(s, c). (s, k_pr c)) ` set offered \<and> snd ` set runs \<subseteq> set (ro_prs o') \<and> set closes \<subseteq> set (ro_prs o')
         \<and> length runs \<le> length offered \<and> length closes \<le> length offered)
    \<and> set (escalated o' (view_of o')) \<subseteq> set (ro_prs o')"
proof -
  have off: "\<forall>(s, c)\<in>set offered. s \<in> set pr_tasks \<and> k_pr c \<in> set (ro_prs o') \<and> want (ro_project o') (ro_only o') (Task s)"
    and w': "w' = worked n offered w"
  proof -
    consider "offered = []" "w' = w" | o2 where "o2 = o' \<or> o2 = o'\<lparr>ro_only := filter (\<lambda>t. t \<noteq> SecurityAudit) (ro_only o')\<rparr> \<and> ro_only o2 \<noteq> []"
      "surveyed_round o2 n (view_of o2) w = (w', r, offered)" using run_round_surveyed [OF assms(1)] by blast
    then have "(\<forall>(s, c)\<in>set offered. s \<in> set pr_tasks \<and> k_pr c \<in> set (ro_prs o') \<and> want (ro_project o') (ro_only o') (Task s))
        \<and> w' = worked n offered w"
    proof cases
      case 2
      have same: "ro_prs o2 = ro_prs o'" and wt: "want (ro_project o2) (ro_only o2) (Task s) \<Longrightarrow> want (ro_project o') (ro_only o') (Task s)" for s
        using 2(1) by (auto simp: want_def split: if_splits)
      from surveyed_offered [OF 2(2)] show ?thesis
      proof (elim exE disjE conjE)
        fix rest
        assume un: "unskipped o2 n (agenda o2 n (view_of o2)) = offered @ rest" and "w' = worked n offered w"
        then show ?thesis using unskipped_sub [OF un] agenda_targets [of _ _ o2 n "view_of o2"] same wt assms(2) by fastforce
      qed simp
    qed simp
    then show "\<forall>(s, c)\<in>set offered. s \<in> set pr_tasks \<and> k_pr c \<in> set (ro_prs o') \<and> want (ro_project o') (ro_only o') (Task s)"
      "w' = worked n offered w" by auto
  qed
  obtain runs closes where a: "wo_runs w' = wo_runs w @ runs" "wo_closes w' = wo_closes w @ closes"
      "set runs \<subseteq> (\<lambda>(s, c). (s, k_pr c)) ` set offered" "set closes \<subseteq> (\<lambda>(s, c). k_pr c) ` set offered"
      "length runs \<le> length offered" "length closes \<le> length offered"
    using worked_adds [of offered n w] off w' by fastforce
  have "(\<lambda>(s, c). k_pr c) ` set offered \<subseteq> set (ro_prs o')" using off by auto
  moreover have "snd ` set runs \<subseteq> (\<lambda>(s, c). k_pr c) ` set offered" using a(3) by fastforce
  ultimately have "snd ` set runs \<subseteq> set (ro_prs o')" "set closes \<subseteq> set (ro_prs o')" using a(4) by blast+
  moreover have "set (escalated o' (view_of o')) \<subseteq> set (ro_prs o')" using assms(2) by (auto simp: escalated_def)
  ultimately show ?thesis using off a by blast
qed

section \<open>The survey and the round\<close>

text \<open>The queues of the stages that act on a pull request, as \<open>survey_kinds\<close> fills them.\<close>

definition pr_queue :: "kinds \<Rightarrow> stage \<Rightarrow> candidate list" where
  "pr_queue k s =
     (case s of Rebase \<Rightarrow> actionable (w_rebase k) | Bump \<Rightarrow> actionable (w_bump k) | LintRepair \<Rightarrow> actionable (w_lint k)
      | FixCi \<Rightarrow> actionable (w_fix_ci k) | Fix \<Rightarrow> actionable (w_fix k) | Review \<Rightarrow> actionable (w_review k) | _ \<Rightarrow> [])"

lemma weighted_sub: "set (weighted neg_log now draws items) \<subseteq> set items"
  by (auto simp: weighted_def dest: set_zip_rightD)

lemma prioritize_sub:
  "set (fst (prioritize_review_candidates neg_log draws now me cs)) \<subseteq> set cs"
  "set (snd (prioritize_review_candidates neg_log draws now me cs)) \<subseteq> set cs"
  using weighted_sub by (fastforce simp: prioritize_review_candidates_def Let_def)+

lemma review_queue_sub: "set (review_queue o' n v) \<subseteq> set (vw_queue v Review)"
proof -
  have "set (throttle_review a b ps t q) \<subseteq> set q" for a b ps t q by (auto simp: throttle_review_def)
  then show ?thesis using prioritize_sub unfolding review_queue_def
    by (auto simp: Let_def case_prod_beta split: if_splits) blast+
qed

lemma agenda_sub:
  assumes "(s, c) \<in> set (agenda o' n v)" and "s \<noteq> Roadmap" and "\<And>l. set (rn_spread n l) \<subseteq> set l"
  shows "c \<in> set (vw_queue v s) \<and> want (ro_project o') (ro_only o') (Task s)"
proof -
  have "(s, c) \<in> set (stage_agenda o' n v s)" "want (ro_project o') (ro_only o') (Task s)"
    using assms(1) stage_agenda_fst by (fastforce simp: agenda_def stage_agenda_def split: if_splits)+
  moreover from this have "c \<in> set (ordered_queue o' n v s)"
    using assms(2) by (auto simp: stage_agenda_def focus_prs_def split: if_splits)
  moreover have "set (ordered_queue o' n v s) \<subseteq> set (vw_queue v s)"
    unfolding ordered_queue_def using review_queue_sub [of o' n v] assms(3) [of "vw_queue v s"] by simp
  ultimately show ?thesis by blast
qed


section \<open>Nothing is overlooked\<close>

lemma review_queue_all:
  assumes "ro_min_queue o' = 0" "ro_min_age o' = 0" "vw_backpressure v" "length (vw_queue v Review) \<le> length (rn_draws n)"
  shows "set (review_queue o' n v) = set (vw_queue v Review)"
proof -
  have "set (fst z) \<union> set (snd z) = set (vw_queue v Review)"
    if "z = prioritize_review_candidates (rn_neg_log n) (rn_draws n) (rn_now n) m (vw_queue v Review)" for z m
    using review_order_complete [of _ _ _ m "vw_queue v Review" "fst z" "snd z"] that assms(4)
    by (metis prod.collapse set_mset_mset set_mset_union)
  then show ?thesis using assms(1-3) by (simp add: review_queue_def throttle_review_def Let_def case_prod_beta)
qed

lemma auto_stages_all: "s \<in> set (auto_stages f)"
  by (cases s) (simp_all add: auto_stages_def)

definition in_targets :: "round_opts \<Rightarrow> stage \<Rightarrow> candidate \<Rightarrow> bool" where
  "in_targets o' s c \<longleftrightarrow> ro_prs o' = [] \<or> s \<in> set pr_tasks \<and> k_pr c \<in> set (ro_prs o')"

lemma agenda_complete:
  assumes "want (ro_project o') (ro_only o') (Task s)" and "s \<noteq> Roadmap" and "c \<in> set (vw_queue v s)" and "in_targets o' s c"
    and "s = Review \<longrightarrow> ro_min_queue o' = 0 \<and> ro_min_age o' = 0 \<and> vw_backpressure v"
    and "\<And>l. set (rn_spread n l) = set l" and "length (vw_queue v Review) \<le> length (rn_draws n)"
  shows "(s, c) \<in> set (agenda o' n v)"
proof -
  have "set (ordered_queue o' n v s) = set (vw_queue v s)"
    using review_queue_all [of o' v n] assms(1,5-7) by (auto simp: ordered_queue_def)
  then have "c \<in> set (focus_prs (ro_prs o') (ordered_queue o' n v) s)"
    using assms(3,4) by (auto simp: focus_prs_def in_targets_def)
  then have "(s, c) \<in> set (stage_agenda o' n v s)" using assms(1,2) by (simp add: stage_agenda_def)
  then show ?thesis using auto_stages_all by (force simp: agenda_def)
qed

text \<open>
  an idle round tried everything. Either the last candidate offered was performed, or every surveyed candidate of
  every wanted task within the targets was offered and declined, or skipped because a peer holds its branch; for reviews this
  needs the throttles off and authoring paused, when no review is kept back for its previous reviewer.
\<close>

theorem idle_round_tried_everything:
  assumes "surveyed_round o' n v w = (w', r, offered)" and "vw_wait v = None" and "\<not> vw_failed v"
    and "\<And>l. set (rn_spread n l) = set l" and "length (vw_queue v Review) \<le> length (rn_draws n)"
  shows "(\<exists>front s c. offered = front @ [(s, c)] \<and> r \<noteq> Declined \<and> dispatch (rn_desk n s c) s c (worked n front w) = (w', r))
    \<or> r \<in> {Raised NoProgressed, Raised Collided} \<and> all_declined n offered w
      \<and> (\<forall>s c. want (ro_project o') (ro_only o') (Task s) \<and> s \<noteq> Roadmap \<and> c \<in> set (vw_queue v s) \<and> in_targets o' s c
           \<and> (s = Review \<longrightarrow> ro_min_queue o' = 0 \<and> ro_min_age o' = 0 \<and> vw_backpressure v)
           \<longrightarrow> (s, c) \<in> set offered \<or> skipped o' n s c)"
proof -
  obtain e col where p: "cascade_post n (unskipped o' n (agenda o' n v)) w (w', e, offered)"
    and r: "r = (case e of Some q \<Rightarrow> q | None \<Rightarrow> nothing_done o' v col)"
    using surveyed_cascade [OF assms(1-3)] by blast
  show ?thesis
  proof (cases e)
    case None
    then have "offered = unskipped o' n (agenda o' n v)" "all_declined n offered w" "r \<in> {Raised NoProgressed, Raised Collided}"
      using p r nothing_done_end by (auto simp: cascade_post_def)
    then show ?thesis using agenda_complete [OF _ _ _ _ _ assms(4,5)] by (auto simp: unskipped_def)
  next
    case (Some q)
    then show ?thesis using p r by (fastforce simp: cascade_post_def attempt_def)
  qed
qed

section \<open>Concrete rounds\<close>

definition fix_round :: round_opts where
  "fix_round = \<lparr>ro_project = None, ro_only = [Task Fix], ro_prs = [7], ro_min_queue = 0, ro_min_age = 0, ro_dry = False,
     ro_scope = None, ro_roadmap_first = False\<rparr>"

definition quiet :: surrounding where
  "quiet = \<lparr>rn_now = 0, rn_spread = (\<lambda>l. l), rn_me = ''me'', rn_neg_log = (\<lambda>d. 1 - d), rn_draws = [], rn_claimed = (\<lambda>_. False),
     rn_area = BuildFailed, rn_desk = (\<lambda>_ _. idle_desk), rn_audit = Rc 0\<rparr>"

definition calm_view :: view where
  "calm_view = \<lparr>vw_queue = (\<lambda>s. if s = Fix then [fix_me] else []), vw_open = [some_pr], vw_stuck = [3, 7], vw_backpressure = False,
     vw_wait = None, vw_failed = False, vw_idle_reason = (\<lambda>_. False)\<rparr>"

lemma fix_agenda: "agenda fix_round quiet calm_view = [(Fix, fix_me)]"
  by (simp add: agenda_def auto_stages_def stage_agenda_def want_def disabled_def fix_round_def ordered_queue_def global_pick_def
      overlap_only_def focus_prs_def calm_view_def quiet_def pr_tasks_def candidate_of_def some_pr_def)

lemma unskipped_fix: "\<not> skipped fix_round n s c"
  by (simp add: skipped_def global_pick_def fix_round_def)

lemma fix_round_result:
  "\<exists>w1 r. surveyed_round fix_round quiet calm_view fresh_shop = (w1, r, [(Fix, fix_me)]) \<and> wo_runs w1 = [(Fix, 7)]"
proof -
  obtain w1 where d: "dispatch idle_desk Fix fix_me fresh_shop = (w1, Declined)" "wo_runs w1 = [(Fix, 7)]"
    using idle_dispatch by blast
  have "rn_desk quiet = (\<lambda>_ _. idle_desk)" by (simp add: quiet_def)
  then have "\<exists>m. cascade fix_round quiet [(Fix, fix_me)] fresh_shop = (w1, None, m, [(Fix, fix_me)])"
    using d(1) by (simp add: unskipped_fix)
  then show ?thesis using d(2) fix_agenda by (auto simp: surveyed_round_def calm_view_def)
qed

lemma fix_attempt: "r \<noteq> Declined \<Longrightarrow> dispatch (rn_desk quiet Fix fix_me) Fix fix_me fresh_shop \<noteq> (w', r)"
  using idle_dispatch by (auto simp: quiet_def)

theorem first_performed_wins_witness:
  "\<exists>w1 r. surveyed_round fix_round quiet calm_view fresh_shop = (w1, r, [(Fix, fix_me)])
     \<and> r \<in> {Raised NoProgressed, Raised Collided} \<and> w1 = worked quiet [(Fix, fix_me)] fresh_shop"
proof -
  obtain w1 r where s: "surveyed_round fix_round quiet calm_view fresh_shop = (w1, r, [(Fix, fix_me)])"
    using fix_round_result by blast
  have v: "vw_wait calm_view = None" "\<not> vw_failed calm_view" by (simp_all add: calm_view_def)
  from first_performed_wins [OF s v] have "r \<in> {Raised NoProgressed, Raised Collided} \<and> w1 = worked quiet [(Fix, fix_me)] fresh_shop"
    using fix_attempt by (auto simp: Cons_eq_append_conv)
  with s show ?thesis by blast
qed

theorem idle_round_tried_everything_witness:
  "\<exists>w1 r. surveyed_round fix_round quiet calm_view fresh_shop = (w1, r, [(Fix, fix_me)])
     \<and> r \<in> {Raised NoProgressed, Raised Collided}"
proof -
  obtain w1 r where s: "surveyed_round fix_round quiet calm_view fresh_shop = (w1, r, [(Fix, fix_me)])"
    using fix_round_result by blast
  have v: "vw_wait calm_view = None" "\<not> vw_failed calm_view" "length (vw_queue calm_view Review) \<le> length (rn_draws quiet)"
    "\<And>l. set (rn_spread quiet l) = set l" by (simp_all add: calm_view_def quiet_def)
  from idle_round_tried_everything [OF s v(1,2,4,3)] have "r \<in> {Raised NoProgressed, Raised Collided}"
    using fix_attempt by (auto simp: Cons_eq_append_conv)
  with s show ?thesis by blast
qed

theorem targeted_round_stays_on_target_witness:
  "\<exists>w1 r. run_round fix_round quiet (\<lambda>_. calm_view) fresh_shop = (w1, r, [(Fix, fix_me)])
     \<and> wo_runs w1 = [(Fix, 7)] \<and> wo_closes w1 \<in> {[], [7]} \<and> set (escalated fix_round calm_view) \<subseteq> {7}"
proof -
  obtain w1 r where s: "run_round fix_round quiet (\<lambda>_. calm_view) fresh_shop = (w1, r, [(Fix, fix_me)])" "wo_runs w1 = [(Fix, 7)]"
    using fix_round_result by (auto simp: run_round_def fix_round_def)
  have "ro_prs fix_round \<noteq> []" "ro_prs fix_round = [7]" by (simp_all add: fix_round_def)
  from targeted_round_stays_on_target [OF s(1) this(1)] this(2) obtain closes
    where "wo_closes w1 = wo_closes fresh_shop @ closes" "set closes \<subseteq> {7}" "length closes \<le> 1" "set (escalated fix_round calm_view) \<subseteq> {7}"
    by auto
  then have "wo_closes w1 \<in> {[], [7]}" by (cases closes) (auto simp: fresh_shop_def)
  with s \<open>set (escalated fix_round calm_view) \<subseteq> {7}\<close> show ?thesis by blast
qed

lemma lone_cascade: "\<not> skipped o' n s c \<Longrightarrow> snd (snd (snd (cascade o' n [(s, c)] w))) = [(s, c)]"
  by (simp add: case_prod_beta Let_def)

lemma lone_round:
  assumes "agenda o' n v = [(s, c)]" and "\<not> skipped o' n s c" and "vw_wait v = None" and "\<not> vw_failed v"
  shows "snd (snd (surveyed_round o' n v w)) = [(s, c)]"
  using lone_cascade [OF assms(2)] assms by (simp add: surveyed_round_def case_prod_beta Let_def)

definition author_round :: round_opts where
  "author_round = fix_round\<lparr>ro_only := [Task Roadmap], ro_prs := []\<rparr>"

lemma author_agenda: "agenda author_round quiet calm_view = [(Roadmap, roadmap_candidate BuildFailed)]"
  by (simp add: agenda_def auto_stages_def stage_agenda_def want_def disabled_def author_round_def fix_round_def calm_view_def quiet_def)

theorem authoring_is_last_resort_witness:
  "\<not> vw_backpressure calm_view \<and> want None [Task Roadmap] (Task Roadmap)
   \<and> snd (snd (surveyed_round author_round quiet calm_view fresh_shop)) = [(Roadmap, roadmap_candidate BuildFailed)]"
proof -
  let ?c = "roadmap_candidate BuildFailed"
  obtain w1 r l where s: "surveyed_round author_round quiet calm_view fresh_shop = (w1, r, l)" by (metis prod.collapse)
  have v: "vw_wait calm_view = None" "\<not> vw_failed calm_view" by (simp_all add: calm_view_def)
  have "\<not> skipped author_round quiet Roadmap ?c" by (simp add: skipped_def roadmap_candidate_def)
  from lone_round [OF author_agenda this v] s have l: "l = [(Roadmap, ?c)]" by (metis snd_conv)
  have "ro_project author_round = None" "ro_only author_round = [Task Roadmap]" by (simp_all add: author_round_def fix_round_def)
  with authoring_is_last_resort [OF s, of ?c] l show ?thesis using s by simp
qed

definition ci_round :: round_opts where
  "ci_round = fix_round\<lparr>ro_only := [Task FixCi], ro_prs := []\<rparr>"

definition red_kinds :: kinds where
  "red_kinds = fst (survey_kinds sample_ctx [FixCi] False (\<lambda>_. None) [sample_pr] no_counters)"

definition red_view :: view where
  "red_view = calm_view\<lparr>vw_queue := pr_queue red_kinds\<rparr>"

abbreviation red_candidate :: candidate where
  "red_candidate \<equiv> (candidate_of sample_pr BuildFailed)\<lparr>k_budget := 3\<rparr>"

lemma red_queue: "pr_queue red_kinds FixCi = [red_candidate]"
  by (simp add: pr_queue_def red_kinds_def survey_kinds_def tended_def nondraft_def automatic_bump_def sample_pr_def
      sample_ctx_def held_def lower_labels_def fix_ci_step_def count_def read_counter_def no_counters_def
      starts_with_def bump_head_prefix_def lint_repair_head_prefix_def budget_defs place_def candidate_of_def actionable_def)

lemma red_agenda: "agenda ci_round quiet red_view = [(FixCi, red_candidate)]"
  by (simp add: agenda_def auto_stages_def stage_agenda_def want_def disabled_def ci_round_def fix_round_def ordered_queue_def
      global_pick_def overlap_only_def focus_prs_def red_view_def red_queue)


end
