(* ===== verification/WorkerSpecs.thy ===== *)
theory WorkerSpecs
  imports Pace
begin

text \<open>
  The desired state of a fleet (\<open>worker_manager.py\<close>): a worker's definition \<open>WorkerSpec\<close>, its reader
  \<open>from_dict\<close> with every check, its writer \<open>as_dict\<close>, the fingerprint of a generation and the reader of
  the configuration file. The TOML parser's result is a \<open>json\<close>; every rejected definition is an \<open>Inl\<close>
  that names the field.
\<close>

section \<open>A definition\<close>

datatype restart_policy = Always | OnFailure | Never

record wspec =
  ws_id :: string
  ws_conf :: "string option"
  ws_max_open_prs :: int
  ws_state_url :: "string option"
  ws_state_token :: "string option"
  ws_account :: "string option"
  ws_enabled :: bool
  ws_agent :: string
  ws_only :: "string list"
  ws_sandbox :: string
  ws_ignore_quota :: bool
  ws_auto_refresh :: bool
  ws_billing :: string
  ws_budget :: bool
  ws_key_file :: "string option"
  ws_roadmap_only :: "string option"
  ws_roadmap_skip :: "string list"
  ws_identities :: "string list"
  ws_respect_claims :: bool
  ws_source :: "string option"
  ws_author_model :: "string option"
  ws_author_effort :: "string option"
  ws_pace :: "string option"
  ws_stream :: bool
  ws_isolate :: bool
  ws_restart :: restart_policy
  ws_env :: "(string \<times> string) list"

definition agents :: "string list" where
  "agents = [''auto'', ''codex'', ''claude'', ''kiro'', ''deepseek'', ''minimax'']"

definition work_tasks :: "string list" where
  "work_tasks = [''rebase'', ''review'', ''fix-ci'', ''fix'', ''bump'', ''progress'', ''roadmap'', ''lint-repair'',
     ''overlap-scan'', ''overlap-fix'', ''security-audit'']"

definition default_open_prs :: int where "default_open_prs = 8"

definition worker_keys :: "string list" where
  "worker_keys = [''conf'', ''max_open_prs'', ''github_state_url'', ''github_state_token_file'', ''id'', ''github_account'',
     ''enabled'', ''agent'', ''only'', ''sandbox'', ''ignore_quota'', ''auto_refresh'', ''roadmap_only'', ''roadmap_skip'',
     ''roadmap_extra_identities'', ''respect_claims'', ''source'', ''author_model'', ''author_effort'', ''pace'', ''stream'',
     ''isolate_home'', ''restart'', ''env'', ''claude_billing'', ''budget'', ''anthropic_api_key_file'']"

section \<open>Readers of one value\<close>

text \<open>\<open>raw.get(k, default)\<close>.\<close>

definition field :: "jdict \<Rightarrow> string \<Rightarrow> json \<Rightarrow> json" where
  "field d k v0 = (case jget d k of None \<Rightarrow> v0 | Some v \<Rightarrow> v)"

definition a_string :: "string \<Rightarrow> json \<Rightarrow> string + string" where
  "a_string k v = (case v of JStr s \<Rightarrow> Inr s | _ \<Rightarrow> Inl k)"

definition opt_string :: "string \<Rightarrow> json \<Rightarrow> string + string option" where
  "opt_string k v = (case v of JNull \<Rightarrow> Inr None | JStr s \<Rightarrow> Inr (Some s) | _ \<Rightarrow> Inl k)"

definition a_bool :: "string \<Rightarrow> json \<Rightarrow> string + bool" where
  "a_bool k v = (case v of JBool b \<Rightarrow> Inr b | _ \<Rightarrow> Inl k)"

fun all_strings :: "json list \<Rightarrow> string list option" where
  "all_strings [] = Some []"
| "all_strings (JStr s # vs) = map_option ((#) s) (all_strings vs)"
| "all_strings (_ # vs) = None"

definition strings :: "string \<Rightarrow> json \<Rightarrow> string + string list" where
  "strings k v = (case v of JArr vs \<Rightarrow> (case all_strings vs of Some l \<Rightarrow> Inr l | None \<Rightarrow> Inl k) | _ \<Rightarrow> Inl k)"

definition pace_spec :: "string \<Rightarrow> json \<Rightarrow> string + string option" where
  "pace_spec k v = ebind (opt_string k v) (\<lambda>s.
     case s of None \<Rightarrow> Inr None
     | Some p \<Rightarrow> (case parse_pace_curve (Some p) of Inl _ \<Rightarrow> Inl k | Inr _ \<Rightarrow> Inr (Some p)))"

text \<open>\<open>positive_integer\<close> followed by the test that the value is an integer: no boolean, no string.\<close>

definition open_prs_limit :: "json \<Rightarrow> string + int" where
  "open_prs_limit v = (case v of JNum (PInt n) \<Rightarrow> if 1 \<le> n then Inr n else Inl ''max_open_prs'' | _ \<Rightarrow> Inl ''max_open_prs'')"

definition restart_of :: "string \<Rightarrow> restart_policy option" where
  "restart_of s = (if s = ''always'' then Some Always else if s = ''on-failure'' then Some OnFailure
     else if s = ''never'' then Some Never else None)"

definition restart_name :: "restart_policy \<Rightarrow> string" where
  "restart_name r = (case r of Always \<Rightarrow> ''always'' | OnFailure \<Rightarrow> ''on-failure'' | Never \<Rightarrow> ''never'')"

definition ascii_letter :: "char \<Rightarrow> bool" where
  "ascii_letter c \<longleftrightarrow> (let n = of_char c :: nat in 65 \<le> n \<and> n \<le> 90 \<or> 97 \<le> n \<and> n \<le> 122)"

definition worker_id_ok :: "string \<Rightarrow> bool" where
  "worker_id_ok s \<longleftrightarrow> s \<noteq> [] \<and> length s \<le> 40
     \<and> list_all (\<lambda>c. (let n = of_char c :: nat in 97 \<le> n \<and> n \<le> 122) \<or> is_digit c \<or> c = CHR ''-'') s"

definition account_ok :: "string \<Rightarrow> bool" where
  "account_ok s \<longleftrightarrow> s \<noteq> [] \<and> length s \<le> 39 \<and> hd s \<noteq> CHR ''-''
     \<and> list_all (\<lambda>c. ascii_letter c \<or> is_digit c \<or> c = CHR ''-'') s"

section \<open>The environment table\<close>

definition reserved_env :: "string list" where
  "reserved_env = [''TAUCETI_RUNTIME_STATUS'', ''TAUCETI_MANAGED'', ''TAUCETI_LOG_FILE'', ''TAUCETI_PARENT_PIPE_FD'',
     ''TAUCETI_DATA_HOME'']"

definition env_name_ok :: "string \<Rightarrow> bool" where
  "env_name_ok s \<longleftrightarrow> s \<noteq> [] \<and> \<not> is_digit (hd s) \<and> list_all (\<lambda>c. ascii_letter c \<or> is_digit c \<or> c = CHR ''_'') s"

definition env_max_bytes :: int where "env_max_bytes = 16 * 1024"

fun env_values :: "jdict \<Rightarrow> (string \<times> string) list option" where
  "env_values [] = Some []"
| "env_values ((name, v) # d) =
     (if \<not> env_name_ok name \<or> name \<in> set reserved_env then None
      else case v of JStr s \<Rightarrow> if CHR 0x00 \<in> set s then None else map_option ((#) (name, s)) (env_values d) | _ \<Rightarrow> None)"

definition env_size :: "(string \<times> string) list \<Rightarrow> int" where
  "env_size e = sum_list (map (\<lambda>(n, v). int (length n) + int (length v) + 2) e)"

definition env_pairs :: "string \<Rightarrow> json \<Rightarrow> string + (string \<times> string) list" where
  "env_pairs k v =
     (case v of
        JObj d \<Rightarrow> (case env_values d of
                    None \<Rightarrow> Inl k
                  | Some e \<Rightarrow> if env_max_bytes < env_size e then Inl k else Inr (sort_key fst e))
      | _ \<Rightarrow> Inl k)"

section \<open>\<open>from_dict\<close>\<close>

definition some_text :: "string option \<Rightarrow> bool" where
  "some_text x \<longleftrightarrow> x \<noteq> None \<and> x \<noteq> Some []"

definition audit_problem :: "string list \<Rightarrow> string \<Rightarrow> bool \<Rightarrow> bool \<Rightarrow> bool" where
  "audit_problem only agent override api \<longleftrightarrow>
     ''security-audit'' \<in> set only \<and> (agent \<notin> {''auto'', ''codex'', ''claude''} \<or> override \<or> api)"

text \<open>The checks over several fields, after the definition is built.\<close>

definition check_spec :: "wspec \<Rightarrow> string + wspec" where
  "check_spec s =
     (if ws_account s \<noteq> None \<and> \<not> account_ok (the (ws_account s)) then Inl ''github_account''
      else if ws_source s \<noteq> None \<and> (''roadmap'' \<notin> set (ws_only s) \<or> \<not> some_text (ws_roadmap_only s)) then Inl ''source''
      else if (some_text (ws_author_model s) \<or> some_text (ws_author_effort s)) \<and> ws_agent s = ''auto'' then Inl ''author_model''
      else if ws_billing s \<notin> {''subscription'', ''api''} then Inl ''claude_billing''
      else if ws_billing s = ''api'' \<and> (ws_agent s \<noteq> ''claude'' \<or> ws_ignore_quota s \<or> ws_auto_refresh s \<or> some_text (ws_pace s))
      then Inl ''claude_billing''
      else if ws_billing s \<noteq> ''api'' \<and> (ws_budget s \<or> some_text (ws_key_file s)) then Inl ''budget''
      else if audit_problem (ws_only s) (ws_agent s) (some_text (ws_author_model s) \<or> some_text (ws_author_effort s))
                (ws_billing s = ''api'') then Inl ''only''
      else Inr s)"

definition check_field :: "bool \<Rightarrow> string \<Rightarrow> 'a \<Rightarrow> string + 'a" where
  "check_field b k v = (if b then Inr v else Inl k)"

definition from_dict :: "json \<Rightarrow> string + wspec" where
  "from_dict v =
     (case v of
        JObj d \<Rightarrow>
          if \<not> list_all (\<lambda>(k, _). k \<in> set worker_keys) d then Inl ''unknown''
          else
            ebind (a_string ''id'' (field d ''id'' JNull)) (\<lambda>i. ebind (check_field (worker_id_ok i) ''id'' i) (\<lambda>wid.
            ebind (a_bool ''enabled'' (field d ''enabled'' (JBool True))) (\<lambda>en.
            ebind (a_string ''agent'' (field d ''agent'' (JStr ''auto''))) (\<lambda>a. ebind (check_field (a \<in> set agents) ''agent'' a) (\<lambda>ag.
            ebind (strings ''only'' (field d ''only'' (JArr []))) (\<lambda>ol. ebind (check_field (list_all (\<lambda>t. t \<in> set work_tasks) ol) ''only'' ol) (\<lambda>only.
            ebind (a_string ''sandbox'' (field d ''sandbox'' (JStr ''host''))) (\<lambda>sb. ebind (check_field (sb \<in> {''host'', ''bubble''}) ''sandbox'' sb) (\<lambda>sbx.
            ebind (a_string ''restart'' (field d ''restart'' (JStr ''always''))) (\<lambda>rs. ebind (check_field (restart_of rs \<noteq> None) ''restart'' (the (restart_of rs))) (\<lambda>rst.
            ebind (open_prs_limit (field d ''max_open_prs'' (JNum (PInt default_open_prs)))) (\<lambda>cutoff.
            ebind (opt_string ''conf'' (field d ''conf'' JNull)) (\<lambda>conf.
            ebind (opt_string ''github_state_url'' (field d ''github_state_url'' JNull)) (\<lambda>url.
            ebind (opt_string ''github_state_token_file'' (field d ''github_state_token_file'' JNull)) (\<lambda>token.
            ebind (opt_string ''github_account'' (field d ''github_account'' JNull)) (\<lambda>account.
            ebind (a_bool ''ignore_quota'' (field d ''ignore_quota'' (JBool False))) (\<lambda>iq.
            ebind (a_bool ''auto_refresh'' (field d ''auto_refresh'' (JBool False))) (\<lambda>ar.
            ebind (a_string ''claude_billing'' (field d ''claude_billing'' (JStr ''subscription''))) (\<lambda>cb.
            ebind (a_bool ''budget'' (field d ''budget'' (JBool False))) (\<lambda>bu.
            ebind (opt_string ''anthropic_api_key_file'' (field d ''anthropic_api_key_file'' JNull)) (\<lambda>key.
            ebind (opt_string ''roadmap_only'' (field d ''roadmap_only'' JNull)) (\<lambda>ro.
            ebind (strings ''roadmap_skip'' (field d ''roadmap_skip'' (JArr []))) (\<lambda>rskip.
            ebind (strings ''roadmap_extra_identities'' (field d ''roadmap_extra_identities'' (JArr []))) (\<lambda>ids.
            ebind (a_bool ''respect_claims'' (field d ''respect_claims'' (JBool True))) (\<lambda>rc.
            ebind (opt_string ''source'' (field d ''source'' JNull)) (\<lambda>src.
            ebind (opt_string ''author_model'' (field d ''author_model'' JNull)) (\<lambda>am.
            ebind (opt_string ''author_effort'' (field d ''author_effort'' JNull)) (\<lambda>ae.
            ebind (pace_spec ''pace'' (field d ''pace'' JNull)) (\<lambda>pc.
            ebind (a_bool ''stream'' (field d ''stream'' (JBool False))) (\<lambda>st.
            ebind (a_bool ''isolate_home'' (field d ''isolate_home'' (JBool False))) (\<lambda>ih.
            ebind (env_pairs ''env'' (field d ''env'' (JObj []))) (\<lambda>env.
              check_spec \<lparr>ws_id = wid, ws_conf = conf, ws_max_open_prs = cutoff, ws_state_url = url, ws_state_token = token,
                ws_account = account, ws_enabled = en, ws_agent = ag, ws_only = only, ws_sandbox = sbx, ws_ignore_quota = iq,
                ws_auto_refresh = ar, ws_billing = cb, ws_budget = bu, ws_key_file = key, ws_roadmap_only = ro,
                ws_roadmap_skip = rskip, ws_identities = ids, ws_respect_claims = rc, ws_source = src, ws_author_model = am,
                ws_author_effort = ae, ws_pace = pc, ws_stream = st, ws_isolate = ih, ws_restart = rst, ws_env = env\<rparr>))))))))))))))))))))))))))))))))
      | _ \<Rightarrow> Inl ''table'')"

section \<open>\<open>as_dict\<close> and the fingerprint\<close>

definition jopt :: "string option \<Rightarrow> json" where
  "jopt x = (case x of None \<Rightarrow> JNull | Some s \<Rightarrow> JStr s)"

definition jstrs :: "string list \<Rightarrow> json" where
  "jstrs l = JArr (map JStr l)"

text \<open>Each key with its value and whether it is written.\<close>

definition spec_entries :: "wspec \<Rightarrow> (string \<times> bool \<times> json) list" where
  "spec_entries s =
    [(''id'', True, JStr (ws_id s)), (''enabled'', True, JBool (ws_enabled s)),
     (''max_open_prs'', ws_max_open_prs s \<noteq> default_open_prs, JNum (PInt (ws_max_open_prs s))),
     (''agent'', ws_agent s \<noteq> ''auto'', JStr (ws_agent s)),
     (''only'', ws_only s \<noteq> [], jstrs (ws_only s)),
     (''sandbox'', ws_sandbox s \<noteq> ''host'', JStr (ws_sandbox s)),
     (''ignore_quota'', ws_ignore_quota s, JBool True),
     (''auto_refresh'', ws_auto_refresh s, JBool True),
     (''claude_billing'', ws_billing s \<noteq> ''subscription'', JStr (ws_billing s)),
     (''budget'', ws_budget s, JBool True),
     (''anthropic_api_key_file'', some_text (ws_key_file s), jopt (ws_key_file s)),
     (''roadmap_only'', ws_roadmap_only s \<noteq> None, jopt (ws_roadmap_only s)),
     (''roadmap_skip'', ws_roadmap_skip s \<noteq> [], jstrs (ws_roadmap_skip s)),
     (''roadmap_extra_identities'', ws_identities s \<noteq> [], jstrs (ws_identities s)),
     (''respect_claims'', \<not> ws_respect_claims s, JBool False),
     (''github_account'', ws_account s \<noteq> None, jopt (ws_account s)),
     (''conf'', ws_conf s \<noteq> None, jopt (ws_conf s)),
     (''github_state_url'', ws_state_url s \<noteq> None, jopt (ws_state_url s)),
     (''github_state_token_file'', ws_state_token s \<noteq> None, jopt (ws_state_token s)),
     (''source'', ws_source s \<noteq> None, jopt (ws_source s)),
     (''author_model'', ws_author_model s \<noteq> None, jopt (ws_author_model s)),
     (''author_effort'', ws_author_effort s \<noteq> None, jopt (ws_author_effort s)),
     (''pace'', ws_pace s \<noteq> None, jopt (ws_pace s)),
     (''stream'', ws_stream s, JBool True),
     (''isolate_home'', ws_isolate s, JBool True),
     (''restart'', ws_restart s \<noteq> Always, JStr (restart_name (ws_restart s))),
     (''env'', ws_env s \<noteq> [], JObj (map (\<lambda>(n, v). (n, JStr v)) (ws_env s)))]"

definition as_dict :: "wspec \<Rightarrow> jdict" where
  "as_dict s = map (\<lambda>(k, b, v). (k, v)) (filter (\<lambda>(k, b, v). b) (spec_entries s))"

text \<open>The fingerprint is a hash of the written definition; \<open>h\<close> is \<open>json.dumps\<close> with SHA-256.\<close>

definition fingerprint :: "(jdict \<Rightarrow> string) \<Rightarrow> wspec \<Rightarrow> string" where
  "fingerprint h s = h (as_dict s)"

section \<open>The configuration file\<close>

fun from_dicts :: "json list \<Rightarrow> string + wspec list" where
  "from_dicts [] = Inr []"
| "from_dicts (v # vs) = ebind (from_dict v) (\<lambda>s. ebind (from_dicts vs) (\<lambda>ss. Inr (s # ss)))"

text \<open>\<open>load_worker_specs\<close>, for a file that was read as TOML.\<close>

definition load_worker_specs :: "json \<Rightarrow> string + wspec list" where
  "load_worker_specs v =
     (case v of
        JObj d \<Rightarrow>
          if \<not> list_all (\<lambda>(k, _). k \<in> {''version'', ''workers''}) d then Inl ''unknown''
          else if jget0 d ''version'' \<notin> {JNum (PInt 1), JNum (PFloat 1), JBool True} then Inl ''version''
          else (case field d ''workers'' (JArr []) of
                  JArr vs \<Rightarrow> ebind (from_dicts vs) (\<lambda>ss. if distinct (map ws_id ss) then Inr ss else Inl ''duplicate'')
                | _ \<Rightarrow> Inl ''workers'')
      | _ \<Rightarrow> Inl ''table'')"

text \<open>What \<open>_write_worker_specs\<close> writes, as the TOML parser reads it back.\<close>

definition written_specs :: "wspec list \<Rightarrow> json" where
  "written_specs ss = JObj ([(''version'', JNum (PInt 1))]
     @ (if ss = [] then [] else [(''workers'', JArr (map (\<lambda>s. JObj (as_dict s)) ss))]))"

text \<open>\<open>_mutate_enabled\<close> and \<open>_remove_spec\<close> on the definitions that were read.\<close>

definition mutate_enabled :: "string \<Rightarrow> bool \<Rightarrow> wspec list \<Rightarrow> string + wspec list" where
  "mutate_enabled wid en ss =
     (if \<not> list_ex (\<lambda>s. ws_id s = wid) ss then Inl ''unknown worker''
      else Inr (map (\<lambda>s. if ws_id s = wid then s\<lparr>ws_enabled := en\<rparr> else s) ss))"

definition remove_spec :: "string \<Rightarrow> wspec list \<Rightarrow> string + wspec list" where
  "remove_spec wid ss =
     (if \<not> list_ex (\<lambda>s. ws_id s = wid) ss then Inl ''unknown worker'' else Inr (filter (\<lambda>s. ws_id s \<noteq> wid) ss))"

end
