(* ===== verification/Manager.thy ===== *)
theory Manager
  imports WorkerSpecs
begin

text \<open>
  The manager of a host's workers (\<open>worker_manager.run_manager\<close>): control requests, the reaping of exited
  wrappers, the reconciliation of one worker with its definition, and one cycle over all of them. What is
  read of the world (control sockets, status files, the clock, exits of children) is an argument; what is
  done to it is a list of actions.
\<close>

section \<open>State\<close>

text \<open>A runner as its socket or its status file shows it.\<close>

record rstatus =
  rs_alive :: bool
  rs_state :: string
  rs_hash :: "string option"
  rs_applied :: "jdict option"
  rs_restarts :: int
  rs_started :: "rat option"
  rs_stopped :: "rat option"
  rs_exit :: "int option"
  rs_wrapper :: "int option"
  rs_next :: "rat option"
  rs_child :: "int option"
  rs_managed :: bool

text \<open>\<open>children\<close> and \<open>child_generations\<close> always have the same keys and are one map here.\<close>

record manager =
  mg_children :: "string \<rightharpoonup> int \<times> string"
  mg_outcomes :: "string \<rightharpoonup> string \<times> int"
  mg_failures :: "string \<rightharpoonup> string \<times> nat \<times> rat"
  mg_restart :: "string set"
  mg_enable :: "string set"
  mg_good :: "wspec list option"
  mg_exiting :: bool
  mg_stopping :: bool

definition new_manager :: manager where
  "new_manager = \<lparr>mg_children = Map.empty, mg_outcomes = Map.empty, mg_failures = Map.empty, mg_restart = {}, mg_enable = {},
     mg_good = None, mg_exiting = False, mg_stopping = False\<rparr>"

datatype request = Ping | Restart "string option" | Enable "string option" | Shutdown bool | OtherRequest

text \<open>\<open>handle\<close>: the new state, and whether the request was accepted. An identifier that is no string is \<open>None\<close>.\<close>

definition handle :: "request \<Rightarrow> manager \<Rightarrow> manager \<times> bool" where
  "handle r m =
     (case r of
        Ping \<Rightarrow> (m, True)
      | Restart (Some wid) \<Rightarrow> (m\<lparr>mg_restart := insert wid (mg_restart m)\<rparr>, True)
      | Enable (Some wid) \<Rightarrow>
          (m\<lparr>mg_enable := insert wid (mg_enable m), mg_outcomes := (mg_outcomes m)(wid := None),
             mg_failures := (mg_failures m)(wid := None)\<rparr>, True)
      | Shutdown stop \<Rightarrow> (m\<lparr>mg_exiting := True, mg_stopping := stop\<rparr>, True)
      | _ \<Rightarrow> (m, False))"

definition wanted :: "wspec list \<Rightarrow> string \<rightharpoonup> wspec" where
  "wanted specs = map_of (rev (map (\<lambda>s. (ws_id s, s)) specs))"

section \<open>Reaping\<close>

definition retry_delay :: "nat \<Rightarrow> rat" where
  "retry_delay k = min (5 * 2 ^ min k 6) 300"

text \<open>What is known of a child that exited: its return code, its status file and the clock.\<close>

type_synonym exits = "string \<rightharpoonup> int \<times> rstatus \<times> rat"

definition terminal :: "int \<Rightarrow> rstatus \<Rightarrow> bool" where
  "terminal pid st \<longleftrightarrow> rs_wrapper st = Some pid \<and> \<not> rs_alive st \<and> rs_stopped st \<noteq> None"

definition failure_after :: "(jdict \<Rightarrow> string) \<Rightarrow> wspec option \<Rightarrow> (string \<times> nat \<times> rat) option \<Rightarrow> rat \<Rightarrow> string \<times> nat \<times> rat" where
  "failure_after h spec previous now =
     (let fp = (case spec of Some s \<Rightarrow> fingerprint h s | None \<Rightarrow> ''removed'');
          n = (case previous of Some (g, k, _) \<Rightarrow> if g = fp then k + 1 else 1 | None \<Rightarrow> 1)
      in (fp, n, now + retry_delay (n - 1)))"

definition reap :: "(jdict \<Rightarrow> string) \<Rightarrow> (string \<rightharpoonup> wspec) \<Rightarrow> exits \<Rightarrow> manager \<Rightarrow> manager" where
  "reap h want ex m =
     m\<lparr>mg_children := (\<lambda>w. if ex w = None then mg_children m w else None),
       mg_outcomes := (\<lambda>w. case (mg_children m w, ex w) of (Some (_, g), Some (rc, _)) \<Rightarrow> Some (g, rc) | _ \<Rightarrow> mg_outcomes m w),
       mg_failures := (\<lambda>w. case (mg_children m w, ex w) of
                             (Some (pid, _), Some (rc, st, now)) \<Rightarrow>
                               if \<not> terminal pid st \<and> rc \<noteq> 0 then Some (failure_after h (want w) (mg_failures m w) now)
                               else mg_failures m w
                           | _ \<Rightarrow> mg_failures m w)\<rparr>"

section \<open>One worker\<close>

record seen =
  se_live :: rstatus
  se_prior :: rstatus
  se_now :: rat
  se_linux :: bool
  se_busy :: "bool option"
  se_pid :: int

datatype action = StopRunner string | Launch wspec | PendingPolicy string string | ResetCount string | Forget string

definition policy_fields :: "string list" where
  "policy_fields = [''max_open_prs'', ''github_state_url'', ''github_state_token_file'']"

definition drop_policy :: "jdict \<Rightarrow> jdict" where
  "drop_policy d = filter (\<lambda>(k, _). k \<notin> set policy_fields) d"

definition same_dict :: "jdict \<Rightarrow> jdict \<Rightarrow> bool" where
  "same_dict d d' \<longleftrightarrow> list_all (\<lambda>(k, _). jget d k = jget d' k) (d @ d')"

definition idle_states :: "string list" where
  "idle_states = [''idle'', ''backoff'', ''waiting-github'', ''waiting-budget'', ''waiting-quota'']"

text \<open>The definition a live runner was started with; older runners persisted its hash alone.\<close>

definition applied_spec :: "(jdict \<Rightarrow> string) \<Rightarrow> wspec \<Rightarrow> rstatus \<Rightarrow> jdict" where
  "applied_spec h s live =
     (case rs_applied live of
        Some d \<Rightarrow> d
      | None \<Rightarrow> (let previous = s\<lparr>ws_max_open_prs := default_open_prs, ws_state_url := None, ws_state_token := None\<rparr>
                 in if Some (fingerprint h previous) \<noteq> rs_hash live then as_dict s else as_dict previous))"

definition defer_reload :: "(jdict \<Rightarrow> string) \<Rightarrow> wspec \<Rightarrow> seen \<Rightarrow> bool" where
  "defer_reload h s x =
     (let live = se_live x
      in if \<not> same_dict (drop_policy (applied_spec h s live)) (drop_policy (as_dict s)) then False
         else if rs_state live \<notin> set idle_states then True
         else if (case rs_next live of None \<Rightarrow> 0 | Some t \<Rightarrow> t) - se_now x < 15 then True
         else if se_linux x \<and> rs_child live \<noteq> None then (case se_busy x of None \<Rightarrow> True | Some b \<Rightarrow> b)
         else False)"

text \<open>Whether the restart policy leaves an exited worker down; only an explicit request overrides it.\<close>

definition policy_holds :: "(jdict \<Rightarrow> string) \<Rightarrow> wspec \<Rightarrow> (string \<times> int) option \<Rightarrow> rstatus \<Rightarrow> bool" where
  "policy_holds h s outcome prior \<longleftrightarrow>
     (case outcome of
        Some (g, rc) \<Rightarrow> g = fingerprint h s \<and> (ws_restart s = Never \<or> ws_restart s = OnFailure \<and> rc = 0)
      | None \<Rightarrow> False)
     \<or> ws_restart s = Never \<and> rs_hash prior = Some (fingerprint h s) \<and> rs_stopped prior \<notin> {None, Some 0}
     \<or> ws_restart s = OnFailure \<and> rs_hash prior = Some (fingerprint h s) \<and> rs_exit prior = Some 0"

definition earliest :: "(jdict \<Rightarrow> string) \<Rightarrow> wspec \<Rightarrow> (string \<times> nat \<times> rat) option \<Rightarrow> rstatus \<Rightarrow> rat" where
  "earliest h s failure prior =
     max ((case rs_stopped prior of None \<Rightarrow> 0 | Some t \<Rightarrow> t)
            + (if rs_state prior = ''failed'' then retry_delay (nat (rs_restarts prior)) else 0))
         (case failure of Some (g, _, t) \<Rightarrow> if g = fingerprint h s then t else 0 | None \<Rightarrow> 0)"

definition launch :: "(jdict \<Rightarrow> string) \<Rightarrow> wspec \<Rightarrow> int \<Rightarrow> manager \<Rightarrow> manager" where
  "launch h s pid m =
     (let wid = ws_id s
      in m\<lparr>mg_children := (mg_children m)(wid \<mapsto> (pid, fingerprint h s)), mg_outcomes := (mg_outcomes m)(wid := None),
           mg_restart := mg_restart m - {wid}, mg_enable := mg_enable m - {wid}\<rparr>)"

definition reconcile_one ::
  "(jdict \<Rightarrow> string) \<Rightarrow> (string \<rightharpoonup> wspec) \<Rightarrow> string \<Rightarrow> seen \<Rightarrow> manager \<Rightarrow> manager \<times> action list" where
  "reconcile_one h want wid x m =
     (let spec = want wid; live = se_live x; is_live = rs_alive live;
          should_run = (case spec of None \<Rightarrow> False | Some s \<Rightarrow> ws_enabled s);
          m1 = (if is_live \<or> \<not> should_run then m\<lparr>mg_enable := mg_enable m - {wid}\<rparr> else m);
          changed = (is_live \<and> (case spec of None \<Rightarrow> False | Some s \<Rightarrow> rs_hash live \<noteq> Some (fingerprint h s)))
      in if changed \<and> should_run \<and> wid \<notin> mg_restart m1 \<and> defer_reload h (the spec) x
         then (m1, [PendingPolicy wid (fingerprint h (the spec))])
         else
           (let healthy = is_live \<and> \<not> changed \<and> rs_restarts live \<noteq> 0
                  \<and> 300 \<le> se_now x - (case rs_started live of None \<Rightarrow> se_now x | Some t \<Rightarrow> if t = 0 then se_now x else t);
                m2 = (if healthy then m1\<lparr>mg_failures := (mg_failures m1)(wid := None)\<rparr> else m1);
                acts = (if healthy then [ResetCount wid] else [])
            in if is_live \<and> (\<not> should_run \<or> changed \<or> wid \<in> mg_restart m2) then (m2, acts @ [StopRunner wid])
               else if is_live \<or> \<not> should_run \<or> mg_children m2 wid \<noteq> None
               then (m2, acts @ (if \<not> is_live \<and> spec = None \<and> rs_managed live then [Forget wid] else []))
               else
                 (let s = the spec; forced = (wid \<in> mg_restart m2 \<or> wid \<in> mg_enable m2)
                  in if \<not> forced \<and> policy_holds h s (mg_outcomes m2 wid) (se_prior x) then (m2, acts)
                     else if \<not> forced \<and> se_now x < earliest h s (mg_failures m2 wid) (se_prior x) then (m2, acts)
                     else (launch h s (se_pid x) m2, acts @ [Launch s]))))"

section \<open>A cycle\<close>

text \<open>The known workers in order, each with the request served before it and what is seen of it.\<close>

fun reconcile_all ::
  "(jdict \<Rightarrow> string) \<Rightarrow> (string \<rightharpoonup> wspec) \<Rightarrow> (string \<times> request option \<times> seen) list \<Rightarrow> manager \<Rightarrow> manager \<times> action list" where
  "reconcile_all h want [] m = (m, [])"
| "reconcile_all h want ((wid, req, x) # rest) m =
     (let m1 = (case req of None \<Rightarrow> m | Some r \<Rightarrow> fst (handle r m))
      in if mg_exiting m1 then (m1, [])
         else (let (m2, acts) = reconcile_one h want wid x m1; (m3, acts') = reconcile_all h want rest m2
               in (m3, acts @ acts')))"

record inputs =
  in_config :: "string + wspec list"
  in_exits :: exits
  in_workers :: "(string \<times> request option \<times> seen) list"
  in_request :: "request option"

definition serve :: "request option \<Rightarrow> manager \<Rightarrow> manager" where
  "serve req m = (case req of None \<Rightarrow> m | Some r \<Rightarrow> fst (handle r m))"

text \<open>
  One turn of the loop. A configuration that does not load keeps the last good one; without one, nothing but
  requests is served.
\<close>

definition cycle :: "(jdict \<Rightarrow> string) \<Rightarrow> inputs \<Rightarrow> manager \<Rightarrow> manager \<times> action list" where
  "cycle h i m =
     (if mg_exiting m then (m, [])
      else (case (in_config i, mg_good m) of
              (Inl e, None) \<Rightarrow> (serve (in_request i) m, [])
            | (loaded, _) \<Rightarrow>
                (let specs = (case loaded of Inr ss \<Rightarrow> ss | Inl _ \<Rightarrow> the (mg_good m));
                     want = wanted specs;
                     (m1, acts) = reconcile_all h want (in_workers i) (reap h want (in_exits i) (m\<lparr>mg_good := Some specs\<rparr>))
                 in (serve (in_request i) m1, acts))))"

text \<open>A run of the manager: the state after each cycle and what each did.\<close>

fun cycles :: "(jdict \<Rightarrow> string) \<Rightarrow> inputs list \<Rightarrow> manager \<Rightarrow> manager \<times> action list list" where
  "cycles h [] m = (m, [])"
| "cycles h (i # rest) m =
     (let (m1, acts) = cycle h i m; (m2, all) = cycles h rest m1 in (m2, acts # all))"

end
