(* ===== verification/SpecLaws.thy ===== *)
theory SpecLaws
  imports WorkerSpecs "HOL-Library.Multiset"
begin

text \<open>
  What the readers and writers of worker definitions promise: an accepted definition is well formed, writing
  and reading it again gives the same generation, and editing one worker leaves the others as they were.
\<close>

section \<open>Looking up what was written\<close>

lemma map_of_written:
  "distinct (map fst es) \<Longrightarrow> map_of (map (\<lambda>(k, b, v). (k, v)) (filter (\<lambda>(k, b, v). b) es)) k
     = (case map_of es k of None \<Rightarrow> None | Some (b, v) \<Rightarrow> if b then Some v else None)"
proof (induction es)
  case Nil
  then show ?case by simp
next
  case (Cons e es)
  obtain k' b v where e: "e = (k', b, v)" by (cases e) auto
  have "k' \<notin> fst ` set es" using Cons.prems e by auto
  then have "map_of es k' = None" by (simp add: map_of_eq_None_iff)
  then show ?case using Cons e by auto
qed

lemma entries_distinct: "distinct (map fst (spec_entries s))"
  by (simp add: spec_entries_def)

lemma written_field:
  "field (as_dict s) k v0 = (case map_of (spec_entries s) k of None \<Rightarrow> v0 | Some (b, v) \<Rightarrow> if b then v else v0)"
  by (simp add: field_def jget_def as_dict_def map_of_written [OF entries_distinct] split: option.split)

lemma jstrs_Nil: "jstrs [] = JArr []"
  by (simp add: jstrs_def)

lemmas field_eval = written_field spec_entries_def jstrs_Nil jopt_def

lemma as_dict_fields:
  "field (as_dict s) ''id'' JNull = JStr (ws_id s)"
  "field (as_dict s) ''enabled'' (JBool True) = JBool (ws_enabled s)"
  "field (as_dict s) ''agent'' (JStr ''auto'') = JStr (ws_agent s)"
  "field (as_dict s) ''only'' (JArr []) = jstrs (ws_only s)"
  "field (as_dict s) ''sandbox'' (JStr ''host'') = JStr (ws_sandbox s)"
  "field (as_dict s) ''restart'' (JStr ''always'') = JStr (restart_name (ws_restart s))"
  "field (as_dict s) ''max_open_prs'' (JNum (PInt default_open_prs)) = JNum (PInt (ws_max_open_prs s))"
  by (simp_all add: field_eval restart_name_def)

lemma as_dict_texts:
  "field (as_dict s) ''conf'' JNull = jopt (ws_conf s)"
  "field (as_dict s) ''github_state_url'' JNull = jopt (ws_state_url s)"
  "field (as_dict s) ''github_state_token_file'' JNull = jopt (ws_state_token s)"
  "field (as_dict s) ''github_account'' JNull = jopt (ws_account s)"
  "field (as_dict s) ''roadmap_only'' JNull = jopt (ws_roadmap_only s)"
  "field (as_dict s) ''source'' JNull = jopt (ws_source s)"
  "field (as_dict s) ''author_model'' JNull = jopt (ws_author_model s)"
  "field (as_dict s) ''author_effort'' JNull = jopt (ws_author_effort s)"
  "field (as_dict s) ''pace'' JNull = jopt (ws_pace s)"
  "field (as_dict s) ''anthropic_api_key_file'' JNull = (if some_text (ws_key_file s) then jopt (ws_key_file s) else JNull)"
  by (simp_all add: field_eval)

lemma as_dict_flags:
  "field (as_dict s) ''ignore_quota'' (JBool False) = JBool (ws_ignore_quota s)"
  "field (as_dict s) ''auto_refresh'' (JBool False) = JBool (ws_auto_refresh s)"
  "field (as_dict s) ''claude_billing'' (JStr ''subscription'') = JStr (ws_billing s)"
  "field (as_dict s) ''budget'' (JBool False) = JBool (ws_budget s)"
  "field (as_dict s) ''roadmap_skip'' (JArr []) = jstrs (ws_roadmap_skip s)"
  "field (as_dict s) ''roadmap_extra_identities'' (JArr []) = jstrs (ws_identities s)"
  "field (as_dict s) ''respect_claims'' (JBool True) = JBool (ws_respect_claims s)"
  "field (as_dict s) ''stream'' (JBool False) = JBool (ws_stream s)"
  "field (as_dict s) ''isolate_home'' (JBool False) = JBool (ws_isolate s)"
  "field (as_dict s) ''env'' (JObj []) = JObj (map (\<lambda>(n, v). (n, JStr v)) (ws_env s))"
  by (simp_all add: field_eval)

lemma written_keys: "list_all (\<lambda>(k, _). k \<in> set worker_keys) (as_dict s)"
proof -
  have "list_all (\<lambda>(k, _). k \<in> set worker_keys) (spec_entries s)"
    by (simp add: spec_entries_def worker_keys_def)
  then show ?thesis by (auto simp: as_dict_def list_all_iff)
qed

section \<open>Reading canonical values\<close>

lemma all_strings_map [simp]: "all_strings (map JStr l) = Some l"
  by (induction l) auto

lemma canonical_reads:
  "a_string k (JStr x) = Inr x" "a_bool k (JBool b) = Inr b" "opt_string k (jopt o') = Inr o'" "opt_string k JNull = Inr None"
  "strings k (jstrs l) = Inr l"
  by (simp_all add: a_string_def a_bool_def opt_string_def strings_def jopt_def jstrs_def split: option.split)

lemma restart_of_name [simp]: "restart_of (restart_name r) = Some r"
  by (cases r) (simp_all add: restart_of_def restart_name_def)

definition env_entry_ok :: "string \<times> string \<Rightarrow> bool" where
  "env_entry_ok e \<longleftrightarrow> env_name_ok (fst e) \<and> fst e \<notin> set reserved_env \<and> CHR 0x00 \<notin> set (snd e)"

lemma env_values_ok: "env_values d = Some e \<Longrightarrow> list_all env_entry_ok e"
  by (induction d arbitrary: e rule: env_values.induct)
    (auto simp: env_entry_ok_def split: if_splits json.splits)

lemma env_values_map: "list_all env_entry_ok e \<Longrightarrow> env_values (map (\<lambda>(n, v). (n, JStr v)) e) = Some e"
  by (induction e) (auto simp: env_entry_ok_def)

lemma env_size_sorted [simp]: "env_size (sort_key f e) = env_size e"
proof -
  have "sum_mset (mset (map (\<lambda>(n, v). int (length n) + int (length v) + 2) (sort_key f e)))
      = sum_mset (mset (map (\<lambda>(n, v). int (length n) + int (length v) + 2) e))" by simp
  then show ?thesis by (simp only: env_size_def sum_mset_sum_list)
qed

definition env_ok :: "(string \<times> string) list \<Rightarrow> bool" where
  "env_ok e \<longleftrightarrow> list_all env_entry_ok e \<and> env_size e \<le> env_max_bytes \<and> sorted (map fst e)"

lemma env_pairs_ok: "env_pairs k v = Inr e \<Longrightarrow> env_ok e"
  using env_values_ok
  by (auto simp: env_pairs_def env_ok_def list_all_iff split: json.splits option.splits if_splits)

lemma sort_key_id: "sorted (map f l) \<Longrightarrow> sort_key f l = l"
  by (simp add: sorted_sort_id sort_key_id_if_sorted)

lemma env_pairs_written: "env_ok e \<Longrightarrow> env_pairs k (JObj (map (\<lambda>(n, v). (n, JStr v)) e)) = Inr e"
  by (simp add: env_pairs_def env_ok_def env_values_map sort_key_id)

section \<open>Well-formed definitions\<close>

definition pace_ok :: "string option \<Rightarrow> bool" where
  "pace_ok p = (case p of None \<Rightarrow> True | Some s \<Rightarrow> (case parse_pace_curve (Some s) of Inl _ \<Rightarrow> False | Inr _ \<Rightarrow> True))"

definition spec_ok :: "wspec \<Rightarrow> bool" where
  "spec_ok s \<longleftrightarrow> worker_id_ok (ws_id s) \<and> ws_agent s \<in> set agents \<and> list_all (\<lambda>t. t \<in> set work_tasks) (ws_only s)
     \<and> ws_sandbox s \<in> {''host'', ''bubble''} \<and> 1 \<le> ws_max_open_prs s \<and> pace_ok (ws_pace s) \<and> env_ok (ws_env s)
     \<and> check_spec s = Inr s"

lemma check_spec_id: "check_spec s = Inr s' \<Longrightarrow> s' = s"
  by (auto simp: check_spec_def split: if_splits)

lemma pace_spec_ok: "pace_spec k v = Inr p \<Longrightarrow> pace_ok p"
  by (cases "opt_string k v") (auto simp: pace_spec_def pace_ok_def split: option.split_asm sum.split_asm sum.split option.split)

lemma pace_spec_written: "pace_ok p \<Longrightarrow> pace_spec k (jopt p) = Inr p"
  by (auto simp: pace_spec_def pace_ok_def canonical_reads split: option.splits sum.splits)

lemma check_field_Inr: "check_field b k v = Inr x \<longleftrightarrow> b \<and> x = v"
  by (auto simp: check_field_def)

lemma open_prs_ok: "open_prs_limit v = Inr n \<Longrightarrow> 1 \<le> n"
  by (auto simp: open_prs_limit_def split: json.splits pynum.splits if_splits)

lemma accepted_ok:
  assumes "from_dict v = Inr s"
  shows "spec_ok s"
proof -
  obtain d where "v = JObj d" "list_all (\<lambda>(k, _). k \<in> set worker_keys) d"
    using assms by (cases v) (auto simp: from_dict_def split: if_split_asm)
  with assms show ?thesis unfolding from_dict_def
    by (simp only: json.case not_True_eq_False if_False)
      (elim ebind_Inr_E, frule check_spec_id, simp only: check_field_Inr, elim conjE, hypsubst,
        simp only: spec_ok_def wspec.simps, intro conjI,
        (blast dest: open_prs_ok pace_spec_ok env_pairs_ok | assumption)+)
qed

text \<open>An empty key file counts as none, and is not written.\<close>

definition normal :: "wspec \<Rightarrow> wspec" where
  "normal s = (if some_text (ws_key_file s) then s else s\<lparr>ws_key_file := None\<rparr>)"

lemma if_Inl: "(if b then Inl e else r) = Inr x \<longleftrightarrow> \<not> b \<and> r = Inr x"
  by simp

lemma check_spec_iff:
  "check_spec s = Inr s' \<longleftrightarrow> \<not> (ws_account s \<noteq> None \<and> \<not> account_ok (the (ws_account s)))
     \<and> \<not> (ws_source s \<noteq> None \<and> (''roadmap'' \<notin> set (ws_only s) \<or> \<not> some_text (ws_roadmap_only s)))
     \<and> \<not> ((some_text (ws_author_model s) \<or> some_text (ws_author_effort s)) \<and> ws_agent s = ''auto'')
     \<and> ws_billing s \<in> {''subscription'', ''api''}
     \<and> \<not> (ws_billing s = ''api'' \<and> (ws_agent s \<noteq> ''claude'' \<or> ws_ignore_quota s \<or> ws_auto_refresh s \<or> some_text (ws_pace s)))
     \<and> \<not> (ws_billing s \<noteq> ''api'' \<and> (ws_budget s \<or> some_text (ws_key_file s)))
     \<and> \<not> audit_problem (ws_only s) (ws_agent s) (some_text (ws_author_model s) \<or> some_text (ws_author_effort s)) (ws_billing s = ''api'')
     \<and> s = s'"
  unfolding check_spec_def if_Inl not_not sum.inject by (rule refl)

lemma normal_fields:
  "some_text (ws_key_file (normal s)) = some_text (ws_key_file s)" "ws_account (normal s) = ws_account s"
  "ws_source (normal s) = ws_source s" "ws_only (normal s) = ws_only s" "ws_roadmap_only (normal s) = ws_roadmap_only s"
  "ws_author_model (normal s) = ws_author_model s" "ws_author_effort (normal s) = ws_author_effort s"
  "ws_agent (normal s) = ws_agent s" "ws_billing (normal s) = ws_billing s" "ws_ignore_quota (normal s) = ws_ignore_quota s"
  "ws_auto_refresh (normal s) = ws_auto_refresh s" "ws_pace (normal s) = ws_pace s" "ws_budget (normal s) = ws_budget s"
  by (simp_all add: normal_def some_text_def)

lemma check_normal: "check_spec s = Inr s \<Longrightarrow> check_spec (normal s) = Inr (normal s)"
  unfolding check_spec_iff normal_fields by blast

lemma written_accepted: "spec_ok s \<Longrightarrow> from_dict (JObj (as_dict s)) = Inr (normal s)"
proof -
  assume ok: "spec_ok s"
  have key: "opt_string k (if some_text (ws_key_file s) then jopt (ws_key_file s) else JNull) = Inr (ws_key_file (normal s))" for k
    by (simp add: canonical_reads normal_def)
  have same: "\<lparr>ws_id = ws_id s, ws_conf = ws_conf s, ws_max_open_prs = ws_max_open_prs s, ws_state_url = ws_state_url s,
      ws_state_token = ws_state_token s, ws_account = ws_account s, ws_enabled = ws_enabled s, ws_agent = ws_agent s,
      ws_only = ws_only s, ws_sandbox = ws_sandbox s, ws_ignore_quota = ws_ignore_quota s, ws_auto_refresh = ws_auto_refresh s,
      ws_billing = ws_billing s, ws_budget = ws_budget s, ws_key_file = ws_key_file (normal s), ws_roadmap_only = ws_roadmap_only s,
      ws_roadmap_skip = ws_roadmap_skip s, ws_identities = ws_identities s, ws_respect_claims = ws_respect_claims s,
      ws_source = ws_source s, ws_author_model = ws_author_model s, ws_author_effort = ws_author_effort s, ws_pace = ws_pace s,
      ws_stream = ws_stream s, ws_isolate = ws_isolate s, ws_restart = ws_restart s, ws_env = ws_env s\<rparr> = normal s"
    by (simp add: normal_def)
  have lim: "open_prs_limit (JNum (PInt (ws_max_open_prs s))) = Inr (ws_max_open_prs s)"
    using ok by (simp add: open_prs_limit_def spec_ok_def)
  have chk: "check_spec (normal s) = Inr (normal s)" using ok check_normal by (simp add: spec_ok_def)
  have fields: "check_field (worker_id_ok (ws_id s)) k i = Inr i" "check_field (ws_agent s \<in> set agents) k i = Inr i"
      "check_field (list_all (\<lambda>t. t \<in> set work_tasks) (ws_only s)) k l = Inr l"
      "check_field (ws_sandbox s \<in> {''host'', ''bubble''}) k i = Inr i"
      "check_field (restart_of (restart_name (ws_restart s)) \<noteq> None) k (the (restart_of (restart_name (ws_restart s)))) = Inr (ws_restart s)"
    for k i l using ok by (simp_all add: spec_ok_def check_field_def)
  have tables: "pace_spec k (jopt (ws_pace s)) = Inr (ws_pace s)"
      "env_pairs k (JObj (map (\<lambda>(n, v). (n, JStr v)) (ws_env s))) = Inr (ws_env s)" for k
    using ok by (simp_all add: spec_ok_def pace_spec_written env_pairs_written)
  show ?thesis
    by (simp only: from_dict_def json.case written_keys not_True_eq_False if_False as_dict_fields as_dict_texts as_dict_flags
        canonical_reads key lim fields tables ebind.simps same chk)
qed

lemma as_dict_normal: "as_dict (normal s) = as_dict s"
  by (auto simp: as_dict_def spec_entries_def normal_def some_text_def)

lemma normal_simps [simp]: "ws_id (normal s) = ws_id s" "ws_enabled (normal s) = ws_enabled s"
    "normal (normal s) = normal s" "normal (s\<lparr>ws_enabled := en\<rparr>) = (normal s)\<lparr>ws_enabled := en\<rparr>"
  by (simp_all add: normal_def some_text_def)

lemma enabled_ok: "spec_ok s \<Longrightarrow> spec_ok (s\<lparr>ws_enabled := en\<rparr>)"
  unfolding spec_ok_def check_spec_iff by simp



section \<open>The configuration file\<close>

lemma from_dicts_ok: "from_dicts vs = Inr ss \<Longrightarrow> list_all spec_ok ss"
  by (induction vs arbitrary: ss) (auto simp: ebind_Inr_iff dest: accepted_ok)

lemma from_dicts_written: "list_all spec_ok ss \<Longrightarrow> from_dicts (map (\<lambda>s. JObj (as_dict s)) ss) = Inr (map normal ss)"
  by (induction ss) (simp_all add: written_accepted)

lemma load_ok: "load_worker_specs v = Inr ss \<Longrightarrow> list_all spec_ok ss \<and> distinct (map ws_id ss)"
  using from_dicts_ok
  by (auto simp: load_worker_specs_def ebind_Inr_iff split: json.splits if_splits)

lemma load_written:
  assumes "list_all spec_ok ss" and "distinct (map ws_id ss)"
  shows "load_worker_specs (written_specs ss) = Inr (map normal ss)"
proof -
  have "ws_id \<circ> normal = ws_id" by (simp add: fun_eq_iff)
  then show ?thesis
    using from_dicts_written [OF assms(1)] assms(2)
    by (cases ss) (simp_all add: load_worker_specs_def written_specs_def field_def jget0_def)
qed

text \<open>
  editing one worker leaves the others alone. After \<open>enable\<close>, \<open>disable\<close> or \<open>remove\<close> of one worker, the written
  file is accepted, every other worker keeps its place and its generation, and the edited one differs from what it
  was in its desired state alone.
\<close>

theorem editing_one_leaves_others:
  assumes "load_worker_specs v = Inr ss"
  shows "(\<forall>ss'. mutate_enabled wid en ss = Inr ss' \<longrightarrow>
           (\<exists>new. load_worker_specs (written_specs ss') = Inr new \<and> length new = length ss
             \<and> (\<forall>i<length ss. ws_id (new ! i) = ws_id (ss ! i)
                  \<and> (ws_id (ss ! i) \<noteq> wid \<longrightarrow> fingerprint h (new ! i) = fingerprint h (ss ! i))
                  \<and> (ws_id (ss ! i) = wid \<longrightarrow> fingerprint h (new ! i) = fingerprint h ((ss ! i)\<lparr>ws_enabled := en\<rparr>)))))
    \<and> (\<forall>ss'. remove_spec wid ss = Inr ss' \<longrightarrow>
           (\<exists>new. load_worker_specs (written_specs ss') = Inr new \<and> wid \<notin> ws_id ` set new
             \<and> map (fingerprint h) new = map (fingerprint h) (filter (\<lambda>s. ws_id s \<noteq> wid) ss)))"
proof (intro conjI allI impI)
  have ok: "list_all spec_ok ss" "distinct (map ws_id ss)" using load_ok [OF assms] by auto
  fix ss'
  {
    assume "mutate_enabled wid en ss = Inr ss'"
    then have ss': "ss' = map (\<lambda>s. if ws_id s = wid then s\<lparr>ws_enabled := en\<rparr> else s) ss"
      by (auto simp: mutate_enabled_def split: if_splits)
    have "list_all spec_ok ss'" using ok(1) enabled_ok by (auto simp: ss' list_all_iff)
    moreover have "map ws_id ss' = map ws_id ss" by (simp add: ss')
    ultimately have "load_worker_specs (written_specs ss') = Inr (map normal ss')" using load_written ok(2) by metis
    then show "\<exists>new. load_worker_specs (written_specs ss') = Inr new \<and> length new = length ss
             \<and> (\<forall>i<length ss. ws_id (new ! i) = ws_id (ss ! i)
                  \<and> (ws_id (ss ! i) \<noteq> wid \<longrightarrow> fingerprint h (new ! i) = fingerprint h (ss ! i))
                  \<and> (ws_id (ss ! i) = wid \<longrightarrow> fingerprint h (new ! i) = fingerprint h ((ss ! i)\<lparr>ws_enabled := en\<rparr>)))"
      by (intro exI [of _ "map normal ss'"]) (simp add: ss' fingerprint_def as_dict_normal del: normal_simps(4))
  }
  assume "remove_spec wid ss = Inr ss'"
  then have ss': "ss' = filter (\<lambda>s. ws_id s \<noteq> wid) ss" by (auto simp: remove_spec_def split: if_splits)
  have "list_all spec_ok ss'" "distinct (map ws_id ss')"
    using ok by (auto simp: ss' list_all_iff distinct_map_filter)
  then have "load_worker_specs (written_specs ss') = Inr (map normal ss')" by (rule load_written)
  then show "\<exists>new. load_worker_specs (written_specs ss') = Inr new \<and> wid \<notin> ws_id ` set new
             \<and> map (fingerprint h) new = map (fingerprint h) (filter (\<lambda>s. ws_id s \<noteq> wid) ss)"
    by (intro exI [of _ "map normal ss'"]) (auto simp: ss' fingerprint_def as_dict_normal)
qed

section \<open>A concrete file\<close>

definition sample_raw :: json where
  "sample_raw = JObj [(''id'', JStr ''reviewer''), (''only'', JArr [JStr ''review'']),
     (''env'', JObj [(''B'', JStr ''2''), (''A'', JStr ''1'')])]"

definition sample_spec :: wspec where
  "sample_spec = \<lparr>ws_id = ''reviewer'', ws_conf = None, ws_max_open_prs = 8, ws_state_url = None, ws_state_token = None,
     ws_account = None, ws_enabled = True, ws_agent = ''auto'', ws_only = [''review''], ws_sandbox = ''host'', ws_ignore_quota = False,
     ws_auto_refresh = False, ws_billing = ''subscription'', ws_budget = False, ws_key_file = None, ws_roadmap_only = None,
     ws_roadmap_skip = [], ws_identities = [], ws_respect_claims = True, ws_source = None, ws_author_model = None,
     ws_author_effort = None, ws_pace = None, ws_stream = False, ws_isolate = False, ws_restart = Always,
     ws_env = [(''A'', ''1''), (''B'', ''2'')]\<rparr>"

lemma sample_accepted: "from_dict sample_raw = Inr sample_spec"
  by (simp add: from_dict_def sample_raw_def worker_keys_def field_def canonical_reads strings_def a_string_def a_bool_def
      opt_string_def check_field_def worker_id_ok_def is_digit_def agents_def work_tasks_def restart_of_def open_prs_limit_def
      default_open_prs_def pace_spec_def env_pairs_def env_name_ok_def ascii_letter_def reserved_env_def env_max_bytes_def
      env_size_def check_spec_def audit_problem_def some_text_def sample_spec_def Let_def)



theorem editing_one_leaves_others_witness:
  "\<exists>new. load_worker_specs (written_specs [sample_spec\<lparr>ws_enabled := False\<rparr>]) = Inr new \<and> length new = 1 \<and> ws_id (new ! 0) = ''reviewer''"
proof -
  have l: "load_worker_specs (JObj [(''version'', JNum (PInt 1)), (''workers'', JArr [sample_raw])]) = Inr [sample_spec]"
    by (simp add: load_worker_specs_def jget0_def field_def sample_accepted)
  have m: "mutate_enabled ''reviewer'' False [sample_spec] = Inr [sample_spec\<lparr>ws_enabled := False\<rparr>]"
    by (simp add: mutate_enabled_def sample_spec_def)
  have i: "ws_id ([sample_spec] ! 0) = ''reviewer''" by (simp add: sample_spec_def)
  show ?thesis using editing_one_leaves_others [OF l, of "''reviewer''" False "\<lambda>_. []"] m i by fastforce
qed

end
