(* ===== verification/ManagerLaws.thy ===== *)
theory ManagerLaws
  imports Manager SpecLaws
begin

text \<open>
  What the manager promises: at most one runner for each worker, a live runner is stopped only for a cause,
  an exit policy holds until an explicit request, failures back off, an unreadable configuration changes
  nothing, and the fleet converges to its configuration.
\<close>

section \<open>One worker\<close>

definition should_run :: "(string \<rightharpoonup> wspec) \<Rightarrow> string \<Rightarrow> bool" where
  "should_run want wid = (case want wid of None \<Rightarrow> False | Some s \<Rightarrow> ws_enabled s)"

text \<open>Why a live runner may be stopped.\<close>

definition stop_cause :: "(jdict \<Rightarrow> string) \<Rightarrow> (string \<rightharpoonup> wspec) \<Rightarrow> string \<Rightarrow> seen \<Rightarrow> manager \<Rightarrow> bool" where
  "stop_cause h want wid x m \<longleftrightarrow> \<not> should_run want wid \<or> wid \<in> mg_restart m
     \<or> (\<exists>s. want wid = Some s \<and> rs_hash (se_live x) \<noteq> Some (fingerprint h s) \<and> \<not> defer_reload h s x)"

definition may_launch :: "(jdict \<Rightarrow> string) \<Rightarrow> wspec \<Rightarrow> seen \<Rightarrow> manager \<Rightarrow> bool" where
  "may_launch h s x m \<longleftrightarrow> ws_id s \<in> mg_restart m \<or> ws_id s \<in> mg_enable m
     \<or> \<not> policy_holds h s (mg_outcomes m (ws_id s)) (se_prior x) \<and> earliest h s (mg_failures m (ws_id s)) (se_prior x) \<le> se_now x"

text \<open>A step that launches nothing keeps everything but the requests and failures of its own worker.\<close>

definition quiet_step :: "string \<Rightarrow> manager \<Rightarrow> manager \<Rightarrow> bool" where
  "quiet_step wid m m' \<longleftrightarrow> mg_children m' = mg_children m \<and> mg_outcomes m' = mg_outcomes m \<and> mg_restart m' = mg_restart m
     \<and> mg_enable m' \<in> {mg_enable m, mg_enable m - {wid}} \<and> mg_failures m' \<in> {mg_failures m, (mg_failures m)(wid := None)}
     \<and> mg_good m' = mg_good m \<and> mg_exiting m' = mg_exiting m"

lemma wanted_id: "wanted specs wid = Some s \<Longrightarrow> ws_id s = wid \<and> s \<in> set specs"
  by (auto simp: wanted_def dest!: map_of_SomeD)

lemma reconcile_one_cases:
  assumes "reconcile_one h (wanted specs) wid x m = (m', acts)"
  shows "(\<exists>s. (wanted specs) wid = Some s \<and> ws_enabled s \<and> \<not> rs_alive (se_live x) \<and> mg_children m wid = None \<and> may_launch h s x m
            \<and> m' = launch h s (se_pid x) m \<and> acts = [Launch s])
    \<or> quiet_step wid m m' \<and> (\<forall>a\<in>set acts. (\<forall>s. a \<noteq> Launch s)
         \<and> (\<forall>w. a = StopRunner w \<longrightarrow> w = wid \<and> rs_alive (se_live x) \<and> stop_cause h (wanted specs) wid x m))"
proof -
  define sr where "sr = should_run (wanted specs) wid"
  define al where "al = rs_alive (se_live x)"
  define changed where "changed = (al \<and> (case (wanted specs) wid of None \<Rightarrow> False | Some s \<Rightarrow> rs_hash (se_live x) \<noteq> Some (fingerprint h s)))"
  define m1 where "m1 = (if al \<or> \<not> sr then m\<lparr>mg_enable := mg_enable m - {wid}\<rparr> else m)"
  define healthy where "healthy = (al \<and> \<not> changed \<and> rs_restarts (se_live x) \<noteq> 0
     \<and> 300 \<le> se_now x - (case rs_started (se_live x) of None \<Rightarrow> se_now x | Some t \<Rightarrow> if t = 0 then se_now x else t))"
  define m2 where "m2 = (if healthy then m1\<lparr>mg_failures := (mg_failures m1)(wid := None)\<rparr> else m1)"
  define a0 where "a0 = (if healthy then [ResetCount wid] else [])"
  define dfr where "dfr = (changed \<and> sr \<and> wid \<notin> mg_restart m1 \<and> defer_reload h (the ((wanted specs) wid)) x)"
  define stp where "stp = (al \<and> (\<not> sr \<or> changed \<or> wid \<in> mg_restart m2))"
  have eq: "(m', acts) = (if dfr
      then (m1, [PendingPolicy wid (fingerprint h (the ((wanted specs) wid)))])
      else if stp then (m2, a0 @ [StopRunner wid])
      else if al \<or> \<not> sr \<or> mg_children m2 wid \<noteq> None
      then (m2, a0 @ (if \<not> al \<and> (wanted specs) wid = None \<and> rs_managed (se_live x) then [Forget wid] else []))
      else (let s = the ((wanted specs) wid); forced = (wid \<in> mg_restart m2 \<or> wid \<in> mg_enable m2)
            in if \<not> forced \<and> policy_holds h s (mg_outcomes m2 wid) (se_prior x) then (m2, a0)
               else if \<not> forced \<and> se_now x < earliest h s (mg_failures m2 wid) (se_prior x) then (m2, a0)
               else (launch h s (se_pid x) m2, a0 @ [Launch s])))"
    unfolding assms(1) [symmetric] reconcile_one_def m1_def m2_def a0_def healthy_def dfr_def stp_def changed_def al_def sr_def should_run_def
    by (simp only: Let_def)
  have q1: "quiet_step wid m m1" and q2: "quiet_step wid m m2"
    by (simp_all add: quiet_step_def m1_def m2_def)
  have r1: "mg_restart m1 = mg_restart m" "mg_restart m2 = mg_restart m" by (simp_all add: m1_def m2_def)
  have a0: "\<forall>a\<in>set a0. (\<forall>s. a \<noteq> Launch s) \<and> (\<forall>w. a \<noteq> StopRunner w)" by (simp add: a0_def)
  consider (busy) "dfr" | (stop) "\<not> dfr" "stp" | (keep) "\<not> dfr" "\<not> stp" "al \<or> \<not> sr \<or> mg_children m2 wid \<noteq> None"
    | (down) "\<not> dfr" "\<not> stp" "\<not> al" "sr" "mg_children m2 wid = None" by blast
  then show ?thesis
  proof cases
    case busy
    then have "m' = m1" "acts = [PendingPolicy wid (fingerprint h (the ((wanted specs) wid)))]" using eq by simp_all
    then show ?thesis using q1 by simp
  next
    case stop
    then have e: "m' = m2" "acts = a0 @ [StopRunner wid]" using eq by simp_all
    have "stop_cause h (wanted specs) wid x m"
      using stop r1 by (auto simp: dfr_def stp_def stop_cause_def sr_def changed_def split: option.splits)
    then show ?thesis using q2 a0 e stop(2) by (auto simp: al_def stp_def)
  next
    case keep
    then have e: "m' = m2" "acts = a0 @ (if \<not> al \<and> (wanted specs) wid = None \<and> rs_managed (se_live x) then [Forget wid] else [])"
      using eq by simp_all
    then show ?thesis using q2 a0 by auto
  next
    case down
    then have m2: "m2 = m" "a0 = []" by (auto simp: m2_def m1_def healthy_def a0_def)
    obtain s where s: "(wanted specs) wid = Some s" "ws_enabled s" using down(4) by (auto simp: sr_def should_run_def split: option.splits)
    then have "ws_id s = wid" using wanted_id by blast
    then show ?thesis using eq down s m2 quiet_step_def [of wid m m]
      by (auto simp: al_def may_launch_def Let_def split: if_splits)
  qed
qed

section \<open>Balance of launches\<close>

definition launches :: "string \<Rightarrow> action list \<Rightarrow> nat" where
  "launches w acts = length (filter (\<lambda>a. case a of Launch s \<Rightarrow> ws_id s = w | _ \<Rightarrow> False) acts)"

lemma launches_simps [simp]:
  "launches w [] = 0" "launches w (a # acts) = (case a of Launch s \<Rightarrow> of_bool (ws_id s = w) | _ \<Rightarrow> 0) + launches w acts"
  "launches w (acts @ acts') = launches w acts + launches w acts'"
  by (auto simp: launches_def split: action.split)

lemma launches_none: "(\<And>a s. a \<in> set acts \<Longrightarrow> a \<noteq> Launch s) \<Longrightarrow> launches w acts = 0"
  by (auto simp: launches_def filter_empty_conv split: action.split)

definition running :: "manager \<Rightarrow> string \<Rightarrow> nat" where
  "running m w = of_bool (mg_children m w \<noteq> None)"

lemma handle_keeps: "mg_children (fst (handle r m)) = mg_children m" "mg_good (fst (handle r m)) = mg_good m"
    "mg_restart (fst (handle r m)) = mg_restart m \<union> {w. r = Restart (Some w)}"
    "mg_enable (fst (handle r m)) = mg_enable m \<union> {w. r = Enable (Some w)}"
  by (auto simp: handle_def split: request.split option.split)

lemma serve_keeps: "mg_children (serve req m) = mg_children m" "mg_good (serve req m) = mg_good m"
    "mg_restart (serve req m) = mg_restart m \<union> {w. req = Some (Restart (Some w))}"
    "mg_enable (serve req m) = mg_enable m \<union> {w. req = Some (Enable (Some w))}"
  by (simp_all add: serve_def handle_keeps split: option.split)

lemma reconcile_all_Cons:
  "reconcile_all h (wanted specs) ((wid, req, x) # rest) m =
     (if mg_exiting (serve req m) then (serve req m, [])
      else (let (m2, acts) = reconcile_one h (wanted specs) wid x (serve req m); (m3, acts') = reconcile_all h (wanted specs) rest m2
            in (m3, acts @ acts')))"
  by (simp add: serve_def Let_def)

declare reconcile_all.simps(2) [simp del]
declare reconcile_all_Cons [simp]

lemma one_balance:
  assumes "reconcile_one h (wanted specs) wid x m = (m', acts)"
  shows "running m' w = running m w + launches w acts"
  using reconcile_one_cases [OF assms]
proof
  assume "\<exists>s. (wanted specs) wid = Some s \<and> ws_enabled s \<and> \<not> rs_alive (se_live x) \<and> mg_children m wid = None \<and> may_launch h s x m
            \<and> m' = launch h s (se_pid x) m \<and> acts = [Launch s]"
  then show ?thesis using wanted_id by (fastforce simp: running_def launch_def Let_def split: if_split_asm)
next
  assume q: "quiet_step wid m m' \<and> (\<forall>a\<in>set acts. (\<forall>s. a \<noteq> Launch s)
         \<and> (\<forall>w. a = StopRunner w \<longrightarrow> w = wid \<and> rs_alive (se_live x) \<and> stop_cause h (wanted specs) wid x m))"
  then have "launches w acts = 0" by (intro launches_none) blast
  then show ?thesis using q by (simp add: running_def quiet_step_def)
qed

lemma all_balance:
  shows "reconcile_all h (wanted specs) l m = (m', acts) \<Longrightarrow> running m' w = running m w + launches w acts"
proof (induction l arbitrary: m m' acts)
  case Nil
  then show ?case by simp
next
  case (Cons i rest)
  obtain wid req x where i: "i = (wid, req, x)" by (cases i) auto
  have s: "running (serve req m) w = running m w" by (simp add: running_def serve_keeps)
  show ?case
  proof (cases "mg_exiting (serve req m)")
    case True
    then show ?thesis using Cons.prems i s by simp
  next
    case False
    obtain m2 a1 where o: "reconcile_one h (wanted specs) wid x (serve req m) = (m2, a1)" by fastforce
    obtain m3 a2 where r: "reconcile_all h (wanted specs) rest m2 = (m3, a2)" by fastforce
    have "m' = m3" "acts = a1 @ a2" using Cons.prems i o r False by simp_all
    then show ?thesis using one_balance [OF o] Cons.IH [OF r] s by simp
  qed
qed

text \<open>The configuration a cycle works with, if there is one.\<close>

definition specs_of :: "inputs \<Rightarrow> manager \<Rightarrow> wspec list option" where
  "specs_of i m = (case in_config i of Inr ss \<Rightarrow> Some ss | Inl _ \<Rightarrow> mg_good m)"

definition active :: "inputs \<Rightarrow> manager \<Rightarrow> bool" where
  "active i m \<longleftrightarrow> \<not> mg_exiting m \<and> specs_of i m \<noteq> None"

lemma cycle_active:
  assumes "specs_of i m = Some specs" and "\<not> mg_exiting m"
  shows "cycle h i m = (let (m1, acts) = reconcile_all h (wanted specs) (in_workers i)
            (reap h (wanted specs) (in_exits i) (m\<lparr>mg_good := Some specs\<rparr>)) in (serve (in_request i) m1, acts))"
  using assms by (auto simp: cycle_def specs_of_def Let_def split: sum.splits option.splits)

lemma cycle_inactive: "\<not> active i m \<Longrightarrow> cycle h i m = (if mg_exiting m then m else serve (in_request i) m, [])"
  by (auto simp: cycle_def specs_of_def active_def split: sum.splits option.splits)

definition reaped :: "inputs \<Rightarrow> manager \<Rightarrow> string \<Rightarrow> nat" where
  "reaped i m w = of_bool (active i m \<and> mg_children m w \<noteq> None \<and> in_exits i w \<noteq> None)"

lemma cycle_balance:
  assumes "cycle h i m = (m', acts)"
  shows "running m' w + reaped i m w = running m w + launches w acts"
proof (cases "active i m")
  case False
  then show ?thesis using assms cycle_inactive [OF False, of h]
    by (auto simp: reaped_def running_def serve_keeps split: if_splits)
next
  case True
  then obtain specs where sp: "specs_of i m = Some specs" "\<not> mg_exiting m" by (auto simp: active_def)
  let ?m0 = "reap h (wanted specs) (in_exits i) (m\<lparr>mg_good := Some specs\<rparr>)"
  obtain m1 where r: "reconcile_all h (wanted specs) (in_workers i) ?m0 = (m1, acts)" "m' = serve (in_request i) m1"
    using assms cycle_active [OF sp, of h] by (auto split: prod.splits)
  have "running ?m0 w + reaped i m w = running m w" using True by (auto simp: running_def reaped_def reap_def)
  moreover have "running m1 w = running ?m0 w + launches w acts"
    by (rule all_balance [OF r(1)])
  ultimately show ?thesis using r(2) by (simp add: running_def serve_keeps)
qed

text \<open>The children of \<open>w\<close> reaped over a run.\<close>

fun reaped_in :: "(jdict \<Rightarrow> string) \<Rightarrow> inputs list \<Rightarrow> manager \<Rightarrow> string \<Rightarrow> nat" where
  "reaped_in h [] m w = 0"
| "reaped_in h (i # rest) m w = reaped i m w + reaped_in h rest (fst (cycle h i m)) w"

text \<open>
  C31: one runner for each worker. Whatever the configurations, the requests and the observations, over any run of the
  manager every wrapper it launched for a worker was reaped before the next one was launched: the launches of a worker
  are its reaped wrappers and the one recorded as running, so never two.
\<close>

theorem launches_balance:
  assumes "cycles h is new_manager = (m', all)"
  shows "launches w (concat all) = reaped_in h is new_manager w + of_bool (mg_children m' w \<noteq> None)"
proof -
  have "running m' w + reaped_in h is m w = running m w + launches w (concat all)" if "cycles h is m = (m', all)" for m
    using that
  proof (induction "is" arbitrary: m all)
    case Nil
    then show ?case by simp
  next
    case (Cons i rest)
    obtain m1 acts where c: "cycle h i m = (m1, acts)" by fastforce
    obtain all' where r: "cycles h rest m1 = (m', all')" "all = acts # all'" using Cons.prems c by (auto split: prod.splits)
    show ?case using Cons.IH [OF r(1)] cycle_balance [OF c, of w] c r(2) by simp
  qed
  from this [OF assms] show ?thesis by (simp add: running_def new_manager_def)
qed

section \<open>Causes\<close>

text \<open>Every action of a pass comes from one worker, on a state whose restart requests were made before it.\<close>

lemma reconcile_all_mem:
  assumes "a \<in> set acts"
  shows "reconcile_all h (wanted specs) l m = (m', acts) \<Longrightarrow> mg_restart m \<subseteq> R \<Longrightarrow> (\<forall>w. Some (Restart (Some w)) \<in> fst ` snd ` set l \<longrightarrow> w \<in> R)
    \<Longrightarrow> \<exists>wid req x m1 m2 acts1. (wid, req, x) \<in> set l \<and> mg_restart m1 \<subseteq> R \<and> reconcile_one h (wanted specs) wid x m1 = (m2, acts1)
          \<and> a \<in> set acts1"
  using assms
proof (induction l arbitrary: m m' acts)
  case Nil
  then show ?case by simp
next
  case (Cons i rest)
  obtain wid req x where i: "i = (wid, req, x)" by (cases i) auto
  have act: "\<not> mg_exiting (serve req m)" using Cons.prems(1,4) i by (auto split: if_splits)
  obtain m2 a1 where o: "reconcile_one h (wanted specs) wid x (serve req m) = (m2, a1)" by fastforce
  obtain m3 a2 where r: "reconcile_all h (wanted specs) rest m2 = (m3, a2)" by fastforce
  have acts: "acts = a1 @ a2" using Cons.prems(1) i o r act by simp
  have R1: "mg_restart (serve req m) \<subseteq> R" using Cons.prems(2,3) i by (auto simp: serve_keeps)
  have "mg_restart m2 \<subseteq> mg_restart (serve req m)"
    using reconcile_one_cases [OF o] by (auto simp: quiet_step_def launch_def Let_def)
  then have R2: "mg_restart m2 \<subseteq> R" using R1 by blast
  show ?case
  proof (cases "a \<in> set a1")
    case True
    then show ?thesis using o R1 i by fastforce
  next
    case False
    then have "a \<in> set a2" using Cons.prems(4) acts by simp
    from Cons.IH [OF r R2 _ this] Cons.prems(3) show ?thesis by fastforce
  qed
qed

definition restart_asked :: "inputs \<Rightarrow> manager \<Rightarrow> string set" where
  "restart_asked i m = mg_restart m \<union> {w. Some (Restart (Some w)) \<in> fst ` snd ` set (in_workers i)}"

lemma cycle_mem:
  assumes "cycle h i m = (m', acts)" and "a \<in> set acts"
  shows "\<exists>specs wid req x m1 m2 acts1. specs_of i m = Some specs \<and> (wid, req, x) \<in> set (in_workers i)
    \<and> mg_restart m1 \<subseteq> restart_asked i m \<and> reconcile_one h (wanted specs) wid x m1 = (m2, acts1) \<and> a \<in> set acts1"
proof -
  have "active i m" using assms cycle_inactive [of i m h] by (cases "active i m") auto
  then obtain specs where sp: "specs_of i m = Some specs" "\<not> mg_exiting m" by (auto simp: active_def)
  let ?m0 = "reap h (wanted specs) (in_exits i) (m\<lparr>mg_good := Some specs\<rparr>)"
  obtain m1 where r: "reconcile_all h (wanted specs) (in_workers i) ?m0 = (m1, acts)"
    using assms(1) cycle_active [OF sp, of h] by (auto split: prod.splits)
  have R: "mg_restart ?m0 \<subseteq> restart_asked i m" by (simp add: reap_def restart_asked_def)
  have asked: "\<forall>w. Some (Restart (Some w)) \<in> fst ` snd ` set (in_workers i) \<longrightarrow> w \<in> restart_asked i m"
    by (simp add: restart_asked_def)
  from reconcile_all_mem [OF assms(2) r R asked] sp(1) show ?thesis by blast
qed


section \<open>Exit policies\<close>

text \<open>A worker that exited under a policy that keeps it down, with no request pending for it.\<close>

definition held_down :: "string \<Rightarrow> string \<Rightarrow> int \<Rightarrow> manager \<Rightarrow> bool" where
  "held_down w g rc m \<longleftrightarrow> mg_outcomes m w = Some (g, rc) \<and> mg_children m w = None \<and> w \<notin> mg_restart m \<and> w \<notin> mg_enable m"

definition about :: "string \<Rightarrow> request option \<Rightarrow> bool" where
  "about w req \<longleftrightarrow> req = Some (Restart (Some w)) \<or> req = Some (Enable (Some w))"

definition keeps_down :: "(jdict \<Rightarrow> string) \<Rightarrow> string \<Rightarrow> string \<Rightarrow> int \<Rightarrow> wspec list \<Rightarrow> bool" where
  "keeps_down h w g rc specs \<longleftrightarrow> (\<forall>s. wanted specs w = Some s \<and> ws_enabled s \<longrightarrow>
     fingerprint h s = g \<and> (ws_restart s = Never \<or> ws_restart s = OnFailure \<and> rc = 0))"

lemma held_serve: "held_down w g rc m \<Longrightarrow> \<not> about w req \<Longrightarrow> held_down w g rc (serve req m)"
  by (auto simp: held_down_def about_def serve_keeps)
    (auto simp: serve_def handle_def split: option.splits request.splits)

lemma held_one:
  assumes "held_down w g rc m" and "keeps_down h w g rc specs" and "reconcile_one h (wanted specs) wid x m = (m', acts)"
  shows "held_down w g rc m' \<and> launches w acts = 0"
  using reconcile_one_cases [OF assms(3)]
proof
  assume "\<exists>s. wanted specs wid = Some s \<and> ws_enabled s \<and> \<not> rs_alive (se_live x) \<and> mg_children m wid = None
            \<and> may_launch h s x m \<and> m' = launch h s (se_pid x) m \<and> acts = [Launch s]"
  then obtain s where s: "wanted specs wid = Some s" "ws_enabled s" "may_launch h s x m" "m' = launch h s (se_pid x) m" "acts = [Launch s]"
    by blast
  have "wid \<noteq> w"
  proof
    assume "wid = w"
    then have "fingerprint h s = g" "ws_restart s = Never \<or> ws_restart s = OnFailure \<and> rc = 0" "ws_id s = w"
      using assms(2) s wanted_id by (auto simp: keeps_down_def)
    then show False using s(3) assms(1) by (auto simp: may_launch_def policy_holds_def held_down_def)
  qed
  then show ?thesis using assms(1) s wanted_id by (auto simp: held_down_def launch_def Let_def)
next
  assume q: "quiet_step wid m m' \<and> (\<forall>a\<in>set acts. (\<forall>s. a \<noteq> Launch s)
         \<and> (\<forall>w. a = StopRunner w \<longrightarrow> w = wid \<and> rs_alive (se_live x) \<and> stop_cause h (wanted specs) wid x m))"
  then have "launches w acts = 0" by (intro launches_none) blast
  then show ?thesis using q assms(1) by (auto simp: held_down_def quiet_step_def)
qed

lemma held_all:
  assumes "keeps_down h w g rc specs"
  shows "held_down w g rc m \<Longrightarrow> reconcile_all h (wanted specs) l m = (m', acts) \<Longrightarrow> \<forall>(_, req, _)\<in>set l. \<not> about w req
    \<Longrightarrow> held_down w g rc m' \<and> launches w acts = 0"
proof (induction l arbitrary: m m' acts)
  case Nil
  then show ?case by simp
next
  case (Cons i rest)
  obtain wid req x where i: "i = (wid, req, x)" by (cases i) auto
  have s: "held_down w g rc (serve req m)" using held_serve Cons.prems(1,3) i by simp
  show ?case
  proof (cases "mg_exiting (serve req m)")
    case True
    then show ?thesis using Cons.prems(2) i s by simp
  next
    case False
    obtain m2 a1 where o: "reconcile_one h (wanted specs) wid x (serve req m) = (m2, a1)" by fastforce
    obtain m3 a2 where r: "reconcile_all h (wanted specs) rest m2 = (m3, a2)" by fastforce
    have "m' = m3" "acts = a1 @ a2" using Cons.prems(2) i o r False by simp_all
    then show ?thesis using held_one [OF s assms o] Cons.IH [OF _ r] Cons.prems(3) by auto
  qed
qed

definition silent :: "string \<Rightarrow> inputs \<Rightarrow> bool" where
  "silent w i \<longleftrightarrow> \<not> about w (in_request i) \<and> (\<forall>(_, req, _)\<in>set (in_workers i). \<not> about w req)"

lemma all_keeps_good:
  shows "reconcile_all h (wanted specs) l q = (q', acts) \<Longrightarrow> mg_good q' = mg_good q"
proof (induction l arbitrary: q acts)
  case (Cons i rest)
  obtain wid req x where i: "i = (wid, req, x)" by (cases i) auto
  show ?case
  proof (cases "mg_exiting (serve req q)")
    case True
    then show ?thesis using Cons.prems i by (auto simp: serve_keeps)
  next
    case False
    obtain m2 a1 where o: "reconcile_one h (wanted specs) wid x (serve req q) = (m2, a1)" by fastforce
    have "mg_good m2 = mg_good (serve req q)"
      using reconcile_one_cases [OF o] by (auto simp: quiet_step_def launch_def Let_def)
    then show ?thesis using Cons i o False by (auto simp: serve_keeps split: prod.splits)
  qed
qed simp

lemma held_cycle:
  assumes "held_down w g rc m" and "\<forall>specs. specs_of i m = Some specs \<longrightarrow> keeps_down h w g rc specs" and "silent w i"
    and "cycle h i m = (m', acts)"
  shows "held_down w g rc m' \<and> launches w acts = 0 \<and> (mg_good m' = mg_good m \<or> mg_good m' = specs_of i m)"
proof (cases "active i m")
  case False
  then show ?thesis using assms cycle_inactive [OF False, of h] held_serve [of w g rc m "in_request i"]
    by (auto simp: silent_def serve_keeps split: if_splits)
next
  case True
  then obtain specs where sp: "specs_of i m = Some specs" "\<not> mg_exiting m" by (auto simp: active_def)
  let ?m0 = "reap h (wanted specs) (in_exits i) (m\<lparr>mg_good := Some specs\<rparr>)"
  obtain m1 where r: "reconcile_all h (wanted specs) (in_workers i) ?m0 = (m1, acts)" "m' = serve (in_request i) m1"
    using assms(4) cycle_active [OF sp, of h] by (auto split: prod.splits)
  have "held_down w g rc ?m0" using assms(1) by (simp add: held_down_def reap_def)
  moreover have "mg_good m1 = Some specs"
    using all_keeps_good [OF r(1)] by (simp add: reap_def)
  moreover have "keeps_down h w g rc specs" "\<forall>(_, req, _)\<in>set (in_workers i). \<not> about w req"
    using assms(2,3) sp by (auto simp: silent_def)
  ultimately show ?thesis using held_all [OF _ _ r(1)] held_serve r(2) assms(3) sp(1)
    by (simp add: silent_def serve_keeps)
qed


section \<open>Failures and broken configurations\<close>

lemma retry_delay_bounds: "5 \<le> retry_delay k" "retry_delay k \<le> 300"
proof -
  have "(1::rat) \<le> 2 ^ min k 6" by (rule one_le_power) simp
  then show "5 \<le> retry_delay k" "retry_delay k \<le> 300" by (simp_all add: retry_delay_def)
qed

text \<open>
  wrappers that die at once back off. When a wrapper exits with an error before it has published its end, the
  next launch of that generation waits 5, 10, 20, 40, 80, 160 and then 300 seconds, by the number of
  such failures in a row, unless a restart or an enable is asked for; a failure of another generation starts the
  count again.
\<close>

theorem dying_wrappers_back_off:
  assumes "mg_children m w = Some (pid, g)" and "ex w = Some (rc, st, now)" and "rc \<noteq> 0" and "\<not> terminal pid st"
    and "wanted specs w = Some s"
  shows "\<exists>n t. mg_failures (reap h (wanted specs) ex m) w = Some (fingerprint h s, n, t)
    \<and> n = (case mg_failures m w of Some (g', k, _) \<Rightarrow> if g' = fingerprint h s then k + 1 else 1 | None \<Rightarrow> 1)
    \<and> t = now + min (5 * 2 ^ min (n - 1) 6) 300 \<and> now + 5 \<le> t \<and> t \<le> now + 300
    \<and> (\<forall>x m' acts s'. se_now x < t \<and> w \<notin> mg_restart m \<and> w \<notin> mg_enable m
          \<and> reconcile_one h (wanted specs) w x (reap h (wanted specs) ex m) = (m', acts) \<longrightarrow> Launch s' \<notin> set acts)"
proof -
  let ?m = "reap h (wanted specs) ex m"
  define n where "n = (case mg_failures m w of Some (g', k, _) \<Rightarrow> if g' = fingerprint h s then k + 1 else 1 | None \<Rightarrow> 1)"
  have f: "mg_failures ?m w = Some (fingerprint h s, n, now + retry_delay (n - 1))"
    using assms by (auto simp: reap_def failure_after_def n_def Let_def)
  have no: "Launch s' \<notin> set acts" if "se_now x < now + retry_delay (n - 1)" "w \<notin> mg_restart m" "w \<notin> mg_enable m"
      "reconcile_one h (wanted specs) w x ?m = (m', acts)" for x m' acts s'
  proof
    assume "Launch s' \<in> set acts"
    with reconcile_one_cases [OF that(4)] have "may_launch h s x ?m" "ws_id s = w"
      using assms(5) wanted_id by auto
    then have "earliest h s (mg_failures ?m w) (se_prior x) \<le> se_now x"
      using that(2,3) by (auto simp: may_launch_def reap_def)
    then show False using f that(1) by (simp add: earliest_def)
  qed
  show ?thesis using f no retry_delay_bounds [of "n - 1"]
    by (intro exI [of _ n] exI [of _ "now + retry_delay (n - 1)"]) (auto simp: n_def [symmetric] retry_delay_def)
qed

text \<open>
  a configuration that does not load changes nothing. With a last good configuration the cycle is the one that
  configuration gives; without one, no worker is stopped or started and no child is forgotten.
\<close>

theorem broken_config_keeps_last_good:
  assumes "in_config i = Inl e"
  shows "(\<forall>ss. mg_good m = Some ss \<longrightarrow> cycle h i m = cycle h (i\<lparr>in_config := Inr ss\<rparr>) m)
    \<and> (mg_good m = None \<longrightarrow> snd (cycle h i m) = [] \<and> mg_children (fst (cycle h i m)) = mg_children m)"
  using assms by (auto simp: cycle_def serve_keeps Let_def split: prod.splits)

section \<open>Convergence\<close>

text \<open>
  A world in which the manager's actions take effect by the next cycle: a stopped runner is gone, a launched one
  holds its lock, and the runners are between rounds. \<open>world\<close> gives the generation of each live runner.
\<close>

definition idle_runner :: "string option \<Rightarrow> rat \<Rightarrow> rstatus" where
  "idle_runner g now = \<lparr>rs_alive = (g \<noteq> None), rs_state = (if g = None then ''stopped'' else ''idle''), rs_hash = g, rs_applied = Some [],
     rs_restarts = 0, rs_started = None, rs_stopped = None, rs_exit = None, rs_wrapper = None, rs_next = Some (now + 60),
     rs_child = None, rs_managed = True\<rparr>"

definition obliging :: "wspec list \<Rightarrow> string list \<Rightarrow> rat \<Rightarrow> manager \<Rightarrow> (string \<Rightarrow> string option) \<Rightarrow> inputs" where
  "obliging specs ids now m world =
     \<lparr>in_config = Inr specs,
      in_exits = (\<lambda>w. if world w = None \<and> mg_children m w \<noteq> None then Some (0, idle_runner None now, now) else None),
      in_workers = map (\<lambda>w. (w, None, \<lparr>se_live = idle_runner (world w) now, se_prior = idle_runner None now, se_now = now,
                       se_linux = False, se_busy = None, se_pid = 1\<rparr>)) ids,
      in_request = None\<rparr>"

definition effect :: "(jdict \<Rightarrow> string) \<Rightarrow> action list \<Rightarrow> (string \<Rightarrow> string option) \<Rightarrow> string \<Rightarrow> string option" where
  "effect h acts world w =
     (if list_ex (\<lambda>a. a = StopRunner w) acts then None
      else (case filter (\<lambda>a. case a of Launch s \<Rightarrow> ws_id s = w | _ \<Rightarrow> False) acts of
              Launch s # _ \<Rightarrow> Some (fingerprint h s)
            | _ \<Rightarrow> world w))"

definition turn ::
  "(jdict \<Rightarrow> string) \<Rightarrow> wspec list \<Rightarrow> string list \<Rightarrow> rat \<Rightarrow> manager \<times> (string \<Rightarrow> string option) \<Rightarrow> manager \<times> (string \<Rightarrow> string option)" where
  "turn h specs ids now mw =
     (let (m, world) = mw; (m', acts) = cycle h (obliging specs ids now m world) m in (m', effect h acts world))"

definition goal :: "(jdict \<Rightarrow> string) \<Rightarrow> wspec list \<Rightarrow> string \<Rightarrow> string option" where
  "goal h specs w = (case wanted specs w of None \<Rightarrow> None | Some s \<Rightarrow> if ws_enabled s then Some (fingerprint h s) else None)"

text \<open>What one worker's step does in such a world.\<close>

lemma idle_sees:
  "rs_alive (idle_runner g now) \<longleftrightarrow> g \<noteq> None" "rs_hash (idle_runner g now) = g" "rs_restarts (idle_runner g now) = 0"
  "rs_state (idle_runner g now) = (if g = None then ''stopped'' else ''idle'')" "rs_stopped (idle_runner g now) = None"
  "rs_exit (idle_runner g now) = None" "rs_next (idle_runner g now) = Some (now + 60)" "rs_child (idle_runner g now) = None"
  "rs_managed (idle_runner g now)"
  by (simp_all add: idle_runner_def)

definition view_of_runner :: "string option \<Rightarrow> rat \<Rightarrow> seen" where
  "view_of_runner g now = \<lparr>se_live = idle_runner g now, se_prior = idle_runner None now, se_now = now, se_linux = False,
     se_busy = None, se_pid = 1\<rparr>"

lemma goal_wanted: "goal h specs w \<noteq> None \<Longrightarrow> \<exists>s. wanted specs w = Some s \<and> ws_enabled s"
  by (auto simp: goal_def split: option.split_asm if_split_asm)

lemma idle_step:
  assumes "0 \<le> now" and "\<And>g k t. mg_failures m w = Some (g, k, t) \<Longrightarrow> t \<le> now"
    and "\<And>s. wanted specs w = Some s \<Longrightarrow> ws_restart s = Always"
    and "g = None \<Longrightarrow> mg_children m w = None"
    and "reconcile_one h (wanted specs) w (view_of_runner g now) m = (m', acts)"
  shows "(if g = None \<and> goal h specs w \<noteq> None
          then \<exists>s. wanted specs w = Some s \<and> acts = [Launch s] \<and> m' = launch h s 1 m
          else quiet_step w m m' \<and> (\<forall>s. Launch s \<notin> set acts)
               \<and> (StopRunner w \<in> set acts \<longleftrightarrow> g \<noteq> None \<and> (g \<noteq> goal h specs w \<or> w \<in> mg_restart m)))"
proof -
  have nodefer: "\<not> defer_reload h s (view_of_runner (Some q) now)" for s q
    by (simp add: defer_reload_def view_of_runner_def idle_sees idle_states_def Let_def)
  consider (up) q where "g = Some q" | (down) "g = None" "goal h specs w = None" | (go) s where "g = None" "wanted specs w = Some s" "ws_enabled s"
    using goal_wanted [of h specs w] by (cases g; cases "goal h specs w"; blast)
  then show ?thesis
  proof cases
    case up
    then show ?thesis using assms(5) nodefer
      by (auto simp: reconcile_one_def view_of_runner_def idle_sees goal_def quiet_step_def Let_def split: option.splits if_splits)
  next
    case down
    then show ?thesis using assms(5)
      by (auto simp: reconcile_one_def view_of_runner_def idle_sees goal_def quiet_step_def Let_def split: option.splits if_splits)
  next
    case go
    have "earliest h s (mg_failures m w) (idle_runner None now) \<le> now"
      using assms(1,2) by (auto simp: earliest_def idle_sees split: option.split)
    moreover have "\<not> policy_holds h s o' (idle_runner None now)" if "o' = mg_outcomes m w" for o'
      using assms(3) [OF go(2)] by (auto simp: policy_holds_def split: option.splits)
    ultimately show ?thesis using assms(4,5) go
      by (auto simp: reconcile_one_def view_of_runner_def idle_sees goal_def Let_def)
  qed
qed

text \<open>A pass over distinct workers treats each of them alone.\<close>

definition same_for :: "string \<Rightarrow> manager \<Rightarrow> manager \<Rightarrow> bool" where
  "same_for w m m' \<longleftrightarrow> mg_children m' w = mg_children m w \<and> mg_outcomes m' w = mg_outcomes m w \<and> mg_failures m' w = mg_failures m w
     \<and> (w \<in> mg_restart m' \<longleftrightarrow> w \<in> mg_restart m) \<and> (w \<in> mg_enable m' \<longleftrightarrow> w \<in> mg_enable m)"

lemma one_leaves_others:
  assumes "reconcile_one h (wanted specs) wid x m = (m', acts)" and "w \<noteq> wid"
  shows "same_for w m m' \<and> StopRunner w \<notin> set acts \<and> (\<forall>s. ws_id s = w \<longrightarrow> Launch s \<notin> set acts)
    \<and> mg_exiting m' = mg_exiting m"
  using reconcile_one_cases [OF assms(1)] assms(2) wanted_id
  by (fastforce simp: same_for_def quiet_step_def launch_def Let_def)

lemma idle_pass:
  assumes "distinct ids" and "\<not> mg_exiting m"
    and "reconcile_all h (wanted specs) (map (\<lambda>w. (w, None, f w)) ids) m = (m', acts)"
  shows "(\<forall>w. w \<notin> set ids \<longrightarrow> same_for w m m' \<and> StopRunner w \<notin> set acts \<and> (\<forall>s. ws_id s = w \<longrightarrow> Launch s \<notin> set acts))
    \<and> (\<forall>w\<in>set ids. \<exists>m0 m1 a. same_for w m m0 \<and> reconcile_one h (wanted specs) w (f w) m0 = (m1, a) \<and> same_for w m1 m'
         \<and> (StopRunner w \<in> set acts \<longleftrightarrow> StopRunner w \<in> set a) \<and> (\<forall>s. ws_id s = w \<longrightarrow> (Launch s \<in> set acts \<longleftrightarrow> Launch s \<in> set a)))
    \<and> \<not> mg_exiting m'"
  using assms
proof (induction ids arbitrary: m acts)
  case Nil
  then show ?case by (simp add: same_for_def)
next
  case (Cons v ids)
  obtain m2 a1 where o: "reconcile_one h (wanted specs) v (f v) m = (m2, a1)" by fastforce
  obtain m3 a2 where r: "reconcile_all h (wanted specs) (map (\<lambda>w. (w, None, f w)) ids) m2 = (m3, a2)" by fastforce
  have e: "m' = m3" "acts = a1 @ a2" using Cons.prems(2,3) o r by (simp_all add: serve_def)
  have ex: "\<not> mg_exiting m2" using reconcile_one_cases [OF o] Cons.prems(2) by (auto simp: quiet_step_def launch_def Let_def)
  have d: "distinct ids" "v \<notin> set ids" using Cons.prems(1) by auto
  have r': "reconcile_all h (wanted specs) (map (\<lambda>w. (w, None, f w)) ids) m2 = (m', a2)" using r e by simp
  note ih = Cons.IH [OF d(1) ex r']
  have oth: "same_for w m m2 \<and> StopRunner w \<notin> set a1 \<and> (\<forall>s. ws_id s = w \<longrightarrow> Launch s \<notin> set a1)" if "w \<noteq> v" for w
    using one_leaves_others [OF o that] by blast
  have tr: "same_for w p q \<Longrightarrow> same_for w q r \<Longrightarrow> same_for w p r" for w p q r by (simp add: same_for_def)
  have rf: "same_for w p p" for w p by (simp add: same_for_def)
  show ?case
  proof (intro conjI allI impI ballI)
    fix w assume "w \<notin> set (v # ids)"
    then have w: "w \<noteq> v" "w \<notin> set ids" by auto
    have i: "same_for w m2 m'" "StopRunner w \<notin> set a2" "\<forall>s. ws_id s = w \<longrightarrow> Launch s \<notin> set a2" using ih w(2) by blast+
    show "same_for w m m'" using tr [of w m m2 m'] oth [OF w(1)] i(1) by blast
    show "StopRunner w \<notin> set acts" using i(2) oth [OF w(1)] e(2) by simp
    show "Launch s \<notin> set acts" if "ws_id s = w" for s using i(3) oth [OF w(1)] e(2) that by simp
  next
    fix w assume w: "w \<in> set (v # ids)"
    show "\<exists>m0 m1 a. same_for w m m0 \<and> reconcile_one h (wanted specs) w (f w) m0 = (m1, a) \<and> same_for w m1 m'
         \<and> (StopRunner w \<in> set acts \<longleftrightarrow> StopRunner w \<in> set a) \<and> (\<forall>s. ws_id s = w \<longrightarrow> (Launch s \<in> set acts \<longleftrightarrow> Launch s \<in> set a))"
    proof (cases "w = v")
      case True
      then show ?thesis using ih d(2) o e rf by (intro exI [of _ m] exI [of _ m2] exI [of _ a1]) auto
    next
      case False
      then have "w \<in> set ids" using w by simp
      then obtain m0 m1 a where q: "same_for w m2 m0" "reconcile_one h (wanted specs) w (f w) m0 = (m1, a)" "same_for w m1 m'"
        "StopRunner w \<in> set a2 \<longleftrightarrow> StopRunner w \<in> set a" "\<forall>s. ws_id s = w \<longrightarrow> (Launch s \<in> set a2 \<longleftrightarrow> Launch s \<in> set a)"
        using ih by blast
      then show ?thesis using oth [OF False] tr e by (intro exI [of _ m0] exI [of _ m1] exI [of _ a]) auto
    qed
  next
    show "\<not> mg_exiting m'" using ih e by simp
  qed
qed

lemma effect_stop: "StopRunner w \<in> set acts \<Longrightarrow> effect h acts world w = None"
  by (auto simp: effect_def list_ex_iff)

lemma effect_launch:
  assumes "StopRunner w \<notin> set acts" and "ws_id s = w" and "Launch s \<in> set acts" and "\<And>s'. ws_id s' = w \<Longrightarrow> Launch s' \<in> set acts \<Longrightarrow> s' = s"
  shows "effect h acts world w = Some (fingerprint h s)"
proof -
  let ?l = "filter (\<lambda>a. case a of Launch s \<Rightarrow> ws_id s = w | _ \<Rightarrow> False) acts"
  have "Launch s \<in> set ?l" using assms(2,3) by simp
  then obtain a l where l: "?l = a # l" by (cases ?l) auto
  then have "a \<in> set ?l" by simp
  then have "a \<in> set acts" "case a of Launch s \<Rightarrow> ws_id s = w | _ \<Rightarrow> False" by simp_all
  then obtain s' where "a = Launch s'" "ws_id s' = w" "Launch s' \<in> set acts" by (cases a rule: action.exhaust) auto
  then have "a = Launch s" using assms(4) by blast
  moreover have "\<not> list_ex (\<lambda>a. a = StopRunner w) acts" using assms(1) by (auto simp: list_ex_iff)
  ultimately show ?thesis using l by (simp add: effect_def)
qed

lemma effect_none:
  assumes "StopRunner w \<notin> set acts" and "\<And>s. ws_id s = w \<Longrightarrow> Launch s \<notin> set acts"
  shows "effect h acts world w = world w"
proof -
  have "filter (\<lambda>a. case a of Launch s \<Rightarrow> ws_id s = w | _ \<Rightarrow> False) acts = []"
    using assms(2) by (auto simp: filter_empty_conv split: action.split)
  moreover have "\<not> list_ex (\<lambda>a. a = StopRunner w) acts" using assms(1) by (auto simp: list_ex_iff)
  ultimately show ?thesis by (simp add: effect_def)
qed

definition settled_failures :: "rat \<Rightarrow> manager \<Rightarrow> bool" where
  "settled_failures now m \<longleftrightarrow> (\<forall>w g k t. mg_failures m w = Some (g, k, t) \<longrightarrow> t \<le> now)"

lemma turn_one:
  assumes "distinct ids" and "0 \<le> now" and "\<forall>s\<in>set specs. ws_restart s = Always" and "\<not> mg_exiting m"
    and "settled_failures now m" and "turn h specs ids now (m, world) = (m', world')"
  shows "\<not> mg_exiting m' \<and> settled_failures now m'
    \<and> (\<forall>w\<in>set ids. world' w = (if world w = None then goal h specs w
                      else if world w \<noteq> goal h specs w \<or> w \<in> mg_restart m then None else world w)
         \<and> (world' w \<noteq> None \<longrightarrow> w \<notin> mg_restart m'))"
proof -
  let ?i = "obliging specs ids now m world"
  let ?m = "reap h (wanted specs) (in_exits ?i) (m\<lparr>mg_good := Some specs\<rparr>)"
  let ?f = "\<lambda>w. view_of_runner (world w) now"
  have sp: "specs_of ?i m = Some specs" by (simp add: specs_of_def obliging_def)
  have ws: "in_workers ?i = map (\<lambda>w. (w, None, ?f w)) ids" "in_request ?i = None"
    by (simp_all add: obliging_def view_of_runner_def)
  obtain acts where r: "reconcile_all h (wanted specs) (map (\<lambda>w. (w, None, ?f w)) ids) ?m = (m', acts)"
    and w': "world' = effect h acts world"
    using assms(6) cycle_active [OF sp assms(4), of h] by (auto simp: turn_def ws serve_def split: prod.splits)
  have ex: "\<not> mg_exiting ?m" using assms(4) by (simp add: reap_def)
  note pass = idle_pass [OF assms(1) ex r]
  have f0: "mg_failures ?m = mg_failures m" "mg_restart ?m = mg_restart m"
    by (auto simp: reap_def obliging_def fun_eq_iff split: option.split)
  have c0: "world w = None \<Longrightarrow> mg_children ?m w = None" for w by (cases "mg_children m w") (simp_all add: reap_def obliging_def)
  have each: "(case mg_failures m' w of Some (g, k, t) \<Rightarrow> t \<le> now | None \<Rightarrow> True)
      \<and> world' w = (if world w = None then goal h specs w
            else if world w \<noteq> goal h specs w \<or> w \<in> mg_restart m then None else world w)
      \<and> (world' w \<noteq> None \<longrightarrow> w \<notin> mg_restart m')" if w: "w \<in> set ids" for w
  proof -
    obtain m0 m1 a where q: "same_for w ?m m0" "reconcile_one h (wanted specs) w (?f w) m0 = (m1, a)" "same_for w m1 m'"
      "StopRunner w \<in> set acts \<longleftrightarrow> StopRunner w \<in> set a" "\<forall>s. ws_id s = w \<longrightarrow> (Launch s \<in> set acts \<longleftrightarrow> Launch s \<in> set a)"
      using pass w by blast
    have fl: "mg_failures m0 w = mg_failures m w" "w \<in> mg_restart m0 \<longleftrightarrow> w \<in> mg_restart m" using q(1) f0 by (simp_all add: same_for_def)
    have h1: "t \<le> now" if "mg_failures m0 w = Some (g, k, t)" for g k t using that fl assms(5) by (auto simp: settled_failures_def)
    have h2: "ws_restart s = Always" if "wanted specs w = Some s" for s using that wanted_id assms(3) by blast
    have h3: "world w = None \<Longrightarrow> mg_children m0 w = None" using c0 q(1) by (simp add: same_for_def)
    have st: "if world w = None \<and> goal h specs w \<noteq> None
          then \<exists>s. wanted specs w = Some s \<and> a = [Launch s] \<and> m1 = launch h s 1 m0
          else quiet_step w m0 m1 \<and> (\<forall>s. Launch s \<notin> set a)
               \<and> (StopRunner w \<in> set a \<longleftrightarrow> world w \<noteq> None \<and> (world w \<noteq> goal h specs w \<or> w \<in> mg_restart m0))"
      by (rule idle_step [OF assms(2) h1 h2 h3 q(2)])
    have base: "case mg_failures m w of Some (g, k, t) \<Rightarrow> t \<le> now | None \<Rightarrow> True"
      using assms(5) by (auto simp: settled_failures_def split: option.split)
    show ?thesis
    proof (cases "world w = None \<and> goal h specs w \<noteq> None")
      case True
      then obtain s where s: "wanted specs w = Some s" "a = [Launch s]" "m1 = launch h s 1 m0" using st by auto
      have id: "ws_id s = w" using s(1) wanted_id by blast
      have "world' w = Some (fingerprint h s)" unfolding w'
        by (rule effect_launch) (use q(4,5) s(2) id in auto)
      moreover have "goal h specs w = Some (fingerprint h s)" using True s(1) by (auto simp: goal_def split: if_splits)
      moreover have "w \<notin> mg_restart m'" "mg_failures m' w = mg_failures m w"
        using q(3) s(3) id fl by (simp_all add: same_for_def launch_def Let_def)
      ultimately show ?thesis using True base by auto
    next
      case False
      then have k: "quiet_step w m0 m1" "\<forall>s. Launch s \<notin> set a"
        "StopRunner w \<in> set a \<longleftrightarrow> world w \<noteq> None \<and> (world w \<noteq> goal h specs w \<or> w \<in> mg_restart m0)" using st by auto
      have fm: "mg_failures m' w \<in> {mg_failures m w, None}" "w \<in> mg_restart m' \<longleftrightarrow> w \<in> mg_restart m"
        using q(3) k(1) fl by (auto simp: same_for_def quiet_step_def)
      have "world' w = (if StopRunner w \<in> set a then None else world w)"
        using effect_stop effect_none q(4,5) k(2) unfolding w' by (cases "StopRunner w \<in> set a") auto
      then show ?thesis using k(3) fm fl(2) False base by auto
    qed
  qed
  have "settled_failures now m'"
    unfolding settled_failures_def
  proof (intro allI impI)
    fix w g k t assume m: "mg_failures m' w = Some (g, k, t)"
    show "t \<le> now"
    proof (cases "w \<in> set ids")
      case True
      then show ?thesis using each [OF True] m by simp
    next
      case False
      then have "mg_failures m w = Some (g, k, t)" using pass m f0 by (simp add: same_for_def)
      then show ?thesis using assms(5) by (auto simp: settled_failures_def)
    qed
  qed
  then show ?thesis using each pass by blast
qed


section \<open>Concrete cycles\<close>

abbreviation constant_hash :: "jdict \<Rightarrow> string" where
  "constant_hash \<equiv> (\<lambda>_. ''f'')"

abbreviation rev_id :: string where
  "rev_id \<equiv> ''reviewer''"

lemma sample_wanted: "wanted [sample_spec] = [rev_id \<mapsto> sample_spec]" "ws_enabled sample_spec" "ws_restart sample_spec = Always"
    "ws_id sample_spec = rev_id"
  by (simp_all add: wanted_def sample_spec_def)


definition first_inputs :: inputs where
  "first_inputs = obliging [sample_spec] [rev_id] 100 new_manager (\<lambda>_. None)"

lemma first_cycle: "\<exists>m. cycle constant_hash first_inputs new_manager = (m, [Launch sample_spec])"
proof -
  have sp: "specs_of first_inputs new_manager = Some [sample_spec]" "\<not> mg_exiting new_manager"
    by (simp_all add: specs_of_def first_inputs_def obliging_def new_manager_def)
  let ?m = "reap constant_hash (wanted [sample_spec]) (in_exits first_inputs) (new_manager\<lparr>mg_good := Some [sample_spec]\<rparr>)"
  obtain m1 a where r: "reconcile_one constant_hash (wanted [sample_spec]) rev_id (view_of_runner None 100) ?m = (m1, a)" by fastforce
  have g: "goal constant_hash [sample_spec] rev_id \<noteq> None" by (simp add: goal_def sample_wanted)
  have "mg_failures ?m w = None" "mg_children ?m w = None" "mg_exiting ?m = False" for w
    by (simp_all add: reap_def new_manager_def first_inputs_def obliging_def)
  with idle_step [OF _ _ _ _ r] g have "a = [Launch sample_spec]" by (auto simp: sample_wanted)
  moreover have "in_workers first_inputs = [(rev_id, None, view_of_runner None 100)]" "in_request first_inputs = None"
    by (simp_all add: first_inputs_def obliging_def view_of_runner_def)
  ultimately show ?thesis using r \<open>mg_exiting ?m = False\<close>
    by (simp add: cycle_active [OF sp] serve_def)
qed

theorem launches_balance_witness:
  "\<exists>m. cycles constant_hash [first_inputs] new_manager = (m, [[Launch sample_spec]]) \<and> mg_children m rev_id \<noteq> None"
proof -
  obtain m where c: "cycles constant_hash [first_inputs] new_manager = (m, [[Launch sample_spec]])"
    using first_cycle by auto
  have "reaped_in constant_hash [first_inputs] new_manager rev_id = 0" by (simp add: reaped_def new_manager_def)
  then have "mg_children m rev_id \<noteq> None" using launches_balance [OF c, of rev_id]
    by (cases "mg_children m rev_id") (simp_all add: sample_wanted)
  then show ?thesis using c by blast
qed

definition stale_inputs :: inputs where
  "stale_inputs = obliging [sample_spec] [rev_id] 100 new_manager (\<lambda>_. Some ''old'')"


definition one_shot :: wspec where
  "one_shot = sample_spec\<lparr>ws_restart := Never\<rparr>"

definition edit_inputs :: "bool \<Rightarrow> inputs" where
  "edit_inputs en = obliging [one_shot\<lparr>ws_enabled := en\<rparr>] [rev_id] 100 new_manager (\<lambda>_. None)"


theorem dying_wrappers_back_off_witness:
  "\<exists>t. mg_failures (reap constant_hash (wanted [sample_spec]) [rev_id \<mapsto> (1, idle_runner None 50, 50)]
        (new_manager\<lparr>mg_children := [rev_id \<mapsto> (9, ''f'')], mg_failures := [rev_id \<mapsto> (''f'', 2, 40)]\<rparr>)) rev_id
      = Some (''f'', 3, t) \<and> t = 70"
proof -
  let ?m = "new_manager\<lparr>mg_children := [rev_id \<mapsto> (9, ''f'')], mg_failures := [rev_id \<mapsto> (''f'', 2, 40)]\<rparr>"
  have "\<not> terminal 9 (idle_runner None 50)" by (simp add: terminal_def idle_runner_def)
  moreover have "wanted [sample_spec] rev_id = Some sample_spec" by (simp add: sample_wanted)
  ultimately show ?thesis
    using dying_wrappers_back_off [where h = constant_hash and m = ?m and w = rev_id and pid = 9 and g = "''f''"
        and ex = "[rev_id \<mapsto> (1, idle_runner None 50, 50)]" and rc = 1 and st = "idle_runner None 50" and now = 50
        and specs = "[sample_spec]" and s = sample_spec]
    by (auto simp: fingerprint_def)
qed

theorem broken_config_keeps_last_good_witness:
  "snd (cycle constant_hash (first_inputs\<lparr>in_config := Inl ''version''\<rparr>) new_manager) = []"
  using broken_config_keeps_last_good [of "first_inputs\<lparr>in_config := Inl ''version''\<rparr>" "''version''" new_manager constant_hash]
  by (simp add: new_manager_def)

end
