(* ===== verification/GhCommand.thy ===== *)
theory GhCommand
  imports OutboxRun
begin

text \<open>
  What a \<open>gh\<close> command line does, as \<open>github_transport.py\<close> reads it: whether it only reads (\<open>proxy_readonly\<close>, with
  its scan of GraphQL documents), whether it publishes content (\<open>content_write\<close>), which cached reads a write
  expires (\<open>invalidate\<close>) and which expiries a read depends on (\<open>generation\<close>).
\<close>

section \<open>Arguments\<close>

text \<open>The argument after the first of the flags that has one.\<close>

fun spaced_value :: "string list \<Rightarrow> string list \<Rightarrow> string option" where
  "spaced_value flags (a # b # rest) = (if a \<in> set flags then Some b else spaced_value flags (b # rest))"
| "spaced_value flags _ = None"

definition py_upper :: "string \<Rightarrow> string" where
  "py_upper s = map (\<lambda>c. let n = of_char c :: nat in if 97 \<le> n \<and> n \<le> 122 then char_of (n - 32) else c) s"

definition method_flags :: "string list" where "method_flags = [''-X'', ''--method'']"

definition body_flags :: "string list" where
  "body_flags = [''-f'', ''-F'', ''--field'', ''--raw-field'', ''--input'']"

definition inline_method :: "string list \<Rightarrow> string option" where
  "inline_method args = map_option (drop 9) (find (starts_with ''--method='') args)"

definition explicit_method :: "string list \<Rightarrow> string option" where
  "explicit_method args =
     (case inline_method args of Some m \<Rightarrow> Some (py_upper m) | None \<Rightarrow> map_option py_upper (spaced_value method_flags args))"

section \<open>GraphQL documents\<close>

definition quote_char :: char where "quote_char = CHR 0x22"
definition backslash :: char where "backslash = CHR 0x5C"
definition newline :: char where "newline = CHR 0x0A"

definition word_start :: "char \<Rightarrow> bool" where
  "word_start c \<longleftrightarrow> (let n = of_char c :: nat in 65 \<le> n \<and> n \<le> 90 \<or> 97 \<le> n \<and> n \<le> 122 \<or> n = 95)"

definition word_char :: "char \<Rightarrow> bool" where
  "word_char c \<longleftrightarrow> word_start c \<or> is_digit c"

definition three_quotes :: string where "three_quotes = [quote_char, quote_char, quote_char]"

text \<open>
  What follows a block string whose opening quotes were read; a backslash takes the next character with it
  unless the string would then not end. The same for a string, where a backslash always does.
\<close>

fun block_end :: "string \<Rightarrow> string option" where
  "block_end [] = None"
| "block_end (c # s) =
     (if starts_with three_quotes (c # s) then Some (drop 2 s)
      else if c = backslash
      then (case s of
              [] \<Rightarrow> None
            | d # s' \<Rightarrow> if d = newline then block_end s
                        else (case block_end s' of Some r \<Rightarrow> Some r | None \<Rightarrow> block_end s))
      else block_end s)"

fun string_end :: "string \<Rightarrow> string option" where
  "string_end [] = None"
| "string_end (c # s) =
     (if c = quote_char then Some s
      else if c = backslash then (case s of [] \<Rightarrow> None | d # s' \<Rightarrow> if d = newline then None else string_end s')
      else string_end s)"

definition comment_end :: "string \<Rightarrow> string" where
  "comment_end s = dropWhile (\<lambda>c. c \<noteq> newline \<and> c \<noteq> CHR 0x0D) s"

text \<open>What follows a block string, a string or a comment that begins here.\<close>

definition literal_end :: "string \<Rightarrow> string option" where
  "literal_end s =
     (case s of
        [] \<Rightarrow> None
      | c # s' \<Rightarrow>
          if c = CHR ''#'' then Some (comment_end s')
          else if c = quote_char
          then (case (if starts_with three_quotes s then block_end (drop 3 s) else None) of
                  Some r \<Rightarrow> Some r | None \<Rightarrow> string_end s')
          else None)"

lemma block_end_shorter: "block_end s = Some r \<Longrightarrow> length r \<le> length s"
proof (induction s arbitrary: r rule: length_induct)
  case (1 s)
  show ?case
  proof (cases s)
    case (Cons c s')
    have ih: "block_end t = Some r \<Longrightarrow> length t < length s \<Longrightarrow> length r \<le> length s" for t
      using 1 by (meson le_trans less_imp_le)
    have tails: "length s' < length s" "length (drop 1 s') < length s" using Cons by auto
    have "r = drop 2 s' \<or> block_end s' = Some r \<or> block_end (drop 1 s') = Some r"
      using 1(2) unfolding Cons by (cases s') (auto simp del: block_end.simps(2) simp: block_end.simps(2) [of c] split: if_splits option.splits)
    then show ?thesis using ih tails Cons by auto
  qed (use 1 in simp)
qed

lemma string_end_shorter: "string_end s = Some r \<Longrightarrow> length r \<le> length s"
proof (induction s arbitrary: r rule: length_induct)
  case (1 s)
  show ?case
  proof (cases s)
    case (Cons c s')
    have ih: "string_end t = Some r \<Longrightarrow> length t < length s \<Longrightarrow> length r \<le> length s" for t
      using 1 by (meson le_trans less_imp_le)
    have tails: "length s' < length s" "length (drop 1 s') < length s" using Cons by auto
    have "r = s' \<or> string_end s' = Some r \<or> string_end (drop 1 s') = Some r"
      using 1(2) unfolding Cons by (cases s') (auto split: if_splits)
    then show ?thesis using ih tails Cons by auto
  qed (use 1 in simp)
qed

lemma literal_end_shorter: "literal_end s = Some r \<Longrightarrow> length r < length s"
proof (cases s)
  case (Cons c s')
  assume l: "literal_end s = Some r"
  have d: "length (comment_end s') \<le> length s'" by (simp add: comment_end_def length_dropWhile_le)
  show ?thesis
  proof (cases "c = CHR ''#''")
    case True
    with l d Cons show ?thesis by (auto simp: literal_end_def)
  next
    case False
    then have "block_end (drop 3 s) = Some r \<or> string_end s' = Some r"
      using l Cons by (auto simp: literal_end_def split: if_splits option.splits)
    then show ?thesis using block_end_shorter [of "drop 3 s" r] string_end_shorter [of s' r] Cons by auto
  qed
qed (simp add: literal_end_def)

text \<open>The document with every literal and comment replaced by a blank.\<close>

function cleaned :: "string \<Rightarrow> string" where
  "cleaned s =
     (case s of
        [] \<Rightarrow> []
      | c # s' \<Rightarrow> (case literal_end s of Some r \<Rightarrow> CHR '' '' # cleaned r | None \<Rightarrow> c # cleaned s'))"
  by pat_completeness auto
termination by (relation "measure length") (auto dest: literal_end_shorter)

declare cleaned.simps [simp del]

text \<open>The braces and names of a document.\<close>

function gql_tokens :: "string \<Rightarrow> string list" where
  "gql_tokens [] = []"
| "gql_tokens (c # s) =
     (if c = CHR ''{'' \<or> c = CHR ''}'' then [c] # gql_tokens s
      else if word_start c then (c # takeWhile word_char s) # gql_tokens (dropWhile word_char s)
      else gql_tokens s)"
  by pat_completeness auto
termination by (relation "measure length") (auto simp: length_dropWhile_le less_Suc_eq_le)

fun gql_scan :: "int \<Rightarrow> string list \<Rightarrow> bool" where
  "gql_scan depth [] \<longleftrightarrow> depth = 0"
| "gql_scan depth (t # ts) \<longleftrightarrow>
     (if t = ''{'' then gql_scan (depth + 1) ts
      else if t = ''}'' then gql_scan (depth - 1) ts
      else if t = ''mutation'' \<and> depth = 0 then False
      else gql_scan depth ts)"

definition begins_query :: "string \<Rightarrow> bool" where
  "begins_query s =
     (let b = dropWhile py_space s
      in starts_with ''{'' b \<or> starts_with ''query'' b \<and> (case drop 5 b of [] \<Rightarrow> True | c # _ \<Rightarrow> \<not> word_char c))"

definition gql_readonly :: "string \<Rightarrow> bool" where
  "gql_readonly doc = (let c = cleaned doc in begins_query c \<and> gql_scan 0 (gql_tokens c))"

section \<open>Reading and publishing\<close>

definition proxy_readonly :: "string list \<Rightarrow> bool" where
  "proxy_readonly args =
     (if (case args of a # b # _ \<Rightarrow> a = ''search'' \<and> b \<in> {''code'', ''commits'', ''issues'', ''prs'', ''repos''} | _ \<Rightarrow> False) then True
      else if take 1 args = [''api'']
      then (if ''graphql'' \<in> set args
            then (case find (starts_with ''query='') args of None \<Rightarrow> False | Some a \<Rightarrow> gql_readonly (drop 6 a))
            else (case explicit_method args of
                    Some m \<Rightarrow> m \<in> {''GET'', ''HEAD'', ''OPTIONS''}
                  | None \<Rightarrow> \<not> (\<exists>a\<in>set args. a \<in> set body_flags) \<and> last args \<notin> set method_flags))
      else (case args of
              a # b # _ \<Rightarrow> b \<in> {''list'', ''view'', ''status'', ''checks'', ''diff'', ''search''}
            | _ \<Rightarrow> False))"

definition publishing_fields :: "string list" where
  "publishing_fields =
     [''addComment'', ''addPullRequestReview'', ''addPullRequestReviewComment'', ''submitPullRequestReview'',
      ''updateIssueComment'', ''updatePullRequestReviewComment'', ''createIssue'', ''createPullRequest'']"

text \<open>A publishing field at a word's beginning, followed by its arguments.\<close>

fun calls_publishing :: "bool \<Rightarrow> string \<Rightarrow> bool" where
  "calls_publishing inside [] = False"
| "calls_publishing inside (c # s) \<longleftrightarrow>
     \<not> inside \<and> list_ex (\<lambda>f. starts_with f (c # s) \<and> starts_with ''('' (dropWhile py_space (drop (length f) (c # s)))) publishing_fields
     \<or> calls_publishing (word_char c) s"

definition without_query :: "string \<Rightarrow> string" where
  "without_query e = takeWhile (\<lambda>c. c \<noteq> CHR ''?'') e"

text \<open>A regular expression's final \<open>$\<close> also matches before a newline that ends the text.\<close>

definition before_newline :: "string \<Rightarrow> string" where
  "before_newline e = (if e \<noteq> [] \<and> last e = newline then butlast e else e)"

definition posts_content :: "string \<Rightarrow> bool" where
  "posts_content e =
     (case rev (split_on slash (before_newline (without_query e))) of
        a # b # c # d # _ \<Rightarrow>
          a \<in> {''comments'', ''reviews''} \<or> all_digits a \<and> b = ''comments''
          \<or> a = ''replies'' \<and> all_digits b \<and> c = ''comments'' \<or> a = ''events'' \<and> all_digits b \<and> c = ''reviews''
      | a # b # _ # _ \<Rightarrow> a \<in> {''comments'', ''reviews''} \<or> all_digits a \<and> b = ''comments''
      | a # _ # _ \<Rightarrow> a \<in> {''comments'', ''reviews''}
      | _ \<Rightarrow> False)"

definition content_write :: "string list \<Rightarrow> bool" where
  "content_write args =
     (let endpoint = transport_endpoint args;
          m = (case spaced_value method_flags args of Some v \<Rightarrow> py_upper v | None \<Rightarrow> ''POST'')
      in if proxy_readonly args then False
         else if m = ''DELETE'' then False
         else (case endpoint of
                 Some e \<Rightarrow>
                   if e = ''graphql''
                   then (case find (starts_with ''query='') args of None \<Rightarrow> False | Some a \<Rightarrow> calls_publishing False (drop 6 a))
                   else if e \<noteq> []
                   then posts_content e
                        \<or> m = ''POST'' \<and> (case split_on slash e of
                            [r, a, b, k] \<Rightarrow> r = ''repos'' \<and> a \<noteq> [] \<and> b \<noteq> [] \<and> k \<in> {''issues'', ''pulls''} | _ \<Rightarrow> False)
                   else (case args of a # b # _ \<Rightarrow> a \<in> {''pr'', ''issue''} \<and> b \<in> {''create'', ''comment'', ''review''} | _ \<Rightarrow> False)
               | None \<Rightarrow> (case args of a # b # _ \<Rightarrow> a \<in> {''pr'', ''issue''} \<and> b \<in> {''create'', ''comment'', ''review''} | _ \<Rightarrow> False)))"

section \<open>Expiry of cached reads\<close>

text \<open>The names that the generation files' paths are digests of; \<open>Global\<close> is the file \<open>generation\<close>.\<close>

datatype gen_file = Global | Scoped "string list" | PermissionsOf "string option" json

definition repo_name :: "string \<Rightarrow> string \<Rightarrow> string" where
  "repo_name a b = a @ [slash] @ b"

definition expire_inventory :: "string list" where
  "expire_inventory = [''close'', ''reopen'', ''merge'', ''ready'', ''edit'']"

text \<open>The endpoint's repository, its number and what follows the number; a repository alone.\<close>

definition numbered_endpoint :: "string \<Rightarrow> (string \<times> string \<times> string list) option" where
  "numbered_endpoint e =
     (case split_on slash (before_newline (without_query e)) of
        r # a # b # k # n # rest \<Rightarrow>
          if r = ''repos'' \<and> a \<noteq> [] \<and> b \<noteq> [] \<and> k \<in> {''issues'', ''pulls''} \<and> all_digits n \<and> list_all (\<lambda>w. newline \<notin> set w) rest
          then Some (repo_name a b, n, rest) else None
      | _ \<Rightarrow> None)"

definition comment_endpoint :: "string \<Rightarrow> string option" where
  "comment_endpoint e =
     (case split_on slash (without_query e) of
        r # a # b # k # c # n # rest \<Rightarrow>
          if r = ''repos'' \<and> a \<noteq> [] \<and> b \<noteq> [] \<and> k \<in> {''issues'', ''pulls''} \<and> c = ''comments'' \<and> all_digits n \<and> rest \<in> {[], [''reactions'']}
          then Some (repo_name a b) else None
      | _ \<Rightarrow> None)"

definition repo_endpoint :: "string \<Rightarrow> string option" where
  "repo_endpoint e =
     (case split_on slash e of
        r # a # b # _ # _ \<Rightarrow> if r = ''repos'' \<and> a \<noteq> [] \<and> b \<noteq> [] then Some (repo_name a b) else None
      | _ \<Rightarrow> None)"

definition expired_scopes :: "string list \<Rightarrow> gen_file list" where
  "expired_scopes args =
     (let e = (case transport_endpoint args of None \<Rightarrow> [] | Some e \<Rightarrow> e)
      in case comment_endpoint e of
           Some r \<Rightarrow> [Scoped [py_lower r, ''comments'']]
         | None \<Rightarrow>
             (case numbered_endpoint e of
                Some (r, n, rest) \<Rightarrow>
                  [Scoped [py_lower r, n]]
                  @ (if (case rest of [] \<Rightarrow> True
                         | w # _ \<Rightarrow> starts_with ''labels'' w \<or> starts_with ''assignees'' w \<or> starts_with ''requested_reviewers'' w)
                     then [Scoped [py_lower r, ''inventory'']] else [])
              | None \<Rightarrow>
                  (let repo = (case repo_endpoint e of Some r \<Rightarrow> Some r | None \<Rightarrow> spaced_value [''--repo'', ''-R''] args)
                   in case (repo, args) of
                        (None, _) \<Rightarrow> []
                      | (Some [], _) \<Rightarrow> []
                      | (Some r, a # v # n # _) \<Rightarrow>
                          if a \<in> {''pr'', ''issue''} \<and> all_digits n
                          then [Scoped [py_lower r, n]] @ (if v \<in> set expire_inventory then [Scoped [py_lower r, ''inventory'']] else [])
                          else [Scoped [py_lower r]]
                      | (Some r, _) \<Rightarrow> [Scoped [py_lower r]])))"

definition invalidated :: "string list \<Rightarrow> gen_file list" where
  "invalidated args = (case expired_scopes args of [] \<Rightarrow> [Global] | l \<Rightarrow> l)"

definition comment_kinds :: "string list" where
  "comment_kinds = [''issue_comments'', ''review_comments'', ''progress'', ''review_state'']"

text \<open>Decimal digits of a natural number, \<open>str(n)\<close>.\<close>

fun digits_of :: "nat \<Rightarrow> string" where
  "digits_of n = (if n < 10 then [char_of (48 + n)] else digits_of (n div 10) @ [char_of (48 + n mod 10)])"

declare digits_of.simps [simp del]

definition py_str_int :: "int \<Rightarrow> string" where
  "py_str_int i = (if i < 0 then CHR ''-'' # digits_of (nat (- i)) else digits_of (nat i))"

text \<open>
  The generation files a read's key depends on. A key is a nonempty list whose first entry is the kind;
  \<open>me\<close> is the reader's credential.
\<close>

definition generation_files :: "string option \<Rightarrow> json list \<Rightarrow> gen_file list" where
  "generation_files me key =
     (case key of
        JStr kind # x # rest \<Rightarrow>
          if kind = ''permissions'' then [PermissionsOf me x]
          else (case x of
                  JStr repo \<Rightarrow>
                    if slash \<in> set repo
                    then [Global, Scoped [py_lower repo]]
                         @ (if kind \<in> set comment_kinds then [Scoped [py_lower repo, ''comments'']] else [])
                         @ [Scoped [py_lower repo,
                              case rest of
                                JNum (PInt n) # _ \<Rightarrow> if kind \<noteq> ''open_prs'' then py_str_int n else ''inventory''
                              | JBool b # _ \<Rightarrow> if kind \<noteq> ''open_prs'' then (if b then ''True'' else ''False'') else ''inventory''
                              | _ \<Rightarrow> ''inventory'']]
                    else [Global]
                | _ \<Rightarrow> [Global])
      | _ \<Rightarrow> [Global])"

end
