(* ===== verification/Transport.thy ===== *)
theory Transport
  imports GhCommand
begin

text \<open>
  The state that the workers of a host share about GitHub (\<open>github_transport.py\<close>): the observed quotas, the
  blocks a worker ran into, the account's throttle with its slots for publications, and the cache of
  reads with the generations that expire it. A file that is missing or does not parse is \<open>None\<close>; files hold what
  these functions wrote. An operation that cannot lock its file has \<open>locked\<close> false. GitHub has no bucket called
  \<open>secondary\<close>, whose file would be the throttle's.
\<close>

section \<open>Quotas\<close>

record bucket =
  bk_remaining :: int
  bk_reset :: int
  bk_exhausted :: int

record throttle =
  th_until :: rat
  th_mutation :: rat
  th_probe :: rat
  th_next :: rat
  th_failures :: int
  th_mutation_failures :: int

definition no_throttle :: throttle where
  "no_throttle = \<lparr>th_until = 0, th_mutation = 0, th_probe = 0, th_next = 0, th_failures = 0, th_mutation_failures = 0\<rparr>"

record gh_state =
  gs_scopes :: "string \<rightharpoonup> string"
  gs_buckets :: "string \<times> string \<rightharpoonup> bucket"
  gs_throttles :: "string \<rightharpoonup> throttle"
  gs_blocked :: "string \<times> string \<rightharpoonup> rat \<times> string \<times> rat"

text \<open>A call: the credential (none without a token), the worker, the clock and whether the lock was granted.\<close>

record caller =
  ca_scope :: "string option"
  ca_worker :: string
  ca_now :: rat
  ca_locked :: bool

definition quota_scope :: "string option \<Rightarrow> gh_state \<Rightarrow> string option" where
  "quota_scope identity st =
     map_option (\<lambda>i. case gs_scopes st i of Some q \<Rightarrow> q | None \<Rightarrow> i) identity"

definition record_block :: "caller \<Rightarrow> string \<Rightarrow> rat \<Rightarrow> string option \<Rightarrow> gh_state \<Rightarrow> gh_state" where
  "record_block c resource reset identity st =
     (case quota_scope (case identity of None \<Rightarrow> ca_scope c | i \<Rightarrow> i) st of
        None \<Rightarrow> st
      | Some q \<Rightarrow> st\<lparr>gs_blocked := (gs_blocked st)((q, ca_worker c) \<mapsto> (ca_now c, resource, reset))\<rparr>)"

definition blocking_event_since :: "rat \<Rightarrow> caller \<Rightarrow> gh_state \<Rightarrow> (rat \<times> string \<times> rat) option" where
  "blocking_event_since start c st =
     (case quota_scope (ca_scope c) st of
        None \<Rightarrow> None
      | Some q \<Rightarrow> (case gs_blocked st (q, ca_worker c) of
                    Some (t, r) \<Rightarrow> if start \<le> t then Some (t, r) else None
                  | None \<Rightarrow> None))"

definition resource_ok :: "string \<Rightarrow> bool" where
  "resource_ok s \<longleftrightarrow> s \<noteq> []
     \<and> list_all (\<lambda>c. (let n = of_char c :: nat in 97 \<le> n \<and> n \<le> 122) \<or> c = CHR ''_'' \<or> c = CHR ''-'') s"

text \<open>The resource, what remains and the reset of a response's headers.\<close>

definition quota_reading :: "jdict \<Rightarrow> (string \<times> int \<times> int) option" where
  "quota_reading d =
     (case (jget d ''resource'', jget d ''remaining'', jget d ''reset'') of
        (Some (JStr r), Some (JNum (PInt n)), Some (JNum (PInt t))) \<Rightarrow> if resource_ok r then Some (r, n, t) else None
      | _ \<Rightarrow> None)"

definition absorb_reading :: "rat \<Rightarrow> int \<Rightarrow> int \<Rightarrow> bucket option \<Rightarrow> bucket" where
  "absorb_reading now n t prior =
     (let old = (case prior of None \<Rightarrow> 0 | Some b \<Rightarrow> bk_exhausted b);
          ex = (if n = 0 \<and> now < of_int t then max old t else old)
      in case prior of
           Some b \<Rightarrow>
             if t < bk_reset b then b\<lparr>bk_exhausted := ex\<rparr>
             else \<lparr>bk_remaining = (if bk_reset b = t then min (bk_remaining b) n else n), bk_reset = t, bk_exhausted = ex\<rparr>
         | None \<Rightarrow> \<lparr>bk_remaining = n, bk_reset = t, bk_exhausted = ex\<rparr>)"

definition remember_quota :: "caller \<Rightarrow> jdict \<Rightarrow> string option \<Rightarrow> gh_state \<Rightarrow> gh_state" where
  "remember_quota c d identity st =
     (case (quota_scope identity st, quota_reading d) of
        (Some q, Some (r, n, t)) \<Rightarrow>
          if \<not> ca_locked c then st
          else
            (let prior = gs_buckets st (q, r);
                 n' = (case prior of Some b \<Rightarrow> if bk_reset b = t then min (bk_remaining b) n else n | None \<Rightarrow> n);
                 st1 = st\<lparr>gs_buckets := (gs_buckets st)((q, r) \<mapsto> absorb_reading (ca_now c) n t prior)\<rparr>
             in if jget d ''status'' \<in> {Some (JNum (PInt 403)), Some (JNum (PInt 429))} \<and> n' = 0
                then record_block c r (of_int t) (Some q) st1 else st1)
      | _ \<Rightarrow> st)"

text \<open>What remains of each bucket and until when; a bucket whose window has passed is not reported.\<close>

definition observed_budget :: "rat \<Rightarrow> string option \<Rightarrow> gh_state \<Rightarrow> string \<Rightarrow> (int \<times> int) option" where
  "observed_budget now identity st r =
     (case quota_scope identity st of
        None \<Rightarrow> None
      | Some q \<Rightarrow>
          (case gs_buckets st (q, r) of
             None \<Rightarrow> None
           | Some b \<Rightarrow> if now < of_int (bk_exhausted b) then Some (0, bk_exhausted b)
                       else if now < of_int (bk_reset b) then Some (bk_remaining b, bk_reset b) else None))"

text \<open>The account behind a token is known: its tokens share their quotas from now on.\<close>

definition register_principal :: "caller \<Rightarrow> string \<Rightarrow> string list \<Rightarrow> gh_state \<Rightarrow> gh_state" where
  "register_principal c primary resources st =
     (case ca_scope c of
        None \<Rightarrow> st
      | Some i \<Rightarrow>
          fold (\<lambda>r s. case gs_buckets s (i, r) of
                        None \<Rightarrow> s
                      | Some b \<Rightarrow> remember_quota c [(''remaining'', JNum (PInt (bk_remaining b))), (''reset'', JNum (PInt (bk_reset b))),
                                     (''exhausted_until'', JNum (PInt (bk_exhausted b))), (''resource'', JStr r)] (Some primary) s)
               resources (st\<lparr>gs_scopes := (gs_scopes st)(i \<mapsto> primary)\<rparr>))"

section \<open>The throttle of an account\<close>

definition throttle_of :: "string \<Rightarrow> gh_state \<Rightarrow> throttle" where
  "throttle_of q st = (case gs_throttles st q of None \<Rightarrow> no_throttle | Some t \<Rightarrow> t)"

definition set_throttle :: "string \<Rightarrow> throttle \<Rightarrow> gh_state \<Rightarrow> gh_state" where
  "set_throttle q t st = st\<lparr>gs_throttles := (gs_throttles st)(q \<mapsto> t)\<rparr>"

definition cooldown :: "caller \<Rightarrow> gh_state \<Rightarrow> rat" where
  "cooldown c st =
     (case quota_scope (ca_scope c) st of
        None \<Rightarrow> 0
      | Some q \<Rightarrow> if ca_locked c then max 0 (th_until (throttle_of q st) - ca_now c) else 0)"

text \<open>The counter and the end of a rejection of one kind, and the delay it starts with.\<close>

definition next_failures :: "rat \<Rightarrow> rat \<Rightarrow> int \<Rightarrow> int" where
  "next_failures now until prior = (if until \<le> now then min 6 (prior + 1) else max 1 prior)"

definition rejection_delay :: "int \<Rightarrow> rat \<Rightarrow> rat" where
  "rejection_delay failures retry = max retry (min 900 (60 * 2 ^ nat (failures - 1)))"

definition rejected_until :: "rat \<Rightarrow> rat \<Rightarrow> int \<Rightarrow> rat \<Rightarrow> rat" where
  "rejected_until now until prior retry =
     max until (now + (if until \<le> now then rejection_delay (next_failures now until prior) retry else retry))"

definition after_rejection :: "rat \<Rightarrow> rat \<Rightarrow> bool \<Rightarrow> throttle \<Rightarrow> throttle" where
  "after_rejection now retry content_only t =
     (if content_only
      then t\<lparr>th_probe := 0, th_mutation_failures := next_failures now (th_mutation t) (th_mutation_failures t),
             th_mutation := rejected_until now (th_mutation t) (th_mutation_failures t) retry\<rparr>
      else t\<lparr>th_probe := 0, th_failures := next_failures now (th_until t) (th_failures t),
             th_until := rejected_until now (th_until t) (th_failures t) retry\<rparr>)"

definition cleared :: "throttle \<Rightarrow> throttle" where
  "cleared t = t\<lparr>th_probe := 0, th_failures := 0, th_mutation_failures := 0, th_until := 0, th_mutation := 0\<rparr>"

definition secondary_result :: "caller \<Rightarrow> bool \<Rightarrow> rat \<Rightarrow> bool \<Rightarrow> gh_state \<Rightarrow> gh_state \<times> rat" where
  "secondary_result c rejected retry content_only st =
     (case quota_scope (ca_scope c) st of
        None \<Rightarrow> (st, if rejected then max 60 retry else 0)
      | Some q \<Rightarrow>
          if \<not> ca_locked c then (st, if rejected then max 60 retry else 0)
          else
            (let t = throttle_of q st
             in if rejected
                then (let t' = after_rejection (ca_now c) retry content_only t
                      in (set_throttle q t' st, max 1 ((if content_only then th_mutation t' else th_until t') - ca_now c)))
                else (if max (th_until t) (th_mutation t) \<le> ca_now c then set_throttle q (cleared t) st else st, 0)))"

text \<open>Zero grants the one slot; otherwise the time to wait.\<close>

definition mutation_slot :: "caller \<Rightarrow> gh_state \<Rightarrow> gh_state \<times> rat" where
  "mutation_slot c st =
     (case quota_scope (ca_scope c) st of
        None \<Rightarrow> (st, 0)
      | Some q \<Rightarrow>
          if \<not> ca_locked c then (st, 0)
          else
            (let t = throttle_of q st; now = ca_now c;
                 blocked = max (max (th_until t) (th_mutation t)) (th_probe t) - now
             in if 0 < blocked then (st, blocked)
                else if now < th_next t then (st, th_next t - now)
                else (set_throttle q
                        (t\<lparr>th_next := now + 2,
                           th_probe := (if th_failures t \<noteq> 0 \<or> th_mutation_failures t \<noteq> 0 then now + 30 else th_probe t)\<rparr>) st, 0)))"

text \<open>The error objects of a rejected review that mean abuse protection.\<close>

definition throttle_error :: "json \<Rightarrow> bool" where
  "throttle_error e =
     (case e of
        JObj d \<Rightarrow>
          jget0 d ''resource'' = JStr ''PullRequestReviewComment'' \<and> jget0 d ''message'' = JStr ''was submitted too quickly''
          \<or> jget0 d ''resource'' \<in> {JStr ''PullRequestReview'', JStr ''PullRequestReviewComment''} \<and> jget0 d ''code'' = JStr ''abuse''
      | _ \<Rightarrow> False)"

text \<open>The payload from the first brace on, if it parses; \<open>errors\<close> is a list or absent.\<close>

definition content_throttle :: "json option \<Rightarrow> bool" where
  "content_throttle payload =
     (case payload of
        Some (JObj d) \<Rightarrow> (case jget0 d ''errors'' of JArr es \<Rightarrow> list_ex throttle_error es | _ \<Rightarrow> False)
      | _ \<Rightarrow> False)"

section \<open>The workers of a host\<close>

datatype gh_op =
    Remember caller jdict
  | Result caller bool rat bool
  | Slot caller
  | Block caller string rat

definition op_caller :: "gh_op \<Rightarrow> caller" where
  "op_caller op = (case op of Remember c _ \<Rightarrow> c | Result c _ _ _ \<Rightarrow> c | Slot c \<Rightarrow> c | Block c _ _ \<Rightarrow> c)"

definition perform :: "gh_op \<Rightarrow> gh_state \<Rightarrow> gh_state \<times> rat" where
  "perform op st =
     (case op of
        Remember c d \<Rightarrow> (remember_quota c d (ca_scope c) st, 0)
      | Result c rejected retry content_only \<Rightarrow> secondary_result c rejected retry content_only st
      | Slot c \<Rightarrow> mutation_slot c st
      | Block c r t \<Rightarrow> (record_block c r t None st, 0))"

fun performed :: "gh_op list \<Rightarrow> gh_state \<Rightarrow> gh_state \<times> rat list" where
  "performed [] st = (st, [])"
| "performed (op # ops) st = (let (s1, r) = perform op st; (s2, rs) = performed ops s1 in (s2, r # rs))"

section \<open>The cache of reads\<close>

record 'v cached =
  cv_time :: rat
  cv_generation :: "string list"
  cv_revision :: string
  cv_value :: 'v

record 'v cache =
  cc_tokens :: "gen_file \<Rightarrow> string"
  cc_entries :: "string \<times> json list \<rightharpoonup> 'v cached"
  cc_reading :: "string \<times> json list \<rightharpoonup> string list"

definition generation :: "string option \<Rightarrow> json list \<Rightarrow> (gen_file \<Rightarrow> string) \<Rightarrow> string list" where
  "generation me key tokens = map tokens (generation_files me key)"

text \<open>
  \<open>shared_read\<close> under the lock of its key: first the cached value or the epoch the fetch starts in, then, after the
  fetch, its publication if no write intervened.
\<close>

definition lookup_read :: "string \<Rightarrow> json list \<Rightarrow> string \<Rightarrow> rat \<Rightarrow> rat \<Rightarrow> bool \<Rightarrow> 'v cache \<Rightarrow> 'v option" where
  "lookup_read identity key revision ttl now immutable cc =
     (case cc_entries cc (identity, key) of
        Some e \<Rightarrow>
          if (immutable \<or> cv_generation e = generation (Some identity) key (cc_tokens cc)) \<and> cv_revision e = revision
             \<and> 0 \<le> now - cv_time e \<and> now - cv_time e < ttl
          then Some (cv_value e) else None
      | None \<Rightarrow> None)"

definition begin_fetch :: "string \<Rightarrow> json list \<Rightarrow> 'v cache \<Rightarrow> 'v cache" where
  "begin_fetch identity key cc =
     cc\<lparr>cc_reading := (cc_reading cc)((identity, key) \<mapsto> generation (Some identity) key (cc_tokens cc))\<rparr>"

definition end_fetch :: "string \<Rightarrow> json list \<Rightarrow> string \<Rightarrow> rat \<Rightarrow> bool \<Rightarrow> 'v option \<Rightarrow> 'v cache \<Rightarrow> 'v cache" where
  "end_fetch identity key revision now immutable value cc =
     (case (cc_reading cc (identity, key), value) of
        (Some epoch, Some v) \<Rightarrow>
          (let done_cc = cc\<lparr>cc_reading := (cc_reading cc)((identity, key) := None)\<rparr>
           in if immutable \<or> generation (Some identity) key (cc_tokens cc) = epoch
              then done_cc\<lparr>cc_entries := (cc_entries cc)((identity, key) \<mapsto>
                     \<lparr>cv_time = now, cv_generation = epoch, cv_revision = revision, cv_value = v\<rparr>)\<rparr>
              else done_cc)
      | (_, None) \<Rightarrow> cc\<lparr>cc_reading := (cc_reading cc)((identity, key) := None)\<rparr>
      | (None, _) \<Rightarrow> cc)"

text \<open>A write puts a new token in each file it expires.\<close>

fun set_tokens :: "(gen_file \<times> string) list \<Rightarrow> (gen_file \<Rightarrow> string) \<Rightarrow> gen_file \<Rightarrow> string" where
  "set_tokens [] g = g"
| "set_tokens ((f, t) # rest) g = set_tokens rest (g(f := t))"

definition expire :: "(gen_file \<times> string) list \<Rightarrow> 'v cache \<Rightarrow> 'v cache" where
  "expire fresh cc = cc\<lparr>cc_tokens := set_tokens fresh (cc_tokens cc)\<rparr>"

datatype 'v cache_op =
    Begin string "json list"
  | End string "json list" string rat bool "'v option"
  | Expire "(gen_file \<times> string) list"

definition cache_step :: "'v cache_op \<Rightarrow> 'v cache \<Rightarrow> 'v cache" where
  "cache_step op cc =
     (case op of
        Begin i k \<Rightarrow> begin_fetch i k cc
      | End i k rv now imm v \<Rightarrow> end_fetch i k rv now imm v cc
      | Expire fresh \<Rightarrow> expire fresh cc)"

definition cache_run :: "'v cache_op list \<Rightarrow> 'v cache \<Rightarrow> 'v cache" where
  "cache_run ops cc = fold cache_step ops cc"

definition empty_cache :: "'v cache" where
  "empty_cache = \<lparr>cc_tokens = (\<lambda>_. []), cc_entries = Map.empty, cc_reading = Map.empty\<rparr>"

end
