(* ===== verification/GhExecute.thy ===== *)
theory GhExecute
  imports Transport
begin

text \<open>
  One \<open>gh\<close> command from gate to answer (\<open>github_transport._execute\<close>): the waits before it is sent, what its answer
  tells about the quotas, and whether the command may be sent again. What the workers of the host do in between,
  the clock and GitHub's answers are arguments. Accounting events and the first-seen quota types are not modelled.
\<close>

section \<open>Commands and answers\<close>

definition resource_of :: "string list \<Rightarrow> string" where
  "resource_of args =
     (case transport_endpoint args of
        Some e \<Rightarrow> if e = ''graphql'' then ''graphql'' else if starts_with ''search/code'' e then ''code_search''
                  else if starts_with ''search/'' e then ''search'' else ''core''
      | None \<Rightarrow> ''core'')"

definition quota_probe :: "string list \<Rightarrow> bool" where
  "quota_probe args \<longleftrightarrow> transport_endpoint args = Some ''rate_limit''"

text \<open>
  What \<open>gh\<close> returned: its code, the responses it traced to their end and one cut off, what its texts match, whether a
  GraphQL answer holds errors or a rate-limit error, and its output as JSON.
\<close>

record reply =
  rp_code :: int
  rp_ended :: "jdict list"
  rp_cut :: "jdict list"
  rp_errors :: bool
  rp_limited :: bool
  rp_says_secondary :: bool
  rp_says_cap :: bool
  rp_says_limit :: bool
  rp_says_graphql_limit :: bool
  rp_payload :: "json option"

definition rp_records :: "reply \<Rightarrow> jdict list" where
  "rp_records p = rp_ended p @ rp_cut p"

definition status_of :: "jdict \<Rightarrow> int option" where
  "status_of d = (case jget d ''status'' of Some (JNum (PInt n)) \<Rightarrow> Some n | _ \<Rightarrow> None)"

definition is_zero :: "json option \<Rightarrow> bool" where
  "is_zero v \<longleftrightarrow> v \<in> {Some (JNum (PInt 0)), Some (JNum (PFloat 0)), Some (JBool False)}"

text \<open>\<open>retry\<close>: the last response's hint that is not empty, when it is a number of seconds.\<close>

definition retry_hint :: "jdict list \<Rightarrow> rat" where
  "retry_hint records =
     (case find (\<lambda>d. truthy (jget0 d ''retry_after'')) (rev records) of
        Some d \<Rightarrow> (case jget0 d ''retry_after'' of JStr s \<Rightarrow> if all_digits s then of_nat (digits_nat s) else 0 | _ \<Rightarrow> 0)
      | None \<Rightarrow> 0)"

record verdict =
  vd_failed :: bool
  vd_retryable :: bool
  vd_rejected :: bool
  vd_primary :: bool
  vd_secondary :: bool
  vd_content :: bool
  vd_headerless :: bool

definition verdict_of :: "string list \<Rightarrow> reply \<Rightarrow> verdict" where
  "verdict_of args p =
     (let readonly = proxy_readonly args; gql = (transport_endpoint args = Some ''graphql'');
          records = rp_records p;
          failed = (if gql \<and> rp_errors p then True else rp_code p \<noteq> 0);
          gql_text = (rp_says_graphql_limit p \<or> gql \<and> rp_errors p \<and> rp_limited p);
          limit_text = (rp_says_limit p \<or> gql \<and> rp_errors p \<and> rp_limited p);
          retryable = (readonly \<or> take 1 args = [''api''] \<and> length records = 1 \<and> ''--paginate'' \<notin> set args);
          refused = (retryable \<and>
            (records \<noteq> [] \<and> list_all (\<lambda>d. status_of d \<in> {Some 403, Some 429}) records \<or> readonly \<and> gql \<and> failed \<and> gql_text));
          content = (list_ex (\<lambda>d. status_of d = Some 422) records \<and> content_throttle (rp_payload p));
          secondary = (failed \<and> (list_ex (\<lambda>d. status_of d = Some 429) records \<or> rp_says_secondary p \<or> rp_says_cap p \<or> content));
          primary = list_ex (\<lambda>d. is_zero (jget d ''remaining'')) records;
          headerless = (failed \<and> \<not> primary \<and> \<not> secondary \<and> limit_text)
      in \<lparr>vd_failed = failed, vd_retryable = retryable, vd_rejected = (refused \<or> retryable \<and> secondary \<and> content),
          vd_primary = (primary \<or> headerless), vd_secondary = secondary, vd_content = content, vd_headerless = headerless\<rparr>)"

section \<open>Before it is sent\<close>

text \<open>When a stage looks: the clock, the time since the call, the lock, and what the other workers did before.\<close>

record moment =
  mo_now :: rat
  mo_elapsed :: rat
  mo_locked :: bool
  mo_others :: "gh_op list"

record asker =
  as_scope :: "string option"
  as_worker :: string
  as_args :: "string list"
  as_wait :: bool
  as_ceiling :: rat

definition caller_at :: "asker \<Rightarrow> moment \<Rightarrow> caller" where
  "caller_at a m = \<lparr>ca_scope = as_scope a, ca_worker = as_worker a, ca_now = mo_now m, ca_locked = mo_locked m\<rparr>"

definition world_at :: "moment \<Rightarrow> gh_state \<Rightarrow> gh_state" where
  "world_at m st = fst (performed (mo_others m) st)"

datatype gate = Refuse | Pass

text \<open>The throttle, then the bucket: refused with a record of the block, or passed after a sleep.\<close>

definition gate_throttle :: "asker \<Rightarrow> moment \<Rightarrow> gh_state \<Rightarrow> gh_state \<times> gate" where
  "gate_throttle a m st =
     (let c = caller_at a m; cooling = cooldown c st
      in if cooling \<noteq> 0 \<and> \<not> quota_probe (as_args a) \<and> (\<not> as_wait a \<or> as_ceiling a < mo_elapsed m + cooling)
         then (record_block c ''secondary'' (mo_now m + cooling) (as_scope a) st, Refuse)
         else (st, Pass))"

definition bucket_delay :: "asker \<Rightarrow> bool \<Rightarrow> string \<Rightarrow> rat \<Rightarrow> gh_state \<Rightarrow> rat" where
  "bucket_delay a observed resource now st =
     (case observed_budget now (as_scope a) st resource of
        Some (n, t) \<Rightarrow> if observed \<and> n = 0 \<and> \<not> quota_probe (as_args a) then max 1 (of_int t - now + 2) else 0
      | None \<Rightarrow> 0)"

definition gate_bucket :: "asker \<Rightarrow> bool \<Rightarrow> string \<Rightarrow> moment \<Rightarrow> gh_state \<Rightarrow> gh_state \<times> gate" where
  "gate_bucket a observed resource m st =
     (let c = caller_at a m; delay = bucket_delay a observed resource (mo_now m) st
      in if delay \<noteq> 0 \<and> (\<not> as_wait a \<or> as_ceiling a < mo_elapsed m + delay)
         then (record_block c resource
                 (case observed_budget (mo_now m) (as_scope a) st resource of Some (n, t) \<Rightarrow> of_int t | None \<Rightarrow> 0) (as_scope a) st, Refuse)
         else (st, Pass))"

text \<open>The slot of a publication; \<open>None\<close> begins the loop again after the sleep.\<close>

definition gate_slot :: "asker \<Rightarrow> moment \<Rightarrow> gh_state \<Rightarrow> gh_state \<times> gate option" where
  "gate_slot a m st =
     (if content_write (as_args a)
      then (let (st1, delay) = mutation_slot (caller_at a m) st
            in if delay = 0 then (st1, Some Pass)
               else if as_ceiling a < mo_elapsed m + delay then (st1, Some Refuse) else (st1, None))
      else (st, Some Pass))"

section \<open>After the answer\<close>

definition remember_all :: "caller \<Rightarrow> jdict list \<Rightarrow> gh_state \<Rightarrow> gh_state" where
  "remember_all c ds st = fold (\<lambda>d s. remember_quota c d (ca_scope c) s) ds st"

definition text_or :: "string \<Rightarrow> json option \<Rightarrow> string" where
  "text_or r v = (case v of Some (JStr s) \<Rightarrow> s | _ \<Rightarrow> r)"

definition block_exhausted :: "caller \<Rightarrow> string \<Rightarrow> jdict list \<Rightarrow> gh_state \<Rightarrow> gh_state" where
  "block_exhausted c resource ds st =
     fold (\<lambda>d s. case (is_zero (jget d ''remaining''), jget d ''reset'') of
                   (True, Some (JNum (PInt t))) \<Rightarrow> record_block c (text_or resource (jget d ''resource'')) (of_int t) (ca_scope c) s
                 | _ \<Rightarrow> s) ds st"

text \<open>An exhaustion without headers pauses the bucket until its known reset, or for a minute.\<close>

definition pause_bucket :: "caller \<Rightarrow> string \<Rightarrow> gh_state \<Rightarrow> gh_state" where
  "pause_bucket c resource st =
     (let reset = (case observed_budget (ca_now c) (ca_scope c) st resource of Some (n, t) \<Rightarrow> t | None \<Rightarrow> \<lfloor>ca_now c\<rfloor> + 60)
      in record_block c resource (of_int reset) (ca_scope c)
           (remember_quota c [(''resource'', JStr resource), (''remaining'', JNum (PInt 0)), (''reset'', JNum (PInt reset)),
                              (''status'', JNum (PInt 403))] (ca_scope c) st))"

definition learn :: "asker \<Rightarrow> string \<Rightarrow> moment \<Rightarrow> reply \<Rightarrow> gh_state \<Rightarrow> gh_state \<times> rat" where
  "learn a resource m p st =
     (let c = caller_at a m; v = verdict_of (as_args a) p; records = rp_records p;
          st1 = remember_all c (rp_ended p) st;
          st2 = (if vd_failed v \<and> vd_primary v \<and> \<not> vd_headerless v then block_exhausted c resource records st1 else st1);
          st3 = (if vd_headerless v then pause_bucket c resource st2 else st2)
      in if vd_secondary v
         then (let (st4, delay) = secondary_result c True (retry_hint records) (vd_content v) st3
               in (record_block c ''secondary'' (mo_now m + max 1 delay) (as_scope a) st4, max 1 delay))
         else if content_write (as_args a) then (fst (secondary_result c False 0 False st3), 0)
         else (st3, 0))"

text \<open>The bucket that the last exhausted response names.\<close>

definition exhausted_resource :: "string \<Rightarrow> jdict list \<Rightarrow> string option" where
  "exhausted_resource resource ds =
     (case find (\<lambda>d. is_zero (jget d ''remaining'')) (rev ds) of
        Some d \<Rightarrow> (case jget d ''resource'' of Some (JStr r) \<Rightarrow> Some r | _ \<Rightarrow> None)
      | None \<Rightarrow> Some resource)"

datatype outcome = Refused | Returned reply | Resend bool string | Requeue

definition after_answer :: "asker \<Rightarrow> bool \<Rightarrow> string \<Rightarrow> moment \<Rightarrow> reply \<Rightarrow> gh_state \<Rightarrow> gh_state \<times> outcome" where
  "after_answer a observed resource m p st =
     (let v = verdict_of (as_args a) p; (st1, delay) = learn a resource m p st
      in if \<not> (as_wait a \<and> vd_failed v \<and> vd_rejected v) then (st1, Returned p)
         else if vd_secondary v \<and> \<not> vd_primary v
         then (if as_ceiling a < mo_elapsed m + delay then (st1, Returned p) else (st1, Resend observed resource))
         else if \<not> vd_primary v then (st1, Returned p)
         else (case exhausted_resource resource (rp_records p) of
                 None \<Rightarrow> (st1, Returned p)
               | Some r \<Rightarrow>
                   (case observed_budget (mo_now m) (as_scope a) st1 r of
                      None \<Rightarrow> (st1, Returned p)
                    | Some (n, t) \<Rightarrow>
                        if as_ceiling a < mo_elapsed m + max 0 (of_int t - mo_now m + 2) then (st1, Returned p)
                        else (st1, Resend True r))))"

section \<open>The loop\<close>

record attempt =
  tr_throttle :: moment
  tr_bucket :: moment
  tr_slot :: moment
  tr_answer :: moment
  tr_reply :: reply

text \<open>One turn; the third part is whether the command was sent.\<close>

definition try_once :: "asker \<Rightarrow> bool \<Rightarrow> string \<Rightarrow> attempt \<Rightarrow> gh_state \<Rightarrow> gh_state \<times> outcome \<times> bool" where
  "try_once a observed resource t st =
     (let (s1, g1) = gate_throttle a (tr_throttle t) (world_at (tr_throttle t) st)
      in if g1 = Refuse then (s1, Refused, False)
         else
           (let (s2, g2) = gate_bucket a observed resource (tr_bucket t) (world_at (tr_bucket t) s1)
            in if g2 = Refuse then (s2, Refused, False)
               else
                 (let (s3, g3) = gate_slot a (tr_slot t) (world_at (tr_slot t) s2)
                  in case g3 of
                       None \<Rightarrow> (s3, Requeue, False)
                     | Some Refuse \<Rightarrow> (s3, Refused, False)
                     | Some Pass \<Rightarrow>
                         (let (s4, r) = after_answer a observed resource (tr_answer t) (tr_reply t) (world_at (tr_answer t) s3)
                          in (s4, r, True)))))"

text \<open>
  The answers received, in order, and how the call ended: \<open>None\<close> when the observed turns do not reach its end.
\<close>

fun try_all :: "asker \<Rightarrow> bool \<Rightarrow> string \<Rightarrow> attempt list \<Rightarrow> gh_state \<Rightarrow> gh_state \<times> reply list \<times> outcome option" where
  "try_all a observed resource [] st = (st, [], None)"
| "try_all a observed resource (t # ts) st =
     (let (s1, r, sent) = try_once a observed resource t st; got = (if sent then [tr_reply t] else [])
      in case r of
           Resend o' r' \<Rightarrow> (let (s2, ps, e) = try_all a o' r' ts s1 in (s2, got @ ps, e))
         | Requeue \<Rightarrow> (let (s2, ps, e) = try_all a observed resource ts s1 in (s2, got @ ps, e))
         | _ \<Rightarrow> (s1, got, Some r))"

definition gh_execute :: "asker \<Rightarrow> attempt list \<Rightarrow> gh_state \<Rightarrow> gh_state \<times> reply list \<times> outcome option" where
  "gh_execute a ts st = try_all a (transport_endpoint (as_args a) \<noteq> None) (resource_of (as_args a)) ts st"

end
