(* ===== verification/TransportLaws.thy ===== *)
theory TransportLaws
  imports GhExecute
begin

text \<open>
  What the shared state of \<open>github_transport.py\<close> promises: an exhausted bucket stays blocked, publications are paced
  and pause after a rejection, a cached read is never older than a write that concerns it, a command is sent only when
  admitted and sent again only when it was rejected.
\<close>

section \<open>Deadlines that only move forward\<close>

locale deadline_keeper =
  fixes step :: "'o \<Rightarrow> 's \<Rightarrow> 's"
    and deadline :: "'s \<Rightarrow> rat"
    and clock :: "'o \<Rightarrow> rat"
  assumes keeps: "x \<le> deadline s \<Longrightarrow> clock e < x \<Longrightarrow> x \<le> deadline (step e s)"
begin

lemma kept: "x \<le> deadline s \<Longrightarrow> \<forall>e\<in>set es. clock e < x \<Longrightarrow> x \<le> deadline (fold step es s)"
  by (induction es arbitrary: s) (simp_all add: keeps)

end

abbreviation gh_step :: "gh_op \<Rightarrow> gh_state \<Rightarrow> gh_state" where
  "gh_step op st \<equiv> fst (perform op st)"

abbreviation op_now :: "gh_op \<Rightarrow> rat" where
  "op_now op \<equiv> ca_now (op_caller op)"

lemma performed_state: "fst (performed ops st) = fold gh_step ops st"
  by (induction ops arbitrary: st) (simp_all add: case_prod_beta Let_def)

lemma performed_length: "length (snd (performed ops st)) = length ops"
  by (induction ops arbitrary: st) (simp_all add: case_prod_beta Let_def)

lemma performed_nth: "i < length ops \<Longrightarrow> snd (performed ops st) ! i = snd (perform (ops ! i) (fold gh_step (take i ops) st))"
  by (induction ops arbitrary: st i) (auto simp: case_prod_beta Let_def nth_Cons split: nat.split)

lemma record_block_simps [simp]:
  "gs_scopes (record_block c r t i st) = gs_scopes st"
  "gs_buckets (record_block c r t i st) = gs_buckets st"
  "gs_throttles (record_block c r t i st) = gs_throttles st"
  "quota_scope j (record_block c r t i st) = quota_scope j st"
  "throttle_of q (record_block c r t i st) = throttle_of q st"
  by (auto simp: record_block_def quota_scope_def throttle_of_def split: option.split)

lemma set_throttle_simps [simp]:
  "gs_scopes (set_throttle q t st) = gs_scopes st"
  "gs_buckets (set_throttle q t st) = gs_buckets st"
  "quota_scope j (set_throttle q t st) = quota_scope j st"
  "throttle_of q' (set_throttle q t st) = (if q' = q then t else throttle_of q' st)"
  by (auto simp: set_throttle_def quota_scope_def throttle_of_def)

lemma remember_quota_cases:
  "remember_quota c d i st = st
   \<or> (\<exists>q r n t. quota_scope i st = Some q \<and> quota_reading d = Some (r, n, t) \<and> ca_locked c
        \<and> gs_buckets (remember_quota c d i st) = (gs_buckets st)((q, r) \<mapsto> absorb_reading (ca_now c) n t (gs_buckets st (q, r)))
        \<and> gs_scopes (remember_quota c d i st) = gs_scopes st \<and> gs_throttles (remember_quota c d i st) = gs_throttles st)"
  by (auto simp: remember_quota_def Let_def split: option.split)

lemma remember_quota_keeps [simp]:
  "gs_scopes (remember_quota c d i st) = gs_scopes st"
  "quota_scope j (remember_quota c d i st) = quota_scope j st"
  "throttle_of q (remember_quota c d i st) = throttle_of q st"
  using remember_quota_cases [of c d i st] by (auto simp: quota_scope_def throttle_of_def)

lemma result_cases:
  "fst (secondary_result c rejected retry b st) = st
   \<or> (\<exists>q. quota_scope (ca_scope c) st = Some q \<and> ca_locked c
        \<and> fst (secondary_result c rejected retry b st)
          = set_throttle q (if rejected then after_rejection (ca_now c) retry b (throttle_of q st) else cleared (throttle_of q st)) st
        \<and> (\<not> rejected \<longrightarrow> max (th_until (throttle_of q st)) (th_mutation (throttle_of q st)) \<le> ca_now c))"
  by (auto simp: secondary_result_def Let_def split: option.split)

lemma slot_free: "\<not> 0 < max (max a b) p - now \<Longrightarrow> a \<le> now \<and> b \<le> now" for a :: rat
  by (simp add: not_less)

lemma slot_cases:
  "fst (mutation_slot c st) = st
   \<or> (\<exists>q. quota_scope (ca_scope c) st = Some q \<and> ca_locked c \<and> th_next (throttle_of q st) \<le> ca_now c
        \<and> th_until (throttle_of q st) \<le> ca_now c \<and> th_mutation (throttle_of q st) \<le> ca_now c
        \<and> fst (mutation_slot c st) = set_throttle q ((throttle_of q st)\<lparr>th_next := ca_now c + 2,
             th_probe := (if th_failures (throttle_of q st) \<noteq> 0 \<or> th_mutation_failures (throttle_of q st) \<noteq> 0
                          then ca_now c + 30 else th_probe (throttle_of q st))\<rparr>) st)"
proof (cases "quota_scope (ca_scope c) st")
  case (Some q)
  let ?t = "throttle_of q st"
  consider "\<not> ca_locked c \<or> 0 < max (max (th_until ?t) (th_mutation ?t)) (th_probe ?t) - ca_now c \<or> ca_now c < th_next ?t"
    | "ca_locked c" "\<not> 0 < max (max (th_until ?t) (th_mutation ?t)) (th_probe ?t) - ca_now c" "\<not> ca_now c < th_next ?t" by blast
  then show ?thesis
  proof cases
    case 1
    then have "fst (mutation_slot c st) = st" using Some unfolding mutation_slot_def Let_def by (auto simp del: diff_gt_0_iff_gt)
    then show ?thesis ..
  next
    case 2
    then have "fst (mutation_slot c st) = set_throttle q (?t\<lparr>th_next := ca_now c + 2,
             th_probe := (if th_failures ?t \<noteq> 0 \<or> th_mutation_failures ?t \<noteq> 0 then ca_now c + 30 else th_probe ?t)\<rparr>) st"
      using Some unfolding mutation_slot_def Let_def by (simp del: diff_gt_0_iff_gt)
    moreover note slot_free [OF 2(2)]
    ultimately show ?thesis using Some 2(1,3) by auto
  qed
qed (simp add: mutation_slot_def)

lemma step_cases:
  assumes "\<And>c d. op = Remember c d \<Longrightarrow> P (remember_quota c d (ca_scope c) st)"
    and "\<And>c rj rt b. op = Result c rj rt b \<Longrightarrow> P (fst (secondary_result c rj rt b st))"
    and "\<And>c. op = Slot c \<Longrightarrow> P (fst (mutation_slot c st))"
    and "\<And>c r t. op = Block c r t \<Longrightarrow> P (record_block c r t None st)"
  shows "P (gh_step op st)"
  using assms by (cases op) (simp_all add: perform_def)

lemma step_scope [simp]: "quota_scope j (gh_step op st) = quota_scope j st"
proof (rule step_cases)
  fix c rj rt b
  show "quota_scope j (fst (secondary_result c rj rt b st)) = quota_scope j st"
    using result_cases [of c rj rt b st] by auto
next
  fix c
  show "quota_scope j (fst (mutation_slot c st)) = quota_scope j st" using slot_cases [of c st] by auto
qed simp_all

lemma run_scope [simp]: "quota_scope j (fold gh_step ops st) = quota_scope j st"
  by (induction ops arbitrary: st) simp_all

section \<open>The deadlines of the throttle and of a bucket\<close>

lemma until_forward: "until \<le> rejected_until now until prior retry"
  by (simp add: rejected_until_def)

text \<open>How one operation can change an account's throttle.\<close>

inductive throttled :: "rat \<Rightarrow> throttle \<Rightarrow> throttle \<Rightarrow> bool" for now where
  same: "throttled now t t"
| rejected: "throttled now t (after_rejection now rt b t)"
| cleared: "th_until t \<le> now \<Longrightarrow> th_mutation t \<le> now \<Longrightarrow> throttled now t (cleared t)"
| granted: "th_next t \<le> now \<Longrightarrow> throttled now t (t\<lparr>th_next := now + 2, th_probe := p\<rparr>)"

lemma throttle_step: "throttled (op_now op) (throttle_of q st) (throttle_of q (gh_step op st))"
proof (cases op)
  case (Remember c d)
  then show ?thesis by (simp add: perform_def throttled.same)
next
  case (Block c r t)
  then show ?thesis by (simp add: perform_def throttled.same)
next
  case (Result c rj rt b)
  then have s: "gh_step op st = fst (secondary_result c rj rt b st)" "op_now op = ca_now c" by (simp_all add: perform_def op_caller_def)
  from result_cases [of c rj rt b st] show ?thesis unfolding s
    by (cases rj) (auto intro: throttled.intros)
next
  case (Slot c)
  then have s: "gh_step op st = fst (mutation_slot c st)" "op_now op = ca_now c" by (simp_all add: perform_def op_caller_def)
  from slot_cases [of c st] show ?thesis unfolding s
  proof
    assume "\<exists>q'. quota_scope (ca_scope c) st = Some q' \<and> ca_locked c \<and> th_next (throttle_of q' st) \<le> ca_now c
        \<and> th_until (throttle_of q' st) \<le> ca_now c \<and> th_mutation (throttle_of q' st) \<le> ca_now c
        \<and> fst (mutation_slot c st) = set_throttle q' ((throttle_of q' st)\<lparr>th_next := ca_now c + 2,
             th_probe := (if th_failures (throttle_of q' st) \<noteq> 0 \<or> th_mutation_failures (throttle_of q' st) \<noteq> 0
                          then ca_now c + 30 else th_probe (throttle_of q' st))\<rparr>) st"
    then obtain q' p where "th_next (throttle_of q' st) \<le> ca_now c"
        and "fst (mutation_slot c st) = set_throttle q' ((throttle_of q' st)\<lparr>th_next := ca_now c + 2, th_probe := p\<rparr>) st" by blast
    then show "throttled (ca_now c) (throttle_of q st) (throttle_of q (fst (mutation_slot c st)))"
      by (cases "q = q'") (simp_all add: throttled.same throttled.granted)
  qed (simp add: throttled.same)
qed

lemma throttled_keeps:
  assumes "throttled now t t'" and "now < x"
  shows "x \<le> th_until t \<Longrightarrow> x \<le> th_until t'" and "x \<le> th_mutation t \<Longrightarrow> x \<le> th_mutation t'"
    and "x \<le> th_next t \<Longrightarrow> x \<le> th_next t'"
  using assms(1) assms(2-) by (cases rule: throttled.cases; auto simp: after_rejection_def until_forward cleared_def intro: order_trans [OF _ until_forward])+

lemmas until_step = throttled_keeps(1) [OF throttle_step]
  and mutation_step = throttled_keeps(2) [OF throttle_step]
  and next_step = throttled_keeps(3) [OF throttle_step]

definition exhaustion :: "bucket option \<Rightarrow> rat" where
  "exhaustion b = (case b of None \<Rightarrow> 0 | Some b \<Rightarrow> of_int (bk_exhausted b))"

definition exhausted_until :: "string \<Rightarrow> string \<Rightarrow> gh_state \<Rightarrow> rat" where
  "exhausted_until q r st = exhaustion (gs_buckets st (q, r))"

lemma absorb_exhausted:
  "exhaustion prior \<le> exhaustion (Some (absorb_reading now n t prior))"
  "n = 0 \<Longrightarrow> now < of_int t \<Longrightarrow> of_int t \<le> exhaustion (Some (absorb_reading now n t prior))"
  by (cases prior; simp add: exhaustion_def absorb_reading_def Let_def)+

lemma buckets_step: "gs_buckets (gh_step op st) = gs_buckets st
    \<or> (\<exists>c d q r n t. op = Remember c d \<and> quota_scope (ca_scope c) st = Some q \<and> quota_reading d = Some (r, n, t)
        \<and> gs_buckets (gh_step op st) = (gs_buckets st)((q, r) \<mapsto> absorb_reading (ca_now c) n t (gs_buckets st (q, r))))"
proof (cases op)
  case (Remember c d)
  then show ?thesis using remember_quota_cases [of c d "ca_scope c" st] by (auto simp: perform_def)
next
  case (Result c rj rt b)
  then show ?thesis using result_cases [of c rj rt b st] by (auto simp: perform_def)
next
  case (Slot c)
  then show ?thesis using slot_cases [of c st] by (auto simp: perform_def)
qed (simp add: perform_def)

lemma exhausted_step: "x \<le> exhausted_until q r st \<Longrightarrow> x \<le> exhausted_until q r (gh_step op st)"
  using buckets_step [of op st]
proof
  assume "x \<le> exhausted_until q r st"
    and "\<exists>c d q' r' n t. op = Remember c d \<and> quota_scope (ca_scope c) st = Some q' \<and> quota_reading d = Some (r', n, t)
        \<and> gs_buckets (gh_step op st) = (gs_buckets st)((q', r') \<mapsto> absorb_reading (ca_now c) n t (gs_buckets st (q', r')))"
  then obtain q' r' n t now where x: "x \<le> exhaustion (gs_buckets st (q, r))"
      and g: "gs_buckets (gh_step op st) = (gs_buckets st)((q', r') \<mapsto> absorb_reading now n t (gs_buckets st (q', r')))"
    unfolding exhausted_until_def by blast
  show ?thesis
  proof (cases "(q', r') = (q, r)")
    case True
    with x absorb_exhausted(1) [of "gs_buckets st (q, r)" now n t] show ?thesis
      unfolding exhausted_until_def g by simp
  qed (use x g in \<open>auto simp: exhausted_until_def\<close>)
qed (simp add: exhausted_until_def)

lemma bucket_remains: "gs_buckets st k = Some b \<Longrightarrow> \<exists>b'. gs_buckets (fold gh_step ops st) k = Some b'"
proof (induction ops arbitrary: st b)
  case (Cons op ops)
  have "\<exists>b'. gs_buckets (gh_step op st) k = Some b'" using buckets_step [of op st] Cons.prems by auto
  then show ?case using Cons.IH by auto
qed simp

interpretation account: deadline_keeper gh_step "\<lambda>st. th_until (throttle_of q st)" op_now for q
  by unfold_locales (rule until_step)

interpretation content: deadline_keeper gh_step "\<lambda>st. th_mutation (throttle_of q st)" op_now for q
  by unfold_locales (rule mutation_step)

interpretation pacing: deadline_keeper gh_step "\<lambda>st. th_next (throttle_of q st)" op_now for q
  by unfold_locales (rule next_step)

interpretation bucket: deadline_keeper gh_step "exhausted_until q r" op_now for q r
  by unfold_locales (rule exhausted_step)

lemma split_run:
  assumes "i < j" and "j < length ops"
  shows "fold gh_step (take j ops) st = fold gh_step (take (j - Suc i) (drop (Suc i) ops)) (gh_step (ops ! i) (fold gh_step (take i ops) st))"
proof -
  have "take j ops = take i ops @ ops ! i # take (j - Suc i) (drop (Suc i) ops)"
    using assms by (metis Suc_leI add_diff_inverse_nat append.assoc append_Cons append_Nil less_imp_le_nat not_le order_less_trans
        take_Suc_conv_app_nth take_add)
  then show ?thesis by simp
qed

lemma between:
  assumes "sorted (map op_now ops)" and "i < j" and "j < length ops" and "e \<in> set (take (j - Suc i) (drop (Suc i) ops))"
  shows "op_now e \<le> op_now (ops ! j)"
proof -
  from assms(4) obtain k where k: "k < j - Suc i" "e = ops ! (Suc i + k)"
    using assms(2,3) by (auto simp: in_set_conv_nth)
  then have "Suc i + k \<le> j" by simp
  with k(2) assms(1,3) show ?thesis
    using sorted_nth_mono [of "map op_now ops" "Suc i + k" j] by simp
qed

text \<open>
  C14: publications are paced. Over any sequence of operations of the workers of a host, at times that do not go back, two
  slots granted to one account are at least two seconds apart, and after a rejection no slot is granted to it before the
  reported delay is over.
\<close>

theorem publications_are_paced:
  assumes "sorted (map op_now ops)" and "i < j" and "j < length ops"
    and "ops ! j = Slot c'" and "ca_locked c'" and "quota_scope (ca_scope c') st = Some q" and "snd (performed ops st) ! j = 0"
    and "quota_scope (ca_scope (op_caller (ops ! i))) st = Some q" and "ca_locked (op_caller (ops ! i))"
  shows "(ops ! i = Slot c \<longrightarrow> snd (performed ops st) ! i = 0 \<longrightarrow> ca_now c + 2 \<le> ca_now c')
    \<and> (ops ! i = Result c True retry content_only \<longrightarrow> 1 < snd (performed ops st) ! i
         \<longrightarrow> ca_now c + snd (performed ops st) ! i \<le> ca_now c')"
proof -
  define s where "s = fold gh_step (take i ops) st"
  define mid where "mid = take (j - Suc i) (drop (Suc i) ops)"
  define s' where "s' = fold gh_step mid (gh_step (ops ! i) s)"
  have qs: "quota_scope k s = quota_scope k st" "quota_scope k s' = quota_scope k st" for k by (simp_all add: s_def s'_def)
  have run: "fold gh_step (take j ops) st = s'" using split_run [OF assms(2,3)] by (simp add: s_def s'_def mid_def)
  have granted: "snd (mutation_slot c' s') = 0"
    using performed_nth [OF assms(3), of st] assms(4,7) run by (simp add: perform_def)
  then have free: "th_until (throttle_of q s') \<le> ca_now c'" "th_mutation (throttle_of q s') \<le> ca_now c'" "th_next (throttle_of q s') \<le> ca_now c'"
    using assms(5,6) by (auto simp: mutation_slot_def qs Let_def max_def split: if_splits)
  have late: "\<forall>e\<in>set mid. op_now e < x" if "ca_now c' < x" for x
    using between [OF assms(1-3)] assms(4) that unfolding mid_def by (fastforce simp: op_caller_def)
  have at: "snd (performed ops st) ! i = snd (perform (ops ! i) s)"
    using performed_nth [of i ops st] assms(2,3) by (simp add: s_def)
  have slots: "ca_now c + 2 \<le> ca_now c'" if i: "ops ! i = Slot c" and "snd (performed ops st) ! i = 0"
  proof (rule ccontr)
    assume "\<not> ca_now c + 2 \<le> ca_now c'"
    then have less: "ca_now c' < ca_now c + 2" by simp
    have "snd (mutation_slot c s) = 0" using that at by (simp add: perform_def)
    then have "ca_now c + 2 \<le> th_next (throttle_of q (gh_step (ops ! i) s))"
      using assms(8,9) i by (auto simp: mutation_slot_def qs Let_def perform_def op_caller_def max_def split: if_splits)
    then have "ca_now c + 2 \<le> th_next (throttle_of q s')" unfolding s'_def by (rule pacing.kept) (rule late [OF less])
    then show False using free(3) less by simp
  qed
  have pauses: "ca_now c + snd (performed ops st) ! i \<le> ca_now c'"
    if i: "ops ! i = Result c True retry content_only" and d: "1 < snd (performed ops st) ! i"
  proof (rule ccontr)
    define e where "e = ca_now c + snd (performed ops st) ! i"
    assume "\<not> ca_now c + snd (performed ops st) ! i \<le> ca_now c'"
    then have less: "ca_now c' < e" by (simp add: e_def)
    have r: "snd (performed ops st) ! i = snd (secondary_result c True retry content_only s)" using at i by (simp add: perform_def)
    have "e = (if content_only then th_mutation (throttle_of q (gh_step (ops ! i) s)) else th_until (throttle_of q (gh_step (ops ! i) s)))"
      using assms(8,9) i d unfolding e_def r
      by (auto simp: secondary_result_def qs Let_def perform_def op_caller_def max_def split: if_splits)
    then have "e \<le> th_mutation (throttle_of q s') \<or> e \<le> th_until (throttle_of q s')"
      unfolding s'_def using content.kept [OF _ late [OF less]] account.kept [OF _ late [OF less]] by (metis order_refl)
    then show False using free less by auto
  qed
  show ?thesis using slots pauses by blast
qed


text \<open>
  The account behind a token becomes known: an exhaustion that is not the newest window's reading is not carried over to
  the account, and the bucket is admitted again before its reset.
\<close>

lemma principal_forgets_exhaustion:
  assumes "gs_buckets st (i, ''core'') = Some \<lparr>bk_remaining = 50, bk_reset = 200, bk_exhausted = 100\<rparr>"
    and "gs_scopes st = Map.empty" and "gs_buckets st (p, ''core'') = None" and "i \<noteq> p" and "p \<noteq> []"
  shows "observed_budget 10 (Some i) st ''core'' = Some (0, 100)"
    and "observed_budget 10 (Some i) (register_principal \<lparr>ca_scope = Some i, ca_worker = w, ca_now = 10, ca_locked = True\<rparr> p [''core''] st) ''core''
      = Some (50, 200)"
proof -
  have o: "resource_ok ''core''" by (simp add: resource_ok_def)
  show "observed_budget 10 (Some i) st ''core'' = Some (0, 100)" using assms by (simp add: observed_budget_def quota_scope_def)
  show "observed_budget 10 (Some i) (register_principal \<lparr>ca_scope = Some i, ca_worker = w, ca_now = 10, ca_locked = True\<rparr> p [''core''] st) ''core''
      = Some (50, 200)"
    using assms o by (simp add: observed_budget_def quota_scope_def register_principal_def remember_quota_def quota_reading_def absorb_reading_def Let_def)
qed

section \<open>A concrete host\<close>

definition fresh_host :: gh_state where
  "fresh_host = \<lparr>gs_scopes = Map.empty, gs_buckets = Map.empty, gs_throttles = Map.empty, gs_blocked = Map.empty\<rparr>"

definition worker_at :: "string \<Rightarrow> rat \<Rightarrow> caller" where
  "worker_at w t = \<lparr>ca_scope = Some ''token'', ca_worker = w, ca_now = t, ca_locked = True\<rparr>"

lemmas host_simps = fresh_host_def worker_at_def quota_scope_def perform_def mutation_slot_def secondary_result_def throttle_of_def
  set_throttle_def no_throttle_def after_rejection_def rejected_until_def next_failures_def rejection_delay_def Let_def

theorem publications_are_paced_witness:
  "(10 :: rat) + 2 \<le> 100 \<and> (20 :: rat) + 60 \<le> 100"
proof -
  let ?ops = "[Slot (worker_at ''a'' 10), Result (worker_at ''a'' 20) True 0 False, Slot (worker_at ''b'' 100)]"
  have r: "snd (performed ?ops fresh_host) = [0, 60, 0]" by code_simp
  have s: "sorted (map op_now ?ops)" "quota_scope (ca_scope (worker_at w t)) fresh_host = Some ''token''" "ca_locked (worker_at w t)"
      "ca_now (worker_at w t) = t" for w t
    by (simp_all add: op_caller_def worker_at_def quota_scope_def fresh_host_def)
  have a: "ca_now (worker_at ''a'' 10) + 2 \<le> ca_now (worker_at ''b'' 100)"
    using publications_are_paced [where ops = ?ops and i = 0 and j = 2 and c' = "worker_at ''b'' 100" and st = fresh_host and q = "''token''" and c = "worker_at ''a'' 10"] r s
    by (simp add: op_caller_def)
  have b: "ca_now (worker_at ''a'' 20) + 60 \<le> ca_now (worker_at ''b'' 100)"
    using publications_are_paced [where ops = ?ops and i = 1 and j = 2 and c' = "worker_at ''b'' 100" and st = fresh_host and q = "''token''" and c = "worker_at ''a'' 20"
        and retry = 0 and content_only = False] r s
    by (simp add: op_caller_def)
  show ?thesis using a b by (simp add: worker_at_def)
qed

definition empty_core :: jdict where
  "empty_core = [(''resource'', JStr ''core''), (''remaining'', JNum (PInt 0)), (''reset'', JNum (PInt 100))]"


end
