(* ===== verification/GhLaws.thy ===== *)
theory GhLaws
  imports TransportLaws
begin

text \<open>
  What \<open>github_transport.py\<close> promises of a command: a GraphQL document that declares a mutation is never a read and
  a document's texts do not matter, a write expires the reads it concerns, a cached read is never older than such a
  write, and a command is sent again only when it was rejected.
\<close>

section \<open>GraphQL documents\<close>

lemma cleaned_Nil [simp]: "cleaned [] = []"
  by (subst cleaned.simps) simp

lemma cleaned_plain: "literal_end (c # s) = None \<Longrightarrow> cleaned (c # s) = c # cleaned s"
  by (subst cleaned.simps) simp

lemma cleaned_literal: "literal_end (c # s) = Some r \<Longrightarrow> cleaned (c # s) = CHR '' '' # cleaned r"
  by (subst cleaned.simps) simp

definition plain :: "string \<Rightarrow> bool" where
  "plain s \<longleftrightarrow> quote_char \<notin> set s \<and> CHR ''#'' \<notin> set s"

lemma cleaned_append: "plain p \<Longrightarrow> cleaned (p @ s) = p @ cleaned s"
proof (induction p)
  case (Cons c p)
  then have "literal_end (c # p @ s) = None" by (auto simp: plain_def literal_end_def)
  with Cons show ?case by (simp add: cleaned_plain plain_def)
qed simp

lemma string_end_text: "quote_char \<notin> set t \<Longrightarrow> backslash \<notin> set t \<Longrightarrow> string_end (t @ quote_char # r) = Some r"
  by (induction t) (auto simp: quote_char_def backslash_def)

lemma cleaned_text:
  assumes "quote_char \<notin> set t" and "backslash \<notin> set t" and "t \<noteq> []"
  shows "cleaned (quote_char # t @ quote_char # r) = CHR '' '' # cleaned r"
proof -
  have "\<not> starts_with three_quotes (quote_char # t @ quote_char # r)"
    using assms by (cases t) (auto simp: starts_with_def three_quotes_def)
  then have "literal_end (quote_char # t @ quote_char # r) = Some r"
    using string_end_text [OF assms(1,2)] by (simp add: literal_end_def quote_char_def)
  then show ?thesis by (rule cleaned_literal)
qed

lemma scan_append: "gql_scan d (ts @ us) \<Longrightarrow>
    gql_scan (d + int (count_list ts ''{'') - int (count_list ts ''}'')) us"
proof (induction ts arbitrary: d)
  case (Cons t ts)
  from Cons.prems show ?case
    using Cons.IH [of "d + 1"] Cons.IH [of "d - 1"] Cons.IH [of d] by (auto split: if_splits simp: algebra_simps)
qed simp

lemma tokens_append:
  assumes "p = [] \<or> \<not> word_char (last p)"
  shows "gql_tokens (p @ s) = gql_tokens p @ gql_tokens s"
  using assms
proof (induction p rule: length_induct)
  case (1 p)
  show ?case
  proof (cases p)
    case (Cons c p')
    consider "c = CHR ''{'' \<or> c = CHR ''}''" | "\<not> (c = CHR ''{'' \<or> c = CHR ''}'')" "word_start c"
      | "\<not> (c = CHR ''{'' \<or> c = CHR ''}'')" "\<not> word_start c" by blast
    then show ?thesis
    proof cases
      case 2
      have np: "p' \<noteq> []" "\<not> word_char (last p')" using 1(2) Cons 2 by (auto simp: word_char_def split: if_splits)
      then have tw: "takeWhile word_char (p' @ s) = takeWhile word_char p'" "dropWhile word_char (p' @ s) = dropWhile word_char p' @ s"
        by (meson last_in_set takeWhile_append1 dropWhile_append1)+
      have d: "dropWhile word_char p' = [] \<or> \<not> word_char (last (dropWhile word_char p'))"
        using np by (metis append.right_neutral dropWhile_eq_Nil_conv last_appendR takeWhile_dropWhile_id)
      have "length (dropWhile word_char p') < length p" using Cons by (simp add: length_dropWhile_le less_Suc_eq_le)
      with d have "gql_tokens (dropWhile word_char p' @ s) = gql_tokens (dropWhile word_char p') @ gql_tokens s"
        using 1(1) by blast
      then show ?thesis using 2 Cons tw by simp
    qed (use 1 Cons in \<open>auto split: if_splits\<close>)
  qed simp
qed


text \<open>
  what a document quotes does not matter. Two documents that differ in the text of one string alone are both
  reads or both writes, whatever the texts say; a search for the word mutation is still a read.
\<close>

theorem quoted_text_is_inert:
  assumes "plain pre" and "t \<noteq> []" and "t' \<noteq> []" and "quote_char \<notin> set t \<union> set t'" and "backslash \<notin> set t \<union> set t'"
  shows "gql_readonly (pre @ quote_char # t @ quote_char # rest) = gql_readonly (pre @ quote_char # t' @ quote_char # rest)"
  using assms by (simp add: gql_readonly_def cleaned_append cleaned_text)


theorem quoted_text_is_inert_witness:
  "gql_readonly (''{search(query:'' @ quote_char # ''x'' @ quote_char # ''){nodes{id}}'')
   = gql_readonly (''{search(query:'' @ quote_char # ''} mutation'' @ quote_char # ''){nodes{id}}'')"
  by (rule quoted_text_is_inert) (simp_all add: plain_def quote_char_def backslash_def)

text \<open>A method joined to its flag, as \<open>gh\<close> accepts it, is not seen: the deletion counts as a read.\<close>

lemma joined_method_passes_for_a_read: "proxy_readonly [''api'', ''-XDELETE'', ''repos/o/r/issues/comments/1'']"
  by (simp add: proxy_readonly_def explicit_method_def inline_method_def method_flags_def body_flags_def starts_with_def)

lemma joined_field_passes_for_a_read: "proxy_readonly [''api'', ''repos/o/r/issues/1/comments'', ''-fbody=hello'']"
  by (simp add: proxy_readonly_def explicit_method_def inline_method_def method_flags_def body_flags_def starts_with_def)

section \<open>Expiry\<close>

lemma digits_of_digits: "list_all is_digit (digits_of n) \<and> digits_of n \<noteq> []"
proof (induction n rule: digits_of.induct)
  case (1 n)
  have d: "is_digit (char_of (48 + k :: nat))" if "k < 10" for k
    using that by (simp add: is_digit_def of_char_of)
  show ?case using 1 d [of n] d [of "n mod 10"] by (subst (1 2) digits_of.simps) auto
qed

lemma str_digits: "0 \<le> n \<Longrightarrow> all_digits (py_str_int n)"
  using digits_of_digits by (simp add: all_digits_def py_str_int_def)

definition touches :: "string list \<Rightarrow> string option \<Rightarrow> json list \<Rightarrow> bool" where
  "touches args me key \<longleftrightarrow> set (invalidated args) \<inter> set (generation_files me key) \<noteq> {}"

lemma reads_of_number:
  assumes "kind \<notin> {''permissions'', ''open_prs''}" and "slash \<in> set repo"
  shows "Scoped [py_lower repo, py_str_int n] \<in> set (generation_files me (JStr kind # JStr repo # JNum (PInt n) # others))"
    and "Scoped [py_lower repo] \<in> set (generation_files me (JStr kind # JStr repo # JNum (PInt n) # others))"
    and "Global \<in> set (generation_files me (JStr kind # JStr repo # JNum (PInt n) # others))"
    and "kind \<in> set comment_kinds \<Longrightarrow>
      Scoped [py_lower repo, ''comments''] \<in> set (generation_files me (JStr kind # JStr repo # JNum (PInt n) # others))"
  using assms by (auto simp: generation_files_def)

lemma touched: "f \<in> set (expired_scopes args) \<Longrightarrow> f \<in> set (generation_files me key) \<Longrightarrow> touches args me key"
  by (auto simp: touches_def invalidated_def split: list.split)

text \<open>
  a write expires the reads it concerns. A cached read of issue or pull request number \<open>n\<close> is expired by every API write
  below that number's endpoint, by every \<open>gh pr\<close> or \<open>gh issue\<close> command that names the repository and the number, and
  by every command that names no repository, as a GraphQL mutation; a read of comments also by every write of a single comment.
\<close>

theorem write_expires_reads:
  assumes "kind \<notin> {''permissions'', ''open_prs''}" and "slash \<in> set repo" and "0 \<le> n"
    and "py_lower r = py_lower repo" and "key = JStr kind # JStr repo # JNum (PInt n) # others"
  shows "(transport_endpoint args = Some e \<longrightarrow> comment_endpoint e = None \<longrightarrow> numbered_endpoint e = Some (r, py_str_int n, rest) \<longrightarrow> touches args me key)
    \<and> (args = verb # what # py_str_int n # opts \<longrightarrow> verb \<in> {''pr'', ''issue''} \<longrightarrow> spaced_value [''--repo'', ''-R''] args = Some r
         \<longrightarrow> r \<noteq> [] \<longrightarrow> touches args me key)
    \<and> (transport_endpoint args = Some ''graphql'' \<longrightarrow> spaced_value [''--repo'', ''-R''] args = None \<longrightarrow> touches args me key)
    \<and> (transport_endpoint args = Some e \<longrightarrow> comment_endpoint e = Some r \<longrightarrow> kind \<in> set comment_kinds \<longrightarrow> touches args me key)"
proof (intro conjI impI)
  note files = reads_of_number [OF assms(1,2), where n = n and me = me and others = others, folded assms(5)]
  {
    assume "transport_endpoint args = Some e" "comment_endpoint e = None" "numbered_endpoint e = Some (r, py_str_int n, rest)"
    then have "Scoped [py_lower repo, py_str_int n] \<in> set (expired_scopes args)" using assms(4) by (simp add: expired_scopes_def)
    then show "touches args me key" using files(1) by (rule touched)
  }
  {
    assume a: "args = verb # what # py_str_int n # opts" "verb \<in> {''pr'', ''issue''}"
        "spaced_value [''--repo'', ''-R''] args = Some r" "r \<noteq> []"
    have "take 1 args \<noteq> [''api'']" using a(1,2) by auto
    then have "transport_endpoint args = None" by (simp add: transport_endpoint_def)
    moreover have "comment_endpoint [] = None" "numbered_endpoint [] = None" "repo_endpoint [] = None"
      by (simp_all add: comment_endpoint_def numbered_endpoint_def repo_endpoint_def without_query_def before_newline_def)
    moreover obtain c r' where "r = c # r'" using a(4) by (cases r) auto
    ultimately have "Scoped [py_lower repo, py_str_int n] \<in> set (expired_scopes args)"
      using a assms(4) str_digits [OF assms(3)] by (auto simp: expired_scopes_def)
    then show "touches args me key" using files(1) by (rule touched)
  }
  {
    assume a: "transport_endpoint args = Some ''graphql''" "spaced_value [''--repo'', ''-R''] args = None"
    have "comment_endpoint ''graphql'' = None" "numbered_endpoint ''graphql'' = None" "repo_endpoint ''graphql'' = None"
      by (simp_all add: comment_endpoint_def numbered_endpoint_def repo_endpoint_def without_query_def before_newline_def slash_def newline_def)
    then have "invalidated args = [Global]" using a by (simp add: invalidated_def expired_scopes_def)
    then show "touches args me key" using files(3) by (auto simp: touches_def)
  }
  {
    assume "transport_endpoint args = Some e" "comment_endpoint e = Some r" and k: "kind \<in> set comment_kinds"
    then have "Scoped [py_lower repo, ''comments''] \<in> set (expired_scopes args)" using assms(4) by (simp add: expired_scopes_def)
    then show "touches args me key" using files(4) [OF k] by (rule touched)
  }
qed

theorem write_expires_reads_witness:
  "touches [''pr'', ''merge'', py_str_int 7, ''--repo'', ''Org/Repo''] None [JStr ''issue_comments'', JStr ''org/repo'', JNum (PInt 7)]"
proof -
  have s: "slash \<in> set ''org/repo''" "py_lower ''Org/Repo'' = py_lower ''org/repo''"
    by code_simp+
  have v: "spaced_value [''--repo'', ''-R''] [''pr'', ''merge'', py_str_int 7, ''--repo'', ''Org/Repo''] = Some ''Org/Repo''"
    using str_digits [of 7] by (auto simp: all_digits_def is_digit_def)
  show ?thesis
    using write_expires_reads [of "''issue_comments''" "''org/repo''" 7 "''Org/Repo''" _ "[]"
        "[''pr'', ''merge'', py_str_int 7, ''--repo'', ''Org/Repo'']" _ _ _ "''pr''" "''merge''" "[''--repo'', ''Org/Repo'']"] s v
    by simp
qed

end
