(* ===== verification/ExecuteLaws.thy ===== *)
theory ExecuteLaws
  imports GhLaws
begin

text \<open>
  The cache of reads of \<open>github_transport.shared_read\<close> over all interleavings of readers and writers, and the loop
  of \<open>_execute\<close>: when a command is sent and when it is sent again.
\<close>

section \<open>The tokens of the generation files\<close>

definition op_fresh :: "'v cache_op \<Rightarrow> (gen_file \<times> string) list" where
  "op_fresh op = (case op of Expire fresh \<Rightarrow> fresh | _ \<Rightarrow> [])"

definition op_tokens :: "'v cache_op \<Rightarrow> string list" where
  "op_tokens op = map snd (op_fresh op)"

definition op_files :: "'v cache_op \<Rightarrow> gen_file set" where
  "op_files op = fst ` set (op_fresh op)"

lemma end_fetch_tokens [simp]: "cc_tokens (end_fetch i k rv now imm v cc) = cc_tokens cc"
  by (simp add: end_fetch_def Let_def split: option.split)

lemma step_tokens: "cc_tokens (cache_step op cc) = set_tokens (op_fresh op) (cc_tokens cc)"
  by (cases op) (simp_all add: cache_step_def op_fresh_def begin_fetch_def expire_def)

lemma set_tokens_range: "set_tokens l g x = g x \<or> set_tokens l g x \<in> snd ` set l"
proof (induction l arbitrary: g)
  case (Cons p l)
  obtain f t where p: "p = (f, t)" by fastforce
  show ?case
    using Cons.IH [of "g(f := t)"] fun_upd_apply [of g f t x] by (auto simp: p simp del: fun_upd_apply split: if_splits)
qed simp

lemma set_tokens_hit: "x \<in> fst ` set l \<Longrightarrow> set_tokens l g x \<in> snd ` set l"
proof (induction l arbitrary: g)
  case (Cons p l)
  show ?case
  proof (cases "x \<in> fst ` set l")
    case True
    have "set_tokens l (g(fst p := snd p)) x \<in> snd ` set l" using Cons.IH [OF True] .
    then show ?thesis by (cases p) simp
  next
    case False
    with Cons.prems have "x = fst p" by simp
    with set_tokens_range [of l "g(fst p := snd p)" x] show ?thesis by (cases p) auto
  qed
qed simp

lemma run_tokens: "cc_tokens (cache_run ops cc) f = cc_tokens cc f \<or> cc_tokens (cache_run ops cc) f \<in> set (concat (map op_tokens ops))"
proof (induction ops arbitrary: cc)
  case (Cons op ops)
  have "cc_tokens (cache_step op cc) f = cc_tokens cc f \<or> cc_tokens (cache_step op cc) f \<in> set (op_tokens op)"
    using set_tokens_range [of "op_fresh op" "cc_tokens cc" f] by (simp add: step_tokens op_tokens_def)
  then show ?case using Cons.IH [of "cache_step op cc"] by (auto simp: cache_run_def)
qed (simp add: cache_run_def)

lemma run_tokens_hit:
  assumes "op \<in> set ops" and "f \<in> op_files op"
  shows "cc_tokens (cache_run ops cc) f \<in> set (concat (map op_tokens ops))"
  using assms(1)
proof (induction ops arbitrary: cc)
  case (Cons a ops)
  show ?case
  proof (cases "op \<in> set ops")
    case True
    with Cons.IH show ?thesis by (simp add: cache_run_def)
  next
    case False
    with Cons.prems have "a = op" by simp
    then have "cc_tokens (cache_step a cc) f \<in> set (op_tokens a)"
      using set_tokens_hit assms(2) by (simp add: step_tokens op_tokens_def op_files_def)
    then show ?thesis using run_tokens [of ops "cache_step a cc" f] by (auto simp: cache_run_def)
  qed
qed simp

lemma run_append: "cache_run (xs @ ys) cc = cache_run ys (cache_run xs cc)"
  by (simp add: cache_run_def)

text \<open>Tokens are never reused, so an unchanged generation means that no write came in between.\<close>

lemma unchanged_generation:
  assumes "distinct (concat (map op_tokens (xs @ ys)))" and "[] \<notin> set (concat (map op_tokens (xs @ ys)))"
    and "generation me key (cc_tokens (cache_run xs empty_cache)) = generation me key (cc_tokens (cache_run (xs @ ys) empty_cache))"
    and "op \<in> set ys"
  shows "op_files op \<inter> set (generation_files me key) = {}"
proof (rule ccontr)
  assume "op_files op \<inter> set (generation_files me key) \<noteq> {}"
  then obtain f where f: "f \<in> op_files op" "f \<in> set (generation_files me key)" by blast
  have same: "cc_tokens (cache_run xs empty_cache) f = cc_tokens (cache_run (xs @ ys) empty_cache) f"
    using assms(3) f(2) by (simp add: generation_def)
  have new: "cc_tokens (cache_run (xs @ ys) empty_cache) f \<in> set (concat (map op_tokens ys))"
    unfolding run_append by (rule run_tokens_hit [OF assms(4) f(1)])
  have old: "cc_tokens (cache_run xs empty_cache) f = [] \<or> cc_tokens (cache_run xs empty_cache) f \<in> set (concat (map op_tokens xs))"
    using run_tokens [of xs empty_cache f] by (simp add: empty_cache_def)
  show False using same new old assms(1,2) by auto
qed

section \<open>Where an entry comes from\<close>

text \<open>A fetch in flight began in the epoch it carries, and an entry was published by a fetch that began in its epoch.\<close>

definition fetching :: "'v cache_op list \<Rightarrow> string \<Rightarrow> json list \<Rightarrow> string list \<Rightarrow> bool" where
  "fetching ops i k epoch \<longleftrightarrow> (\<exists>xs ys. ops = xs @ Begin i k # ys \<and> epoch = generation (Some i) k (cc_tokens (cache_run xs empty_cache)))"

definition published :: "'v cache_op list \<Rightarrow> string \<Rightarrow> json list \<Rightarrow> 'v cached \<Rightarrow> bool" where
  "published ops i k e \<longleftrightarrow>
     (\<exists>xs ys zs rv now imm. ops = xs @ Begin i k # ys @ End i k rv now imm (Some (cv_value e)) # zs
        \<and> cv_generation e = generation (Some i) k (cc_tokens (cache_run xs empty_cache)))"

lemma fetching_later: "fetching ops i k epoch \<Longrightarrow> fetching (ops @ [op]) i k epoch"
  unfolding fetching_def by (metis append.assoc append_Cons)

lemma published_later: "published ops i k e \<Longrightarrow> published (ops @ [op]) i k e"
  unfolding published_def by (metis (no_types, lifting) append.assoc append_Cons)

lemma published_now:
  "fetching ops i k epoch \<Longrightarrow> cv_generation e = epoch \<Longrightarrow> published (ops @ [End i k rv now imm (Some (cv_value e))]) i k e"
  unfolding fetching_def published_def by (metis append.assoc append_Cons)

lemma entries_step:
  "cc_entries (cache_step op cc) (i, k) = Some e \<Longrightarrow> cc_entries cc (i, k) = Some e
     \<or> (\<exists>rv now imm epoch. op = End i k rv now imm (Some (cv_value e)) \<and> cc_reading cc (i, k) = Some epoch \<and> cv_generation e = epoch)"
  by (cases op) (auto simp: cache_step_def begin_fetch_def expire_def end_fetch_def Let_def split: option.splits if_splits)

lemma reading_step:
  "cc_reading (cache_step op cc) (i, k) = Some epoch \<Longrightarrow> cc_reading cc (i, k) = Some epoch
     \<or> op = Begin i k \<and> epoch = generation (Some i) k (cc_tokens cc)"
  by (cases op) (auto simp: cache_step_def begin_fetch_def expire_def end_fetch_def Let_def split: option.splits if_splits)

lemma origin:
  "(cc_reading (cache_run ops empty_cache) (i, k) = Some epoch \<longrightarrow> fetching ops i k epoch)
   \<and> (cc_entries (cache_run ops empty_cache) (i, k) = Some e \<longrightarrow> published ops i k e)"
proof (induction ops arbitrary: epoch e rule: rev_induct)
  case Nil
  then show ?case by (simp add: cache_run_def empty_cache_def)
next
  case (snoc op ops)
  let ?c = "cache_run ops empty_cache"
  have run: "cache_run (ops @ [op]) empty_cache = cache_step op ?c" by (simp add: cache_run_def)
  have "fetching (ops @ [op]) i k epoch" if "cc_reading (cache_step op ?c) (i, k) = Some epoch"
    using reading_step [OF that]
  proof
    assume "op = Begin i k \<and> epoch = generation (Some i) k (cc_tokens ?c)"
    then show ?thesis unfolding fetching_def by blast
  qed (use snoc fetching_later in blast)
  moreover have "published (ops @ [op]) i k e" if "cc_entries (cache_step op ?c) (i, k) = Some e"
    using entries_step [OF that]
  proof
    assume "\<exists>rv now imm epoch. op = End i k rv now imm (Some (cv_value e)) \<and> cc_reading ?c (i, k) = Some epoch \<and> cv_generation e = epoch"
    then show ?thesis using snoc published_now by blast
  qed (use snoc published_later in blast)
  ultimately show ?case unfolding run by blast
qed

text \<open>
  C16: a cached read is never older than a write that concerns it. Over any interleaving of fetches and writes, a
  value served from the cache was fetched by a read that began after the last write that expires its key; a fetch that a
  write overlaps is not published.
\<close>

theorem no_stale_read:
  assumes "distinct (concat (map op_tokens ops))" and "[] \<notin> set (concat (map op_tokens ops))"
    and "lookup_read i k revision ttl now False (cache_run ops empty_cache) = Some v"
  shows "\<exists>xs ys zs rv t imm. ops = xs @ Begin i k # ys @ End i k rv t imm (Some v) # zs
    \<and> (\<forall>op\<in>set (ys @ zs). op_files op \<inter> set (generation_files (Some i) k) = {})"
proof -
  obtain e where e: "cc_entries (cache_run ops empty_cache) (i, k) = Some e" "cv_value e = v"
      "cv_generation e = generation (Some i) k (cc_tokens (cache_run ops empty_cache))"
    using assms(3) by (auto simp: lookup_read_def split: option.splits if_splits)
  then obtain xs ys zs rv at' imm where o: "ops = xs @ Begin i k # ys @ End i k rv at' imm (Some v) # zs"
      and g: "cv_generation e = generation (Some i) k (cc_tokens (cache_run xs empty_cache))"
    using origin [of ops i k _ e] unfolding published_def by blast
  have "op_files op \<inter> set (generation_files (Some i) k) = {}" if "op \<in> set (ys @ zs)" for op
    using unchanged_generation [of xs "Begin i k # ys @ End i k rv at' imm (Some v) # zs" "Some i" k op] assms(1,2) g e(3) that
    unfolding o by simp
  with o show ?thesis by blast
qed

section \<open>Sending\<close>

lemma after_answer_cases:
  "(\<exists>s'. after_answer a observed resource m p st = (s', Returned p))
   \<or> (\<exists>s' o' r'. after_answer a observed resource m p st = (s', Resend o' r') \<and> as_wait a \<and> vd_failed (verdict_of (as_args a) p)
        \<and> vd_rejected (verdict_of (as_args a) p) \<and> mo_elapsed m \<le> as_ceiling a)"
proof -
  have d: "0 \<le> snd (learn a resource m p st)"
    by (auto simp: learn_def Let_def split: prod.split)
  have e: "\<not> as_ceiling a < mo_elapsed m + x \<Longrightarrow> 0 \<le> x \<Longrightarrow> mo_elapsed m \<le> as_ceiling a" for x by linarith
  show ?thesis
    unfolding after_answer_def Let_def case_prod_beta
    using d e [of "snd (learn a resource m p st)"] by (auto split: option.split simp: not_less)
qed

lemma rejected_single:
  assumes "vd_rejected (verdict_of args p)"
  shows "proxy_readonly args \<or> take 1 args = [''api''] \<and> ''--paginate'' \<notin> set args
    \<and> (\<exists>d. rp_records p = [d] \<and> status_of d \<in> {Some 403, Some 429, Some 422})"
proof (cases "proxy_readonly args")
  case False
  with assms have r: "take 1 args = [''api''] \<and> length (rp_records p) = 1 \<and> ''--paginate'' \<notin> set args"
      "list_all (\<lambda>d. status_of d \<in> {Some 403, Some 429}) (rp_records p) \<or> list_ex (\<lambda>d. status_of d = Some 422) (rp_records p)"
    by (auto simp: verdict_of_def Let_def)
  then obtain d where "rp_records p = [d]" by (auto simp: length_Suc_conv)
  with r show ?thesis by auto
qed simp

lemma try_once_cases:
  obtains (unsent) s o' where "try_once a observed resource t st = (s, o', False)" "o' = Refused \<or> o' = Requeue"
  | (returned) s where "try_once a observed resource t st = (s, Returned (tr_reply t), True)"
  | (again) s o' r' where "try_once a observed resource t st = (s, Resend o' r', True)" "as_wait a"
      "vd_failed (verdict_of (as_args a) (tr_reply t))" "vd_rejected (verdict_of (as_args a) (tr_reply t))"
      "mo_elapsed (tr_answer t) \<le> as_ceiling a"
proof -
  obtain s1 g1 where g1: "gate_throttle a (tr_throttle t) (world_at (tr_throttle t) st) = (s1, g1)" by fastforce
  obtain s2 g2 where g2: "gate_bucket a observed resource (tr_bucket t) (world_at (tr_bucket t) s1) = (s2, g2)" by fastforce
  obtain s3 g3 where g3: "gate_slot a (tr_slot t) (world_at (tr_slot t) s2) = (s3, g3)" by fastforce
  note once = try_once_def [of a observed resource t st] g1 g2 g3
  consider "g1 = Refuse \<or> g2 = Refuse \<or> g3 \<noteq> Some Pass" | "g1 = Pass" "g2 = Pass" "g3 = Some Pass"
    using gate.exhaust by metis
  then show ?thesis
  proof cases
    case 1
    then have "\<exists>s o'. try_once a observed resource t st = (s, o', False) \<and> (o' = Refused \<or> o' = Requeue)"
      by (cases g1; cases g2; cases g3) (auto simp: once split: gate.split)
    then show ?thesis using unsent by blast
  next
    case 2
    let ?r = "after_answer a observed resource (tr_answer t) (tr_reply t) (world_at (tr_answer t) s3)"
    have "try_once a observed resource t st = (fst ?r, snd ?r, True)" using 2 by (simp add: once case_prod_beta)
    then show ?thesis
      using after_answer_cases [of a observed resource "tr_answer t" "tr_reply t" "world_at (tr_answer t) s3"] returned again by auto
  qed
qed


text \<open>
  a command is sent only when it is admitted. When a turn of the loop sends, the account was not cooling down or the
  caller waited it out within the ceiling; a direct call's bucket was not known to be exhausted or the caller waited
  past its reset; and a publication holds a slot of the account. A probe of the limits alone passes the first two.
\<close>

theorem sends_only_when_admitted:
  assumes "try_once a observed resource t st = (st', r, True)"
    and "w1 = world_at (tr_throttle t) st" and "w2 = world_at (tr_bucket t) w1" and "w3 = world_at (tr_slot t) w2"
  shows "(let cooling = cooldown (caller_at a (tr_throttle t)) w1 in
        cooling = 0 \<or> quota_probe (as_args a) \<or> as_wait a \<and> mo_elapsed (tr_throttle t) + cooling \<le> as_ceiling a)
    \<and> (observed \<longrightarrow> \<not> quota_probe (as_args a) \<longrightarrow> (\<forall>until. observed_budget (mo_now (tr_bucket t)) (as_scope a) w2 resource = Some (0, until)
         \<longrightarrow> as_wait a \<and> mo_elapsed (tr_bucket t) + max 1 (of_int until - mo_now (tr_bucket t) + 2) \<le> as_ceiling a))
    \<and> (content_write (as_args a) \<longrightarrow> snd (mutation_slot (caller_at a (tr_slot t)) w3) = 0)"
proof -
  obtain s1 g1 where g1: "gate_throttle a (tr_throttle t) w1 = (s1, g1)" by fastforce
  obtain s2 g2 where g2: "gate_bucket a observed resource (tr_bucket t) (world_at (tr_bucket t) s1) = (s2, g2)" by fastforce
  obtain s3 g3 where g3: "gate_slot a (tr_slot t) (world_at (tr_slot t) s2) = (s3, g3)" by fastforce
  have pass: "g1 \<noteq> Refuse" "g2 \<noteq> Refuse" "g3 = Some Pass"
    using assms(1) by (auto simp: try_once_def g1 [unfolded assms(2)] g2 g3 split: if_splits option.splits gate.splits)
  have s1: "s1 = w1" using g1 pass(1) by (auto simp: gate_throttle_def Let_def split: if_splits)
  then have s2: "s2 = w2" using g2 pass(2) assms(3) by (auto simp: gate_bucket_def Let_def split: if_splits)
  have c1: "let cooling = cooldown (caller_at a (tr_throttle t)) w1 in
      cooling = 0 \<or> quota_probe (as_args a) \<or> as_wait a \<and> mo_elapsed (tr_throttle t) + cooling \<le> as_ceiling a"
    using g1 pass(1) by (auto simp: gate_throttle_def Let_def split: if_splits)
  have c2: "as_wait a \<and> mo_elapsed (tr_bucket t) + max 1 (of_int until - mo_now (tr_bucket t) + 2) \<le> as_ceiling a"
    if "observed" "\<not> quota_probe (as_args a)" "observed_budget (mo_now (tr_bucket t)) (as_scope a) w2 resource = Some (0, until)" for until
  proof -
    have d: "bucket_delay a observed resource (mo_now (tr_bucket t)) w2 = max 1 (of_int until - mo_now (tr_bucket t) + 2)"
      using that by (simp add: bucket_delay_def)
    moreover have "max 1 (of_int until - mo_now (tr_bucket t) + 2) \<noteq> 0" by (simp add: max_def)
    ultimately show ?thesis using g2 pass(2) unfolding s1 assms(3) [symmetric] by (auto simp: gate_bucket_def Let_def split: if_splits)
  qed
  have c3: "snd (mutation_slot (caller_at a (tr_slot t)) w3) = 0" if "content_write (as_args a)"
    using g3 pass(3) that unfolding s2 assms(4) [symmetric] by (auto simp: gate_slot_def case_prod_beta Let_def split: if_splits)
  show ?thesis using c1 c2 c3 by blast
qed

section \<open>A concrete call\<close>

theorem no_stale_read_witness:
  "\<exists>xs ys zs rv t imm. [Begin ''token'' [JStr ''k''], End ''token'' [JStr ''k''] [] 5 False (Some (7 :: int)), Expire [(Scoped [''o/r''], ''u1'')]]
     = xs @ Begin ''token'' [JStr ''k''] # ys @ End ''token'' [JStr ''k''] rv t imm (Some 7) # zs"
proof -
  let ?ops = "[Begin ''token'' [JStr ''k''], End ''token'' [JStr ''k''] [] 5 False (Some (7 :: int)), Expire [(Scoped [''o/r''], ''u1'')]]"
  have l: "lookup_read ''token'' [JStr ''k''] [] 30 10 False (cache_run ?ops empty_cache) = Some 7"
    by (simp add: cache_run_def cache_step_def begin_fetch_def end_fetch_def expire_def generation_def generation_files_def empty_cache_def
        lookup_read_def Let_def)
  have d: "distinct (concat (map op_tokens ?ops))" "[] \<notin> set (concat (map op_tokens ?ops))"
    by (simp_all add: op_tokens_def op_fresh_def)
  show ?thesis using no_stale_read [OF d l] by blast
qed

definition sample_asker :: asker where
  "sample_asker = \<lparr>as_scope = Some ''token'', as_worker = ''a'', as_args = [''api'', ''user''], as_wait = True, as_ceiling = 900\<rparr>"

definition moment_at :: "rat \<Rightarrow> moment" where
  "moment_at t = \<lparr>mo_now = t, mo_elapsed = t, mo_locked = True, mo_others = []\<rparr>"

definition quiet_reply :: reply where
  "quiet_reply = \<lparr>rp_code = 0, rp_ended = [], rp_cut = [], rp_errors = False, rp_limited = False, rp_says_secondary = False,
     rp_says_cap = False, rp_says_limit = False, rp_says_graphql_limit = False, rp_payload = None\<rparr>"

definition rejected_reply :: reply where
  "rejected_reply = quiet_reply\<lparr>rp_code := 1, rp_ended := [[(''status'', JNum (PInt 429))]]\<rparr>"

definition attempt_at :: "rat \<Rightarrow> reply \<Rightarrow> attempt" where
  "attempt_at t p = \<lparr>tr_throttle = moment_at t, tr_bucket = moment_at t, tr_slot = moment_at t, tr_answer = moment_at t, tr_reply = p\<rparr>"

lemma sample_call: "snd (gh_execute sample_asker [attempt_at 0 rejected_reply, attempt_at 61 quiet_reply] fresh_host)
    = ([rejected_reply, quiet_reply], Some (Returned quiet_reply))"
  by code_simp


theorem sends_only_when_admitted_witness:
  "\<exists>st' r. try_once sample_asker True ''core'' (attempt_at 0 quiet_reply) fresh_host = (st', r, True)
    \<and> (let cooling = cooldown (caller_at sample_asker (moment_at 0)) fresh_host in
        cooling = 0 \<or> quota_probe (as_args sample_asker) \<or> as_wait sample_asker \<and> 0 + cooling \<le> as_ceiling sample_asker)"
proof -
  have "snd (snd (try_once sample_asker True ''core'' (attempt_at 0 quiet_reply) fresh_host))" by code_simp
  then have "\<exists>st' r. try_once sample_asker True ''core'' (attempt_at 0 quiet_reply) fresh_host = (st', r, True)"
    by (metis prod.collapse)
  then obtain st' r where t: "try_once sample_asker True ''core'' (attempt_at 0 quiet_reply) fresh_host = (st', r, True)" by blast
  have w: "world_at (moment_at x) s = s" "tr_throttle (attempt_at x p) = moment_at x" "mo_elapsed (moment_at x) = x" for x s p
    by (simp_all add: world_at_def moment_at_def attempt_at_def)
  from sends_only_when_admitted [OF t refl refl refl] t show ?thesis unfolding w by blast
qed

end
