(* ===== verification/UsageJournal.thy ===== *)
theory UsageJournal
  imports GhCommand "HOL-Library.Sublist"
begin

text \<open>
  The crash-durable record of what a native session used (\<open>usage_accounting.py\<close>): the list price of a response,
  the journal that observes the session's stream of events, its two files, and their reader. The price table and the
  text of JSON values that are no strings are arguments. Journals are kept as records; a file holds whole lines,
  and after a crash a last line that is cut or lacks its newline.
\<close>

section \<open>Prices\<close>

record rates =
  rt_effective :: string
  rt_input :: rat
  rt_output :: rat
  rt_read :: rat
  rt_write_5m :: "rat option"
  rt_write_1h :: rat

type_synonym prices = "(string \<times> rates list) list"
type_synonym usage = "(string \<times> int) list"

definition tokens :: "string list" where
  "tokens = [''input_tokens'', ''output_tokens'', ''cache_read_input_tokens'', ''cache_creation_input_tokens'',
     ''cache_creation_5m_input_tokens'', ''cache_creation_1h_input_tokens'']"

text \<open>The date of a time in UTC, in the proleptic Gregorian calendar: year, month and day of the days since 1970.\<close>

definition civil :: "int \<Rightarrow> int \<times> int \<times> int" where
  "civil z0 =
     (let z = z0 + 719468; era = z div 146097; doe = z mod 146097;
          yoe = (doe - doe div 1460 + doe div 36524 - doe div 146096) div 365;
          doy = doe - (365 * yoe + yoe div 4 - yoe div 100); mp = (5 * doy + 2) div 153;
          d = doy - (153 * mp + 2) div 5 + 1; m = (if mp < 10 then mp + 3 else mp - 9);
          y = yoe + era * 400 + (if m \<le> 2 then 1 else 0)
      in (y, m, d))"

definition padded :: "nat \<Rightarrow> int \<Rightarrow> string" where
  "padded k i = (let s = digits_of (nat i) in replicate (k - length s) (CHR ''0'') @ s)"

definition iso_day :: "rat \<Rightarrow> string" where
  "iso_day t =
     (let (y, m, d) = civil (\<lfloor>t / 86400\<rfloor>) in padded 4 y @ ''-'' @ padded 2 m @ ''-'' @ padded 2 d)"

fun max_by :: "('a \<Rightarrow> 'k::linorder) \<Rightarrow> 'a list \<Rightarrow> 'a option" where
  "max_by f [] = None"
| "max_by f (x # xs) = (case max_by f xs of None \<Rightarrow> Some x | Some y \<Rightarrow> if f x < f y then Some y else Some x)"

definition price_key :: "prices \<Rightarrow> string \<Rightarrow> string option" where
  "price_key table model =
     (if model \<in> fst ` set table then Some model
      else if model = [] then None
      else max_by length (filter (\<lambda>k. sublist k model \<or> model = (if starts_with ''claude-'' k then drop 7 k else k)) (map fst table)))"

definition rates_at :: "prices \<Rightarrow> string \<Rightarrow> rat \<Rightarrow> rates option" where
  "rates_at table model t =
     (case price_key table model of
        None \<Rightarrow> None
      | Some k \<Rightarrow> max_by rt_effective (filter (\<lambda>w. rt_effective w \<le> iso_day t) (the (map_of table k))))"

definition amount :: "usage \<Rightarrow> string \<Rightarrow> rat" where
  "amount u k = (case map_of u k of None \<Rightarrow> 0 | Some n \<Rightarrow> of_int n)"

definition list_price :: "rates \<Rightarrow> rat \<Rightarrow> usage \<Rightarrow> rat" where
  "list_price r write u =
     (let hour = amount u ''cache_creation_1h_input_tokens''; five0 = amount u ''cache_creation_5m_input_tokens'';
          five = five0 + max 0 (amount u ''cache_creation_input_tokens'' - five0 - hour)
      in (amount u ''input_tokens'' * rt_input r + amount u ''output_tokens'' * rt_output r
          + amount u ''cache_read_input_tokens'' * rt_read r + five * write + hour * rt_write_1h r) / 1000000)"

definition price_usage :: "prices \<Rightarrow> string \<Rightarrow> usage \<Rightarrow> rat \<Rightarrow> rat option" where
  "price_usage table model u t =
     (case rates_at table model t of
        None \<Rightarrow> None
      | Some r \<Rightarrow> (case rt_write_5m r of None \<Rightarrow> None | Some write \<Rightarrow> Some (list_price r write u)))"

section \<open>The journal\<close>

record response =
  re_session :: string
  re_message :: string
  re_model :: string
  re_at :: rat
  re_usage :: usage
  re_complete :: bool
  re_streamed :: bool
  re_unpriced :: bool
  re_cost :: "rat option"

record checkpoint =
  ck_id :: string
  ck_model :: string
  ck_started :: rat
  ck_observed :: rat
  ck_provider :: "string option"
  ck_messages :: "(string \<times> response) list"
  ck_inflight :: bool
  ck_closed :: bool
  ck_sequence :: int

datatype line = Whole checkpoint | Unended checkpoint | Cut

record journal_files =
  jf_checkpoint :: "checkpoint option"
  jf_log :: "line list"

record journal =
  jo_value :: checkpoint
  jo_current :: "string \<rightharpoonup> string"
  jo_waiting :: "string set"
  jo_dirty :: "string set"

text \<open>The line that a flush appends, and the two writes; a crash can come after either.\<close>

definition delta :: "string set \<Rightarrow> checkpoint \<Rightarrow> checkpoint" where
  "delta dirty v = v\<lparr>ck_messages := filter (\<lambda>(k, _). k \<in> dirty) (ck_messages v)\<rparr>"

definition next_value :: "bool \<Rightarrow> checkpoint \<Rightarrow> checkpoint" where
  "next_value shut v = v\<lparr>ck_closed := (ck_closed v \<or> shut), ck_sequence := ck_sequence v + 1\<rparr>"

definition appended :: "line \<Rightarrow> journal_files \<Rightarrow> journal_files" where
  "appended l f = f\<lparr>jf_log := jf_log f @ [l]\<rparr>"

definition flush :: "bool \<Rightarrow> journal \<Rightarrow> journal_files \<Rightarrow> journal \<times> journal_files" where
  "flush shut j f =
     (let v = next_value shut (jo_value j)
      in (j\<lparr>jo_value := v, jo_dirty := {}\<rparr>, (appended (Whole (delta (jo_dirty j) v)) f)\<lparr>jf_checkpoint := Some v\<rparr>))"

definition new_journal :: "string \<Rightarrow> string \<Rightarrow> rat \<Rightarrow> rat \<Rightarrow> journal" where
  "new_journal invocation model t t' =
     \<lparr>jo_value = \<lparr>ck_id = invocation, ck_model = model, ck_started = t, ck_observed = t', ck_provider = None, ck_messages = [],
        ck_inflight = True, ck_closed = False, ck_sequence = 0\<rparr>,
      jo_current = Map.empty, jo_waiting = {''unknown''}, jo_dirty = {}\<rparr>"

definition no_files :: journal_files where
  "no_files = \<lparr>jf_checkpoint = None, jf_log = []\<rparr>"

section \<open>Observing an event\<close>

text \<open>\<open>str(v or default)\<close>; \<open>show_json\<close> is the text of a value that is no string.\<close>

definition text_of :: "(json \<Rightarrow> string) \<Rightarrow> string \<Rightarrow> json \<Rightarrow> string" where
  "text_of show_json other v = (if \<not> truthy v then other else case v of JStr s \<Rightarrow> s | _ \<Rightarrow> show_json v)"

definition nonnegative :: "json \<Rightarrow> int option" where
  "nonnegative v = (case v of JNum (PInt n) \<Rightarrow> if 0 \<le> n then Some n else None | _ \<Rightarrow> None)"

text \<open>The counters a usage object reports, with those of its cache creation in place of its own.\<close>

definition reported :: "jdict \<Rightarrow> jdict" where
  "reported u =
     (case jget0 u ''cache_creation'' of
        JObj c \<Rightarrow>
          dict_set ''cache_creation_1h_input_tokens'' (case jget c ''ephemeral_1h_input_tokens'' of Some v \<Rightarrow> v | None \<Rightarrow> JNum (PInt 0))
            (dict_set ''cache_creation_5m_input_tokens'' (case jget c ''ephemeral_5m_input_tokens'' of Some v \<Rightarrow> v | None \<Rightarrow> JNum (PInt 0)) u)
      | _ \<Rightarrow> u)"

definition raise_counter :: "string \<times> json \<Rightarrow> usage \<Rightarrow> usage" where
  "raise_counter kv u =
     (case nonnegative (snd kv) of
        Some n \<Rightarrow> if fst kv \<in> set tokens then dict_set (fst kv) (max (case map_of u (fst kv) of Some m \<Rightarrow> m | None \<Rightarrow> 0) n) u else u
      | None \<Rightarrow> u)"

definition unpriced_extra :: "jdict \<Rightarrow> bool" where
  "unpriced_extra u \<longleftrightarrow>
     (case jget0 u ''server_tool_use'' of JObj fees \<Rightarrow> list_ex (\<lambda>(_, v). truthy v) fees | _ \<Rightarrow> False)
     \<or> jget0 u ''service_tier'' \<notin> {JNull, JStr ''standard'', JStr ''default''}"

definition note_usage :: "prices \<Rightarrow> json \<Rightarrow> response \<Rightarrow> response" where
  "note_usage table usage r =
     (case usage of
        JObj u \<Rightarrow>
          (let us = fold raise_counter (reported u) (re_usage r)
           in r\<lparr>re_unpriced := (re_unpriced r \<or> unpriced_extra u), re_usage := us,
                re_cost := (if us \<noteq> [] then price_usage table (re_model r) us (re_at r) else None)\<rparr>)
      | _ \<Rightarrow> r)"

text \<open>\<open>v or {}\<close>.\<close>

definition or_empty :: "json \<Rightarrow> json" where
  "or_empty v = (if truthy v then v else JObj [])"

definition counted :: "response \<Rightarrow> bool" where
  "counted r \<longleftrightarrow> ''input_tokens'' \<in> fst ` set (re_usage r) \<and> ''output_tokens'' \<in> fst ` set (re_usage r) \<and> \<not> re_unpriced r"

definition put_response :: "string \<Rightarrow> response \<Rightarrow> journal \<Rightarrow> journal" where
  "put_response k r j =
     j\<lparr>jo_value := (jo_value j)\<lparr>ck_messages := dict_set k r (ck_messages (jo_value j))\<rparr>, jo_dirty := insert k (jo_dirty j)\<rparr>"

definition begin_response :: "prices \<Rightarrow> bool \<Rightarrow> bool \<Rightarrow> string \<Rightarrow> string \<Rightarrow> jdict \<Rightarrow> string \<Rightarrow> rat \<Rightarrow> journal \<Rightarrow> journal" where
  "begin_response table assistant start session lane m mid now j =
     (let key = session @ '':'' @ mid; v = jo_value j;
          r0 = (case map_of (ck_messages v) key of
                  Some r \<Rightarrow> r
                | None \<Rightarrow> \<lparr>re_session = session, re_message = mid,
                           re_model = (case jget0 m ''model'' of JStr s \<Rightarrow> if s = [] then ck_model v else s | _ \<Rightarrow> ck_model v),
                           re_at = now, re_usage = [], re_complete = False, re_streamed = False, re_unpriced = False, re_cost = None\<rparr>);
          r1 = note_usage table (or_empty (jget0 m ''usage'')) (if start then r0\<lparr>re_streamed := True\<rparr> else r0);
          r2 = (if assistant \<and> \<not> re_streamed r1 then r1\<lparr>re_complete := counted r1\<rparr> else r1);
          waiting = (if assistant \<and> re_complete r2 then jo_waiting j - {lane, ''unknown''} else insert lane (jo_waiting j))
      in (put_response key r2 j)\<lparr>jo_current := (jo_current j)(lane \<mapsto> key), jo_waiting := waiting\<rparr>)"

definition continue_response :: "prices \<Rightarrow> bool \<Rightarrow> string \<Rightarrow> string \<Rightarrow> json \<Rightarrow> journal \<Rightarrow> journal" where
  "continue_response table stop lane key usage j =
     (case map_of (ck_messages (jo_value j)) key of
        None \<Rightarrow> j
      | Some r \<Rightarrow>
          (let r1 = note_usage table (or_empty usage) r
           in if stop then (put_response key (r1\<lparr>re_complete := counted r1\<rparr>) j)\<lparr>jo_waiting := jo_waiting j - {lane, ''unknown''}\<rparr>
              else put_response key r1 j))"

text \<open>\<open>now\<close> is the clock when a response begins, \<open>now'\<close> when the event has been taken in.\<close>

definition observe ::
  "prices \<Rightarrow> (json \<Rightarrow> string) \<Rightarrow> rat \<Rightarrow> rat \<Rightarrow> jdict \<Rightarrow> journal \<Rightarrow> journal_files \<Rightarrow> journal \<times> journal_files" where
  "observe table show_json now now' event j f =
     (let kind = jget0 event ''type''; session = text_of show_json ''unknown'' (jget0 event ''session_id'');
          lane = session @ '':'' @ text_of show_json ''root'' (jget0 event ''parent_tool_use_id'');
          inner = (if kind = JStr ''stream_event'' then (case jget event ''event'' of Some v \<Rightarrow> v | None \<Rightarrow> JObj []) else JObj event)
      in case inner of
           JObj e \<Rightarrow>
             (let ek = jget0 e ''type'';
                  named = (session \<noteq> ''unknown''
                    \<and> (kind = JStr ''system'' \<and> jget0 event ''subtype'' = JStr ''init''
                       \<or> kind = JStr ''assistant'' \<and> \<not> truthy (jget0 event ''parent_tool_use_id'') \<and> ck_provider (jo_value j) \<in> {None, Some []}));
                  j1 = (if named then j\<lparr>jo_value := (jo_value j)\<lparr>ck_provider := Some session\<rparr>\<rparr> else j);
                  retry = (kind = JStr ''user'' \<or> kind = JStr ''system'' \<and> jget0 event ''subtype'' = JStr ''api_retry'');
                  j2 = (if retry then j1\<lparr>jo_waiting := insert lane (jo_waiting j1)\<rparr> else j1);
                  message = (if kind = JStr ''assistant'' then jget0 event ''message'' else if ek = JStr ''message_start'' then jget0 e ''message'' else JNull);
                  begun = (case message of JObj m \<Rightarrow> (case jget0 m ''id'' of JStr mid \<Rightarrow> Some (m, mid) | _ \<Rightarrow> None) | _ \<Rightarrow> None);
                  continued = (if ek \<in> {JStr ''message_delta'', JStr ''message_stop''} then jo_current j2 lane else None);
                  j3 = (case begun of
                          Some (m, mid) \<Rightarrow> begin_response table (kind = JStr ''assistant'') (ek = JStr ''message_start'') session lane m mid now j2
                        | None \<Rightarrow> (case continued of
                                    Some key \<Rightarrow> continue_response table (ek = JStr ''message_stop'') lane key (jget0 e ''usage'') j2
                                  | None \<Rightarrow> j2));
                  changed = (named \<or> retry \<or> begun \<noteq> None \<or> continued \<noteq> None)
              in if changed
                 then flush False (j3\<lparr>jo_value := (jo_value j3)\<lparr>ck_inflight := (jo_waiting j3 \<noteq> {}), ck_observed := now'\<rparr>\<rparr>) f
                 else (j3, f))
         | _ \<Rightarrow> (j, f))"

section \<open>Reading\<close>

definition usage_ok :: "usage \<Rightarrow> bool" where
  "usage_ok u \<longleftrightarrow> list_all (\<lambda>(k, n). k \<in> set tokens \<and> 0 \<le> n) u"

definition response_ok :: "response \<Rightarrow> bool" where
  "response_ok r \<longleftrightarrow> 0 \<le> re_at r \<and> usage_ok (re_usage r) \<and> (case re_cost r of None \<Rightarrow> True | Some c \<Rightarrow> 0 \<le> c)"

definition checkpoint_ok :: "string \<Rightarrow> checkpoint \<Rightarrow> bool" where
  "checkpoint_ok identity v \<longleftrightarrow> ck_id v = identity \<and> 0 \<le> ck_started v \<and> 0 \<le> ck_observed v
     \<and> list_all (\<lambda>(_, r). response_ok r) (ck_messages v)"

text \<open>\<open>{**state, **record, "messages": {**state["messages"], **record["messages"]}}\<close>.\<close>

definition merged :: "checkpoint \<Rightarrow> checkpoint \<Rightarrow> checkpoint" where
  "merged state d =
     d\<lparr>ck_provider := (case ck_provider d of Some s \<Rightarrow> Some s | None \<Rightarrow> ck_provider state),
       ck_messages := fold (\<lambda>(k, r) ms. dict_set k r ms) (ck_messages d) (ck_messages state)\<rparr>"

text \<open>A line without its newline is still replayed when all of its object is there; the tail scan ignores it.\<close>

fun replay_log :: "string \<Rightarrow> checkpoint option \<Rightarrow> line list \<Rightarrow> checkpoint option" where
  "replay_log identity state [] = state"
| "replay_log identity state (l # ls) =
     (case l of
        Cut \<Rightarrow> state
      | Whole d \<Rightarrow>
          (let c = (case state of None \<Rightarrow> d | Some s \<Rightarrow> merged s d) in if checkpoint_ok identity c then replay_log identity (Some c) ls else state)
      | Unended d \<Rightarrow>
          (let c = (case state of None \<Rightarrow> d | Some s \<Rightarrow> merged s d) in if checkpoint_ok identity c then replay_log identity (Some c) ls else state))"

text \<open>\<open>seen\<close> is how many of the last whole lines the tail that is read holds; no sequence is negative.\<close>

definition latest_sequence :: "nat \<Rightarrow> line list \<Rightarrow> int" where
  "latest_sequence seen ls =
     (let whole = List.map_filter (\<lambda>l. case l of Whole d \<Rightarrow> Some d | _ \<Rightarrow> None) ls
      in case filter (\<lambda>d. 0 \<le> ck_sequence d) (take seen (rev whole)) of [] \<Rightarrow> 0 | d # _ \<Rightarrow> ck_sequence d)"

definition read_usage :: "nat \<Rightarrow> string \<Rightarrow> journal_files \<Rightarrow> checkpoint option" where
  "read_usage seen identity f =
     (let c = (case jf_checkpoint f of Some v \<Rightarrow> if checkpoint_ok identity v then Some v else None | None \<Rightarrow> None)
      in case c of
           Some v \<Rightarrow>
             if latest_sequence seen (jf_log f) \<le> ck_sequence v then Some v
             else (case replay_log identity None (jf_log f) of
                     Some r \<Rightarrow> if ck_sequence r < ck_sequence v then Some v else Some r
                   | None \<Rightarrow> Some v)
         | None \<Rightarrow> replay_log identity None (jf_log f))"

section \<open>A session\<close>

datatype journal_step = Event rat rat jdict | Close

definition journal_step :: "prices \<Rightarrow> (json \<Rightarrow> string) \<Rightarrow> journal_step \<Rightarrow> journal \<times> journal_files \<Rightarrow> journal \<times> journal_files" where
  "journal_step table show_json s jf =
     (case s of
        Event now now' e \<Rightarrow> observe table show_json now now' e (fst jf) (snd jf)
      | Close \<Rightarrow> flush True (fst jf) (snd jf))"

definition begin_journal :: "string \<Rightarrow> string \<Rightarrow> rat \<Rightarrow> rat \<Rightarrow> journal \<times> journal_files" where
  "begin_journal invocation model t t' = flush False (new_journal invocation model t t') no_files"

definition journal_run :: "prices \<Rightarrow> (json \<Rightarrow> string) \<Rightarrow> journal_step list \<Rightarrow> journal \<times> journal_files \<Rightarrow> journal \<times> journal_files" where
  "journal_run table show_json ss jf = fold (journal_step table show_json) ss jf"

text \<open>What a crash can leave of the flush that leads from the first files to the second: the line cut, without its newline, or
  whole but the checkpoint not yet replaced.\<close>

definition crash_files :: "journal_files \<Rightarrow> journal_files \<Rightarrow> journal_files list" where
  "crash_files f f' =
     (case drop (length (jf_log f)) (jf_log f') of
        [Whole d] \<Rightarrow> [f, appended Cut f, appended (Unended d) f, appended (Whole d) f, f']
      | _ \<Rightarrow> [f, f'])"

end
