(* ===== verification/UsageLaws.thy ===== *)
theory UsageLaws
  imports UsageJournal
begin

text \<open>
  What the usage journal promises: a response's counters and its price only grow, the log replays to the value in
  memory, and after a crash at any point the reader finds the last flush or the one in progress.
\<close>

section \<open>Counters and prices\<close>

definition counter :: "usage \<Rightarrow> string \<Rightarrow> int" where
  "counter u k = (case map_of u k of None \<Rightarrow> 0 | Some n \<Rightarrow> n)"

lemma amount_counter: "amount u k = of_int (counter u k)"
  by (simp add: amount_def counter_def split: option.split)

lemma counter_nonneg: "usage_ok u \<Longrightarrow> 0 \<le> counter u k"
  by (auto simp: usage_ok_def counter_def list_all_iff dest!: map_of_SomeD split: option.split)

lemma usage_ok_set: "usage_ok u \<Longrightarrow> k \<in> set tokens \<Longrightarrow> 0 \<le> n \<Longrightarrow> usage_ok (dict_set k n u)"
  by (induction u) (auto simp: usage_ok_def)

lemma raise_ok: "usage_ok u \<Longrightarrow> usage_ok (raise_counter kv u)"
  using usage_ok_set [of u "fst kv"]
  by (auto simp: raise_counter_def nonnegative_def le_max_iff_disj split: option.split json.splits pynum.splits)

lemma raise_le: "usage_ok u \<Longrightarrow> counter u k \<le> counter (raise_counter kv u) k"
  using counter_nonneg [of u k]
  by (auto simp: raise_counter_def counter_def nonnegative_def split: option.splits json.splits pynum.splits if_splits)

lemma raise_all: "usage_ok u \<Longrightarrow> usage_ok (fold raise_counter kvs u) \<and> counter u k \<le> counter (fold raise_counter kvs u) k"
proof (induction kvs arbitrary: u)
  case (Cons kv kvs)
  from Cons.IH [OF raise_ok [OF Cons.prems, of kv]] raise_le [OF Cons.prems, of k kv] show ?case by (auto intro: order_trans)
qed simp

lemma raise_nonempty: "u \<noteq> [] \<Longrightarrow> fold raise_counter kvs u \<noteq> []"
proof (induction kvs arbitrary: u)
  case (Cons kv kvs)
  have "dict_set k n u \<noteq> []" for k :: string and n :: int using Cons.prems by (cases u) (auto split: if_splits)
  then have "raise_counter kv u \<noteq> []" using Cons.prems by (simp add: raise_counter_def split: option.split)
  then show ?case using Cons.IH by simp
qed simp

definition rates_ok :: "rates \<Rightarrow> bool" where
  "rates_ok r \<longleftrightarrow> 0 \<le> rt_input r \<and> 0 \<le> rt_output r \<and> 0 \<le> rt_read r
     \<and> (case rt_write_5m r of None \<Rightarrow> True | Some w \<Rightarrow> 0 \<le> w \<and> w \<le> rt_write_1h r)"

definition prices_ok :: "prices \<Rightarrow> bool" where
  "prices_ok table \<longleftrightarrow> list_all (\<lambda>(_, ws). list_all rates_ok ws) table"

lemma max_by_mem: "max_by f xs = Some y \<Longrightarrow> y \<in> set xs"
  by (induction xs arbitrary: y) (auto split: option.splits if_splits)

lemma price_key_mem: "price_key table model = Some k \<Longrightarrow> \<exists>ws. map_of table k = Some ws \<and> (k, ws) \<in> set table"
proof -
  assume "price_key table model = Some k"
  then have "k \<in> fst ` set table" by (auto simp: price_key_def dest!: max_by_mem split: if_splits)
  then obtain ws where "map_of table k = Some ws" by (metis map_of_eq_None_iff not_Some_eq)
  then show ?thesis using map_of_SomeD by metis
qed

lemma rates_at_ok: "prices_ok table \<Longrightarrow> rates_at table model t = Some r \<Longrightarrow> rates_ok r"
  by (fastforce simp: rates_at_def prices_ok_def list_all_iff dest: price_key_mem max_by_mem split: option.splits)

lemma list_price_mono:
  assumes "rates_ok r" and "rt_write_5m r = Some w" and "\<And>k. counter u k \<le> counter u' k"
  shows "list_price r w u \<le> list_price r w u'"
proof -
  have a: "amount u k \<le> amount u' k" for k using assms(3) by (simp add: amount_counter)
  have r: "0 \<le> rt_input r" "0 \<le> rt_output r" "0 \<le> rt_read r" "0 \<le> w" "w \<le> rt_write_1h r"
    using assms(1,2) by (simp_all add: rates_ok_def)
  define five hour sum where "five v = amount v ''cache_creation_5m_input_tokens''" and "hour v = amount v ''cache_creation_1h_input_tokens''"
      and "sum v = amount v ''cache_creation_input_tokens''" for v
  have cache: "(five v + max 0 (sum v - five v - hour v)) * w + hour v * rt_write_1h r
      = max (five v) (sum v - hour v) * w + hour v * rt_write_1h r" for v
    by (simp add: max_def)
  have split: "max (five v) (sum v - hour v) * w + hour v * rt_write_1h r
      = max (five v + hour v) (sum v) * w + hour v * (rt_write_1h r - w)" for v
  proof -
    have "max (five v) (sum v - hour v) = max (five v + hour v) (sum v) - hour v" by (simp add: max_def)
    then show ?thesis by (simp add: left_diff_distrib right_diff_distrib)
  qed
  have "max (five u + hour u) (sum u) * w + hour u * (rt_write_1h r - w)
      \<le> max (five u' + hour u') (sum u') * w + hour u' * (rt_write_1h r - w)"
    using a [of "''cache_creation_5m_input_tokens''"] a [of "''cache_creation_1h_input_tokens''"] a [of "''cache_creation_input_tokens''"] r
    by (intro add_mono mult_right_mono) (auto simp: five_def hour_def sum_def intro: max.mono add_mono)
  moreover have "amount u ''input_tokens'' * rt_input r + amount u ''output_tokens'' * rt_output r + amount u ''cache_read_input_tokens'' * rt_read r
      \<le> amount u' ''input_tokens'' * rt_input r + amount u' ''output_tokens'' * rt_output r + amount u' ''cache_read_input_tokens'' * rt_read r"
    using a r by (intro add_mono mult_right_mono) auto
  ultimately show ?thesis
    unfolding list_price_def Let_def five_def [symmetric] hour_def [symmetric] sum_def [symmetric]
    by (simp add: cache split add.assoc divide_right_mono)
qed

lemma price_zero: "list_price r w [] = 0"
  by (simp add: list_price_def amount_def)

lemma price_nonneg:
  assumes "prices_ok table" and "usage_ok u" and "price_usage table model u t = Some c"
  shows "0 \<le> c"
proof -
  obtain r w where r: "rates_at table model t = Some r" "rt_write_5m r = Some w" "c = list_price r w u"
    using assms(3) by (auto simp: price_usage_def split: option.splits)
  have "list_price r w [] \<le> list_price r w u"
    using list_price_mono [OF rates_at_ok [OF assms(1) r(1)] r(2)] counter_nonneg [OF assms(2)] by (simp add: counter_def)
  then show ?thesis using r(3) price_zero by simp
qed

lemma price_mono:
  assumes "prices_ok table" and "\<And>k. counter u k \<le> counter u' k" and "price_usage table model u t = Some c"
  shows "\<exists>c'\<ge>c. price_usage table model u' t = Some c'"
proof -
  obtain r w where r: "rates_at table model t = Some r" "rt_write_5m r = Some w" "c = list_price r w u"
    using assms(3) by (auto simp: price_usage_def split: option.splits)
  then show ?thesis
    using list_price_mono [OF rates_at_ok [OF assms(1) r(1)] r(2) assms(2)] by (simp add: price_usage_def)
qed

section \<open>One response\<close>

definition priced :: "prices \<Rightarrow> response \<Rightarrow> bool" where
  "priced table r \<longleftrightarrow> usage_ok (re_usage r) \<and> 0 \<le> re_at r
     \<and> re_cost r = (if re_usage r \<noteq> [] then price_usage table (re_model r) (re_usage r) (re_at r) else None)"

definition grown :: "response \<Rightarrow> response \<Rightarrow> bool" where
  "grown r r' \<longleftrightarrow> re_session r' = re_session r \<and> re_message r' = re_message r \<and> re_model r' = re_model r \<and> re_at r' = re_at r
     \<and> (\<forall>k. counter (re_usage r) k \<le> counter (re_usage r') k)
     \<and> (\<forall>c. re_cost r = Some c \<longrightarrow> (\<exists>c'\<ge>c. re_cost r' = Some c'))"

lemma grown_refl [simp]: "grown r r"
  by (simp add: grown_def)

lemma grown_trans: "grown r s \<Longrightarrow> grown s t \<Longrightarrow> grown r t"
  unfolding grown_def by (metis order_trans)

lemma note_usage_ok:
  assumes "prices_ok table" and "priced table r"
  shows "priced table (note_usage table u r)" and "grown r (note_usage table u r)"
proof -
  have "priced table (note_usage table u r) \<and> grown r (note_usage table u r)"
  proof (cases u)
    case (JObj d)
    let ?us = "fold raise_counter (reported d) (re_usage r)"
    have us: "usage_ok ?us" "counter (re_usage r) k \<le> counter ?us k" for k
      using raise_all assms(2) by (auto simp: priced_def)
    have cost: "\<exists>c'\<ge>c. (if ?us \<noteq> [] then price_usage table (re_model r) ?us (re_at r) else None) = Some c'" if "re_cost r = Some c" for c
    proof -
      have "re_usage r \<noteq> []" "price_usage table (re_model r) (re_usage r) (re_at r) = Some c"
        using that assms(2) by (auto simp: priced_def split: if_splits)
      then show ?thesis using price_mono [OF assms(1) us(2)] raise_nonempty [of "re_usage r"] by simp
    qed
    have n: "note_usage table u r = r\<lparr>re_unpriced := (re_unpriced r \<or> unpriced_extra d), re_usage := ?us,
        re_cost := (if ?us \<noteq> [] then price_usage table (re_model r) ?us (re_at r) else None)\<rparr>"
      by (simp add: JObj note_usage_def Let_def)
    have "priced table (note_usage table u r)" using us(1) assms(2) by (simp add: n priced_def)
    moreover have "grown r (note_usage table u r)" unfolding n grown_def using us(2) cost by simp
    ultimately show ?thesis ..
  qed (use assms in \<open>simp_all add: note_usage_def\<close>)
  then show "priced table (note_usage table u r)" "grown r (note_usage table u r)" by simp_all
qed

lemma flags_irrelevant [simp]:
  "priced table (r\<lparr>re_streamed := b\<rparr>) = priced table r" "grown r (s\<lparr>re_streamed := b\<rparr>) = grown r s"
  "grown (r\<lparr>re_streamed := b\<rparr>) s = grown r s"
  "priced table (r\<lparr>re_complete := b\<rparr>) = priced table r" "grown r (s\<lparr>re_complete := b\<rparr>) = grown r s"
  by (simp_all add: priced_def grown_def)

lemma priced_ok: "prices_ok table \<Longrightarrow> priced table r \<Longrightarrow> response_ok r"
  using price_nonneg [of table "re_usage r" "re_model r" "re_at r"]
  by (auto simp: priced_def response_ok_def split: option.split if_splits)

section \<open>One event\<close>

text \<open>What an event changes before the flush: at most one response, which is then the dirty one.\<close>

definition changes :: "prices \<Rightarrow> journal \<Rightarrow> journal \<Rightarrow> bool" where
  "changes table j j' \<longleftrightarrow> ck_id (jo_value j') = ck_id (jo_value j) \<and> ck_model (jo_value j') = ck_model (jo_value j)
     \<and> ck_started (jo_value j') = ck_started (jo_value j) \<and> ck_observed (jo_value j') = ck_observed (jo_value j)
     \<and> ck_sequence (jo_value j') = ck_sequence (jo_value j)
     \<and> ck_closed (jo_value j') = ck_closed (jo_value j)
     \<and> (ck_provider (jo_value j') = None \<longrightarrow> ck_provider (jo_value j) = None)
     \<and> (jo_dirty j' = {} \<and> ck_messages (jo_value j') = ck_messages (jo_value j)
        \<or> (\<exists>k r. jo_dirty j' = {k} \<and> ck_messages (jo_value j') = dict_set k r (ck_messages (jo_value j))
             \<and> (list_all (priced table) (map snd (ck_messages (jo_value j))) \<longrightarrow> priced table r
                  \<and> (\<forall>r0. map_of (ck_messages (jo_value j)) k = Some r0 \<longrightarrow> grown r0 r))))"

lemma priced_lookup: "list_all (priced table) (map snd ms) \<Longrightarrow> map_of ms k = Some r \<Longrightarrow> priced table r"
  by (induction ms) (auto split: if_splits)

lemma begin_response_changes:
  assumes "prices_ok table" and "0 \<le> now" and "jo_dirty j = {}"
  shows "changes table j (begin_response table assistant start session lane m mid now j)"
proof -
  let ?k = "session @ '':'' @ mid"
  let ?ms = "ck_messages (jo_value j)"
  define r0 where "r0 = (case map_of ?ms ?k of
                  Some r \<Rightarrow> r
                | None \<Rightarrow> \<lparr>re_session = session, re_message = mid,
                           re_model = (case jget0 m ''model'' of JStr s \<Rightarrow> if s = [] then ck_model (jo_value j) else s | _ \<Rightarrow> ck_model (jo_value j)),
                           re_at = now, re_usage = [], re_complete = False, re_streamed = False, re_unpriced = False, re_cost = None\<rparr>)"
  define r1 where "r1 = note_usage table (or_empty (jget0 m ''usage'')) (if start then r0\<lparr>re_streamed := True\<rparr> else r0)"
  define r2 where "r2 = (if assistant \<and> \<not> re_streamed r1 then r1\<lparr>re_complete := counted r1\<rparr> else r1)"
  have b: "begin_response table assistant start session lane m mid now j
      = (put_response ?k r2 j)\<lparr>jo_current := (jo_current j)(lane \<mapsto> ?k),
          jo_waiting := (if assistant \<and> re_complete r2 then jo_waiting j - {lane, ''unknown''} else insert lane (jo_waiting j))\<rparr>"
    by (simp only: begin_response_def Let_def r0_def r1_def r2_def)
  have p: "priced table r2 \<and> (\<forall>r. map_of ?ms ?k = Some r \<longrightarrow> grown r r2)" if all: "list_all (priced table) (map snd ?ms)"
  proof -
    have p0: "priced table (if start then r0\<lparr>re_streamed := True\<rparr> else r0)"
      using priced_lookup [OF all, of ?k] assms(2) by (auto simp: r0_def priced_def usage_ok_def split: option.split)
    from note_usage_ok [OF assms(1) p0] have p1: "priced table r1" "grown (if start then r0\<lparr>re_streamed := True\<rparr> else r0) r1"
      by (simp_all add: r1_def)
    then have "priced table r2" "grown r0 r2" by (simp_all add: r2_def split: if_splits)
    then show ?thesis by (auto simp: r0_def)
  qed
  show ?thesis unfolding b changes_def put_response_def using p assms(3) by simp blast
qed

lemma continue_response_changes:
  assumes "prices_ok table" and "jo_dirty j = {}"
  shows "changes table j (continue_response table stop lane key usage j)"
proof (cases "map_of (ck_messages (jo_value j)) key")
  case None
  then show ?thesis using assms(2) by (simp add: continue_response_def changes_def)
next
  case (Some r)
  define r1 where "r1 = note_usage table (or_empty usage) r"
  define r2 where "r2 = (if stop then r1\<lparr>re_complete := counted r1\<rparr> else r1)"
  have p: "priced table r2 \<and> grown r r2" if "list_all (priced table) (map snd (ck_messages (jo_value j)))"
    using note_usage_ok [OF assms(1) priced_lookup [OF that Some]] by (simp add: r1_def r2_def)
  have c: "continue_response table stop lane key usage j
      = (put_response key r2 j)\<lparr>jo_waiting := (if stop then jo_waiting j - {lane, ''unknown''} else jo_waiting j)\<rparr>"
    by (simp add: continue_response_def Some Let_def r1_def r2_def put_response_def)
  show ?thesis unfolding c changes_def put_response_def using p Some assms(2) by simp blast
qed

lemma changes_same: "changes table i k \<Longrightarrow> jo_value i = jo_value j \<Longrightarrow> changes table j k"
  unfolding changes_def by simp

lemma changes_named: "changes table i k \<Longrightarrow> jo_value i = (jo_value j)\<lparr>ck_provider := Some p\<rparr> \<Longrightarrow> changes table j k"
  unfolding changes_def by (simp, elim conjE exE, simp)

lemma observe_cases:
  assumes "prices_ok table" and "0 \<le> now" and "jo_dirty j = {}"
  shows "observe table show_json now now' e j f = (j, f)
    \<or> (\<exists>j1 b. changes table j j1 \<and> observe table show_json now now' e j f
          = flush False (j1\<lparr>jo_value := (jo_value j1)\<lparr>ck_inflight := b, ck_observed := now'\<rparr>\<rparr>) f)"
proof -
  define kind where "kind = jget0 e ''type''"
  define session where "session = text_of show_json ''unknown'' (jget0 e ''session_id'')"
  define lane where "lane = session @ '':'' @ text_of show_json ''root'' (jget0 e ''parent_tool_use_id'')"
  define inner where "inner = (if kind = JStr ''stream_event'' then (case jget e ''event'' of Some v \<Rightarrow> v | None \<Rightarrow> JObj []) else JObj e)"
  show ?thesis
  proof (cases inner)
    case (JObj d)
    define ek where "ek = jget0 d ''type''"
    define named where "named = (session \<noteq> ''unknown''
        \<and> (kind = JStr ''system'' \<and> jget0 e ''subtype'' = JStr ''init''
           \<or> kind = JStr ''assistant'' \<and> \<not> truthy (jget0 e ''parent_tool_use_id'') \<and> ck_provider (jo_value j) \<in> {None, Some []}))"
    define retry where "retry = (kind = JStr ''user'' \<or> kind = JStr ''system'' \<and> jget0 e ''subtype'' = JStr ''api_retry'')"
    define j1 where "j1 = (if named then j\<lparr>jo_value := (jo_value j)\<lparr>ck_provider := Some session\<rparr>\<rparr> else j)"
    define j2 where "j2 = (if retry then j1\<lparr>jo_waiting := insert lane (jo_waiting j1)\<rparr> else j1)"
    define begun where "begun = (case (if kind = JStr ''assistant'' then jget0 e ''message'' else if ek = JStr ''message_start'' then jget0 d ''message'' else JNull) of
        JObj m \<Rightarrow> (case jget0 m ''id'' of JStr mid \<Rightarrow> Some (m, mid) | _ \<Rightarrow> None) | _ \<Rightarrow> None)"
    define continued where "continued = (if ek \<in> {JStr ''message_delta'', JStr ''message_stop''} then jo_current j2 lane else None)"
    define j3 where "j3 = (case begun of
        Some (m, mid) \<Rightarrow> begin_response table (kind = JStr ''assistant'') (ek = JStr ''message_start'') session lane m mid now j2
      | None \<Rightarrow> (case continued of
                  Some key \<Rightarrow> continue_response table (ek = JStr ''message_stop'') lane key (jget0 d ''usage'') j2
                | None \<Rightarrow> j2))"
    have o: "observe table show_json now now' e j f = (if named \<or> retry \<or> begun \<noteq> None \<or> continued \<noteq> None
        then flush False (j3\<lparr>jo_value := (jo_value j3)\<lparr>ck_inflight := (jo_waiting j3 \<noteq> {}), ck_observed := now'\<rparr>\<rparr>) f else (j3, f))"
      unfolding observe_def Let_def kind_def [symmetric] session_def [symmetric] lane_def [symmetric] inner_def [symmetric] JObj json.case
        ek_def [symmetric] named_def [symmetric] j1_def [symmetric] retry_def [symmetric] j2_def [symmetric] begun_def [symmetric]
        continued_def [symmetric] j3_def [symmetric] ..
    have j2: "jo_dirty j2 = {}" "jo_value j2 = (jo_value j)\<lparr>ck_provider := Some session\<rparr> \<or> jo_value j2 = jo_value j"
      using assms(3) by (simp_all add: j2_def j1_def)
    have "changes table j2 j3"
    proof (cases begun)
      case (Some a)
      then show ?thesis using begin_response_changes [OF assms(1,2) j2(1)] by (cases a) (simp add: j3_def)
    next
      case None
      then show ?thesis using continue_response_changes [OF assms(1) j2(1)] j2(1)
        by (cases continued) (simp_all add: j3_def changes_def)
    qed
    then have c: "changes table j j3" using j2(2) changes_same changes_named by blast
    show ?thesis
    proof (cases "named \<or> retry \<or> begun \<noteq> None \<or> continued \<noteq> None")
      case True
      then have "observe table show_json now now' e j f
          = flush False (j3\<lparr>jo_value := (jo_value j3)\<lparr>ck_inflight := (jo_waiting j3 \<noteq> {}), ck_observed := now'\<rparr>\<rparr>) f" using o by simp
      with c show ?thesis by blast
    next
      case False
      then have "begun = None" "continued = None" "\<not> named" "\<not> retry" by blast+
      then have "j3 = j" by (simp add: j3_def j2_def j1_def)
      then show ?thesis using o False by simp
    qed
  qed (simp_all add: observe_def Let_def kind_def inner_def)
qed

section \<open>The files agree with the value in memory\<close>

definition healthy :: "prices \<Rightarrow> string \<Rightarrow> journal \<times> journal_files \<Rightarrow> bool" where
  "healthy table identity jf \<longleftrightarrow>
     (let (j, f) = jf; v = jo_value j
      in jo_dirty j = {} \<and> ck_id v = identity \<and> 0 \<le> ck_started v \<and> 0 \<le> ck_observed v \<and> 1 \<le> ck_sequence v
         \<and> list_all (priced table) (map snd (ck_messages v)) \<and> distinct (map fst (ck_messages v))
         \<and> jf_checkpoint f = Some v \<and> (\<forall>more_lines. replay_log identity None (jf_log f @ more_lines) = replay_log identity (Some v) more_lines)
         \<and> (\<exists>ls d. jf_log f = ls @ [Whole d] \<and> ck_sequence d = ck_sequence v))"

lemma priced_all_ok: "prices_ok table \<Longrightarrow> list_all (priced table) (map snd ms) \<Longrightarrow> list_all (\<lambda>(_, r). response_ok r) ms"
  by (induction ms) (auto dest: priced_ok)

lemma priced_set: "list_all (priced table) (map snd ms) \<Longrightarrow> priced table r \<Longrightarrow> list_all (priced table) (map snd (dict_set k r ms))"
  by (induction ms) auto

lemma delta_entry: "distinct (map fst ms) \<Longrightarrow> filter (\<lambda>(k', _). k' = k) (dict_set k r ms) = [(k, r)]"
  by (induction ms) (force simp: filter_empty_conv)+

lemma healthy_ok: "prices_ok table \<Longrightarrow> healthy table identity (j, f) \<Longrightarrow> checkpoint_ok identity (jo_value j)"
  by (auto simp: healthy_def checkpoint_ok_def Let_def intro: priced_all_ok)

lemma healthy_sequence:
  assumes "healthy table identity (j, f)" and "1 \<le> seen"
  shows "latest_sequence seen (jf_log f) = ck_sequence (jo_value j)"
    and "latest_sequence seen (jf_log f @ [Cut]) = ck_sequence (jo_value j)"
    and "latest_sequence seen (jf_log f @ [Unended d]) = ck_sequence (jo_value j)"
proof -
  obtain ls d0 where l: "jf_log f = ls @ [Whole d0]" "ck_sequence d0 = ck_sequence (jo_value j)" "1 \<le> ck_sequence (jo_value j)"
    using assms(1) by (auto simp: healthy_def Let_def)
  obtain n where n: "seen = Suc n" using assms(2) by (cases seen) auto
  show "latest_sequence seen (jf_log f) = ck_sequence (jo_value j)"
    "latest_sequence seen (jf_log f @ [Cut]) = ck_sequence (jo_value j)"
    "latest_sequence seen (jf_log f @ [Unended d]) = ck_sequence (jo_value j)"
    using l by (simp_all add: latest_sequence_def n List.map_filter_def)
qed

lemma latest_whole: "1 \<le> seen \<Longrightarrow> 0 \<le> ck_sequence d \<Longrightarrow> latest_sequence seen (ls @ [Whole d]) = ck_sequence d"
  by (cases seen) (simp_all add: latest_sequence_def List.map_filter_def)

text \<open>One flush of a change keeps the files and the value together.\<close>

lemma flush_healthy:
  assumes "prices_ok table" and "healthy table identity (j, f)" and "changes table j j1" and "0 \<le> t"
    and "j2 = j1\<lparr>jo_value := (jo_value j1)\<lparr>ck_inflight := b, ck_observed := t\<rparr>\<rparr>"
  shows "healthy table identity (flush shut j2 f)"
    and "checkpoint_ok identity (next_value shut (jo_value j2))"
    and "replay_log identity None (jf_log f @ [Whole (delta (jo_dirty j2) (next_value shut (jo_value j2)))])
      = Some (next_value shut (jo_value j2))"
proof -
  let ?v = "jo_value j" and ?v' = "next_value shut (jo_value j2)" and ?d = "delta (jo_dirty j2) (next_value shut (jo_value j2))"
  note h = assms(2) [unfolded healthy_def Let_def prod.case]
  note c = assms(3) [unfolded changes_def]
  have fields: "ck_id ?v' = identity" "0 \<le> ck_started ?v'" "0 \<le> ck_observed ?v'" "ck_sequence ?v' = ck_sequence ?v + 1"
      "ck_provider ?v' = None \<Longrightarrow> ck_provider ?v = None" "ck_messages ?v' = ck_messages (jo_value j1)" "jo_dirty j2 = jo_dirty j1"
    using h c assms(4,5) by (simp_all add: next_value_def)
  have msgs: "list_all (priced table) (map snd (ck_messages ?v'))" "distinct (map fst (ck_messages ?v'))"
      "fold (\<lambda>(k, r) ms. dict_set k r ms) (filter (\<lambda>(k, _). k \<in> jo_dirty j1) (ck_messages ?v')) (ck_messages ?v) = ck_messages ?v'"
  proof -
    have "list_all (priced table) (map snd (ck_messages ?v')) \<and> distinct (map fst (ck_messages ?v'))
      \<and> fold (\<lambda>(k, r) ms. dict_set k r ms) (filter (\<lambda>(k, _). k \<in> jo_dirty j1) (ck_messages ?v')) (ck_messages ?v) = ck_messages ?v'"
    proof (cases "jo_dirty j1 = {} \<and> ck_messages (jo_value j1) = ck_messages ?v")
      case True
      then show ?thesis using h unfolding fields(6) by simp
    next
      case False
      then obtain k r where k: "jo_dirty j1 = {k}" "ck_messages (jo_value j1) = dict_set k r (ck_messages ?v)" "priced table r"
        using c h by blast
      then show ?thesis using h priced_set [of table "ck_messages ?v" r k] delta_entry [of "ck_messages ?v" k r] unfolding fields(6) by simp
    qed
    then show "list_all (priced table) (map snd (ck_messages ?v'))" "distinct (map fst (ck_messages ?v'))"
      "fold (\<lambda>(k, r) ms. dict_set k r ms) (filter (\<lambda>(k, _). k \<in> jo_dirty j1) (ck_messages ?v')) (ck_messages ?v) = ck_messages ?v'"
      by blast+
  qed
  show ok: "checkpoint_ok identity ?v'" using fields(1-3) priced_all_ok [OF assms(1) msgs(1)] by (simp add: checkpoint_ok_def)
  have m: "merged ?v ?d = ?v'"
    using msgs(3) fields(5,7) by (simp add: merged_def delta_def split: option.split)
  have run: "replay_log identity None (jf_log f @ Whole ?d # more_lines) = replay_log identity (Some ?v') more_lines" for more_lines
    using h ok m by simp
  then show "replay_log identity None (jf_log f @ [Whole ?d]) = Some ?v'" by simp
  have d: "ck_sequence ?d = ck_sequence ?v'" by (simp add: delta_def)
  have "1 \<le> ck_sequence ?v'" using h fields(4) by simp
  then show "healthy table identity (flush shut j2 f)"
    using fields msgs run d by (simp add: healthy_def flush_def Let_def appended_def)
qed

lemma unchanged: "jo_dirty j = {} \<Longrightarrow> changes table j j"
  by (simp add: changes_def)

lemma step_healthy:
  assumes "prices_ok table" and "healthy table identity (j, f)" and "case s of Event now now' e \<Rightarrow> 0 \<le> now \<and> 0 \<le> now' | Close \<Rightarrow> True"
  shows "healthy table identity (journal_step table show_json s (j, f))"
proof -
  have dirty: "jo_dirty j = {}" "0 \<le> ck_observed (jo_value j)" using assms(2) by (simp_all add: healthy_def Let_def)
  show ?thesis
  proof (cases s)
    case (Event now now' e)
    then have t: "0 \<le> now" "0 \<le> now'" using assms(3) by simp_all
    from observe_cases [OF assms(1) t(1) dirty(1), of show_json now' e f] flush_healthy(1) [OF assms(1,2) _ t(2)] assms(2)
    show ?thesis by (auto simp: journal_step_def Event)
  next
    case Close
    have "j = j\<lparr>jo_value := (jo_value j)\<lparr>ck_inflight := ck_inflight (jo_value j), ck_observed := ck_observed (jo_value j)\<rparr>\<rparr>" by simp
    from flush_healthy(1) [OF assms(1,2) unchanged [OF dirty(1)] dirty(2) this, of True] show ?thesis
      by (simp add: journal_step_def Close)
  qed
qed

lemma begin_healthy:
  assumes "prices_ok table" and "0 \<le> t" and "0 \<le> t'"
  shows "healthy table identity (begin_journal identity model t t')"
  using assms
  by (simp add: healthy_def begin_journal_def flush_def new_journal_def no_files_def next_value_def appended_def delta_def
      checkpoint_ok_def Let_def)

section \<open>The contract\<close>

definition in_time :: "journal_step \<Rightarrow> bool" where
  "in_time s \<longleftrightarrow> (case s of Event now now' e \<Rightarrow> 0 \<le> now \<and> 0 \<le> now' | Close \<Rightarrow> True)"

lemma run_healthy:
  assumes "prices_ok table" and "healthy table identity jf" and "\<forall>s\<in>set ss. in_time s"
  shows "healthy table identity (journal_run table show_json ss jf)"
  using assms(2,3)
proof (induction ss arbitrary: jf)
  case (Cons s ss)
  obtain j f where jf: "jf = (j, f)" by fastforce
  have "healthy table identity (journal_step table show_json s jf)"
    using step_healthy [OF assms(1) Cons.prems(1) [unfolded jf]] Cons.prems(2) unfolding jf by (simp add: in_time_def)
  then show ?case using Cons by (simp add: journal_run_def)
qed (simp add: journal_run_def)

lemma healthy_reads:
  assumes "prices_ok table" and "healthy table identity (j, f)" and "1 \<le> seen"
  shows "read_usage seen identity f = Some (jo_value j)"
    and "read_usage seen identity (appended Cut f) = Some (jo_value j)"
    and "read_usage seen identity (appended (Unended d) f) = Some (jo_value j)"
    and "read_usage seen identity (f\<lparr>jf_checkpoint := None\<rparr>) = Some (jo_value j)"
proof -
  have cp: "jf_checkpoint f = Some (jo_value j)" and "\<forall>more_lines. replay_log identity None (jf_log f @ more_lines) = replay_log identity (Some (jo_value j)) more_lines"
    using assms(2) by (simp_all add: healthy_def Let_def)
  then have "replay_log identity None (jf_log f) = Some (jo_value j)" by (metis append_Nil2 replay_log.simps(1))
  then show "read_usage seen identity f = Some (jo_value j)"
    "read_usage seen identity (appended Cut f) = Some (jo_value j)"
    "read_usage seen identity (appended (Unended d) f) = Some (jo_value j)"
    "read_usage seen identity (f\<lparr>jf_checkpoint := None\<rparr>) = Some (jo_value j)"
    using cp healthy_ok [OF assms(1,2)] healthy_sequence [OF assms(2,3)] by (simp_all add: read_usage_def appended_def)
qed

lemma flush_crash:
  assumes "prices_ok table" and "healthy table identity (j, f)" and "1 \<le> seen" and "changes table j j1" and "0 \<le> t"
    and "j2 = j1\<lparr>jo_value := (jo_value j1)\<lparr>ck_inflight := b, ck_observed := t\<rparr>\<rparr>" and "flush shut j2 f = (j', f')" and "g \<in> set (crash_files f f')"
  shows "read_usage seen identity g \<in> {Some (jo_value j), Some (jo_value j')}"
proof -
  let ?v' = "next_value shut (jo_value j2)" and ?d = "delta (jo_dirty j2) (next_value shut (jo_value j2))"
  note fl = flush_healthy [OF assms(1,2,4-6), of shut]
  have h: "healthy table identity (j', f')" using fl(1) assms(7) by simp
  have j': "jo_value j' = ?v'" "f' = (appended (Whole ?d) f)\<lparr>jf_checkpoint := Some ?v'\<rparr>" using assms(7) by (auto simp: flush_def Let_def)
  have files: "crash_files f f' = [f, appended Cut f, appended (Unended ?d) f, appended (Whole ?d) f, f']"
    unfolding j'(2) by (simp add: crash_files_def appended_def)
  have seqs: "ck_sequence ?d = ck_sequence ?v'" "ck_sequence ?v' = ck_sequence (jo_value j) + 1" "1 \<le> ck_sequence (jo_value j)"
    using assms(2,4,6) by (auto simp: delta_def next_value_def changes_def healthy_def Let_def)
  have "latest_sequence seen (jf_log f @ [Whole ?d]) = ck_sequence (jo_value j) + 1"
    using latest_whole [OF assms(3), of ?d] seqs by simp
  moreover have "jf_checkpoint f = Some (jo_value j)" using assms(2) by (simp add: healthy_def Let_def)
  ultimately have "read_usage seen identity (appended (Whole ?d) f) = Some ?v'"
    using fl(3) seqs healthy_ok [OF assms(1,2)] by (simp add: read_usage_def appended_def)
  then show ?thesis
    using assms(8) healthy_reads [OF assms(1,2,3)] healthy_reads(1) [OF assms(1) h assms(3)] unfolding files j'(1) by auto
qed


lemma changes_grow:
  assumes "changes table j j1" and "list_all (priced table) (map snd (ck_messages (jo_value j)))" and "map_of (ck_messages (jo_value j)) k = Some r"
  shows "\<exists>r'. map_of (ck_messages (jo_value j1)) k = Some r' \<and> grown r r'"
  using assms unfolding changes_def by (elim conjE disjE exE) (auto intro: grown_refl)

lemma step_grows:
  assumes "prices_ok table" and "healthy table identity (j, f)" and "in_time s" and "map_of (ck_messages (jo_value j)) k = Some r"
  shows "\<exists>r'. map_of (ck_messages (jo_value (fst (journal_step table show_json s (j, f))))) k = Some r' \<and> grown r r'"
proof (cases s)
  case (Event now now' e)
  have h: "jo_dirty j = {}" "list_all (priced table) (map snd (ck_messages (jo_value j)))" using assms(2) by (simp_all add: healthy_def Let_def)
  have "0 \<le> now" using assms(3) by (simp add: in_time_def Event)
  from observe_cases [OF assms(1) this h(1), of show_json now' e f] show ?thesis
  proof
    assume "\<exists>j1 b. changes table j j1 \<and> observe table show_json now now' e j f
        = flush False (j1\<lparr>jo_value := (jo_value j1)\<lparr>ck_inflight := b, ck_observed := now'\<rparr>\<rparr>) f"
    then show ?thesis using changes_grow [OF _ h(2) assms(4)]
      by (fastforce simp: journal_step_def Event flush_def Let_def next_value_def)
  qed (use assms(4) in \<open>simp add: journal_step_def Event\<close>)
next
  case Close
  then show ?thesis using assms(4) by (simp add: journal_step_def flush_def Let_def next_value_def)
qed

text \<open>
  C18: usage only grows. Whatever events follow, in whatever order and however often repeated, a response once recorded stays
  under its key with its model and time, none of its token counters falls, and its price, once known, stays known and
  does not fall.
\<close>

theorem usage_only_grows:
  assumes "prices_ok table" and "0 \<le> t" and "0 \<le> t'" and "\<forall>s\<in>set (ss @ ss'). in_time s"
    and "map_of (ck_messages (jo_value (fst (journal_run table show_json ss (begin_journal identity model t t'))))) k = Some r"
  shows "\<exists>r'. map_of (ck_messages (jo_value (fst (journal_run table show_json (ss @ ss') (begin_journal identity model t t'))))) k = Some r'
    \<and> re_model r' = re_model r \<and> re_at r' = re_at r
    \<and> (\<forall>k. counter (re_usage r) k \<le> counter (re_usage r') k)
    \<and> (\<forall>c. re_cost r = Some c \<longrightarrow> (\<exists>c'\<ge>c. re_cost r' = Some c'))"
proof -
  have go: "\<exists>r'. map_of (ck_messages (jo_value (fst (journal_run table show_json ss' jf)))) k = Some r' \<and> grown r r'"
    if "healthy table identity jf" "\<forall>s\<in>set ss'. in_time s" "map_of (ck_messages (jo_value (fst jf))) k = Some r" for jf r
    using that
  proof (induction ss' arbitrary: jf r)
    case (Cons s ss')
    obtain j f where jf: "jf = (j, f)" by fastforce
    have h: "healthy table identity (j, f)" "in_time s" "map_of (ck_messages (jo_value j)) k = Some r" using Cons.prems jf by auto
    from step_grows [OF assms(1) h, of show_json] obtain r1 where
      r1: "map_of (ck_messages (jo_value (fst (journal_step table show_json s (j, f))))) k = Some r1" "grown r r1" by blast
    have "healthy table identity (journal_step table show_json s (j, f))"
      using step_healthy [OF assms(1) h(1)] h(2) unfolding in_time_def by blast
    from Cons.IH [OF this _ r1(1)] Cons.prems(2) r1(2) show ?case
      by (auto simp: journal_run_def jf intro: grown_trans)
  qed (auto simp: journal_run_def)
  have "healthy table identity (journal_run table show_json ss (begin_journal identity model t t'))"
    using run_healthy [OF assms(1) begin_healthy [OF assms(1-3)]] assms(4) by simp
  from go [OF this _ assms(5)] assms(4) show ?thesis by (auto simp: journal_run_def grown_def)
qed

section \<open>A concrete session\<close>

definition sample_prices :: prices where
  "sample_prices = [(''claude-haiku-4-5'', [\<lparr>rt_effective = ''2026-01-01'', rt_input = 1, rt_output = 5, rt_read = 1 / 10,
     rt_write_5m = Some (5 / 4), rt_write_1h = 2\<rparr>])]"

definition sample_event :: "int \<Rightarrow> jdict" where
  "sample_event n = [(''type'', JStr ''assistant''), (''session_id'', JStr ''s''),
     (''message'', JObj [(''id'', JStr ''m''), (''model'', JStr ''claude-haiku-4-5''),
        (''usage'', JObj [(''input_tokens'', JNum (PInt n)), (''output_tokens'', JNum (PInt 2))])])]"

lemma sample_prices_ok: "prices_ok sample_prices"
  by (simp add: prices_ok_def sample_prices_def rates_ok_def)

lemma crash_before: "f \<in> set (crash_files f f')"
  by (simp add: crash_files_def split: list.split line.split)


theorem usage_only_grows_witness:
  "\<exists>r r'. map_of (ck_messages (jo_value (fst (journal_run sample_prices (\<lambda>_. []) [Event 2 3 (sample_event 7)]
        (begin_journal ''i'' ''claude-haiku-4-5'' 1 1))))) ''s:m'' = Some r
    \<and> map_of (ck_messages (jo_value (fst (journal_run sample_prices (\<lambda>_. []) ([Event 2 3 (sample_event 7)] @ [Event 4 5 (sample_event 5)])
        (begin_journal ''i'' ''claude-haiku-4-5'' 1 1))))) ''s:m'' = Some r'
    \<and> counter (re_usage r) ''input_tokens'' = 7 \<and> 7 \<le> counter (re_usage r') ''input_tokens''"
proof -
  have "map_option (\<lambda>r. counter (re_usage r) ''input_tokens'') (map_of (ck_messages (jo_value (fst (journal_run sample_prices (\<lambda>_. [])
      [Event 2 3 (sample_event 7)] (begin_journal ''i'' ''claude-haiku-4-5'' 1 1))))) ''s:m'') = Some 7"
    by code_simp
  then obtain r where r: "map_of (ck_messages (jo_value (fst (journal_run sample_prices (\<lambda>_. []) [Event 2 3 (sample_event 7)]
        (begin_journal ''i'' ''claude-haiku-4-5'' 1 1))))) ''s:m'' = Some r" "counter (re_usage r) ''input_tokens'' = 7" by auto
  have t: "(0 :: rat) \<le> 1" "\<forall>s\<in>set ([Event 2 3 (sample_event 7)] @ [Event 4 5 (sample_event 5)]). in_time s"
    by (simp_all add: in_time_def)
  from usage_only_grows [OF sample_prices_ok t(1,1,2) r(1)] r show ?thesis by metis
qed

end
