(* ===== verification/OauthRefresh.thy ===== *)
theory OauthRefresh
  imports Prelude
begin

text \<open>
  The rotation of a provider's credential (\<open>oauth.py\<close>): reading its expiry and refresh token, merging the endpoint's
  answer, the mirror for the workers and \<open>refresh_if_due\<close> under the file lock. The expiry in a token's
  payload, the clock, the date stamp and the endpoint's answer are arguments. Numbers too large for a float do not occur.
\<close>

section \<open>Credentials\<close>

datatype login = ClaudeLogin | CodexLogin

definition codex_placeholder :: string where
  "codex_placeholder = ''rt.0.tauceti-worker-placeholder-never-a-real-refresh-token''"

definition block_of :: "json \<Rightarrow> string \<Rightarrow> jdict" where
  "block_of data key = (case data of JObj d \<Rightarrow> (case jget0 d key of JObj b \<Rightarrow> b | _ \<Rightarrow> []) | _ \<Rightarrow> [])"

definition finite_seconds :: "json \<Rightarrow> rat option" where
  "finite_seconds v = (case v of JNum (PInt i) \<Rightarrow> Some (of_int i) | JNum (PFloat q) \<Rightarrow> Some q | _ \<Rightarrow> None)"

definition block_name :: "login \<Rightarrow> string" where
  "block_name l = (case l of ClaudeLogin \<Rightarrow> ''claudeAiOauth'' | CodexLogin \<Rightarrow> ''tokens'')"

definition refresh_name :: "login \<Rightarrow> string" where
  "refresh_name l = (case l of ClaudeLogin \<Rightarrow> ''refreshToken'' | CodexLogin \<Rightarrow> ''refresh_token'')"

definition access_name :: "login \<Rightarrow> string" where
  "access_name l = (case l of ClaudeLogin \<Rightarrow> ''accessToken'' | CodexLogin \<Rightarrow> ''access_token'')"

definition expires_at :: "(string \<Rightarrow> int option) \<Rightarrow> login \<Rightarrow> json \<Rightarrow> rat option" where
  "expires_at jwt l data =
     (case l of
        ClaudeLogin \<Rightarrow>
          (case finite_seconds (jget0 (block_of data ''claudeAiOauth'') ''expiresAt'') of
             None \<Rightarrow> None | Some v \<Rightarrow> Some (if 100000000000 \<le> v then v / 1000 else v))
      | CodexLogin \<Rightarrow>
          (case jget0 (block_of data ''tokens'') ''access_token'' of JStr t \<Rightarrow> map_option of_int (jwt t) | _ \<Rightarrow> None))"

definition stored_refresh_token :: "login \<Rightarrow> json \<Rightarrow> string option" where
  "stored_refresh_token l data =
     (case jget0 (block_of data (block_name l)) (refresh_name l) of
        JStr t \<Rightarrow> if t = [] \<or> t = codex_placeholder then None else Some t
      | _ \<Rightarrow> None)"

definition given_string :: "json \<Rightarrow> string option" where
  "given_string v = (case v of JStr s \<Rightarrow> if s = [] then None else Some s | _ \<Rightarrow> None)"

section \<open>Merging an answer\<close>

datatype merge_error = NoRefreshToken | NoAccessToken | Regressed

definition set_if :: "bool \<Rightarrow> string \<Rightarrow> json \<Rightarrow> jdict \<Rightarrow> jdict" where
  "set_if b k v d = (if b then dict_set k v d else d)"

text \<open>
  The credentials with every usable part of the answer, and what is wrong with it: the caller keeps the
  credentials in either case, so that a token the server has replaced is not used again.
\<close>

definition merge_response ::
  "(string \<Rightarrow> int option) \<Rightarrow> rat \<Rightarrow> string \<Rightarrow> login \<Rightarrow> jdict \<Rightarrow> jdict \<Rightarrow> string \<Rightarrow> jdict \<times> merge_error option" where
  "merge_response jwt now stamp l credentials response old =
     (let refresh = (if truthy (jget0 response ''refresh_token'') then jget0 response ''refresh_token'' else JStr old);
          access = given_string (jget0 response ''access_token'');
          prior = expires_at jwt l (JObj credentials)
      in case given_string refresh of
           None \<Rightarrow> (credentials, Some NoRefreshToken)
         | Some token \<Rightarrow>
             (let candidate = (case l of
                      ClaudeLogin \<Rightarrow> map_option (\<lambda>s. now + s) (finite_seconds (jget0 response ''expires_in''))
                    | CodexLogin \<Rightarrow> (case jget0 response ''access_token'' of JStr a \<Rightarrow> map_option of_int (jwt a) | _ \<Rightarrow> None));
                  regressed = (case (prior, candidate) of (Some p, Some c) \<Rightarrow> c \<le> p | _ \<Rightarrow> False);
                  fresh = (access \<noteq> None \<and> \<not> regressed);
                  block = set_if fresh (access_name l) (JStr (the access))
                            (dict_set (refresh_name l) (JStr token) (block_of (JObj credentials) (block_name l)));
                  merged = (case l of
                      ClaudeLogin \<Rightarrow>
                        dict_set ''claudeAiOauth''
                          (JObj (set_if (fresh \<and> candidate \<noteq> None \<and> 0 < the candidate) ''expiresAt''
                                   (JNum (PInt \<lfloor>the candidate * 1000\<rfloor>)) block)) credentials
                    | CodexLogin \<Rightarrow>
                        dict_set ''last_refresh'' (JStr stamp)
                          (dict_set ''tokens''
                             (JObj (set_if (given_string (jget0 response ''id_token'') \<noteq> None \<and> \<not> regressed) ''id_token''
                                      (jget0 response ''id_token'') block)) credentials))
              in (merged, if access = None then Some NoAccessToken else if regressed then Some Regressed else None)))"

text \<open>The copy for the workers, without the refresh token; none without an access token.\<close>

definition worker_mirror :: "login \<Rightarrow> jdict \<Rightarrow> jdict option" where
  "worker_mirror l credentials =
     (let block = block_of (JObj credentials) (block_name l);
          public = (case l of ClaudeLogin \<Rightarrow> dict_del ''refreshToken'' block
                    | CodexLogin \<Rightarrow> dict_set ''refresh_token'' (JStr codex_placeholder) block)
      in if truthy (jget0 block (access_name l)) then Some (dict_set (block_name l) (JObj public) credentials) else None)"

section \<open>\<open>refresh_if_due\<close>\<close>

datatype stored = Missing | Unreadable | Stored json

record oauth_files =
  of_credentials :: stored
  of_mirror :: "jdict option"
  of_success :: "rat option"
  of_attempt :: "rat option"

record oauth_call =
  oc_skew :: rat
  oc_force :: bool
  oc_minimum :: rat
  oc_attempt :: rat
  oc_mirrored :: bool
  oc_now :: rat
  oc_after :: rat
  oc_stamp :: string

datatype reply = Unreachable | Answer int "json option"

datatype refresh_result = Refreshed | Current | Cooldown | Waiting | Failed

definition effective_skew :: "rat \<Rightarrow> rat \<Rightarrow> rat option \<Rightarrow> rat" where
  "effective_skew skew expiry success =
     (case success of
        None \<Rightarrow> skew
      | Some t \<Rightarrow> if expiry \<le> t then skew else min skew (max 1 ((expiry - t) / 2)))"

definition publish_mirror :: "login \<Rightarrow> oauth_call \<Rightarrow> jdict \<Rightarrow> oauth_files \<Rightarrow> oauth_files" where
  "publish_mirror l c credentials f =
     (case worker_mirror l credentials of
        Some m \<Rightarrow> if oc_mirrored c then f\<lparr>of_mirror := Some m\<rparr> else f
      | None \<Rightarrow> f)"

text \<open>What is known before the exchange: an end without one, or the token to present.\<close>

definition before_exchange ::
  "(string \<Rightarrow> int option) \<Rightarrow> login \<Rightarrow> oauth_call \<Rightarrow> oauth_files \<Rightarrow> oauth_files \<times> (refresh_result + jdict \<times> string)" where
  "before_exchange jwt l c f =
     (case of_credentials f of
        Missing \<Rightarrow> (f, Inl Waiting)
      | Unreadable \<Rightarrow> (f, Inl Failed)
      | Stored (JObj d) \<Rightarrow>
          (let f1 = publish_mirror l c d f; expiry = expires_at jwt l (JObj d); success = of_success f;
               skew = (case expiry of Some e \<Rightarrow> effective_skew (oc_skew c) e success | None \<Rightarrow> oc_skew c)
           in if \<not> oc_force c \<and> (case expiry of Some e \<Rightarrow> oc_now c + skew < e | None \<Rightarrow> False) then (f1, Inl Current)
              else if \<not> oc_force c \<and> expiry = None then (f1, Inl Failed)
              else if (case success of Some t \<Rightarrow> oc_now c < t + oc_minimum c | None \<Rightarrow> False) then (f1, Inl Cooldown)
              else if oc_attempt c \<noteq> 0 \<and> (case of_attempt f of Some t \<Rightarrow> oc_now c < t + oc_attempt c | None \<Rightarrow> False) then (f1, Inl Cooldown)
              else
                (let f2 = (if oc_attempt c \<noteq> 0 then f1\<lparr>of_attempt := Some (oc_now c)\<rparr> else f1)
                 in case stored_refresh_token l (JObj d) of None \<Rightarrow> (f2, Inl Failed) | Some t \<Rightarrow> (f2, Inr (d, t))))
      | Stored _ \<Rightarrow> (f, Inl Failed))"

definition after_exchange ::
  "(string \<Rightarrow> int option) \<Rightarrow> login \<Rightarrow> oauth_call \<Rightarrow> jdict \<Rightarrow> string \<Rightarrow> reply \<Rightarrow> oauth_files \<Rightarrow> oauth_files \<times> refresh_result" where
  "after_exchange jwt l c credentials old r f =
     (case r of
        Answer status (Some (JObj body)) \<Rightarrow>
          if status \<noteq> 200 then (f, Failed)
          else
            (case merge_response jwt (oc_after c) (oc_stamp c) l credentials body old of
               (d, None) \<Rightarrow> ((publish_mirror l c d (f\<lparr>of_credentials := Stored (JObj d)\<rparr>))\<lparr>of_success := Some (oc_after c)\<rparr>, Refreshed)
             | (d, Some _) \<Rightarrow>
                 (if truthy (jget0 body ''refresh_token'') then publish_mirror l c d (f\<lparr>of_credentials := Stored (JObj d)\<rparr>) else f, Failed))
      | _ \<Rightarrow> (f, Failed))"

text \<open>The whole call, with the token it presented; the answer is looked at only after an exchange.\<close>

definition refresh_if_due ::
  "(string \<Rightarrow> int option) \<Rightarrow> login \<Rightarrow> oauth_call \<Rightarrow> (string \<Rightarrow> reply) \<Rightarrow> oauth_files \<Rightarrow> oauth_files \<times> refresh_result \<times> string option" where
  "refresh_if_due jwt l c endpoint f =
     (case before_exchange jwt l c f of
        (f1, Inl r) \<Rightarrow> (f1, r, None)
      | (f1, Inr (d, t)) \<Rightarrow> (let (f2, r) = after_exchange jwt l c d t (endpoint t) f1 in (f2, r, Some t)))"

section \<open>An endpoint of single-use tokens\<close>

text \<open>
  An endpoint refuses a token that is not the current one. Otherwise it may fail and keep the token, or answer, with a
  new token or none. A reply that rotates the token arrives.
\<close>

definition honest :: "string \<Rightarrow> string \<Rightarrow> reply \<Rightarrow> string \<Rightarrow> bool" where
  "honest current token r current' \<longleftrightarrow>
     (case r of
        Answer status (Some (JObj body)) \<Rightarrow>
          if status = 200
          then token = current
            \<and> (if truthy (jget0 body ''refresh_token'')
               then jget0 body ''refresh_token'' = JStr current' \<and> current' \<noteq> codex_placeholder else current' = current)
          else current' = current
      | _ \<Rightarrow> current' = current)"

text \<open>Any sequence of calls, each by whichever process holds the lock, with what was presented.\<close>

inductive rotations :: "(string \<Rightarrow> int option) \<Rightarrow> login \<Rightarrow> oauth_files \<times> string \<Rightarrow> (oauth_call \<times> refresh_result \<times> string option) list \<Rightarrow> oauth_files \<times> string \<Rightarrow> bool"
  for jwt l where
  none: "rotations jwt l s [] s"
| call: "rotations jwt l s cs (f, current) \<Longrightarrow> refresh_if_due jwt l c (\<lambda>_. r) f = (f', res, presented)
    \<Longrightarrow> (case presented of None \<Rightarrow> current' = current | Some t \<Rightarrow> honest current t r current')
    \<Longrightarrow> rotations jwt l s (cs @ [(c, res, presented)]) (f', current')"

end
