(* ===== verification/OauthLaws.thy ===== *)
theory OauthLaws
  imports OauthRefresh
begin

text \<open>
  A single-use refresh token is never presented twice, rotations keep their distance, and the workers' copy holds no
  refresh token.
\<close>

lemma jget0_dict_set: "jget0 (dict_set k v d) k' = (if k' = k then v else jget0 d k')"
  by (simp add: jget0_def jget_def)

lemma jget0_dict_del: "jget0 (dict_del k d) k' = (if k' = k then JNull else jget0 d k')"
  by (simp add: jget0_def jget_def)

lemma jget0_set_if: "jget0 (set_if b k v d) k' = (if b \<and> k' = k then v else jget0 d k')"
  by (simp add: set_if_def jget0_dict_set)

lemma block_set: "block_of (JObj (dict_set k (JObj b) d)) k' = (if k' = k then b else block_of (JObj d) k')"
  by (simp add: block_of_def jget0_dict_set)

lemma names_differ: "refresh_name l \<noteq> access_name l" "refresh_name l \<noteq> ''expiresAt''" "refresh_name l \<noteq> ''id_token''"
  "block_name l \<noteq> ''last_refresh''"
  by (cases l; simp add: refresh_name_def access_name_def block_name_def)+

text \<open>The refresh token that a merge leaves behind.\<close>

lemma merged_token:
  assumes "given_string (if truthy (jget0 body ''refresh_token'') then jget0 body ''refresh_token'' else JStr old) = Some t"
  shows "stored_refresh_token l (JObj (fst (merge_response jwt now stamp l d body old))) = (if t = codex_placeholder then None else Some t)"
proof -
  have ne: "t \<noteq> []" using assms by (auto simp: given_string_def split: json.splits if_splits)
  have "jget0 (block_of (JObj (fst (merge_response jwt now stamp l d body old))) (block_name l)) (refresh_name l) = JStr t"
    unfolding merge_response_def Let_def assms
    by (cases l) (simp_all add: jget0_dict_set jget0_set_if block_set block_name_def refresh_name_def access_name_def,
        simp_all add: block_of_def jget0_dict_set jget0_set_if)
  then show ?thesis using ne by (simp add: stored_refresh_token_def)
qed

lemma merged_nothing:
  assumes "given_string (if truthy (jget0 body ''refresh_token'') then jget0 body ''refresh_token'' else JStr old) = None"
  shows "merge_response jwt now stamp l d body old = (d, Some NoRefreshToken)"
  unfolding merge_response_def Let_def assms by simp

lemma mirror_hides: "worker_mirror l d = Some m \<Longrightarrow> stored_refresh_token l (JObj m) = None"
  by (cases l) (auto simp: worker_mirror_def Let_def stored_refresh_token_def block_set jget0_dict_set jget0_dict_del block_name_def
      refresh_name_def split: if_splits json.splits)

lemma publish_fields [simp]:
  "of_credentials (publish_mirror l c d f) = of_credentials f" "of_success (publish_mirror l c d f) = of_success f"
  "of_attempt (publish_mirror l c d f) = of_attempt f"
  by (auto simp: publish_mirror_def split: option.split)

lemma before_cases:
  obtains (stop) f1 r where "before_exchange jwt l c f = (f1, Inl r)" "of_credentials f1 = of_credentials f" "of_success f1 = of_success f"
      "r \<noteq> Refreshed"
  | (present) f1 d t where "before_exchange jwt l c f = (f1, Inr (d, t))" "of_credentials f = Stored (JObj d)"
      "of_credentials f1 = of_credentials f" "of_success f1 = of_success f" "stored_refresh_token l (JObj d) = Some t"
      "\<forall>s. of_success f = Some s \<longrightarrow> s + oc_minimum c \<le> oc_now c"
proof (cases "before_exchange jwt l c f")
  case (Pair f1 o')
  show ?thesis
  proof (cases o')
    case (Inl r)
    then show ?thesis using stop [of f1 r] Pair
      by (auto simp: before_exchange_def Let_def split: stored.splits json.splits if_splits option.splits)
  next
    case (Inr p)
    obtain d t where p: "p = (d, t)" by fastforce
    show ?thesis
      by (rule present [of f1 d t]; use Pair Inr p in \<open>auto simp: before_exchange_def Let_def not_less
          split: stored.splits json.splits if_splits option.splits\<close>)
  qed
qed

lemma after_credentials:
  assumes "honest current t r current'" and "of_credentials f1 = Stored (JObj d)" and "stored_refresh_token l (JObj d) = Some t" and "t = current"
    and "after_exchange jwt l c d t r f1 = (f', res)"
  shows "\<exists>d'. of_credentials f' = Stored (JObj d') \<and> stored_refresh_token l (JObj d') = Some current'"
proof -
  have t: "t \<noteq> []" "t \<noteq> codex_placeholder"
    using assms(3) by (auto simp: stored_refresh_token_def split: json.splits if_splits)
  show ?thesis
  proof (cases "\<exists>body. r = Answer 200 (Some (JObj body))")
    case False
    then have "f' = f1 \<and> current' = current"
      using assms(1,5) by (auto simp: after_exchange_def honest_def split: reply.splits option.splits json.splits if_splits)
    then show ?thesis using assms(2-4) by auto
  next
    case True
    then obtain body where r: "r = Answer 200 (Some (JObj body))" ..
    let ?m = "merge_response jwt (oc_after c) (oc_stamp c) l d body t"
    have g: "given_string (if truthy (jget0 body ''refresh_token'') then jget0 body ''refresh_token'' else JStr t) = Some current'"
        "current' \<noteq> codex_placeholder"
      using assms(1,4) t by (auto simp: honest_def r given_string_def split: if_splits)
    then have m: "stored_refresh_token l (JObj (fst ?m)) = Some current'" using merged_token by simp
    show ?thesis
    proof (cases "snd ?m = None \<or> truthy (jget0 body ''refresh_token'')")
      case True
      then have "of_credentials f' = Stored (JObj (fst ?m))"
        using assms(5) by (auto simp: after_exchange_def r split: prod.splits option.splits if_splits)
      then show ?thesis using m by blast
    next
      case False
      then have "f' = f1" "current' = current"
        using assms(1,5) by (auto simp: after_exchange_def r honest_def split: prod.splits option.splits)
      then show ?thesis using assms(2-4) by auto
    qed
  qed
qed

definition token_current :: "login \<Rightarrow> oauth_files \<times> string \<Rightarrow> bool" where
  "token_current l s \<longleftrightarrow> (\<forall>d t. of_credentials (fst s) = Stored (JObj d) \<longrightarrow> stored_refresh_token l (JObj d) = Some t \<longrightarrow> t = snd s)"

lemma call_current:
  assumes "token_current l (f, current)" and "refresh_if_due jwt l c (\<lambda>_. r) f = (f', res, presented)"
    and "case presented of None \<Rightarrow> current' = current | Some t \<Rightarrow> honest current t r current'"
  shows "token_current l (f', current') \<and> (presented = None \<or> presented = Some current)"
proof (cases rule: before_cases [of jwt l c f])
  case (stop f1 r1)
  then have "f' = f1" "presented = None" using assms(2) by (auto simp: refresh_if_due_def)
  then show ?thesis using assms(1,3) stop(2) by (auto simp: token_current_def)
next
  case (present f1 d t)
  obtain f2 r2 where a: "after_exchange jwt l c d t r f1 = (f2, r2)" by fastforce
  then have p: "f' = f2" "presented = Some t" using assms(2) present(1) by (auto simp: refresh_if_due_def)
  have t: "t = current" using assms(1) present(2,5) by (simp add: token_current_def)
  from after_credentials [OF _ _ present(5) t a] assms(3) p present(2,3)
  obtain d' where "of_credentials f' = Stored (JObj d')" "stored_refresh_token l (JObj d') = Some current'" by auto
  then show ?thesis using p t by (auto simp: token_current_def)
qed

text \<open>
  C11: a single-use refresh token is never replayed. Over any sequence of calls, by whichever processes hold the lock, with any
  refusals, failures and half-usable answers of the endpoint, the stored refresh token is the endpoint's current one, and a
  call presents no other.
\<close>

theorem token_never_replayed:
  assumes "rotations jwt l (f0, current0) cs (f, current)"
    and "of_credentials f0 = Stored (JObj d0)" and "stored_refresh_token l (JObj d0) = Some current0"
  shows "(\<forall>d t. of_credentials f = Stored (JObj d) \<longrightarrow> stored_refresh_token l (JObj d) = Some t \<longrightarrow> t = current)
    \<and> (\<forall>c endpoint f' res t. refresh_if_due jwt l c endpoint f = (f', res, Some t) \<longrightarrow> t = current)"
proof -
  have "token_current l s" if "rotations jwt l s0 cs s" "token_current l s0" for s0 cs s
    using that by induction (use call_current in blast)+
  moreover have "token_current l (f0, current0)" using assms(2,3) by (simp add: token_current_def)
  ultimately have inv: "token_current l (f, current)" using assms(1) by blast
  have "t = current" if "refresh_if_due jwt l c endpoint f = (f', res, Some t)" for c endpoint f' res t
  proof (cases rule: before_cases [of jwt l c f])
    case (stop f1 r1)
    with that show ?thesis by (simp add: refresh_if_due_def)
  next
    case (present f1 d t')
    with that have "t' = t" by (auto simp: refresh_if_due_def split: prod.splits)
    with inv present show ?thesis by (simp add: token_current_def)
  qed
  then show ?thesis using inv by (auto simp: token_current_def)
qed

lemma call_success:
  assumes "refresh_if_due jwt l c endpoint f = (f', res, presented)"
  shows "(res = Refreshed \<longrightarrow> of_success f' = Some (oc_after c) \<and> (\<forall>s. of_success f = Some s \<longrightarrow> s + oc_minimum c \<le> oc_now c))
    \<and> (res \<noteq> Refreshed \<longrightarrow> of_success f' = of_success f)"
proof (cases rule: before_cases [of jwt l c f])
  case (stop f1 r1)
  then show ?thesis using assms by (auto simp: refresh_if_due_def)
next
  case (present f1 d t)
  obtain f2 r2 where a: "after_exchange jwt l c d t (endpoint t) f1 = (f2, r2)" by fastforce
  then have "f' = f2" "res = r2" using assms present(1) by (auto simp: refresh_if_due_def)
  moreover have "(r2 = Refreshed \<longrightarrow> of_success f2 = Some (oc_after c)) \<and> (r2 \<noteq> Refreshed \<longrightarrow> of_success f2 = of_success f1)"
    using a by (auto simp: after_exchange_def split: reply.splits option.splits json.splits if_splits prod.splits)
  ultimately show ?thesis using present(4,6) by simp
qed

definition mirror_clean :: "login \<Rightarrow> oauth_files \<Rightarrow> bool" where
  "mirror_clean l f \<longleftrightarrow> (\<forall>m. of_mirror f = Some m \<longrightarrow> stored_refresh_token l (JObj m) = None)"

lemma publish_clean: "mirror_clean l g \<Longrightarrow> mirror_clean l (publish_mirror l c d g)"
  using mirror_hides by (auto simp: mirror_clean_def publish_mirror_def split: option.split)

lemma clean_update [simp]:
  "mirror_clean l (g\<lparr>of_credentials := k\<rparr>) = mirror_clean l g" "mirror_clean l (g\<lparr>of_success := s\<rparr>) = mirror_clean l g"
  "mirror_clean l (g\<lparr>of_attempt := s\<rparr>) = mirror_clean l g"
  by (simp_all add: mirror_clean_def)

lemma before_clean:
  assumes "mirror_clean l f" shows "mirror_clean l (fst (before_exchange jwt l c f))"
proof (cases "\<exists>d. of_credentials f = Stored (JObj d)")
  case True
  then obtain d where d: "of_credentials f = Stored (JObj d)" ..
  note p = publish_clean [OF assms, of c d]
  show ?thesis unfolding before_exchange_def Let_def by (simp add: d p split: option.split)
next
  case False
  then show ?thesis using assms by (auto simp: before_exchange_def split: stored.split json.split)
qed

lemma after_clean:
  assumes "mirror_clean l f" shows "mirror_clean l (fst (after_exchange jwt l c d t r f))"
proof -
  have "mirror_clean l (publish_mirror l c k (f\<lparr>of_credentials := v\<rparr>))" for k v using assms by (simp add: publish_clean)
  then show ?thesis using assms by (simp add: after_exchange_def split: reply.split option.split json.split prod.split)
qed

lemma call_mirror:
  assumes "refresh_if_due jwt l c endpoint f = (f', res, presented)" and "mirror_clean l f"
  shows "mirror_clean l f'"
proof -
  obtain f1 e where b: "before_exchange jwt l c f = (f1, e)" by fastforce
  have f1: "mirror_clean l f1" using before_clean [OF assms(2), of jwt c] b by simp
  show ?thesis
  proof (cases e)
    case (Inl r)
    then show ?thesis using f1 b assms(1) by (simp add: refresh_if_due_def)
  next
    case (Inr p)
    obtain d t where p: "p = (d, t)" by fastforce
    obtain f2 r2 where a: "after_exchange jwt l c d t (endpoint t) f1 = (f2, r2)" by fastforce
    then show ?thesis using after_clean [OF f1, of jwt c d t "endpoint t"] Inr p b assms(1) by (simp add: refresh_if_due_def)
  qed
qed

text \<open>Rotations so far: each leaves its time in the marker, and they keep their distance.\<close>

definition spaced :: "(oauth_call \<times> refresh_result \<times> string option) list \<Rightarrow> bool" where
  "spaced cs \<longleftrightarrow> sorted_wrt (\<lambda>(c, r, _) (c', r', _). r = Refreshed \<longrightarrow> r' = Refreshed \<longrightarrow> oc_after c + oc_minimum c' \<le> oc_now c') cs"

lemma rotations_spaced:
  assumes "rotations jwt l s0 cs s1" and "mirror_clean l (fst s0)"
    and "\<forall>(c, _)\<in>set cs. 0 \<le> oc_minimum c \<and> oc_now c \<le> oc_after c"
  shows "spaced cs \<and> (\<forall>(c, r, p)\<in>set cs. r = Refreshed \<longrightarrow> (\<exists>s. of_success (fst s1) = Some s \<and> oc_after c \<le> s))
    \<and> mirror_clean l (fst s1)"
  using assms
proof induction
  case (none s)
  then show ?case by (simp add: spaced_def)
next
  case (call s cs f current c r f' res presented current')
  have clk: "0 \<le> oc_minimum c" "oc_now c \<le> oc_after c" and prev: "\<forall>(c, _)\<in>set cs. 0 \<le> oc_minimum c \<and> oc_now c \<le> oc_after c"
    using call.prems(2) by auto
  have ih: "spaced cs" "\<forall>(c, r, p)\<in>set cs. r = Refreshed \<longrightarrow> (\<exists>s. of_success f = Some s \<and> oc_after c \<le> s)" "mirror_clean l f"
    using call.IH [OF call.prems(1) prev] by simp_all
  have clean: "mirror_clean l f'" by (rule call_mirror [OF call.hyps(2) ih(3)])
  note s = call_success [OF call.hyps(2)]
  show ?case
  proof (cases "res = Refreshed")
    case False
    then show ?thesis using ih s clean by (auto simp: spaced_def sorted_wrt_append)
  next
    case True
    then have m: "of_success f' = Some (oc_after c)" "\<forall>s. of_success f = Some s \<longrightarrow> s + oc_minimum c \<le> oc_now c" using s by auto
    have later: "oc_after c1 + oc_minimum c \<le> oc_now c" if e: "(c1, Refreshed, p) \<in> set cs" for c1 p
    proof -
      obtain t where "of_success f = Some t" "oc_after c1 \<le> t" using ih(2) e by fastforce
      then show ?thesis using m(2) by fastforce
    qed
    have "oc_after c1 \<le> oc_after c" if "(c1, Refreshed, p) \<in> set cs" for c1 p using later [OF that] clk by linarith
    then have "\<forall>(c1, r, p)\<in>set (cs @ [(c, res, presented)]). r = Refreshed \<longrightarrow> (\<exists>s. of_success f' = Some s \<and> oc_after c1 \<le> s)"
      using m(1) by auto
    moreover have "spaced (cs @ [(c, res, presented)])"
      using ih(1) later by (auto simp: spaced_def sorted_wrt_append)
    ultimately show ?thesis using clean by simp
  qed
qed

text \<open>
  C19: rotations keep their distance, and what workers see holds no refresh token. Over any sequence of calls, a rotation comes at
  least its caller's minimum interval after every earlier rotation, even when it is forced, and the workers' copy of the
  credential never holds a refresh token that could be spent.
\<close>

theorem rotations_keep_distance:
  assumes "rotations jwt l (f0, current0) cs (f, current)" and "of_mirror f0 = None"
    and "\<forall>(c, _)\<in>set cs. 0 \<le> oc_minimum c \<and> oc_now c \<le> oc_after c"
  shows "(\<forall>i j c c' p p'. i < j \<longrightarrow> j < length cs \<longrightarrow> cs ! i = (c, Refreshed, p) \<longrightarrow> cs ! j = (c', Refreshed, p')
           \<longrightarrow> oc_after c + oc_minimum c' \<le> oc_now c')
    \<and> (\<forall>m. of_mirror f = Some m \<longrightarrow> stored_refresh_token l (JObj m) = None)"
proof -
  have "mirror_clean l (fst (f0, current0))" using assms(2) by (simp add: mirror_clean_def)
  note s = rotations_spaced [OF assms(1) this assms(3)]
  show ?thesis
  proof (intro conjI allI impI)
    fix i j c c' p p' assume ij: "i < j" "j < length cs" and e: "cs ! i = (c, Refreshed, p)" "cs ! j = (c', Refreshed, p')"
    show "oc_after c + oc_minimum c' \<le> oc_now c'"
      using s sorted_wrt_nth_less [OF _ ij] e unfolding spaced_def by fastforce
  qed (use s in \<open>simp add: mirror_clean_def\<close>)
qed

text \<open>A rotation, a call too soon after it even though forced, and a second rotation.\<close>

definition some_login :: jdict where
  "some_login = [(''claudeAiOauth'', JObj [(''accessToken'', JStr ''a''), (''refreshToken'', JStr ''r0''), (''expiresAt'', JNum (PInt 1000))])]"

definition some_files :: oauth_files where
  "some_files = \<lparr>of_credentials = Stored (JObj some_login), of_mirror = None, of_success = None, of_attempt = None\<rparr>"

definition some_call :: "rat \<Rightarrow> oauth_call" where
  "some_call t = \<lparr>oc_skew = 60, oc_force = True, oc_minimum = 600, oc_attempt = 0, oc_mirrored = True, oc_now = 1000000000 + t, oc_after = 1000000001 + t, oc_stamp = []\<rparr>"

definition some_reply :: "string \<Rightarrow> int \<Rightarrow> reply" where
  "some_reply t n = Answer 200 (Some (JObj [(''refresh_token'', JStr t), (''access_token'', JStr ''b''), (''expires_in'', JNum (PInt n))]))"

definition some_next :: "rat \<Rightarrow> reply \<Rightarrow> oauth_files \<Rightarrow> oauth_files \<times> refresh_result \<times> string option" where
  "some_next t r f = refresh_if_due (\<lambda>_. None) ClaudeLogin (some_call t) (\<lambda>_. r) f"

definition some_f1 :: oauth_files where "some_f1 = fst (some_next 2000 (some_reply ''r1'' 100) some_files)"
definition some_f2 :: oauth_files where "some_f2 = fst (some_next 2100 (some_reply ''r2'' 100) some_f1)"
definition some_f3 :: oauth_files where "some_f3 = fst (some_next 3000 (some_reply ''r2'' 100) some_f2)"

definition some_trail :: "(oauth_call \<times> refresh_result \<times> string option) list" where
  "some_trail = [(some_call 2000, Refreshed, Some ''r0''), (some_call 2100, Cooldown, None), (some_call 3000, Refreshed, Some ''r1'')]"

lemma some_steps:
  "some_next 2000 (some_reply ''r1'' 100) some_files = (some_f1, Refreshed, Some ''r0'')"
  "some_next 2100 (some_reply ''r2'' 100) some_f1 = (some_f2, Cooldown, None)"
  "some_next 3000 (some_reply ''r2'' 100) some_f2 = (some_f3, Refreshed, Some ''r1'')"
  by code_simp+

lemma some_rotations: "rotations (\<lambda>_. None) ClaudeLogin (some_files, ''r0'') some_trail (some_f3, ''r2'')"
proof -
  note n = some_steps [unfolded some_next_def]
  have h: "honest ''r0'' ''r0'' (some_reply ''r1'' 100) ''r1''" "honest ''r1'' ''r1'' (some_reply ''r2'' 100) ''r2''" by code_simp+
  have "rotations (\<lambda>_. None) ClaudeLogin (some_files, ''r0'') [] (some_files, ''r0'')" by (rule rotations.none)
  note s1 = rotations.call [OF this n(1), of "''r1''"]
  have "rotations (\<lambda>_. None) ClaudeLogin (some_files, ''r0'') ([] @ [(some_call 2000, Refreshed, Some ''r0'')]) (some_f1, ''r1'')"
    by (rule s1) (simp add: h)
  note s2 = rotations.call [OF this n(2), of "''r1''", simplified]
  note s3 = rotations.call [OF s2 n(3), of "''r2''"]
  show ?thesis using s3 h by (simp add: some_trail_def)
qed

lemma token_never_replayed_witness:
  "refresh_if_due (\<lambda>_. None) ClaudeLogin (some_call 4000) (\<lambda>_. Unreachable) some_f3
     = (some_f3\<lparr>of_attempt := of_attempt (fst (some_next 4000 Unreachable some_f3))\<rparr>, Failed, Some ''r2'')"
proof -
  have "of_credentials some_files = Stored (JObj some_login)" "stored_refresh_token ClaudeLogin (JObj some_login) = Some ''r0''"
    by code_simp+
  note presented = token_never_replayed [OF some_rotations this, THEN conjunct2, rule_format]
  define t where "t = the (snd (snd (refresh_if_due (\<lambda>_. None) ClaudeLogin (some_call 4000) (\<lambda>_. Unreachable) some_f3)))"
  have "refresh_if_due (\<lambda>_. None) ClaudeLogin (some_call 4000) (\<lambda>_. Unreachable) some_f3
      = (some_f3\<lparr>of_attempt := of_attempt (fst (some_next 4000 Unreachable some_f3))\<rparr>, Failed, Some t)"
    unfolding t_def by code_simp
  with presented [OF this] show ?thesis by simp
qed

lemma rotations_keep_distance_witness: "oc_after (some_call 2000) + oc_minimum (some_call 3000) \<le> oc_now (some_call 3000)"
proof -
  have "of_mirror some_files = None" "\<forall>(c, _)\<in>set some_trail. 0 \<le> oc_minimum c \<and> oc_now c \<le> oc_after c" by code_simp+
  from conjunct1 [OF rotations_keep_distance [OF some_rotations this], THEN spec [of _ 0], THEN spec [of _ 2]]
  show ?thesis by (simp add: some_trail_def)
qed

end
