(* ===== verification/RecoveryState.thy ===== *)
theory RecoveryState
  imports Prelude
begin

text \<open>
  The consumer journal of a repair checkpoint (\<open>repair_recovery.py\<close>): its states, \<open>write\<close>, the selection, what
  the repository says about the pull request, the policy, and what a push left on the remote branch.
  Details of the reasons, paths and the fields of restoring and integrating a checkout are left out.
\<close>

section \<open>Data\<close>

datatype rec_state = Retained | Eligible | Resuming | Verified | PublicationPending | Published | Obsolete | Blocked

definition terminal :: "rec_state \<Rightarrow> bool" where
  "terminal s \<longleftrightarrow> s = Published \<or> s = Obsolete"

text \<open>The exceptions of a visit: the four kinds of \<open>Wait\<close> with their codes, and everything else.\<close>

datatype stop_kind = Waiting | Gone | Barred | Unfit

datatype stop = Stop stop_kind string | Broke

record grounds =
  gr_code :: string
  gr_action :: string
  gr_when :: "string option"

record intent =
  it_oid :: string
  it_expected :: string

record publication =
  pb_oid :: string
  pb_expected :: string
  pb_repository :: string
  pb_ref :: string
  pb_receipt :: string
  pb_fingerprint :: string
  pb_started :: "bool option"
  pb_uncertain :: bool

record receipt =
  rc_status :: string
  rc_fingerprint :: string
  rc_receipt :: string

text \<open>What a receiving round reported about the source it was handed.\<close>

record source_receipt =
  sr_round :: "string option"
  sr_published :: "string option"
  sr_pending :: bool
  sr_checkpoint :: "string option"

record handoff =
  ho_id :: string
  ho_state :: string
  ho_round :: "string option"
  ho_head :: string
  ho_published_before :: "string option"
  ho_scoped :: bool
  ho_attempt_before :: "string option"
  ho_pending_before :: "string option"
  ho_required :: bool
  ho_accepted :: bool
  ho_waits :: nat
  ho_receipt :: "source_receipt option"
  ho_published :: "string option"
  ho_checkpoint :: "string option"

record facts =
  fa_head :: string
  fa_state :: string
  fa_ref :: string
  fa_repository :: string
  fa_author :: string
  fa_labels :: "string list"
  fa_draft :: bool
  fa_base :: string
  fa_targets :: "string list"

record external =
  ex_checkpoint :: string
  ex_head :: string
  ex_state :: string
  ex_author :: string
  ex_repository :: string
  ex_ref :: string
  ex_base :: string
  ex_holds :: "string list"
  ex_roadmaps :: "string list"

record journal =
  jn_state :: rec_state
  jn_protocol :: "int option"
  jn_attempts :: int
  jn_streak :: nat
  jn_failures :: int
  jn_reason :: "grounds option"
  jn_retry :: rat
  jn_recheck :: "rat option"
  jn_reserved :: "rat option"
  jn_probe :: rat
  jn_selection :: jdict
  jn_external :: "external option"
  jn_observed :: "string option"
  jn_publication :: "publication option"
  jn_history :: "(publication \<times> bool) list"
  jn_normal :: "intent option"
  jn_confirmed :: "string option"
  jn_forensic :: bool
  jn_handoff :: "handoff option"
  jn_evidence :: "(string \<times> string) option"
  jn_receipt :: "receipt option"
  jn_failed_check :: "string option"
  jn_failed_head :: "string option"
  jn_failed_source :: "string option"
  jn_failed_receipt :: receipt
  jn_check_failures :: nat
  jn_failed_recheck :: rat
  jn_content :: int
  jn_content_started :: "string option"
  jn_refunds :: int
  jn_why :: "string option"
  jn_delta :: bool

record authorization =
  au_actor :: string
  au_author :: string
  au_repository :: string
  au_ref :: string
  au_sandbox :: bool
  au_foreign :: bool
  au_bump :: bool
  au_roadmap :: "string option"
  au_billing :: string
  au_profile :: "(string \<times> string \<times> string) option"
  au_charged :: "string list"
  au_budget :: int

record manifest =
  mf_fingerprint :: string
  mf_repository :: string
  mf_pr :: "int option"
  mf_work :: string
  mf_operations :: bool
  mf_auth :: "authorization option"
  mf_expected :: "string option"
  mf_local_head :: "string option"
  mf_dirty :: bool
  mf_published :: "string option"
  mf_pending :: "intent option"

record options =
  op_repo :: string
  op_base :: string
  op_only :: "string list"
  op_prs :: "int list"
  op_sandbox :: bool
  op_agent :: string
  op_profile :: "(string \<times> string \<times> string) option"
  op_billing :: string
  op_roadmap :: "string option"
  op_skip :: "string option"

section \<open>The journal\<close>

definition retryable_codes :: "string list" where
  "retryable_codes = [''invocation-failed'', ''recovery-exhausted'', ''content-allowance'', ''publication-revalidation-failed'']"

definition active_handoff_codes :: "string list" where
  "active_handoff_codes = [''source-handed-to-normal-round'', ''source-handoff-source-pending'', ''source-handoff-reconciliation'']"

definition code_of :: "journal \<Rightarrow> string option" where
  "code_of j = map_option gr_code (jn_reason j)"

definition code_in :: "string list \<Rightarrow> journal \<Rightarrow> bool" where
  "code_in cs j \<longleftrightarrow> (case code_of j of Some c \<Rightarrow> c \<in> set cs | None \<Rightarrow> False)"

definition offered :: "journal \<Rightarrow> bool" where
  "offered j \<longleftrightarrow> (case jn_handoff j of Some h \<Rightarrow> ho_state h = ''offered'' | None \<Rightarrow> False)"

definition protocol_version :: int where "protocol_version = 3"

text \<open>\<open>write\<close>: the fields, then the state that their reason and handoff make of the one asked for.\<close>

definition written_state :: "rec_state \<Rightarrow> journal \<Rightarrow> rec_state" where
  "written_state s j =
     (let s1 = (if s = Obsolete \<and> offered j \<and> code_in active_handoff_codes j then Resuming else s)
      in if s1 = Blocked \<and> code_in retryable_codes j then Eligible else s1)"

definition written :: "rec_state \<Rightarrow> (journal \<Rightarrow> journal) \<Rightarrow> journal \<Rightarrow> journal" where
  "written s upd j = (let j' = upd j in j'\<lparr>jn_state := written_state s j', jn_protocol := Some protocol_version\<rparr>)"

definition reason_of :: "stop_kind \<Rightarrow> string \<Rightarrow> grounds" where
  "reason_of k code =
     \<lparr>gr_code = code,
      gr_action = (case k of Gone \<Rightarrow> ''continue-normal-selection'' | Barred \<Rightarrow> ''continue-normal-selection''
                   | Unfit \<Rightarrow> ''retry-with-original-content-allowance'' | Waiting \<Rightarrow> ''retry-after-dependency-or-policy-change''),
      gr_when = (if code = ''content-allowance'' then Some ''scheduled-mechanical-recheck-or-changed-authorized-external-facts''
                 else if k = Barred then Some ''changed-authorized-external-facts'' else None)\<rparr>"

text \<open>The names of \<open>--only\<close> and the numbers of \<open>--pr\<close> are given sorted.\<close>

definition text_value :: "string option \<Rightarrow> json" where
  "text_value v = (case v of Some s \<Rightarrow> JStr s | None \<Rightarrow> JNull)"

definition selection :: "options \<Rightarrow> jdict" where
  "selection p =
     [(''only'', JArr (map JStr (op_only p))), (''prs'', JArr (map (\<lambda>n. JNum (PInt n)) (op_prs p))),
      (''sandbox_host'', JBool (op_sandbox p)), (''agent'', JStr (op_agent p)), (''billing'', JStr (op_billing p)),
      (''roadmap'', text_value (op_roadmap p)), (''skip'', text_value (op_skip p))]"

definition selection_changed :: "jdict \<Rightarrow> jdict \<Rightarrow> bool" where
  "selection_changed previous current \<longleftrightarrow>
     previous \<noteq> [] \<and> list_ex (\<lambda>(k, v). case jget previous k of Some w \<Rightarrow> w \<noteq> v | None \<Rightarrow> False) current"

definition started :: "publication \<Rightarrow> bool" where
  "started p \<longleftrightarrow> pb_started p \<noteq> Some False"

definition uncertain_publication :: "journal \<Rightarrow> bool" where
  "uncertain_publication j \<longleftrightarrow> (case jn_publication j of Some p \<Rightarrow> started p | None \<Rightarrow> False)"

text \<open>The push of the normal round: in its own file, in the journal or in the manifest.\<close>

definition normal_publication :: "intent option \<Rightarrow> manifest \<Rightarrow> journal \<Rightarrow> intent option" where
  "normal_publication on_disk m j =
     (case (case on_disk of Some i \<Rightarrow> Some i
            | None \<Rightarrow> (case jn_normal j of Some i \<Rightarrow> Some i | None \<Rightarrow> mf_pending m)) of
        Some i \<Rightarrow> if it_oid i \<noteq> it_expected i then Some i else None
      | None \<Rightarrow> None)"

definition discard_unstarted :: "journal \<Rightarrow> journal" where
  "discard_unstarted j =
     (case jn_publication j of
        Some p \<Rightarrow> if started p then j else j\<lparr>jn_history := jn_history j @ [(p, True)], jn_publication := None\<rparr>
      | None \<Rightarrow> j)"

section \<open>What the repository says\<close>

definition hold_labels :: "string list" where
  "hold_labels = [''do-not-close'', ''hold'', ''human'', ''keep'', ''on-hold'', ''wip'']"

text \<open>One look at the pull request, with what the policy asks at that moment; nothing when the reading fails.\<close>

record sight =
  si_data :: "facts option"
  si_me :: string
  si_can_push :: "bool option"

definition read_facts :: "options \<Rightarrow> manifest \<Rightarrow> sight \<Rightarrow> stop + facts" where
  "read_facts p m v =
     (if mf_repository m \<noteq> op_repo p \<or> mf_pr m \<in> {None, Some 0} then Inl (Stop Barred ''missing-publication-scope'')
      else case si_data v of None \<Rightarrow> Inl Broke | Some f \<Rightarrow> Inr f)"

definition same_person :: "string \<Rightarrow> string \<Rightarrow> bool" where
  "same_person a b \<longleftrightarrow> py_lower a = py_lower b"

text \<open>\<open>in_scope\<close> of the shared tools takes labels, targets, branch, roadmap and the roadmap to skip.\<close>

type_synonym scope_test = "string list \<Rightarrow> string list \<Rightarrow> string \<Rightarrow> string \<Rightarrow> string option \<Rightarrow> bool"

definition or_any :: "string option \<Rightarrow> string" where
  "or_any v = (case v of Some s \<Rightarrow> if s = [] then ''any'' else s | None \<Rightarrow> ''any'')"

definition policy :: "scope_test \<Rightarrow> options \<Rightarrow> manifest \<Rightarrow> sight \<Rightarrow> facts \<Rightarrow> stop + unit" where
  "policy in_scope p m v f =
     (if fa_state f \<noteq> ''OPEN'' then Inl (Stop Gone ''pr-closed'')
      else if fa_draft f \<or> list_ex (\<lambda>l. py_lower l \<in> set hold_labels) (fa_labels f) then Inl (Stop Barred ''pr-held'')
      else if fa_base f \<noteq> op_base p then Inl (Stop Barred ''base-policy'')
      else if mf_operations m then Inl (Stop Barred ''incomplete-git-operation'')
      else case mf_auth m of
        None \<Rightarrow> Inl (Stop Barred ''original-authorization-missing'')
      | Some a \<Rightarrow>
          if \<not> same_person (au_actor a) (si_me v) then Inl (Stop Barred ''original-authorization-missing'')
          else if fa_author f \<noteq> au_author a \<or> fa_repository f \<noteq> au_repository a \<or> fa_ref f \<noteq> au_ref a
            then Inl (Stop Barred ''ownership-changed'')
          else if \<not> au_sandbox a \<or> \<not> op_sandbox p then Inl (Stop Barred ''recovery-sandbox-required'')
          else if au_foreign a then Inl (Stop Barred ''foreign-scope'')
          else if \<not> same_person (fa_author f) (si_me v) \<and> \<not> au_bump a then Inl (Stop Barred ''ownership-policy'')
          else if si_can_push v \<noteq> Some True then Inl (Stop Barred ''push-permission'')
          else if \<not> in_scope (fa_labels f) (fa_targets f) (fa_ref f) (or_any (au_roadmap a)) None
            then Inl (Stop Barred ''original-roadmap-policy'')
          else if \<not> in_scope (fa_labels f) (fa_targets f) (fa_ref f) (or_any (op_roadmap p)) (op_skip p)
            then Inl (Stop Waiting ''roadmap-policy'')
          else if op_only p \<noteq> [] \<and> mf_work m \<notin> set (op_only p) then Inl (Stop Waiting ''work-policy'')
          else if op_prs p \<noteq> [] \<and> the (mf_pr m) \<notin> set (op_prs p) then Inl (Stop Waiting ''pr-policy'')
          else Inr ())"

text \<open>What attempts are counted against: when it changes they start again.\<close>

definition external_of :: "manifest \<Rightarrow> facts \<Rightarrow> external" where
  "external_of m f =
     \<lparr>ex_checkpoint = mf_fingerprint m, ex_head = fa_head f, ex_state = fa_state f, ex_author = fa_author f,
      ex_repository = fa_repository f, ex_ref = fa_ref f, ex_base = fa_base f,
      ex_holds = filter (\<lambda>h. h \<in> set (fa_labels f)) hold_labels,
      ex_roadmaps = filter (starts_with ''roadmap/'') (fa_labels f)\<rparr>"

section \<open>\<open>reconcile\<close>\<close>

text \<open>
  The branch on the remote: the listing (nothing when it fails, then no branch or its head), the private checkout,
  whether the head could be fetched into it and contains the commit, and the mark of a durable push.
\<close>

record remote_view =
  rv_listing :: "string option option"
  rv_checkout :: bool
  rv_fetched :: bool
  rv_contains :: bool
  rv_marker :: "string option"

definition reconcile :: "remote_view \<Rightarrow> string \<Rightarrow> string \<Rightarrow> facts \<Rightarrow> stop + bool" where
  "reconcile v oid expected f =
     (case rv_listing v of
        None \<Rightarrow> Inl Broke
      | Some None \<Rightarrow> Inr False
      | Some (Some head) \<Rightarrow>
          if head = oid then Inr True
          else if rv_checkout v \<and> \<not> rv_fetched v then Inl Broke
          else if rv_checkout v \<and> rv_contains v then Inr True
          else if rv_checkout v \<and> rv_marker v = Some oid then Inl (Stop Gone ''publication-superseded'')
          else if head \<noteq> expected \<and> fa_state f = ''OPEN'' then Inl (Stop Gone ''publication-head-moved'')
          else Inr False)"

end
