(* ===== verification/RecoveryRun.thy ===== *)
theory RecoveryRun
  imports RecoveryState
begin

text \<open>
  One visit of a repair checkpoint (\<open>Recovery.run\<close>): admission of a paid continuation, the continuation, verification,
  preparing and publishing the commit, and what ends the visit. A visit is a sequence of actions; the journal is durable
  only at a \<open>Save\<close>. Git, GitHub, the verifier, the agent and the clock are observations. A stage of the backend
  that only restores or integrates the checkout is its number of saves and its end.
\<close>

section \<open>Actions\<close>

text \<open>How \<open>git-safe-push\<close> ended.\<close>

datatype push_answer = PushDone | PushNotStarted | PushExit int | PushTimeout

datatype act = Save journal | Push string push_answer | Agent | Evict

record live =
  lv_journal :: journal
  lv_acts :: "act list"
  lv_charged :: bool
  lv_counters :: "string \<Rightarrow> int"

type_synonym 'a io = "live \<Rightarrow> (stop + 'a) \<times> live"

definition give :: "'a \<Rightarrow> 'a io" where
  "give x s = (Inr x, s)"

definition halt :: "stop \<Rightarrow> 'a io" where
  "halt e s = (Inl e, s)"

definition andthen :: "'a io \<Rightarrow> ('a \<Rightarrow> 'b io) \<Rightarrow> 'b io" where
  "andthen m k s = (case m s of (Inl e, s1) \<Rightarrow> (Inl e, s1) | (Inr x, s1) \<Rightarrow> k x s1)"

definition outcome :: "stop + 'a \<Rightarrow> 'a io" where
  "outcome r = (case r of Inl e \<Rightarrow> halt e | Inr x \<Rightarrow> give x)"

definition look :: "(journal \<Rightarrow> 'a io) \<Rightarrow> 'a io" where
  "look k s = k (lv_journal s) s"

definition emit :: "act \<Rightarrow> unit io" where
  "emit a s = (Inr (), s\<lparr>lv_acts := lv_acts s @ [a]\<rparr>)"

definition remark :: "(journal \<Rightarrow> journal) \<Rightarrow> unit io" where
  "remark upd s = (Inr (), s\<lparr>lv_journal := upd (lv_journal s)\<rparr>)"

definition save :: "rec_state \<Rightarrow> (journal \<Rightarrow> journal) \<Rightarrow> unit io" where
  "save st upd s =
     (let j = written st upd (lv_journal s) in (Inr (), s\<lparr>lv_journal := j, lv_acts := lv_acts s @ [Save j]\<rparr>))"

text \<open>A transition also records the selection of the visit.\<close>

definition transition :: "options \<Rightarrow> rec_state \<Rightarrow> (journal \<Rightarrow> journal) \<Rightarrow> unit io" where
  "transition p st upd = save st (\<lambda>j. (upd j)\<lparr>jn_selection := selection p\<rparr>)"

fun works :: "nat \<Rightarrow> unit io" where
  "works 0 = give ()"
| "works (Suc n) = andthen (save Resuming id) (\<lambda>_. works n)"

type_synonym 'a stage = "nat \<times> (stop + 'a)"

definition stage :: "'a stage \<Rightarrow> 'a io" where
  "stage r = andthen (works (fst r)) (\<lambda>_. outcome (snd r))"

definition demand :: "bool \<Rightarrow> stop \<Rightarrow> unit io" where
  "demand b e = (if b then give () else halt e)"

section \<open>Observations\<close>

text \<open>
  Admission: API mode, the fleet's refusal, the model and bootstrap need a fresh reading resolves to (nothing when it
  raises) and whether the account matches.
\<close>

record admission =
  ad_api :: bool
  ad_capacity :: bool
  ad_model :: "(string \<times> bool) option"
  ad_account :: bool

datatype agent_end = AgentExit int | CacheDown | AdmissionDown | OverBudget | AgentBroke

datatype entrance = Opened | OpenAdmission | OpenBudget | OpenBroke

record continuation =
  cn_admission :: admission
  cn_open :: entrance
  cn_api :: bool
  cn_launched :: bool
  cn_admitted :: bool
  cn_sight :: sight
  cn_lost :: bool
  cn_id :: string
  cn_agent :: agent_end
  cn_blocked :: bool
  cn_snapshot :: "unit stage"
  cn_source :: "unit stage"
  cn_unresolved :: bool
  cn_infra :: bool

text \<open>Verification: what leads to its inputs' fingerprint, the verifier's receipt and the source it saw.\<close>

record examination =
  ck_source :: "unit stage"
  ck_current :: "string option"
  ck_now :: rat
  ck_result :: receipt
  ck_tree :: string

record preparing =
  pp_fingerprint :: "string option"
  pp_commit :: "unit stage"
  pp_oid :: string
  pp_reintroduced :: bool
  pp_integrates :: bool

record pushing =
  ph_sight :: sight
  ph_lost :: bool
  ph_head :: string
  ph_dirty :: bool
  ph_fingerprint :: "string option"
  ph_valid :: bool
  ph_normal :: "intent option"
  ph_answer :: push_answer

record visit =
  vs_exists :: bool
  vs_start :: rat
  vs_recheck :: rat
  vs_retry :: rat
  vs_end :: rat
  vs_sight :: sight
  vs_normal :: "intent option"
  vs_remote_normal :: remote_view
  vs_remote :: remote_view
  vs_source_now :: "string option"
  vs_admission :: admission
  vs_claim :: "bool option"
  vs_claimed :: sight
  vs_restore :: "unit stage"
  vs_prepare :: "unit stage"
  vs_head :: string
  vs_same_tree :: bool
  vs_reason :: "string option stage"
  vs_superseded :: "stop + bool"
  vs_continuation :: continuation
  vs_unchanged :: "stop + bool"
  vs_check :: examination
  vs_check_again :: examination
  vs_latest :: sight
  vs_lost :: bool
  vs_preparing :: preparing
  vs_pushing :: pushing
  vs_after :: sight
  vs_remote_after :: remote_view

section \<open>The paid continuation\<close>

definition content_limit :: "authorization \<Rightarrow> int" where
  "content_limit a = (if au_budget a = 0 then 3 else au_budget a)"

definition admitted ::
  "options \<Rightarrow> manifest \<Rightarrow> admission \<Rightarrow> (string \<Rightarrow> int) \<Rightarrow> journal \<Rightarrow> stop + (authorization \<times> string list)" where
  "admitted p m v counters j =
     (case mf_auth m of
        None \<Rightarrow> Inl (Stop Barred ''continuation-permissions'')
      | Some a \<Rightarrow>
          if \<not> au_sandbox a \<or> \<not> op_sandbox p then Inl (Stop Barred ''continuation-permissions'')
          else if au_billing a \<noteq> (if ad_api v then ''api'' else ''subscription'') then Inl (Stop Barred ''billing-policy'')
          else case au_profile a of
            None \<Rightarrow> Inl (Stop Barred ''profile-missing'')
          | Some (provider, model, effort) \<Rightarrow>
              if provider \<notin> {''claude'', ''codex''} then Inl (Stop Barred ''unsupported-continuation-provider'')
              else if op_agent p \<notin> {''auto'', provider} then Inl (Stop Waiting ''profile-policy'')
              else if op_profile p \<notin> {None, Some (provider, model, effort)} then Inl (Stop Waiting ''profile-policy'')
              else if au_charged a = [] \<or> content_limit a \<le> jn_content j \<or> list_ex (\<lambda>k. content_limit a \<le> counters k) (au_charged a)
                then Inl (Stop Barred ''content-allowance'')
              else if ad_capacity v then Inl (Stop Waiting ''worker-capacity'')
              else if \<not> (ad_api v \<and> provider = ''claude'') \<and> ad_model v \<noteq> Some (provider, False)
                then Inl (Stop Waiting ''budget-refused'')
              else if \<not> ad_account v then Inl Broke
              else Inr (a, au_charged a))"

definition with_counters :: "((string \<Rightarrow> int) \<Rightarrow> 'a io) \<Rightarrow> 'a io" where
  "with_counters k s = k (lv_counters s) s"

definition set_counters :: "((string \<Rightarrow> int) \<Rightarrow> string \<Rightarrow> int) \<Rightarrow> unit io" where
  "set_counters f s = (Inr (), s\<lparr>lv_counters := f (lv_counters s)\<rparr>)"

definition charge_counters :: "string list \<Rightarrow> (string \<Rightarrow> int) \<Rightarrow> string \<Rightarrow> int" where
  "charge_counters keys c = fold (\<lambda>k c. c(k := c k + 1)) keys c"

definition restore_counters :: "string list \<Rightarrow> (string \<Rightarrow> int) \<Rightarrow> (string \<Rightarrow> int) \<Rightarrow> string \<Rightarrow> int" where
  "restore_counters keys before c k = (if k \<in> set keys then min (before k) (c k) else c k)"

text \<open>Attempts are given back when no agent can have been launched.\<close>

definition refund_content ::
  "bool \<Rightarrow> bool \<Rightarrow> continuation \<Rightarrow> string list \<Rightarrow> (string \<Rightarrow> int) \<Rightarrow> int \<Rightarrow> bool io" where
  "refund_content known api v keys before_counts before_content =
     (if \<not> known \<and> (api \<and> cn_api v \<and> cn_launched v \<or> cn_admitted v) then give False
      else andthen (set_counters (restore_counters keys before_counts))
             (\<lambda>_. andthen (save Resuming (\<lambda>j. j\<lparr>jn_content := before_content, jn_content_started := None\<rparr>)) (\<lambda>_. give True)))"

definition max_refunds :: int where "max_refunds = 20"

definition snapshot :: "unit stage \<Rightarrow> unit io" where
  "snapshot r = andthen (stage r) (\<lambda>_. save Resuming id)"

definition continue_backend :: "scope_test \<Rightarrow> options \<Rightarrow> manifest \<Rightarrow> continuation \<Rightarrow> facts \<Rightarrow> unit io" where
  "continue_backend in_scope p m v f = with_counters (\<lambda>counts. look (\<lambda>j.
     andthen (outcome (admitted p m (cn_admission v) counts j)) (\<lambda>(a, keys).
     (let refund = (\<lambda>known api. refund_content known api v keys counts (jn_content j));
          refused = (\<lambda>api code. andthen (refund False api) (\<lambda>b. halt (if b then Stop Waiting code else Broke)))
      in case cn_open v of
           OpenAdmission \<Rightarrow> refused False ''worker-capacity''
         | OpenBudget \<Rightarrow> halt (Stop Waiting ''budget-refused'')
         | OpenBroke \<Rightarrow> halt Broke
         | Opened \<Rightarrow>
             andthen (outcome (read_facts p m (cn_sight v))) (\<lambda>latest.
             andthen (outcome (policy in_scope p m (cn_sight v) latest)) (\<lambda>_.
             andthen (demand (latest = f \<and> \<not> cn_lost v) (Stop Waiting ''claim-or-head-changed'')) (\<lambda>_.
             andthen (set_counters (charge_counters keys)) (\<lambda>_.
             andthen (save Resuming (\<lambda>j. j\<lparr>jn_content := jn_content j + 1, jn_content_started := Some (cn_id v)\<rparr>)) (\<lambda>_.
             andthen (emit Agent) (\<lambda>_.
             (case cn_agent v of
                CacheDown \<Rightarrow> andthen (refund True True) (\<lambda>_. halt Broke)
              | AdmissionDown \<Rightarrow> refused True ''worker-capacity''
              | OverBudget \<Rightarrow> halt (Stop Waiting ''budget-refused'')
              | AgentBroke \<Rightarrow> halt Broke
              | AgentExit rc \<Rightarrow>
                  andthen (if cn_api v \<and> cn_blocked v
                           then andthen (refund False True) (\<lambda>b. if b then halt (Stop Waiting ''budget-refused'') else save Resuming id)
                           else give ()) (\<lambda>_.
                  andthen (snapshot (cn_snapshot v)) (\<lambda>_.
                  andthen (stage (cn_source v)) (\<lambda>_.
                  look (\<lambda>j.
                    if rc = 0
                    then (if jn_delta j
                          then andthen (save Resuming id) (\<lambda>_. demand (\<not> cn_unresolved v) (Stop Unfit ''recovery-source-unresolved''))
                          else give ())
                    else if cn_infra v \<and> \<not> (cn_api v \<and> cn_blocked v) \<and> jn_refunds j < max_refunds
                      then andthen (refund True True) (\<lambda>_.
                           andthen (save Resuming (\<lambda>j. j\<lparr>jn_refunds := jn_refunds j + 1\<rparr>)) (\<lambda>_. halt Broke))
                      else halt (Stop Unfit ''continuation-source-failed''))))))))))))))))"

definition continue_source :: "scope_test \<Rightarrow> options \<Rightarrow> manifest \<Rightarrow> continuation \<Rightarrow> facts \<Rightarrow> string \<Rightarrow> unit io" where
  "continue_source in_scope p m v f why =
     andthen (transition p Resuming (\<lambda>j. j\<lparr>jn_why := Some why\<rparr>)) (\<lambda>_. continue_backend in_scope p m v f)"

section \<open>Verification, the commit and the push\<close>

definition recheck_delay :: "nat \<Rightarrow> rat" where
  "recheck_delay failures = min 21600 (1800 * 2 ^ min (failures - 1) 4)"

text \<open>A failure of the same inputs is not verified again before its recheck time.\<close>

definition verify :: "examination \<Rightarrow> facts \<Rightarrow> receipt io" where
  "verify v f =
     andthen (stage (ck_source v)) (\<lambda>_.
       (case ck_current v of
          None \<Rightarrow> halt Broke
        | Some fp \<Rightarrow> look (\<lambda>j.
            if jn_failed_check j = Some fp \<and> ck_now v < jn_failed_recheck j then give (jn_failed_receipt j)
            else if rc_status (ck_result v) = ''failed''
            then (let n = (if jn_failed_check j = Some fp then jn_check_failures j + 1 else 1)
                  in andthen (save Resuming (\<lambda>j. j\<lparr>jn_failed_check := Some fp, jn_failed_head := Some (fa_head f),
                        jn_failed_source := Some (ck_tree v), jn_failed_receipt := ck_result v, jn_check_failures := n,
                        jn_failed_recheck := ck_now v + recheck_delay n\<rparr>)) (\<lambda>_. give (ck_result v)))
            else give (ck_result v))))"

definition prepare :: "preparing \<Rightarrow> facts \<Rightarrow> receipt \<Rightarrow> publication io" where
  "prepare v f r =
     andthen (demand (pp_fingerprint v = Some (rc_fingerprint r)) Broke) (\<lambda>_.
     andthen (stage (pp_commit v)) (\<lambda>_.
       if pp_reintroduced v
       then andthen (save Resuming id) (\<lambda>_. halt (Stop Unfit ''removed-history-reintroduced''))
       else andthen (demand (pp_integrates v) Broke) (\<lambda>_.
         give \<lparr>pb_oid = pp_oid v, pb_expected = fa_head f, pb_repository = fa_repository f, pb_ref = fa_ref f,
               pb_receipt = rc_receipt r, pb_fingerprint = rc_fingerprint r, pb_started = Some False, pb_uncertain = False\<rparr>)))"

text \<open>The commit that may have been sent stays started; one that provably was not sent is so again only if it was before.\<close>

definition set_started :: "bool \<Rightarrow> journal \<Rightarrow> journal" where
  "set_started b j = j\<lparr>jn_publication := map_option (\<lambda>p. p\<lparr>pb_started := Some b\<rparr>) (jn_publication j)\<rparr>"

definition not_sent :: "stop \<Rightarrow> unit io" where
  "not_sent e =
     look (\<lambda>j. andthen (save PublicationPending (set_started (case jn_publication j of Some p \<Rightarrow> pb_uncertain p | None \<Rightarrow> False)))
                 (\<lambda>_. halt e))"

definition publish :: "scope_test \<Rightarrow> options \<Rightarrow> manifest \<Rightarrow> pushing \<Rightarrow> facts \<Rightarrow> publication \<Rightarrow> unit io" where
  "publish in_scope p m v f pub =
     andthen (outcome (read_facts p m (ph_sight v))) (\<lambda>current.
     andthen (outcome (policy in_scope p m (ph_sight v) current)) (\<lambda>_.
     andthen (demand (current = f \<and> \<not> ph_lost v) (Stop Waiting ''claim-or-head-changed'')) (\<lambda>_.
     andthen (demand (ph_head v = pb_oid pub \<and> \<not> ph_dirty v) Broke) (\<lambda>_.
     andthen (demand (ph_fingerprint v = Some (pb_fingerprint pub)) Broke) (\<lambda>_.
     andthen (demand (ph_valid v) Broke) (\<lambda>_.
     look (\<lambda>j.
     andthen (demand (normal_publication (ph_normal v) m j = None) (Stop Waiting ''normal-publication-arrived'')) (\<lambda>_.
     andthen (save PublicationPending (set_started True)) (\<lambda>_.
     andthen (emit (Push (pb_oid pub) (ph_answer v))) (\<lambda>_.
       (case ph_answer v of
          PushDone \<Rightarrow> give ()
        | PushNotStarted \<Rightarrow> not_sent Broke
        | PushExit rc \<Rightarrow> if rc \<in> {77, 78} then not_sent (Stop Waiting ''push-rejected'')
                         else if rc \<in> {79, 80} then not_sent Broke else halt Broke
        | PushTimeout \<Rightarrow> halt Broke)))))))))))"

section \<open>A visit\<close>

text \<open>Up to the claim: nothing is charged.\<close>

definition published_by :: "options \<Rightarrow> facts \<Rightarrow> string \<Rightarrow> unit io" where
  "published_by p f oid =
     transition p Published (\<lambda>j. j\<lparr>jn_evidence := Some (fa_head f, oid), jn_reason := None\<rparr>)"

definition forensic :: "bool \<Rightarrow> unit io" where
  "forensic b = remark (\<lambda>j. j\<lparr>jn_forensic := b\<rparr>)"

definition settle_normal :: "options \<Rightarrow> manifest \<Rightarrow> visit \<Rightarrow> facts \<Rightarrow> intent \<Rightarrow> bool io" where
  "settle_normal p m v f i =
     andthen (forensic True) (\<lambda>_.
     andthen (outcome (reconcile (vs_remote_normal v) (it_oid i) (it_expected i) f)) (\<lambda>landed.
       if landed
       then andthen (remark (\<lambda>j. j\<lparr>jn_confirmed := Some (it_oid i)\<rparr>)) (\<lambda>_.
            if mf_local_head m \<noteq> Some (it_oid i) \<or> mf_dirty m
            then andthen (forensic False) (\<lambda>_. halt (Stop Gone ''post-publication-leftovers''))
            else andthen (published_by p f (it_oid i)) (\<lambda>_. give True))
       else halt (Stop Gone ''publication-uncertain'')))"

text \<open>Three failed visits wait for a recheck.\<close>

definition exhausted_reason :: grounds where
  "exhausted_reason = \<lparr>gr_code = ''recovery-exhausted'', gr_action = ''scheduled-mechanical-recheck'', gr_when = None\<rparr>"

definition known_failure :: "visit \<Rightarrow> facts \<Rightarrow> journal \<Rightarrow> bool" where
  "known_failure v f j \<longleftrightarrow>
     jn_failed_head j = Some (fa_head f) \<and> code_of j \<noteq> Some ''content-allowance'' \<and> jn_failed_source j \<noteq> None
     \<and> vs_retry v < jn_failed_recheck j \<and> vs_source_now v = jn_failed_source j"

definition claim :: "scope_test \<Rightarrow> options \<Rightarrow> manifest \<Rightarrow> visit \<Rightarrow> facts \<Rightarrow> unit io" where
  "claim in_scope p m v f =
     andthen (case vs_claim v of
                None \<Rightarrow> halt Broke | Some ok \<Rightarrow> demand ok (Stop Waiting ''claim-unavailable'')) (\<lambda>_.
     andthen (outcome (read_facts p m (vs_claimed v))) (\<lambda>claimed.
     andthen (outcome (policy in_scope p m (vs_claimed v) claimed)) (\<lambda>_.
       demand (claimed = f) (Stop Waiting ''head-changed-before-claim''))))"

definition charge :: "options \<Rightarrow> unit io" where
  "charge p s =
     (case transition p Resuming (\<lambda>j. j\<lparr>jn_attempts := jn_attempts j + 1, jn_retry := 0, jn_reason := None\<rparr>) s of
        (r, s1) \<Rightarrow> (r, s1\<lparr>lv_charged := True\<rparr>))"

text \<open>The source: restored, integrated, continued if there is a reason and verified.\<close>

definition source_ready :: "scope_test \<Rightarrow> options \<Rightarrow> manifest \<Rightarrow> visit \<Rightarrow> facts \<Rightarrow> string option io" where
  "source_ready in_scope p m v f =
     andthen (stage (vs_restore v)) (\<lambda>_.
     andthen (stage (vs_prepare v)) (\<lambda>_.
     look (\<lambda>j.
     andthen (case jn_publication j of
                Some q \<Rightarrow> if vs_head v = pb_oid q \<and> vs_same_tree v then give ()
                          else andthen (forensic True) (\<lambda>_. halt (Stop Gone ''publication-uncertain''))
              | None \<Rightarrow> give ()) (\<lambda>_.
     andthen (stage (vs_reason v)) (\<lambda>why.
     andthen (if jn_publication j \<noteq> None \<and> why \<noteq> None
              then andthen (forensic True) (\<lambda>_. halt (Stop Gone ''publication-uncertain'')) else give ()) (\<lambda>_.
       (case why of
          None \<Rightarrow> andthen (outcome (vs_superseded v)) (\<lambda>same.
                    andthen (demand (\<not> same) (Stop Gone ''source-superseded'')) (\<lambda>_. give None))
        | Some w \<Rightarrow> andthen (continue_source in_scope p m (vs_continuation v) f w) (\<lambda>_.
                      andthen (outcome (vs_unchanged v)) (\<lambda>same.
                        andthen (demand (\<not> same) (Stop Gone ''no-applicable-source-delta'')) (\<lambda>_. give (Some w)))))))))))"

definition checked :: "scope_test \<Rightarrow> options \<Rightarrow> manifest \<Rightarrow> visit \<Rightarrow> facts \<Rightarrow> string option \<Rightarrow> receipt io" where
  "checked in_scope p m v f why = look (\<lambda>j.
     andthen (verify (vs_check v) f) (\<lambda>r.
       if rc_status r = ''success'' then give r
       else if rc_status r = ''incomplete'' then halt Broke
       else if jn_publication j \<noteq> None then halt (Stop Waiting ''publication-revalidation-failed'')
       else if why \<noteq> None then halt (Stop Unfit ''source-verification-failed'')
       else
         andthen (continue_source in_scope p m (vs_continuation v) f ''exact-source-verification-failed'') (\<lambda>_.
         andthen (verify (vs_check_again v) f) (\<lambda>r.
         andthen (demand (rc_status r = ''success'') (Stop Unfit ''source-verification-failed'')) (\<lambda>_. give r)))))"

text \<open>The publication: a pending one is replayed only as the same commit.\<close>

definition settled_intent :: "publication option \<Rightarrow> publication \<Rightarrow> publication io" where
  "settled_intent pending pub =
     (case pending of
        None \<Rightarrow> give pub
      | Some q \<Rightarrow>
          if pb_oid pub \<noteq> pb_oid q
          then andthen (forensic True) (\<lambda>_. halt (Stop Gone ''publication-uncertain''))
          else andthen (remark (\<lambda>j. if list_ex (\<lambda>(h, _). (pb_oid h, pb_fingerprint h) = (pb_oid q, pb_fingerprint q)) (jn_history j)
                                  then j else j\<lparr>jn_history := jn_history j @ [(q, False)]\<rparr>))
                 (\<lambda>_. give (pub\<lparr>pb_uncertain := True, pb_started := Some True\<rparr>)))"

definition deliver :: "scope_test \<Rightarrow> options \<Rightarrow> manifest \<Rightarrow> visit \<Rightarrow> facts \<Rightarrow> receipt \<Rightarrow> publication option \<Rightarrow> bool io" where
  "deliver in_scope p m v f r pending =
     andthen (prepare (vs_preparing v) f r) (\<lambda>pub0.
     andthen (settled_intent pending pub0) (\<lambda>pub.
     andthen (transition p PublicationPending (\<lambda>j. j\<lparr>jn_publication := Some pub\<rparr>)) (\<lambda>_.
     andthen (publish in_scope p m (vs_pushing v) f pub) (\<lambda>_.
     andthen (outcome (read_facts p m (vs_after v))) (\<lambda>latest.
     andthen (outcome (reconcile (vs_remote_after v) (pb_oid pub) (pb_expected pub) latest)) (\<lambda>landed.
     andthen (demand landed Broke) (\<lambda>_.
     andthen (published_by p latest (pb_oid pub)) (\<lambda>_. give True))))))))"

definition invocation :: "scope_test \<Rightarrow> options \<Rightarrow> manifest \<Rightarrow> visit \<Rightarrow> facts \<Rightarrow> bool io" where
  "invocation in_scope p m v f =
     andthen (charge p) (\<lambda>_.
     andthen (source_ready in_scope p m v f) (\<lambda>why. look (\<lambda>j.
     andthen (checked in_scope p m v f why) (\<lambda>r.
     andthen (transition p Verified (\<lambda>j. j\<lparr>jn_receipt := Some r, jn_reason := None\<rparr>)) (\<lambda>_.
     andthen (outcome (read_facts p m (vs_latest v))) (\<lambda>latest.
     andthen (outcome (policy in_scope p m (vs_latest v) latest)) (\<lambda>_.
     andthen (demand (latest = f \<and> \<not> vs_lost v) (Stop Waiting ''claim-or-head-changed'')) (\<lambda>_.
       deliver in_scope p m v f r (jn_publication j)))))))))"

definition after_policy :: "scope_test \<Rightarrow> options \<Rightarrow> manifest \<Rightarrow> visit \<Rightarrow> bool \<Rightarrow> facts \<Rightarrow> bool io" where
  "after_policy in_scope p m v changed f = look (\<lambda>j.
     (let recheck = (case jn_recheck j of Some t \<Rightarrow> if t = 0 then vs_recheck v + 1800 else t | None \<Rightarrow> vs_recheck v + 1800)
      in if 3 \<le> jn_attempts j \<and> vs_recheck v < recheck
         then andthen (transition p Blocked (\<lambda>j. j\<lparr>jn_reason := Some exhausted_reason, jn_recheck := Some recheck, jn_retry := recheck\<rparr>))
                (\<lambda>_. give False)
         else
           andthen (if 3 \<le> jn_attempts j
                    then transition p Eligible (\<lambda>j. j\<lparr>jn_attempts := 0, jn_recheck := None, jn_reason := None\<rparr>) else give ()) (\<lambda>_.
           look (\<lambda>j.
             if vs_retry v < jn_retry j \<and> \<not> changed then give False
             else
               andthen (if known_failure v f j
                        then with_counters (\<lambda>c. andthen (outcome (admitted p m (vs_admission v) c j)) (\<lambda>_. give ())) else give ()) (\<lambda>_.
               andthen (claim in_scope p m v f) (\<lambda>_.
               invocation in_scope p m v f))))))"

definition renew :: "options \<Rightarrow> external \<Rightarrow> unit io" where
  "renew p e = look (\<lambda>j.
     if jn_external j = Some e then give ()
     else transition p Eligible (\<lambda>j. j\<lparr>jn_external := Some e, jn_attempts := 0, jn_streak := 0, jn_check_failures := 0,
            jn_failed_recheck := 0, jn_retry := 0, jn_reason := None\<rparr>))"

definition attempt :: "scope_test \<Rightarrow> options \<Rightarrow> manifest \<Rightarrow> visit \<Rightarrow> bool \<Rightarrow> bool io" where
  "attempt in_scope p m v changed =
     andthen (outcome (read_facts p m (vs_sight v))) (\<lambda>f.
     andthen (remark (\<lambda>j. j\<lparr>jn_observed := Some (fa_head f)\<rparr>)) (\<lambda>_.
     look (\<lambda>j.
       case normal_publication (vs_normal v) m j of
         Some i \<Rightarrow> settle_normal p m v f i
       | None \<Rightarrow>
           andthen (remark discard_unstarted) (\<lambda>_.
           look (\<lambda>j.
           andthen (case jn_publication j of
                      Some q \<Rightarrow> outcome (reconcile (vs_remote v) (pb_oid q) (pb_expected q) f)
                    | None \<Rightarrow> give False) (\<lambda>landed.
             if landed then andthen (published_by p f (pb_oid (the (jn_publication j)))) (\<lambda>_. give True)
             else
               andthen (renew p (external_of m f)) (\<lambda>_.
               andthen (outcome (policy in_scope p m (vs_sight v) f)) (\<lambda>_.
               andthen (demand (mf_published m \<in> {None, mf_expected m}) (Stop Gone ''post-publication-leftovers'')) (\<lambda>_.
                 after_policy in_scope p m v changed f)))))))))"

section \<open>The end of a visit\<close>

definition infra_delay :: "int \<Rightarrow> nat \<Rightarrow> rat" where
  "infra_delay attempts streak =
     (if streak \<le> 3
      then (if attempts \<le> 1 then 60 else if attempts = 2 then 300 else 1800)
      else min 21600 (1800 * 2 ^ min ((streak - 3) div 3) 4))"

definition or_reserve :: "rat \<Rightarrow> rat option \<Rightarrow> rat" where
  "or_reserve now r = (case r of Some t \<Rightarrow> if t = 0 then now + 300 else t | None \<Rightarrow> now + 300)"

definition waited :: "options \<Rightarrow> rat \<Rightarrow> bool \<Rightarrow> stop_kind \<Rightarrow> string \<Rightarrow> unit io" where
  "waited p now charged k code =
     andthen (remark discard_unstarted) (\<lambda>_.
       transition p (case k of Gone \<Rightarrow> Obsolete | Barred \<Rightarrow> Blocked | _ \<Rightarrow> Eligible)
         (\<lambda>j. j\<lparr>jn_attempts := max 0 (jn_attempts j - (if charged then 1 else 0)),
                jn_reason := Some (reason_of k code),
                jn_retry := (if code \<in> {''content-allowance'', ''publication-revalidation-failed''}
                             then max (now + 1800) (jn_failed_recheck j) else now + (if k = Barred then 1800 else 60)),
                jn_reserved := Some (or_reserve now (jn_reserved j))\<rparr>))"

definition broke :: "options \<Rightarrow> rat \<Rightarrow> bool \<Rightarrow> unit io" where
  "broke p now charged =
     andthen (remark discard_unstarted) (\<lambda>_.
       transition p Eligible
         (\<lambda>j. let attempts = min 3 (jn_attempts j + (if charged then 0 else 1)); streak = jn_streak j + 1;
                  delay = infra_delay attempts streak
              in j\<lparr>jn_attempts := attempts, jn_failures := jn_failures j + 1, jn_streak := streak,
                   jn_reason := Some \<lparr>gr_code = ''invocation-failed'',
                     gr_action = (if 3 \<le> attempts then ''scheduled-mechanical-recheck'' else ''retry-infrastructure''),
                     gr_when = Some ''scheduled-backoff-or-changed-authorized-external-facts''\<rparr>,
                   jn_retry := now + delay, jn_recheck := (if 3 \<le> attempts then Some (now + delay) else None),
                   jn_reserved := Some (or_reserve now (jn_reserved j))\<rparr>))"

definition evicts :: "journal \<Rightarrow> bool" where
  "evicts j \<longleftrightarrow> terminal (jn_state j) \<or> jn_state j = Blocked \<and> code_of j \<noteq> Some ''invocation-failed''"

definition finish_visit :: "live \<Rightarrow> live" where
  "finish_visit s = (if evicts (lv_journal s) then snd (emit Evict s) else s)"

definition handled :: "options \<Rightarrow> rat \<Rightarrow> (stop + bool) \<times> live \<Rightarrow> live \<times> bool" where
  "handled p now r =
     (case r of
        (Inr b, s) \<Rightarrow> (finish_visit s, b)
      | (Inl (Stop k code), s) \<Rightarrow> (finish_visit (snd (waited p now (lv_charged s) k code s)), False)
      | (Inl Broke, s) \<Rightarrow> (finish_visit (snd (broke p now (lv_charged s) s)), False))"

definition fresh_live :: "journal \<Rightarrow> (string \<Rightarrow> int) \<Rightarrow> live" where
  "fresh_live j c = \<lparr>lv_journal = j, lv_acts = [], lv_charged = False, lv_counters = c\<rparr>"

text \<open>What comes before the attempt; without a manifest and a changed selection the visit ends there.\<close>

definition open_visit ::
  "options \<Rightarrow> manifest option \<Rightarrow> visit \<Rightarrow> journal \<Rightarrow> (string \<Rightarrow> int) \<Rightarrow> live \<times> (manifest \<times> bool) option" where
  "open_visit p m v j0 c =
     (let s0 = fresh_live j0 c; s1 = (if vs_exists v then s0 else snd (transition p Retained id s0))
      in if terminal (jn_state (lv_journal s1)) then (snd (emit Evict s1), None)
         else if offered (lv_journal s1) then (s1, None)
         else case m of
           None \<Rightarrow> (snd (transition p Blocked (\<lambda>j. j\<lparr>jn_reason := Some (reason_of Barred ''corrupt-checkpoint'')\<rparr>) s1), None)
         | Some m \<Rightarrow>
             (let s2 = (if jn_protocol (lv_journal s1) = Some protocol_version then s1
                        else snd (transition p (jn_state (lv_journal s1)) (\<lambda>j. j\<lparr>jn_retry := 0\<rparr>) s1));
                  changed = selection_changed (jn_selection (lv_journal s2)) (selection p)
              in if vs_start v < jn_retry (lv_journal s2) \<and> \<not> changed then (s2, None) else (s2, Some (m, changed))))"

definition run :: "scope_test \<Rightarrow> options \<Rightarrow> manifest option \<Rightarrow> visit \<Rightarrow> journal \<Rightarrow> (string \<Rightarrow> int) \<Rightarrow> live \<times> bool" where
  "run in_scope p m v j0 c =
     (case open_visit p m v j0 c of
        (s, None) \<Rightarrow> (s, False)
      | (s, Some (m, changed)) \<Rightarrow> handled p (vs_end v) (attempt in_scope p m v changed s))"

end
