(* ===== verification/RecoveryHandoff.thy ===== *)
theory RecoveryHandoff
  imports RecoveryRun
begin

text \<open>
  A checkpoint's source in the hands of a normal round, and the scheduling of visits (\<open>repair_recovery.py\<close>): offering,
  completing, returning and reconciling a handoff, what \<open>recover\<close> does to a record around its visit, \<open>due\<close> and
  \<open>pending_for\<close>. The markers in the checkout, the receipts and the records beside this one are observations.
\<close>

section \<open>A handoff that ends\<close>

definition hand :: "string \<Rightarrow> handoff \<Rightarrow> journal \<Rightarrow> journal" where
  "hand st h j = j\<lparr>jn_handoff := Some (h\<lparr>ho_state := st\<rparr>)\<rparr>"

definition because :: "string \<Rightarrow> journal \<Rightarrow> journal" where
  "because code j = j\<lparr>jn_reason := Some (reason_of Gone code)\<rparr>"

definition kept_evidence :: "handoff \<Rightarrow> journal \<Rightarrow> journal" where
  "kept_evidence h = written Obsolete (\<lambda>j. because ''publication-head-moved'' (hand ''forensic'' h j))"

definition returned :: "handoff \<Rightarrow> journal \<Rightarrow> journal" where
  "returned h = written Eligible (\<lambda>j. (hand ''returned'' h j)\<lparr>jn_retry := 0, jn_reason := None\<rparr>)"

definition consumed :: "string \<Rightarrow> handoff \<Rightarrow> journal \<Rightarrow> journal" where
  "consumed head h = written Obsolete (\<lambda>j. because ''source-handoff-published'' (hand ''published'' (h\<lparr>ho_published := Some head\<rparr>) j))"

definition doubtful :: "string \<Rightarrow> handoff \<Rightarrow> journal \<Rightarrow> journal" where
  "doubtful st h = written Obsolete (\<lambda>j. because ''publication-uncertain'' ((hand st h j)\<lparr>jn_forensic := True\<rparr>))"

definition complete_handoff :: "string \<Rightarrow> string \<Rightarrow> string option \<Rightarrow> journal \<Rightarrow> journal" where
  "complete_handoff identity head marker j =
     (case jn_handoff j of
        Some h \<Rightarrow> if ho_id h = identity \<and> ho_state h = ''offered'' \<and> head \<noteq> [] \<and> marker = Some head then consumed head h j else j
      | None \<Rightarrow> j)"

definition return_handoff :: "string \<Rightarrow> journal \<Rightarrow> journal" where
  "return_handoff identity j =
     (case jn_handoff j of
        Some h \<Rightarrow>
          if ho_id h = identity \<and> ho_state h = ''offered''
          then (if jn_forensic j then kept_evidence h j else returned h j) else j
      | None \<Rightarrow> j)"

section \<open>\<open>reconcile_handoff\<close>\<close>

record neighbour =
  nb_round :: "string option"
  nb_beside :: bool
  nb_same :: bool
  nb_complete :: bool
  nb_uncertain :: bool

record handoff_view =
  hv_now :: rat
  hv_self :: string
  hv_receipt :: "source_receipt option"
  hv_checkout :: bool
  hv_marker :: "string option"
  hv_names :: "string list"
  hv_record :: "string \<Rightarrow> neighbour"
  hv_attempt :: "string option"
  hv_rejected :: "string option"
  hv_pending :: "string option"
  hv_intent :: "intent option"
  hv_attempted :: "string option"
  hv_remote :: "string option"

definition receipt_checked :: "handoff \<Rightarrow> bool" where
  "receipt_checked h \<longleftrightarrow> (case ho_receipt h of Some r \<Rightarrow> sr_round r = ho_round h | None \<Rightarrow> False)"

definition receipt_checkpoint :: "handoff \<Rightarrow> string option" where
  "receipt_checkpoint h = (if receipt_checked h then (case ho_receipt h of Some r \<Rightarrow> sr_checkpoint r | None \<Rightarrow> None) else None)"

definition receipt_published :: "handoff \<Rightarrow> string option" where
  "receipt_published h = (if receipt_checked h then (case ho_receipt h of Some r \<Rightarrow> sr_published r | None \<Rightarrow> None) else None)"

definition receipt_pending :: "handoff \<Rightarrow> bool" where
  "receipt_pending h \<longleftrightarrow> (case ho_receipt h of Some r \<Rightarrow> sr_pending r | None \<Rightarrow> False)"

definition max_inspect :: nat where "max_inspect = 8"

text \<open>The first complete record of the receiving round, whose names differ; a checked receipt names the only candidate.\<close>

definition successor :: "handoff_view \<Rightarrow> handoff \<Rightarrow> string option" where
  "successor v h =
     (if ho_round h = None then None
      else find (\<lambda>n. let r = hv_record v n in n \<noteq> hv_self v \<and> (receipt_checkpoint h = Some n \<or> nb_round r = ho_round h)
                      \<and> nb_beside r \<and> nb_same r \<and> nb_complete r)
             (take max_inspect (if receipt_checked h then (case receipt_checkpoint h of Some n \<Rightarrow> [n] | None \<Rightarrow> [])
                                else hv_names v)))"

definition transferred :: "handoff_view \<Rightarrow> handoff \<Rightarrow> string \<Rightarrow> journal \<Rightarrow> journal" where
  "transferred v h n = written Obsolete (\<lambda>j. because ''source-handoff-checkpoint''
     ((hand ''transferred'' (h\<lparr>ho_checkpoint := Some n\<rparr>) j)\<lparr>jn_forensic := receipt_pending h \<or> nb_uncertain (hv_record v n)\<rparr>))"

definition source_wait :: "nat \<Rightarrow> rat" where
  "source_wait waits =
     (if waits \<le> 1 then 60 else if waits = 2 then 300 else if waits = 3 then 1800 else min 21600 (1800 * 2 ^ min (waits - 3) 4))"

definition source_pending :: "handoff_view \<Rightarrow> handoff \<Rightarrow> journal \<Rightarrow> journal" where
  "source_pending v h = written Obsolete (\<lambda>j. j\<lparr>jn_handoff := Some (h\<lparr>ho_waits := ho_waits h + 1\<rparr>),
     jn_retry := hv_now v + source_wait (ho_waits h + 1),
     jn_reason := Some \<lparr>gr_code = ''source-handoff-source-pending'', gr_action = ''retry-source-preservation-receipt'', gr_when = None\<rparr>\<rparr>)"

definition remote_unknown :: "handoff_view \<Rightarrow> journal \<Rightarrow> journal" where
  "remote_unknown v = written Obsolete (\<lambda>j. j\<lparr>jn_retry := hv_now v + 300,
     jn_reason := Some \<lparr>gr_code = ''source-handoff-reconciliation'', gr_action = ''scheduled-handoff-reconciliation'', gr_when = None\<rparr>\<rparr>)"

text \<open>Whether the round's own markers show that it did not push.\<close>

definition nothing_sent :: "handoff_view \<Rightarrow> handoff \<Rightarrow> bool" where
  "nothing_sent v h \<longleftrightarrow>
     hv_attempt v = ho_attempt_before h \<and> hv_pending v = ho_pending_before h
     \<or> hv_attempt v \<noteq> None \<and> hv_rejected v = hv_attempt v \<and> hv_pending v = None
     \<or> (case hv_intent v of
          Some i \<Rightarrow> it_oid i = it_expected i \<and> hv_pending v \<in> {None, ho_pending_before h, hv_attempt v}
        | None \<Rightarrow> False)"

definition reconcile_remote :: "handoff_view \<Rightarrow> handoff \<Rightarrow> journal \<Rightarrow> journal" where
  "reconcile_remote v h j =
     (let marked = (ho_scoped h \<and> hv_checkout v)
      in case hv_remote v of
           None \<Rightarrow> remote_unknown v j
         | Some head \<Rightarrow>
             if marked \<and> hv_attempted v = Some head then consumed head h j
             else if head \<noteq> ho_head h \<or> marked \<and> hv_attempt v \<noteq> None \<or> \<not> marked then doubtful ''head-moved'' h j
             else returned h j)"

definition reconcile_evidence :: "handoff_view \<Rightarrow> handoff \<Rightarrow> journal \<Rightarrow> journal" where
  "reconcile_evidence v h j =
     (let checked = (receipt_checked h \<and> receipt_checkpoint h \<in> {None, Some (hv_self v)})
      in if receipt_pending h then doubtful ''forensic'' h j
         else if ho_required h \<and> ho_accepted h \<and> \<not> checked then source_pending v h j
         else if checked \<and> ho_required h \<and> \<not> hv_checkout v then returned h j
         else if ho_scoped h \<and> hv_checkout v \<and> nothing_sent v h
           then (if \<not> ho_required h \<and> \<not> checked then doubtful ''forensic'' h j else returned h j)
         else reconcile_remote v h j)"

definition reconcile_handoff :: "handoff_view \<Rightarrow> journal \<Rightarrow> journal option" where
  "reconcile_handoff v j0 =
     (case jn_handoff j0 of
        None \<Rightarrow> None
      | Some h0 \<Rightarrow>
          (let changed = (hv_receipt v \<noteq> None \<and> hv_receipt v \<noteq> ho_receipt h0);
               h = (if changed then h0\<lparr>ho_receipt := hv_receipt v\<rparr> else h0);
               j = (if changed then j0\<lparr>jn_handoff := Some h, jn_retry := 0\<rparr> else j0)
           in if ho_state h0 \<noteq> ''offered'' \<or> hv_now v < jn_retry j0 \<and> \<not> changed then None
              else if jn_forensic j then Some (kept_evidence h j)
              else if hv_checkout v \<and> hv_marker v \<noteq> None \<and> hv_marker v \<noteq> ho_published_before h
                then Some (consumed (the (hv_marker v)) h j)
              else case receipt_published h of
                Some head \<Rightarrow> Some (consumed head h j)
              | None \<Rightarrow>
                  (case successor v h of
                     Some n \<Rightarrow> Some (transferred v h n j)
                   | None \<Rightarrow> Some (reconcile_evidence v h j))))"

section \<open>Offering the source\<close>

definition evidence_codes :: "string list" where
  "evidence_codes = [''publication-head-moved'', ''publication-uncertain'', ''source-handoff-checkpoint'', ''post-publication-leftovers'']"

definition listed_codes :: "string list" where
  "listed_codes = ''source-handed-to-normal-round'' # evidence_codes"

record offer_view =
  ow_view :: handoff_view
  ow_normal :: "intent option"
  ow_snapshot :: bool
  ow_id :: string
  ow_round :: "string option"
  ow_head :: string
  ow_published :: "string option"
  ow_attempt :: "string option"
  ow_pending :: "string option"
  ow_owned :: bool

datatype offer_end = Skipped | Evidence | Handed | Failed

definition offered_handoff :: "offer_view \<Rightarrow> handoff" where
  "offered_handoff v =
     \<lparr>ho_id = ow_id v, ho_state = ''offered'', ho_round = ow_round v, ho_head = ow_head v, ho_published_before = ow_published v,
      ho_scoped = True, ho_attempt_before = ow_attempt v, ho_pending_before = ow_pending v, ho_required = True,
      ho_accepted = False, ho_waits = 0, ho_receipt = None, ho_published = None, ho_checkpoint = None\<rparr>"

definition only_evidence :: "intent option \<Rightarrow> manifest \<Rightarrow> journal \<Rightarrow> bool" where
  "only_evidence on_disk m j \<longleftrightarrow>
     jn_forensic j \<or> uncertain_publication j \<or> normal_publication on_disk m j \<noteq> None \<and> jn_confirmed j = None
     \<or> code_in evidence_codes j"

definition hand_over :: "offer_view \<Rightarrow> journal \<Rightarrow> journal list \<times> offer_end" where
  "hand_over v j =
     (let j1 = written Obsolete (\<lambda>j. because ''source-handed-to-normal-round''
                 (j\<lparr>jn_handoff := Some (offered_handoff v), jn_retry := 0, jn_forensic := False\<rparr>)) j
      in if ow_owned v
         then ([j1, written Obsolete (\<lambda>j. j\<lparr>jn_handoff := Some ((offered_handoff v)\<lparr>ho_accepted := True\<rparr>)\<rparr>) j1], Handed)
         else ([j1], Failed))"

text \<open>The journals written for one record under its lock, and what became of it.\<close>

definition excluded :: "string \<Rightarrow> manifest \<Rightarrow> bool" where
  "excluded actor m \<longleftrightarrow>
     (case mf_auth m of
        Some a \<Rightarrow> au_foreign a \<or> au_bump a \<or> au_actor a \<noteq> [] \<and> \<not> same_person (au_actor a) actor
      | None \<Rightarrow> False)"

definition handoff_state :: "journal \<Rightarrow> string option" where
  "handoff_state j = map_option ho_state (jn_handoff j)"

definition offer_one :: "offer_view \<Rightarrow> string \<Rightarrow> manifest \<Rightarrow> journal \<Rightarrow> journal list \<times> offer_end" where
  "offer_one v actor m j =
     (if terminal (jn_state j) \<and> \<not> code_in listed_codes j \<or> excluded actor m \<or> handoff_state j = Some ''published''
      then ([], Skipped)
      else
        (let before = (if offered j then (case reconcile_handoff (ow_view v) j of Some j1 \<Rightarrow> [j1] | None \<Rightarrow> []) else []);
             j1 = (case before of [] \<Rightarrow> j | k # _ \<Rightarrow> k)
         in if offered j1 then (before, Evidence)
            else if handoff_state j1 = Some ''published'' then (before, Skipped)
            else if only_evidence (ow_normal v) m j1 then (before, Evidence)
            else if \<not> ow_snapshot v then (before, Failed)
            else (case hand_over v j1 of (js, e) \<Rightarrow> (before @ js, e))))"

section \<open>Around a visit\<close>

definition permanent_blocks :: "string list" where
  "permanent_blocks = [''missing-publication-scope'', ''original-authorization-missing'', ''foreign-scope'', ''recovery-sandbox-required'',
     ''profile-missing'', ''unsupported-continuation-provider'', ''incomplete-git-operation'', ''billing-policy'', ''expected-head-missing'']"

definition metadata_waits :: "string list" where
  "metadata_waits = [''pr-held'', ''push-permission'', ''ownership-changed'', ''maintenance-blocked'', ''base-policy'', ''ownership-policy'',
     ''original-roadmap-policy'', ''roadmap-policy'']"

definition local_waits :: "string list" where
  "local_waits = [''work-policy'', ''pr-policy'', ''profile-policy'', ''roadmap-policy'']"

text \<open>A look at the shared metadata, without a visit, for a record that only an outside change can revive.\<close>

definition probe :: "rat \<Rightarrow> stop + facts \<Rightarrow> journal \<Rightarrow> journal" where
  "probe now seen j =
     (case seen of
        Inl _ \<Rightarrow> written Blocked (\<lambda>j. j\<lparr>jn_probe := now + 1800\<rparr>) j
      | Inr f \<Rightarrow>
          if fa_state f \<noteq> ''OPEN'' then written Obsolete (because ''pr-closed'') j
          else if jn_observed j \<noteq> None \<and> jn_observed j \<noteq> Some (fa_head f)
            then written Eligible (\<lambda>j. j\<lparr>jn_retry := 0, jn_reason := None\<rparr>) j
          else written Blocked (\<lambda>j. j\<lparr>jn_observed := Some (fa_head f), jn_probe := now + 1800\<rparr>) j)"

text \<open>The metadata and the policy before the visit of a record that waits for them; whether the visit follows.\<close>

definition recheck_policy ::
  "scope_test \<Rightarrow> options \<Rightarrow> manifest \<Rightarrow> rat \<Rightarrow> sight \<Rightarrow> stop + facts \<Rightarrow> journal \<Rightarrow> journal \<times> bool" where
  "recheck_policy in_scope p m now v seen j =
     (case seen of
        Inl _ \<Rightarrow> (written (jn_state j) (\<lambda>j. j\<lparr>jn_retry := now + 1800\<rparr>) j, False)
      | Inr f \<Rightarrow>
          (case policy in_scope p m v f of
             Inl (Stop k code) \<Rightarrow>
               (written (case k of Gone \<Rightarrow> Obsolete | Barred \<Rightarrow> Blocked | _ \<Rightarrow> Eligible)
                  (\<lambda>j. j\<lparr>jn_reason := Some (reason_of k code), jn_retry := now + 1800\<rparr>) j, False)
           | Inl Broke \<Rightarrow> (written (jn_state j) (\<lambda>j. j\<lparr>jn_retry := now + 1800\<rparr>) j, False)
           | Inr _ \<Rightarrow> (written Eligible (\<lambda>j. j\<lparr>jn_retry := 0, jn_reason := None\<rparr>) j, True)))"

text \<open>\<open>due\<close> for one record: whether the next round should visit it before normal work.\<close>

definition migrated_codes :: "string list" where
  "migrated_codes = [''head-rewritten'', ''content-allowance'', ''publication-head-moved'', ''merge-head-changed'',
     ''removed-history-reintroduced'', ''checkout-missing'', ''containment-unavailable'', ''continuation-cleanup'', ''recovery-exhausted'']"

definition due :: "options option \<Rightarrow> rat \<Rightarrow> bool \<Rightarrow> source_receipt option \<Rightarrow> journal \<Rightarrow> bool" where
  "due p now metadata receipt j \<longleftrightarrow>
     (let ready = (jn_retry j \<le> now)
      in if offered j \<and> (ready \<or> receipt \<noteq> (case jn_handoff j of Some h \<Rightarrow> ho_receipt h | None \<Rightarrow> None)) then True
         else if terminal (jn_state j) then False
         else if code_in retryable_codes j \<and> \<not> ready then False
         else if jn_protocol j \<noteq> Some protocol_version then jn_state j \<noteq> Blocked \<or> code_in migrated_codes j
         else if jn_state j = Blocked
           then (case jn_recheck j of Some t \<Rightarrow> t \<noteq> 0 \<and> t \<le> now | None \<Rightarrow> False)
             \<or> code_in [''content-allowance''] j \<and> ready
             \<or> code_in metadata_waits j \<and> ready \<and> metadata
         else (case p of Some q \<Rightarrow> selection_changed (jn_selection j) (selection q) | None \<Rightarrow> False)
             \<or> code_in [''roadmap-policy''] j \<and> metadata \<and> ready
             \<or> \<not> code_in local_waits j \<and> ready)"

text \<open>\<open>pending_for\<close> for one record of the pull request: whether it keeps unrelated work away.\<close>

definition reserves :: "rat \<Rightarrow> journal \<Rightarrow> bool" where
  "reserves now j \<longleftrightarrow>
     \<not> terminal (jn_state j) \<and> jn_state j \<noteq> Blocked \<and> \<not> offered j \<and> \<not> code_in retryable_codes j
     \<and> (jn_reason j = None \<or> jn_state j \<in> {Resuming, Verified, PublicationPending}
        \<or> (case jn_reserved j of Some t \<Rightarrow> now < t | None \<Rightarrow> False))"

end
