(* ===== verification/RecoveryLaws.thy ===== *)
theory RecoveryLaws
  imports RecoveryHandoff
begin

text \<open>
  What the visits of a checkpoint promise: a push that may have landed is only ever repeated as the same commit, a push
  happens only on its conditions, and a checkpoint is published only when the remote says so.
\<close>

named_theorems quiet_intros "rules for stages that leave the publication as it is and push nothing"

section \<open>What may have landed\<close>

definition unsent :: "push_answer \<Rightarrow> bool" where
  "unsent a \<longleftrightarrow> (case a of PushNotStarted \<Rightarrow> True | PushExit n \<Rightarrow> n \<in> {77, 78, 79, 80} | _ \<Rightarrow> False)"

type_synonym sent = "(string \<times> push_answer) list"

fun sends :: "act list \<Rightarrow> sent" where
  "sends [] = []"
| "sends (Push n a # as) = (n, a) # sends as"
| "sends (_ # as) = sends as"

fun durable :: "journal \<Rightarrow> act list \<Rightarrow> journal" where
  "durable j [] = j"
| "durable j (Save k # as) = durable k as"
| "durable j (_ # as) = durable j as"

lemma sends_append [simp]: "sends (xs @ ys) = sends xs @ sends ys"
  by (induction xs rule: sends.induct) auto

lemma durable_append [simp]: "durable j (xs @ ys) = durable (durable j xs) ys"
  by (induction j xs rule: durable.induct) auto

text \<open>The journal names every commit that may have landed, as one that may have been sent.\<close>

definition covers :: "sent \<Rightarrow> journal \<Rightarrow> bool" where
  "covers ps j \<longleftrightarrow> (\<forall>(n, a)\<in>set ps. \<not> unsent a \<longrightarrow> (\<exists>q. jn_publication j = Some q \<and> pb_oid q = n \<and> started q))"

definition repeats :: "sent \<Rightarrow> bool" where
  "repeats ps \<longleftrightarrow> sorted_wrt (\<lambda>(n, a) (n', _). \<not> unsent a \<longrightarrow> n' = n) ps"

lemma covers_publication: "jn_publication j' = jn_publication j \<Longrightarrow> covers ps j' = covers ps j"
  by (simp add: covers_def)

lemma covers_discard: "covers ps j \<Longrightarrow> covers ps (discard_unstarted j)"
  unfolding covers_def discard_unstarted_def by (cases "jn_publication j") fastforce+

text \<open>At every point of the actions.\<close>

definition sound :: "journal \<Rightarrow> sent \<Rightarrow> act list \<Rightarrow> bool" where
  "sound j ps as \<longleftrightarrow> (\<forall>n. covers (ps @ sends (take n as)) (durable j (take n as)) \<and> repeats (ps @ sends (take n as)))"

lemma sound_snoc:
  "sound j ps (as @ [a]) \<longleftrightarrow> sound j ps as \<and> covers (ps @ sends (as @ [a])) (durable j (as @ [a])) \<and> repeats (ps @ sends (as @ [a]))"
proof
  assume "sound j ps (as @ [a])"
  then have *: "\<And>n. covers (ps @ sends (take n (as @ [a]))) (durable j (take n (as @ [a]))) \<and> repeats (ps @ sends (take n (as @ [a])))"
    by (simp only: sound_def)
  have "covers (ps @ sends (take n as)) (durable j (take n as)) \<and> repeats (ps @ sends (take n as))" for n
    using * [of "min n (length as)"] by (simp add: min_def split: if_splits)
  with * [of "Suc (length as)"] show "sound j ps as \<and> covers (ps @ sends (as @ [a])) (durable j (as @ [a])) \<and> repeats (ps @ sends (as @ [a]))"
    unfolding sound_def by simp
next
  assume a: "sound j ps as \<and> covers (ps @ sends (as @ [a])) (durable j (as @ [a])) \<and> repeats (ps @ sends (as @ [a]))"
  have "covers (ps @ sends (take n (as @ [a]))) (durable j (take n (as @ [a]))) \<and> repeats (ps @ sends (take n (as @ [a])))" for n
  proof (cases "n \<le> length as")
    case True
    then show ?thesis using a unfolding sound_def by simp
  next
    case False
    then show ?thesis using a by simp
  qed
  then show "sound j ps (as @ [a])" unfolding sound_def by blast
qed

lemma sound_end: "sound j ps as \<Longrightarrow> covers (ps @ sends as) (durable j as) \<and> repeats (ps @ sends as)"
  unfolding sound_def by (metis order_refl take_all)

section \<open>Quiet stages\<close>

fun harmless :: "publication option \<Rightarrow> act \<Rightarrow> bool" where
  "harmless q (Save j) = (jn_publication j = q)"
| "harmless q (Push _ _) = False"
| "harmless q _ = True"

text \<open>
  A quiet stage also leaves the attempts and their charge, and records no failed verification as a success.
\<close>

definition core :: "live \<Rightarrow> publication option \<times> int \<times> bool" where
  "core s = (jn_publication (lv_journal s), jn_attempts (lv_journal s), lv_charged s)"

definition honest :: "journal \<Rightarrow> bool" where
  "honest j \<longleftrightarrow> rc_status (jn_failed_receipt j) \<noteq> ''success''"

definition quiet :: "'a io \<Rightarrow> bool" where
  "quiet m \<longleftrightarrow> (\<forall>s r s'. m s = (r, s') \<longrightarrow>
     core s' = core s \<and> (honest (lv_journal s) \<longrightarrow> honest (lv_journal s'))
     \<and> (\<exists>new. lv_acts s' = lv_acts s @ new \<and> list_all (harmless (jn_publication (lv_journal s))) new))"

lemma quietI:
  assumes "\<And>s r s'. m s = (r, s') \<Longrightarrow> core s' = core s \<and> (honest (lv_journal s) \<longrightarrow> honest (lv_journal s'))
     \<and> (\<exists>new. lv_acts s' = lv_acts s @ new \<and> list_all (harmless (jn_publication (lv_journal s))) new)"
  shows "quiet m"
  using assms unfolding quiet_def by blast

lemma quiet_new:
  assumes "quiet m" and "m s = (r, s')"
  shows "jn_publication (lv_journal s') = jn_publication (lv_journal s)
    \<and> (\<exists>new. lv_acts s' = lv_acts s @ new \<and> list_all (harmless (jn_publication (lv_journal s))) new)"
  using assms unfolding quiet_def core_def by blast

lemma quiet_core: "quiet m \<Longrightarrow> m s = (r, s') \<Longrightarrow> core s' = core s"
  unfolding quiet_def by blast

lemma quiet_honest: "quiet m \<Longrightarrow> m s = (r, s') \<Longrightarrow> honest (lv_journal s) \<Longrightarrow> honest (lv_journal s')"
  unfolding quiet_def by blast

lemma quiet_give [quiet_intros]: "quiet (give x)"
  by (auto simp: quiet_def give_def)

lemma quiet_halt [quiet_intros]: "quiet (halt e)"
  by (auto simp: quiet_def halt_def)

lemma quiet_andthen [quiet_intros]:
  assumes "quiet m" and "\<And>x. quiet (k x)"
  shows "quiet (andthen m k)"
proof (rule quietI)
  fix s r s' assume e: "andthen m k s = (r, s')"
  obtain r1 s1 where m: "m s = (r1, s1)" by fastforce
  from assms(1) m obtain new1 where 1: "core s1 = core s" "honest (lv_journal s) \<longrightarrow> honest (lv_journal s1)" "lv_acts s1 = lv_acts s @ new1"
      "list_all (harmless (jn_publication (lv_journal s))) new1" unfolding quiet_def by blast
  show "core s' = core s \<and> (honest (lv_journal s) \<longrightarrow> honest (lv_journal s'))
     \<and> (\<exists>new. lv_acts s' = lv_acts s @ new \<and> list_all (harmless (jn_publication (lv_journal s))) new)"
  proof (cases r1)
    case (Inl a)
    then show ?thesis using e m 1 by (auto simp: andthen_def)
  next
    case (Inr x)
    then have "k x s1 = (r, s')" using e m by (simp add: andthen_def)
    with assms(2) obtain new2 where "core s' = core s1" "honest (lv_journal s1) \<longrightarrow> honest (lv_journal s')" "lv_acts s' = lv_acts s1 @ new2"
      "list_all (harmless (jn_publication (lv_journal s1))) new2" unfolding quiet_def by blast
    moreover have "jn_publication (lv_journal s1) = jn_publication (lv_journal s)" using 1(1) by (simp add: core_def)
    ultimately show ?thesis using 1 by (auto intro: exI [of _ "new1 @ new2"])
  qed
qed

lemma quiet_look [quiet_intros]: "(\<And>j. quiet (k j)) \<Longrightarrow> quiet (look k)"
  unfolding quiet_def look_def by blast

lemma quiet_with_counters [quiet_intros]: "(\<And>c. quiet (k c)) \<Longrightarrow> quiet (with_counters k)"
  unfolding quiet_def with_counters_def by blast

lemma quiet_set_counters [quiet_intros]: "quiet (set_counters f)"
  by (auto simp: quiet_def set_counters_def core_def)

lemma quiet_emit [quiet_intros]: "quiet (emit Agent)" "quiet (emit Evict)"
  by (auto simp: quiet_def emit_def core_def)

lemma quiet_remark [quiet_intros]: "(\<And>j. jn_publication (upd j) = jn_publication j) \<Longrightarrow> (\<And>j. jn_attempts (upd j) = jn_attempts j) \<Longrightarrow> (\<And>j. honest j \<Longrightarrow> honest (upd j))
   \<Longrightarrow> quiet (remark upd)"
  by (auto simp: quiet_def remark_def core_def)

lemma written_publication [simp]: "jn_publication (written st upd j) = jn_publication (upd j)"
  by (simp add: written_def Let_def)

lemma written_rest [simp]:
  "jn_attempts (written st upd j) = jn_attempts (upd j)" "honest (written st upd j) = honest (upd j)"
  by (simp_all add: written_def Let_def honest_def)

lemma quiet_save [quiet_intros]: "(\<And>j. jn_publication (upd j) = jn_publication j) \<Longrightarrow> (\<And>j. jn_attempts (upd j) = jn_attempts j) \<Longrightarrow> (\<And>j. honest j \<Longrightarrow> honest (upd j))
   \<Longrightarrow> quiet (save st upd)"
  by (auto simp: quiet_def save_def Let_def core_def)

lemma quiet_transition [quiet_intros]: "(\<And>j. jn_publication (upd j) = jn_publication j) \<Longrightarrow> (\<And>j. jn_attempts (upd j) = jn_attempts j) \<Longrightarrow> (\<And>j. honest j \<Longrightarrow> honest (upd j))
   \<Longrightarrow> quiet (transition p st upd)"
  unfolding transition_def by (rule quiet_save) (simp_all add: honest_def)

lemma quiet_outcome [quiet_intros]: "quiet (outcome r)"
  by (cases r) (auto simp: outcome_def intro: quiet_intros)

lemma quiet_demand [quiet_intros]: "quiet (demand b e)"
  by (simp add: demand_def quiet_give quiet_halt)

lemma quiet_works [quiet_intros]: "quiet (works n)"
  by (induction n) (auto intro!: quiet_andthen quiet_save quiet_give)

lemma quiet_stage [quiet_intros]: "quiet (stage r)"
  unfolding stage_def by (intro quiet_intros)

lemma quiet_if [quiet_intros]: "(b \<Longrightarrow> quiet m) \<Longrightarrow> (\<not> b \<Longrightarrow> quiet m') \<Longrightarrow> quiet (if b then m else m')"
  by simp

lemma quiet_refund [quiet_intros]: "quiet (refund_content known api v keys counts content)"
  unfolding refund_content_def by (intro quiet_intros; simp add: honest_def)

lemma quiet_snapshot [quiet_intros]: "quiet (snapshot r)"
  unfolding snapshot_def by (intro quiet_intros; simp add: honest_def)

lemma quiet_forensic [quiet_intros]: "quiet (forensic b)"
  unfolding forensic_def by (intro quiet_intros; simp add: honest_def)

lemma quiet_prod [quiet_intros]: "(\<And>a b. quiet (k a b)) \<Longrightarrow> quiet (case x of (a, b) \<Rightarrow> k a b)"
  by (simp split: prod.split)

lemma quiet_option [quiet_intros]: "quiet m \<Longrightarrow> (\<And>x. quiet (k x)) \<Longrightarrow> quiet (case y of None \<Rightarrow> m | Some x \<Rightarrow> k x)"
  by (simp split: option.split)

lemma quiet_entrance [quiet_intros]:
  "quiet m1 \<Longrightarrow> quiet m2 \<Longrightarrow> quiet m3 \<Longrightarrow> quiet m4
   \<Longrightarrow> quiet (case e of Opened \<Rightarrow> m1 | OpenAdmission \<Rightarrow> m2 | OpenBudget \<Rightarrow> m3 | OpenBroke \<Rightarrow> m4)"
  by (cases e) simp_all

lemma quiet_agent_end [quiet_intros]:
  "(\<And>n. quiet (m1 n)) \<Longrightarrow> quiet m2 \<Longrightarrow> quiet m3 \<Longrightarrow> quiet m4 \<Longrightarrow> quiet m5
   \<Longrightarrow> quiet (case e of AgentExit n \<Rightarrow> m1 n | CacheDown \<Rightarrow> m2 | AdmissionDown \<Rightarrow> m3 | OverBudget \<Rightarrow> m4 | AgentBroke \<Rightarrow> m5)"
  by (cases e) simp_all

lemma quiet_continue_backend [quiet_intros]: "quiet (continue_backend in_scope p m v f)"
  unfolding continue_backend_def Let_def by (intro quiet_intros; simp add: honest_def)

lemma quiet_continue [quiet_intros]: "quiet (continue_source in_scope p m v f why)"
  unfolding continue_source_def by (intro quiet_intros; simp add: honest_def)

lemma quiet_verify [quiet_intros]: "quiet (verify v f)"
  unfolding verify_def Let_def by (intro quiet_intros; simp add: honest_def)

lemma quiet_prepare [quiet_intros]: "quiet (prepare v f r)"
  unfolding prepare_def by (intro quiet_intros; simp add: honest_def)

lemma quiet_published_by [quiet_intros]: "quiet (published_by p f n)"
  unfolding published_by_def by (intro quiet_intros; simp add: honest_def)

lemma quiet_settle_normal [quiet_intros]: "quiet (settle_normal p m v f i)"
  unfolding settle_normal_def by (intro quiet_intros; simp add: honest_def)

lemma quiet_claim [quiet_intros]: "quiet (claim in_scope p m v f)"
  unfolding claim_def by (intro quiet_intros)

lemma quiet_source_ready [quiet_intros]: "quiet (source_ready in_scope p m v f)"
  unfolding source_ready_def by (intro quiet_intros; simp add: honest_def)

lemma quiet_checked [quiet_intros]: "quiet (checked in_scope p m v f why)"
  unfolding checked_def by (intro quiet_intros; simp add: honest_def)

section \<open>Keeping the push sound\<close>

definition fine :: "journal \<Rightarrow> sent \<Rightarrow> live \<Rightarrow> bool" where
  "fine j ps s \<longleftrightarrow> sound j ps (lv_acts s) \<and> covers (ps @ sends (lv_acts s)) (lv_journal s)"

definition keeps :: "journal \<Rightarrow> sent \<Rightarrow> 'a io \<Rightarrow> bool" where
  "keeps j ps m \<longleftrightarrow> (\<forall>s. fine j ps s \<longrightarrow> fine j ps (snd (m s)))"

lemma sound_harmless:
  assumes "sound j ps as" and "covers (ps @ sends as) k" and "list_all (harmless (jn_publication k)) new"
  shows "sound j ps (as @ new) \<and> sends (as @ new) = sends as"
  using assms(3)
proof (induction new rule: rev_induct)
  case Nil
  then show ?case using assms(1) by simp
next
  case (snoc a new)
  then have ih: "sound j ps (as @ new)" "sends (as @ new) = sends as" and h: "harmless (jn_publication k) a" by auto
  note e = sound_end [OF ih(1)]
  have s: "sends [a] = []" using h by (cases a) auto
  have "covers (ps @ sends (as @ new @ [a])) (durable j (as @ new @ [a]))"
  proof (cases a)
    case (Save l)
    then show ?thesis using h assms(2) ih(2) covers_publication [of l k] by simp
  qed (use h e s in auto)
  then show ?case using sound_snoc [of j ps "as @ new" a] ih e s by simp
qed

lemma keeps_quiet: "quiet m \<Longrightarrow> keeps j ps m"
  unfolding keeps_def
proof (intro allI impI)
  fix s assume q: "quiet m" and f: "fine j ps s"
  obtain r s' where m: "m s = (r, s')" by fastforce
  from quiet_new [OF q m] obtain new where n: "jn_publication (lv_journal s') = jn_publication (lv_journal s)"
    "lv_acts s' = lv_acts s @ new" "list_all (harmless (jn_publication (lv_journal s))) new" by blast
  from f have f': "sound j ps (lv_acts s)" "covers (ps @ sends (lv_acts s)) (lv_journal s)" by (auto simp: fine_def)
  show "fine j ps (snd (m s))"
    using sound_harmless [OF f' n(3)] n covers_publication [OF n(1)] f' m by (simp add: fine_def)
qed

lemma keeps_andthen: "keeps j ps m \<Longrightarrow> (\<And>x. keeps j ps (k x)) \<Longrightarrow> keeps j ps (andthen m k)"
  unfolding keeps_def andthen_def by (auto split: prod.split sum.split)

lemma transition_step:
  "transition p st upd s =
     (let k = written st (\<lambda>j. (upd j)\<lparr>jn_selection := selection p\<rparr>) (lv_journal s)
      in (Inr (), s\<lparr>lv_journal := k, lv_acts := lv_acts s @ [Save k]\<rparr>))"
  by (simp add: transition_def save_def)

lemma keeps_transition:
  assumes "\<And>j. jn_publication (upd j) = jn_publication j"
  shows "keeps j ps (transition p st upd)"
proof -
  have "fine j ps (snd (transition p st upd s))" if f: "fine j ps s" for s
  proof -
    let ?k = "written st (\<lambda>j. (upd j)\<lparr>jn_selection := selection p\<rparr>) (lv_journal s)"
    have "jn_publication ?k = jn_publication (lv_journal s)" by (simp add: assms)
    from covers_publication [OF this] f have c: "covers (ps @ sends (lv_acts s)) ?k" by (simp add: fine_def)
    then have "sound j ps (lv_acts s @ [Save ?k])" using f sound_end [of j ps "lv_acts s"] by (simp add: fine_def sound_snoc)
    then show ?thesis using c by (simp add: transition_step Let_def fine_def)
  qed
  then show ?thesis by (simp add: keeps_def)
qed

lemma jkeeps_if: "keeps j ps m \<Longrightarrow> keeps j ps m' \<Longrightarrow> keeps j ps (if b then m else m')"
  by simp

lemma keeps_charge: "keeps j ps (charge p)"
proof -
  have "keeps j ps (transition p Resuming (\<lambda>j. j\<lparr>jn_attempts := jn_attempts j + 1, jn_retry := 0, jn_reason := None\<rparr>))"
    by (rule keeps_transition) simp
  then show ?thesis by (simp add: keeps_def charge_def fine_def split_beta)
qed

lemma keeps_look: "(\<And>l. keeps j ps (k l)) \<Longrightarrow> keeps j ps (look k)"
  unfolding keeps_def look_def by blast

lemma keeps_renew: "keeps j ps (renew p e)"
  unfolding renew_def by (intro keeps_look jkeeps_if keeps_transition keeps_quiet [OF quiet_give]) simp

lemma keeps_discard: "keeps j ps (remark discard_unstarted)"
  by (simp add: keeps_def remark_def fine_def covers_discard)

text \<open>The push: what may have landed before is the same commit, and the publication then knows that it was uncertain.\<close>

definition linked :: "sent \<Rightarrow> publication \<Rightarrow> bool" where
  "linked ps q \<longleftrightarrow> (\<forall>(n, a)\<in>set ps. \<not> unsent a \<longrightarrow> n = pb_oid q \<and> pb_uncertain q \<and> started q)"

definition intends :: "journal \<Rightarrow> sent \<Rightarrow> publication \<Rightarrow> live \<Rightarrow> bool" where
  "intends j ps q s \<longleftrightarrow> sound j ps (lv_acts s) \<and> jn_publication (lv_journal s) = Some q \<and> linked (ps @ sends (lv_acts s)) q"

lemma coversI:
  assumes "jn_publication j = Some q" and "\<And>n a. (n, a) \<in> set ps \<Longrightarrow> \<not> unsent a \<Longrightarrow> n = pb_oid q \<and> started q"
  shows "covers ps j"
  unfolding covers_def using assms by auto

lemma linkedD: "linked ps q \<Longrightarrow> (n, a) \<in> set ps \<Longrightarrow> \<not> unsent a \<Longrightarrow> n = pb_oid q \<and> pb_uncertain q \<and> started q"
  unfolding linked_def by blast

lemma linked_covers: "linked ps q \<Longrightarrow> jn_publication j = Some q \<Longrightarrow> covers ps j"
  by (rule coversI) (blast dest: linkedD)+

lemma intends_fine: "intends j ps q s \<Longrightarrow> fine j ps s"
  unfolding intends_def fine_def using linked_covers by blast

lemma intends_quiet:
  assumes "quiet m" and "intends j ps q s"
  shows "intends j ps q (snd (m s))"
proof -
  obtain r s' where m: "m s = (r, s')" by fastforce
  from quiet_new [OF assms(1) m] obtain new where n: "jn_publication (lv_journal s') = jn_publication (lv_journal s)"
    "lv_acts s' = lv_acts s @ new" "list_all (harmless (jn_publication (lv_journal s))) new" by blast
  have f: "sound j ps (lv_acts s)" "covers (ps @ sends (lv_acts s)) (lv_journal s)" using intends_fine [OF assms(2)] by (auto simp: fine_def)
  show ?thesis using sound_harmless [OF f n(3)] n assms(2) m by (simp add: intends_def)
qed

lemma repeats_snoc: "repeats (ps @ [(n, a)]) \<longleftrightarrow> repeats ps \<and> (\<forall>(n', a')\<in>set ps. \<not> unsent a' \<longrightarrow> n = n')"
  by (auto simp: repeats_def sorted_wrt_append)

lemma not_sent_fine:
  assumes "sound j ps (lv_acts s)" and "jn_publication (lv_journal s) = Some q"
    and "\<And>n a. (n, a) \<in> set (ps @ sends (lv_acts s)) \<Longrightarrow> \<not> unsent a \<Longrightarrow> n = pb_oid q \<and> pb_uncertain q"
  shows "fine j ps (snd (not_sent e s))"
proof -
  let ?k = "written PublicationPending (set_started (pb_uncertain q)) (lv_journal s)"
  have k: "jn_publication ?k = Some (q\<lparr>pb_started := Some (pb_uncertain q)\<rparr>)" using assms(2) by (simp add: set_started_def)
  have c: "covers (ps @ sends (lv_acts s)) ?k"
    by (rule coversI [OF k]) (use assms(3) in \<open>simp add: started_def\<close>)
  have "sound j ps (lv_acts s @ [Save ?k])" using assms(1) c sound_end [OF assms(1)] by (simp add: sound_snoc)
  moreover have "snd (not_sent e s) = s\<lparr>lv_journal := ?k, lv_acts := lv_acts s @ [Save ?k]\<rparr>"
    using assms(2) by (simp add: not_sent_def look_def andthen_def save_def halt_def Let_def)
  ultimately show ?thesis using c by (simp add: fine_def)
qed

text \<open>From the durable intent on.\<close>

definition sending :: "pushing \<Rightarrow> publication \<Rightarrow> unit io" where
  "sending v pub = andthen (save PublicationPending (set_started True)) (\<lambda>_.
     andthen (emit (Push (pb_oid pub) (ph_answer v))) (\<lambda>_.
       (case ph_answer v of
          PushDone \<Rightarrow> give ()
        | PushNotStarted \<Rightarrow> not_sent Broke
        | PushExit rc \<Rightarrow> if rc \<in> {77, 78} then not_sent (Stop Waiting ''push-rejected'')
                         else if rc \<in> {79, 80} then not_sent Broke else halt Broke
        | PushTimeout \<Rightarrow> halt Broke)))"

lemma sending_fine:
  assumes "intends j ps q s"
  shows "fine j ps (snd (sending v q s))"
proof -
  let ?q = "q\<lparr>pb_started := Some True\<rparr>"
  define k where "k = written PublicationPending (set_started True) (lv_journal s)"
  define s1 where "s1 = s\<lparr>lv_journal := k, lv_acts := lv_acts s @ [Save k]\<rparr>"
  define s2 where "s2 = s1\<lparr>lv_acts := lv_acts s1 @ [Push (pb_oid q) (ph_answer v)]\<rparr>"
  have i: "sound j ps (lv_acts s)" "jn_publication (lv_journal s) = Some q" "linked (ps @ sends (lv_acts s)) q"
    using assms by (auto simp: intends_def)
  have k: "jn_publication k = Some ?q" using i(2) by (simp add: k_def set_started_def)
  have c1: "covers (ps @ sends (lv_acts s)) k"
    by (rule coversI [OF k]) (use linkedD [OF i(3)] in \<open>simp add: started_def\<close>)
  have s1: "sound j ps (lv_acts s1)" using i(1) c1 sound_end [OF i(1)] by (simp add: s1_def sound_snoc)
  have c2: "covers ((ps @ sends (lv_acts s)) @ [(pb_oid q, ph_answer v)]) k"
    by (rule coversI [OF k]) (use linkedD [OF i(3)] in \<open>auto simp: started_def\<close>)
  have "repeats ((ps @ sends (lv_acts s)) @ [(pb_oid q, ph_answer v)])"
    unfolding repeats_snoc using sound_end [OF i(1)] linkedD [OF i(3)] by auto
  then have "sound j ps (lv_acts s1 @ [Push (pb_oid q) (ph_answer v)])"
    unfolding sound_snoc using s1 c2 by (simp add: s1_def)
  then have s2: "sound j ps (lv_acts s2)" "sends (lv_acts s2) = sends (lv_acts s) @ [(pb_oid q, ph_answer v)]" "lv_journal s2 = k"
    by (simp_all add: s2_def s1_def)
  have f2: "fine j ps s2" using s2 c2 by (simp add: fine_def)
  have n: "fine j ps (snd (not_sent e s2))" if "unsent (ph_answer v)" for e
  proof (rule not_sent_fine [of _ _ _ ?q])
    fix n a assume "(n, a) \<in> set (ps @ sends (lv_acts s2))" "\<not> unsent a"
    then have "(n, a) \<in> set (ps @ sends (lv_acts s))" using s2(2) that by auto
    from linkedD [OF i(3) this \<open>\<not> unsent a\<close>] show "n = pb_oid ?q \<and> pb_uncertain ?q" by simp
  qed (use s2 k in simp_all)
  have "snd (sending v q s) = snd ((case ph_answer v of
          PushDone \<Rightarrow> give ()
        | PushNotStarted \<Rightarrow> not_sent Broke
        | PushExit rc \<Rightarrow> if rc \<in> {77, 78} then not_sent (Stop Waiting ''push-rejected'')
                         else if rc \<in> {79, 80} then not_sent Broke else halt Broke
        | PushTimeout \<Rightarrow> halt Broke) s2)"
    by (simp add: sending_def andthen_def save_def emit_def Let_def s1_def s2_def k_def)
  then show ?thesis using f2 n by (cases "ph_answer v") (auto simp: give_def halt_def unsent_def)
qed

lemma andthen_state: "snd (andthen m k s) = (case m s of (Inl e, s1) \<Rightarrow> s1 | (Inr x, s1) \<Rightarrow> snd (k x s1))"
  by (simp add: andthen_def split: prod.split sum.split)

lemma intends_andthen:
  assumes "quiet m" and "intends j ps q s" and "\<And>x s1. intends j ps q s1 \<Longrightarrow> fine j ps (snd (k x s1))"
  shows "fine j ps (snd (andthen m k s))"
proof -
  obtain r s1 where m: "m s = (r, s1)" by fastforce
  with intends_quiet [OF assms(1,2)] have i: "intends j ps q s1" by simp
  show ?thesis using assms(3) [OF i] intends_fine [OF i] m by (cases r) (simp_all add: andthen_state)
qed

lemma publish_fine:
  assumes "intends j ps q s"
  shows "fine j ps (snd (publish in_scope p m v f q s))"
  unfolding publish_def
  apply (rule intends_andthen [OF quiet_outcome assms])
  apply (erule intends_andthen [OF quiet_outcome])
  apply (erule intends_andthen [OF quiet_demand])
  apply (erule intends_andthen [OF quiet_demand])
  apply (erule intends_andthen [OF quiet_demand])
  apply (erule intends_andthen [OF quiet_demand])
  apply (unfold look_def)
  apply (erule intends_andthen [OF quiet_demand])
  apply (unfold sending_def [symmetric])
  apply (erule sending_fine)
  done

lemma fine_andthen: "keeps j ps m \<Longrightarrow> fine j ps s \<Longrightarrow> (\<And>x s1. m s = (Inr x, s1) \<Longrightarrow> fine j ps s1 \<Longrightarrow> fine j ps (snd (k x s1))) \<Longrightarrow> fine j ps (snd (andthen m k s))"
  unfolding keeps_def by (cases "m s"; cases "fst (m s)") (fastforce simp: andthen_state)+

lemma quiet_step:
  assumes "quiet m" and "m s = (r, s1)"
  shows "jn_publication (lv_journal s1) = jn_publication (lv_journal s) \<and> sends (lv_acts s1) = sends (lv_acts s)"
proof -
  from quiet_new [OF assms] obtain new where n: "jn_publication (lv_journal s1) = jn_publication (lv_journal s)"
    "lv_acts s1 = lv_acts s @ new" "list_all (harmless (jn_publication (lv_journal s))) new" by blast
  have "sends new = []" using n(3) by (induction new rule: sends.induct) auto
  then show ?thesis using n by simp
qed

definition rest_of_delivery :: "scope_test \<Rightarrow> options \<Rightarrow> manifest \<Rightarrow> visit \<Rightarrow> facts \<Rightarrow> publication \<Rightarrow> bool io" where
  "rest_of_delivery in_scope p m v f pub =
     andthen (transition p PublicationPending (\<lambda>j. j\<lparr>jn_publication := Some pub\<rparr>)) (\<lambda>_.
     andthen (publish in_scope p m (vs_pushing v) f pub) (\<lambda>_.
     andthen (outcome (read_facts p m (vs_after v))) (\<lambda>latest.
     andthen (outcome (reconcile (vs_remote_after v) (pb_oid pub) (pb_expected pub) latest)) (\<lambda>landed.
     andthen (demand landed Broke) (\<lambda>_.
     andthen (published_by p latest (pb_oid pub)) (\<lambda>_. give True))))))"

lemma rest_fine:
  assumes f: "fine j ps s" and l: "linked (ps @ sends (lv_acts s)) pub"
  shows "fine j ps (snd (rest_of_delivery in_scope p m v f' pub s))"
proof -
  let ?t = "transition p PublicationPending (\<lambda>j. j\<lparr>jn_publication := Some pub\<rparr>)"
  obtain s1 where s1: "?t s = (Inr (), s1)" by (simp add: transition_step Let_def)
  then have e: "lv_acts s1 = lv_acts s @ [Save (lv_journal s1)]" "jn_publication (lv_journal s1) = Some pub"
    by (auto simp: transition_step Let_def)
  have "sound j ps (lv_acts s @ [Save (lv_journal s1)])"
    unfolding sound_snoc using f linked_covers [OF l e(2)] sound_end [of j ps "lv_acts s"] by (simp add: fine_def)
  then have i: "intends j ps pub s1" using e l by (simp add: intends_def)
  have q: "quiet (andthen (outcome (read_facts p m (vs_after v))) (\<lambda>latest.
     andthen (outcome (reconcile (vs_remote_after v) (pb_oid pub) (pb_expected pub) latest)) (\<lambda>landed.
     andthen (demand landed Broke) (\<lambda>_.
     andthen (published_by p latest (pb_oid pub)) (\<lambda>_. give True)))))" (is "quiet ?after")
    by (intro quiet_intros)
  have "fine j ps (snd (andthen (publish in_scope p m (vs_pushing v) f' pub) (\<lambda>_. ?after) s1))"
    using publish_fine [OF i, of in_scope p m "vs_pushing v" f'] keeps_quiet [OF q, of j ps]
    unfolding andthen_state keeps_def by (auto split: prod.split sum.split)
  moreover have "snd (rest_of_delivery in_scope p m v f' pub s) = snd (andthen (publish in_scope p m (vs_pushing v) f' pub) (\<lambda>_. ?after) s1)"
    unfolding rest_of_delivery_def by (subst andthen_state) (simp add: s1)
  ultimately show ?thesis by simp
qed

lemma deliver_fine:
  assumes "fine j ps s" and "pending = jn_publication (lv_journal s)"
  shows "fine j ps (snd (deliver in_scope p m v f r pending s))"
  unfolding deliver_def rest_of_delivery_def [symmetric]
proof (rule fine_andthen [OF keeps_quiet [OF quiet_prepare] assms(1)])
  fix pub0 s1 assume m1: "prepare (vs_preparing v) f r s = (Inr pub0, s1)" and f1: "fine j ps s1"
  from quiet_step [OF quiet_prepare m1] assms(2)
  have c: "covers (ps @ sends (lv_acts s1)) (lv_journal s1)" "jn_publication (lv_journal s1) = pending" using f1 by (auto simp: fine_def)
  show "fine j ps (snd (andthen (settled_intent pending pub0) (rest_of_delivery in_scope p m v f) s1))"
  proof (cases pending)
    case None
    have "linked (ps @ sends (lv_acts s1)) pub0" using c None by (auto simp: linked_def covers_def)
    from rest_fine [OF f1 this] show ?thesis by (simp add: None settled_intent_def andthen_def give_def)
  next
    case (Some q)
    show ?thesis
    proof (cases "pb_oid pub0 = pb_oid q")
      case False
      have "keeps j ps (andthen (forensic True) (\<lambda>_. halt (Stop Gone ''publication-uncertain'')) :: publication io)"
        by (intro keeps_quiet quiet_intros)
      then show ?thesis using False Some f1
        by (simp add: settled_intent_def keeps_def andthen_def halt_def forensic_def remark_def)
    next
      case True
      let ?pub = "pub0\<lparr>pb_uncertain := True, pb_started := Some True\<rparr>"
      obtain s2 where s2: "settled_intent pending pub0 s1 = (Inr ?pub, s2)" "lv_acts s2 = lv_acts s1"
          "jn_publication (lv_journal s2) = jn_publication (lv_journal s1)"
        using True Some by (simp add: settled_intent_def andthen_def remark_def give_def)
      have "linked (ps @ sends (lv_acts s2)) ?pub"
        unfolding linked_def using c True Some s2(2) by (auto simp: covers_def started_def)
      moreover have "fine j ps s2" using f1 s2 covers_publication [OF s2(3)] by (simp add: fine_def)
      ultimately have "fine j ps (snd (rest_of_delivery in_scope p m v f ?pub s2))" using rest_fine by blast
      then show ?thesis using s2(1) by (simp add: andthen_state)
    qed
  qed
qed

lemma pending_andthen:
  assumes "quiet m" and "fine j ps s" and "jn_publication (lv_journal s) = pending"
    and "\<And>x s1. fine j ps s1 \<Longrightarrow> jn_publication (lv_journal s1) = pending \<Longrightarrow> fine j ps (snd (k x s1))"
  shows "fine j ps (snd (andthen m k s))"
proof (rule fine_andthen [OF keeps_quiet [OF assms(1)] assms(2)])
  fix x s1 assume "m s = (Inr x, s1)" "fine j ps s1"
  then show "fine j ps (snd (k x s1))" using quiet_step [OF assms(1)] assms(3,4) by blast
qed

lemma keeps_invocation: "keeps j ps (invocation in_scope p m v f)"
  unfolding invocation_def
proof (intro keeps_andthen keeps_charge keeps_quiet [OF quiet_source_ready])
  fix why
  show "keeps j ps (look (\<lambda>j. andthen (checked in_scope p m v f why) (\<lambda>r.
     andthen (transition p Verified (\<lambda>j. j\<lparr>jn_receipt := Some r, jn_reason := None\<rparr>)) (\<lambda>_.
     andthen (outcome (read_facts p m (vs_latest v))) (\<lambda>latest.
     andthen (outcome (policy in_scope p m (vs_latest v) latest)) (\<lambda>_.
     andthen (demand (latest = f \<and> \<not> vs_lost v) (Stop Waiting ''claim-or-head-changed'')) (\<lambda>_.
       deliver in_scope p m v f r (jn_publication j))))))))" (is "keeps j ps (look ?k)")
    unfolding keeps_def look_def
  proof (intro allI impI)
    fix s assume s: "fine j ps s"
    show "fine j ps (snd (?k (lv_journal s) s))"
      apply (rule pending_andthen [OF quiet_checked s refl])
      apply (rule pending_andthen, rule quiet_transition, simp, simp, simp add: honest_def, assumption, assumption)
      apply (erule (1) pending_andthen [OF quiet_outcome])+
      apply (erule (1) pending_andthen [OF quiet_demand])
      apply (rule deliver_fine)
       apply simp_all
      done
  qed
qed

lemma keeps_after_policy: "keeps j ps (after_policy in_scope p m v changed f)"
proof -
  have b: "keeps j ps (andthen (transition p Blocked (\<lambda>j. j\<lparr>jn_reason := Some exhausted_reason, jn_recheck := Some t, jn_retry := t\<rparr>)) (\<lambda>_. give False))" for t
    by (intro keeps_andthen keeps_transition keeps_quiet [OF quiet_give]) simp
  have c: "keeps j ps (if 3 \<le> jn_attempts l then transition p Eligible (\<lambda>j. j\<lparr>jn_attempts := 0, jn_recheck := None, jn_reason := None\<rparr>) else give ())" for l
    by (intro jkeeps_if keeps_transition keeps_quiet [OF quiet_give]) simp
  have a: "quiet (if known_failure v f l then with_counters (\<lambda>c. andthen (outcome (admitted p m (vs_admission v) c l)) (\<lambda>_. give ())) else give ())" for l
    by (intro quiet_intros)
  have i: "keeps j ps (look (\<lambda>l. if vs_retry v < jn_retry l \<and> \<not> changed then give False
             else andthen (if known_failure v f l
                        then with_counters (\<lambda>c. andthen (outcome (admitted p m (vs_admission v) c l)) (\<lambda>_. give ())) else give ()) (\<lambda>_.
               andthen (claim in_scope p m v f) (\<lambda>_. invocation in_scope p m v f))))"
    by (intro keeps_look jkeeps_if keeps_quiet [OF quiet_give] keeps_andthen keeps_quiet [OF a] keeps_quiet [OF quiet_claim] keeps_invocation)
  show ?thesis unfolding after_policy_def Let_def
    by (intro keeps_look jkeeps_if [OF b keeps_andthen [OF c i]])
qed

lemma keeps_attempt: "keeps j ps (attempt in_scope p m v changed)"
proof -
  have o: "keeps j ps (andthen (outcome r) k)" if "\<And>x. keeps j ps (k x)" for r :: "stop + 'x" and k :: "'x \<Rightarrow> bool io"
    by (rule keeps_andthen [OF keeps_quiet [OF quiet_outcome] that])
  have r: "keeps j ps (andthen (remark (\<lambda>j. j\<lparr>jn_observed := x\<rparr>)) k)" if "keeps j ps (k ())" for x and k :: "unit \<Rightarrow> bool io"
    by (rule keeps_andthen [OF keeps_quiet [OF quiet_remark]]) (use that in \<open>auto simp: honest_def\<close>)
  have p: "keeps j ps (andthen (published_by p f n) (\<lambda>_. give True))" for f n
    by (intro keeps_andthen keeps_quiet [OF quiet_published_by] keeps_quiet [OF quiet_give])
  have d: "quiet (case jn_publication l of Some q \<Rightarrow> outcome (reconcile (vs_remote v) (pb_oid q) (pb_expected q) f) | None \<Rightarrow> give False)" for l f
    by (intro quiet_intros)
  show ?thesis
    unfolding attempt_def
    apply (rule o, rule r, rule keeps_look)
    apply (split option.split, intro conjI allI impI)
     apply (rule keeps_andthen [OF keeps_discard], rule keeps_look, rule keeps_andthen [OF keeps_quiet [OF d]])
     apply (split if_split, intro conjI impI)
      apply (rule p)
     apply (rule keeps_andthen [OF keeps_renew], rule o, rule keeps_andthen [OF keeps_quiet [OF quiet_demand]])
     apply (rule keeps_after_policy)
    apply (rule keeps_quiet [OF quiet_settle_normal])
    done
qed

lemma keeps_waited: "keeps j ps (waited p now charged k code)"
  unfolding waited_def by (intro keeps_andthen keeps_discard keeps_transition) simp

lemma keeps_broke: "keeps j ps (broke p now charged)"
  unfolding broke_def Let_def by (intro keeps_andthen keeps_discard keeps_transition) simp

lemma fine_finish: "fine j ps s \<Longrightarrow> fine j ps (finish_visit s)"
  using keeps_quiet [OF quiet_emit(2), of j ps] by (simp add: finish_visit_def keeps_def)

lemma fine_handled: "fine j ps s \<Longrightarrow> fine j ps (fst (handled p now (r, s)))"
  using keeps_waited [of j ps p now "lv_charged s"] keeps_broke [of j ps p now "lv_charged s"]
  by (cases r) (auto simp: handled_def keeps_def fine_finish split: stop.split)

lemma open_fine:
  assumes "covers ps j" and "repeats ps"
  shows "fine j ps (fst (open_visit p m v j c))"
proof -
  have t: "fine j ps (snd (transition p st upd s))" if "fine j ps s" "\<And>j. jn_publication (upd j) = jn_publication j" for st upd s
    using keeps_transition [OF that(2), of j ps p st] that(1) by (simp add: keeps_def)
  define s1 where "s1 = (if vs_exists v then fresh_live j c else snd (transition p Retained id (fresh_live j c)))"
  have "fine j ps (fresh_live j c)" using assms by (simp add: fine_def fresh_live_def sound_def)
  then have 1: "fine j ps s1" using t by (simp add: s1_def)
  have e: "fine j ps (snd (emit Evict s1))" using keeps_quiet [OF quiet_emit(2), of j ps] 1 by (simp add: keeps_def)
  have b: "fine j ps (snd (transition p Blocked (\<lambda>j. j\<lparr>jn_reason := Some (reason_of Barred ''corrupt-checkpoint'')\<rparr>) s1))"
    by (rule t [OF 1]) simp
  define s2 where "s2 = (if jn_protocol (lv_journal s1) = Some protocol_version then s1
                        else snd (transition p (jn_state (lv_journal s1)) (\<lambda>j. j\<lparr>jn_retry := 0\<rparr>) s1))"
  have 2: "fine j ps s2" using 1 t [OF 1, of "\<lambda>j. j\<lparr>jn_retry := 0\<rparr>"] by (simp add: s2_def)
  show ?thesis
    unfolding open_visit_def Let_def s1_def [symmetric] s2_def [symmetric]
    by (cases m) (simp_all add: e b 1 2)
qed

lemma run_fine:
  assumes "covers ps j" and "repeats ps"
  shows "fine j ps (fst (run in_scope p m v j c))"
proof -
  obtain s e where o: "open_visit p m v j c = (s, e)" by fastforce
  with open_fine [OF assms, of p m v c] have s: "fine j ps s" by simp
  show ?thesis
  proof (cases e)
    case None
    then show ?thesis using o s by (simp add: run_def)
  next
    case (Some mc)
    obtain m' changed where mc: "mc = (m', changed)" by fastforce
    obtain r s' where a: "attempt in_scope p m' v changed s = (r, s')" by fastforce
    then have "fine j ps s'" using keeps_attempt [of j ps in_scope p m' v changed] s unfolding keeps_def by (metis snd_conv)
    then show ?thesis using fine_handled [of j ps s' p "vs_end v" r] o Some mc a by (simp add: run_def)
  qed
qed

section \<open>The life of a checkpoint\<close>

text \<open>
  Visits that may be cut off after any action, what \<open>recover\<close> does around them, and the handoffs to normal rounds: the
  durable journal and every push so far.
\<close>

inductive life :: "scope_test \<Rightarrow> journal \<times> sent \<Rightarrow> bool"
  for in_scope where
  begun: "jn_publication j = None \<Longrightarrow> life in_scope (j, [])"
| visit: "life in_scope (j, ps) \<Longrightarrow> as = take n (lv_acts (fst (run in_scope p m v j c))) \<Longrightarrow> life in_scope (durable j as, ps @ sends as)"
| probed: "life in_scope (j, ps) \<Longrightarrow> life in_scope (probe now seen j, ps)"
| rechecked: "life in_scope (j, ps) \<Longrightarrow> life in_scope (fst (recheck_policy in_scope p m' now v' seen j), ps)"
| offers: "life in_scope (j, ps) \<Longrightarrow> k \<in> set (fst (offer_one ov actor m' j)) \<Longrightarrow> life in_scope (k, ps)"
| completed: "life in_scope (j, ps) \<Longrightarrow> life in_scope (complete_handoff identity head marker j, ps)"
| returns: "life in_scope (j, ps) \<Longrightarrow> life in_scope (return_handoff identity j, ps)"
| reconciled: "life in_scope (j, ps) \<Longrightarrow> reconcile_handoff hv j = Some k \<Longrightarrow> life in_scope (k, ps)"

lemmas handed_defs = kept_evidence_def returned_def consumed_def doubtful_def transferred_def source_pending_def remote_unknown_def
  hand_def because_def

lemma handed_publication [simp]:
  "jn_publication (kept_evidence h j) = jn_publication j" "jn_publication (returned h j) = jn_publication j"
  "jn_publication (consumed n h j) = jn_publication j" "jn_publication (doubtful st h j) = jn_publication j"
  "jn_publication (transferred v h n j) = jn_publication j" "jn_publication (source_pending v h j) = jn_publication j"
  "jn_publication (remote_unknown v j) = jn_publication j"
  by (simp_all add: handed_defs)

lemma remote_publication [simp]: "jn_publication (reconcile_remote v h j) = jn_publication j"
  by (simp add: reconcile_remote_def Let_def split: option.split)

lemma evidence_publication [simp]: "jn_publication (reconcile_evidence v h j) = jn_publication j"
  by (simp add: reconcile_evidence_def Let_def)

lemma reconcile_publication:
  assumes "reconcile_handoff hv j = Some k"
  shows "jn_publication k = jn_publication j"
proof (cases "jn_handoff j")
  case None
  then show ?thesis using assms by (simp add: reconcile_handoff_def)
next
  case (Some h0)
  define changed where "changed = (hv_receipt hv \<noteq> None \<and> hv_receipt hv \<noteq> ho_receipt h0)"
  define h where "h = (if changed then h0\<lparr>ho_receipt := hv_receipt hv\<rparr> else h0)"
  define j1 where "j1 = (if changed then j\<lparr>jn_handoff := Some h, jn_retry := 0\<rparr> else j)"
  have j1: "jn_publication j1 = jn_publication j" by (simp add: j1_def)
  have "k \<in> {kept_evidence h j1, consumed (the (hv_marker hv)) h j1, reconcile_evidence hv h j1}
      \<or> (\<exists>n. k = consumed n h j1 \<or> k = transferred hv h n j1)"
    using assms unfolding reconcile_handoff_def Some option.case Let_def changed_def [symmetric] h_def [symmetric] j1_def [symmetric]
    by (simp split: if_splits option.splits) blast+
  then show ?thesis using j1 by auto
qed

lemma hand_over_publication: "k \<in> set (fst (hand_over ov j)) \<Longrightarrow> jn_publication k = jn_publication j"
  by (auto simp: hand_over_def Let_def because_def split: if_splits)

lemma offer_publication:
  assumes "k \<in> set (fst (offer_one ov actor m j))"
  shows "jn_publication k = jn_publication j"
proof -
  define before where "before = (if offered j then (case reconcile_handoff (ow_view ov) j of Some j1 \<Rightarrow> [j1] | None \<Rightarrow> []) else [])"
  have b: "before = [] \<or> (\<exists>l. before = [l] \<and> reconcile_handoff (ow_view ov) j = Some l)"
    unfolding before_def by (cases "reconcile_handoff (ow_view ov) j"; cases "offered j") simp_all
  define j1 where "j1 = (case before of [] \<Rightarrow> j | l # _ \<Rightarrow> l)"
  have j1: "jn_publication j1 = jn_publication j" "k \<in> set before \<Longrightarrow> jn_publication k = jn_publication j"
    using b reconcile_publication unfolding j1_def by fastforce+
  have "k \<in> set before \<or> k \<in> set (fst (hand_over ov j1))"
    using assms unfolding offer_one_def Let_def before_def [symmetric] j1_def [symmetric]
    by (cases "hand_over ov j1") (auto split: if_splits)
  then show ?thesis using j1 hand_over_publication [of k ov j1] by argo
qed

lemma around_publication [simp]:
  "jn_publication (probe now seen j) = jn_publication j"
  "jn_publication (fst (recheck_policy in_scope p m now v seen j)) = jn_publication j"
  "jn_publication (complete_handoff identity head marker j) = jn_publication j"
  "jn_publication (return_handoff identity j) = jn_publication j"
  by (auto simp: probe_def because_def recheck_policy_def complete_handoff_def return_handoff_def Let_def
      split: sum.split stop.split option.split)

lemma life_sound: "life in_scope s \<Longrightarrow> covers (snd s) (fst s) \<and> repeats (snd s)"
proof (induction rule: life.induct)
  case (begun j)
  then show ?case by (simp add: covers_def repeats_def)
next
  case (visit j ps as n p m v c)
  then have "sound j ps (lv_acts (fst (run in_scope p m v j c)))" using run_fine [of ps j in_scope p m v c] by (simp add: fine_def)
  then show ?case using visit(2) unfolding sound_def by simp
next
  case (offers j ps k ov actor m')
  then show ?case using covers_publication [OF offer_publication [OF offers(2)], of ps] by simp
next
  case (reconciled j ps hv k)
  then show ?case using covers_publication [OF reconcile_publication [OF reconciled(2)], of ps] by simp
qed (simp_all add: covers_publication [OF around_publication(1)] covers_publication [OF around_publication(2)]
      covers_publication [OF around_publication(3)] covers_publication [OF around_publication(4)])

text \<open>
  C7: an uncertain push is only repeated as the same commit. Over the whole life of a checkpoint, with visits cut off after
  any action, failing pushes, handoffs and probes in any order, once a push may have reached the remote every later push is of
  the same commit, and the durable journal names it until the end.
\<close>

theorem uncertain_push_repeats_exactly:
  assumes "life in_scope (j, ps)" and "i < k" and "k < length ps" and "\<not> unsent (snd (ps ! i))"
  shows "fst (ps ! k) = fst (ps ! i) \<and> (\<exists>q. jn_publication j = Some q \<and> pb_oid q = fst (ps ! i) \<and> started q)"
proof
  from life_sound [OF assms(1)] have c: "covers ps j" and r: "repeats ps" by simp_all
  show "fst (ps ! k) = fst (ps ! i)"
    using sorted_wrt_nth_less [OF r [unfolded repeats_def] assms(2,3)] assms(4) by (simp add: split_beta)
  have "(fst (ps ! i), snd (ps ! i)) \<in> set ps" using assms(2,3) by simp
  then show "\<exists>q. jn_publication j = Some q \<and> pb_oid q = fst (ps ! i) \<and> started q"
    using c assms(4) unfolding covers_def by blast
qed

section \<open>What a failure costs\<close>

text \<open>The attempts when a visit is charged: renewed by a change outside, or after three failures that waited for their recheck.\<close>

definition budgeted :: "int \<Rightarrow> live \<Rightarrow> bool" where
  "budgeted a s \<longleftrightarrow> (if lv_charged s then jn_attempts (lv_journal s) \<in> {a + 1, 1} else jn_attempts (lv_journal s) \<in> {a, 0})
     \<and> jn_attempts (lv_journal s) \<le> 3"

definition counts :: "int \<Rightarrow> 'a io \<Rightarrow> bool" where
  "counts a m \<longleftrightarrow> (\<forall>s. budgeted a s \<longrightarrow> budgeted a (snd (m s)))"

lemma budgeted_core: "core s' = core s \<Longrightarrow> budgeted a s' = budgeted a s"
  by (simp add: core_def budgeted_def)

lemma counts_quiet: "quiet m \<Longrightarrow> counts a m"
  unfolding counts_def using budgeted_core quiet_core by (metis prod.collapse)

lemma counts_andthen: "counts a m \<Longrightarrow> (\<And>x. counts a (k x)) \<Longrightarrow> counts a (andthen m k)"
  unfolding counts_def andthen_state by (auto split: prod.split sum.split)

lemma counts_look: "(\<And>l. counts a (k l)) \<Longrightarrow> counts a (look k)"
  by (simp add: counts_def look_def)

lemma counts_if: "(b \<Longrightarrow> counts a m) \<Longrightarrow> (\<not> b \<Longrightarrow> counts a m') \<Longrightarrow> counts a (if b then m else m')"
  by simp

lemma counts_save: "(\<And>j. jn_attempts (upd j) = jn_attempts j) \<Longrightarrow> counts a (save st upd)"
  by (simp add: counts_def save_def Let_def budgeted_def)

lemma counts_transition: "(\<And>j. jn_attempts (upd j) = jn_attempts j) \<Longrightarrow> counts a (transition p st upd)"
  unfolding transition_def by (rule counts_save) simp

lemma counts_emit: "counts a (emit x)"
  by (simp add: counts_def emit_def budgeted_def)

lemmas counts_give = counts_quiet [OF quiet_give]
lemmas counts_halt = counts_quiet [OF quiet_halt]
lemmas counts_outcome = counts_quiet [OF quiet_outcome]
lemmas counts_demand = counts_quiet [OF quiet_demand]

lemma counts_not_sent: "counts a (not_sent e)"
  unfolding not_sent_def by (intro counts_look counts_andthen counts_save counts_halt) (simp add: set_started_def)

lemma counts_publish: "counts a (publish in_scope p m v f q)"
proof -
  have s: "counts a (sending v q)"
    unfolding sending_def
    by (intro counts_andthen counts_save counts_emit)
      (cases "ph_answer v"; simp add: set_started_def counts_give counts_halt counts_not_sent)+
  show ?thesis
    unfolding publish_def sending_def [symmetric] by (intro counts_andthen counts_outcome counts_demand counts_look s)
qed

lemma quiet_settled_intent: "quiet (settled_intent pending q)"
  unfolding settled_intent_def by (intro quiet_intros; simp add: honest_def)

lemma counts_deliver: "counts a (deliver in_scope p m v f r pending)"
  unfolding deliver_def
  by (intro counts_andthen counts_quiet [OF quiet_prepare] counts_quiet [OF quiet_settled_intent] counts_transition counts_publish
      counts_outcome counts_demand counts_quiet [OF quiet_published_by] counts_give) simp

text \<open>From an uncharged state with fewer than three attempts.\<close>

definition ready :: "int \<Rightarrow> live \<Rightarrow> bool" where
  "ready a s \<longleftrightarrow> \<not> lv_charged s \<and> jn_attempts (lv_journal s) \<in> {a, 0} \<and> jn_attempts (lv_journal s) < 3"

lemma ready_core: "core s' = core s \<Longrightarrow> ready a s' = ready a s"
  by (simp add: core_def ready_def)

lemma ready_budgeted: "ready a s \<Longrightarrow> budgeted a s"
  by (auto simp: ready_def budgeted_def)

lemma ready_andthen:
  assumes "quiet m" and "ready a s" and "\<And>x s1. ready a s1 \<Longrightarrow> budgeted a (snd (k x s1))"
  shows "budgeted a (snd (andthen m k s))"
proof -
  obtain r s1 where m: "m s = (r, s1)" by fastforce
  with ready_core [OF quiet_core [OF assms(1) m], of a] assms(2) have "ready a s1" by simp
  then show ?thesis using assms(3) ready_budgeted m by (cases r) (simp_all add: andthen_state)
qed

lemma ready_invocation: "ready a s \<Longrightarrow> budgeted a (snd (invocation in_scope p m v f s))"
proof -
  assume r: "ready a s"
  obtain s1 where s1: "charge p s = (Inr (), s1)" by (simp add: charge_def transition_step Let_def)
  then have b: "budgeted a s1" using r by (auto simp: charge_def transition_step Let_def budgeted_def ready_def)
  have c: "counts a (look (\<lambda>j. andthen (checked in_scope p m v f why) (\<lambda>r.
     andthen (transition p Verified (\<lambda>j. j\<lparr>jn_receipt := Some r, jn_reason := None\<rparr>)) (\<lambda>_.
     andthen (outcome (read_facts p m (vs_latest v))) (\<lambda>latest.
     andthen (outcome (policy in_scope p m (vs_latest v) latest)) (\<lambda>_.
     andthen (demand (latest = f \<and> \<not> vs_lost v) (Stop Waiting ''claim-or-head-changed'')) (\<lambda>_.
       deliver in_scope p m v f r (jn_publication j))))))))" for why
    by (intro counts_look counts_andthen counts_quiet [OF quiet_checked] counts_transition counts_outcome counts_demand counts_deliver) simp
  have "counts a (andthen (source_ready in_scope p m v f) (\<lambda>why. look (\<lambda>j. andthen (checked in_scope p m v f why) (\<lambda>r.
     andthen (transition p Verified (\<lambda>j. j\<lparr>jn_receipt := Some r, jn_reason := None\<rparr>)) (\<lambda>_.
     andthen (outcome (read_facts p m (vs_latest v))) (\<lambda>latest.
     andthen (outcome (policy in_scope p m (vs_latest v) latest)) (\<lambda>_.
     andthen (demand (latest = f \<and> \<not> vs_lost v) (Stop Waiting ''claim-or-head-changed'')) (\<lambda>_.
       deliver in_scope p m v f r (jn_publication j)))))))))"
    by (rule counts_andthen [OF counts_quiet [OF quiet_source_ready] c])
  then show ?thesis unfolding invocation_def using b s1 by (subst andthen_state) (simp add: counts_def)
qed

definition fresh_or_same :: "int \<Rightarrow> live \<Rightarrow> bool" where
  "fresh_or_same a s \<longleftrightarrow> \<not> lv_charged s \<and> jn_attempts (lv_journal s) \<in> {a, 0} \<and> jn_attempts (lv_journal s) \<le> 3"

lemma fresh_budgeted: "fresh_or_same a s \<Longrightarrow> budgeted a s"
  by (auto simp: fresh_or_same_def budgeted_def)

lemma counts_after_policy:
  assumes "fresh_or_same a s" shows "budgeted a (snd (after_policy in_scope p m v changed f s))"
proof -
  define reset where "reset = (if 3 \<le> jn_attempts (lv_journal s)
     then transition p Eligible (\<lambda>j. j\<lparr>jn_attempts := 0, jn_recheck := None, jn_reason := None\<rparr>) else give ())"
  obtain s1 where s1: "reset s = (Inr (), s1)" by (cases "3 \<le> jn_attempts (lv_journal s)") (auto simp: reset_def transition_step Let_def give_def)
  have r: "ready a s1"
    using s1 assms by (auto simp: reset_def transition_step Let_def give_def ready_def fresh_or_same_def split: if_splits)
  have q: "quiet (if known_failure v f l then with_counters (\<lambda>c. andthen (outcome (admitted p m (vs_admission v) c l)) (\<lambda>_. give ())) else give ())" for l
    by (intro quiet_intros)
  have tail: "budgeted a (snd (look (\<lambda>j. if vs_retry v < jn_retry j \<and> \<not> changed then give False
             else andthen (if known_failure v f j
                        then with_counters (\<lambda>c. andthen (outcome (admitted p m (vs_admission v) c j)) (\<lambda>_. give ())) else give ()) (\<lambda>_.
               andthen (claim in_scope p m v f) (\<lambda>_. invocation in_scope p m v f))) s1))"
  proof -
    have "budgeted a (snd (andthen (if known_failure v f l
                        then with_counters (\<lambda>c. andthen (outcome (admitted p m (vs_admission v) c l)) (\<lambda>_. give ())) else give ()) (\<lambda>_.
               andthen (claim in_scope p m v f) (\<lambda>_. invocation in_scope p m v f)) s1))" for l
      by (rule ready_andthen [OF q r], erule ready_andthen [OF quiet_claim], erule ready_invocation)
    moreover have "budgeted a (snd (give False s1))" using ready_budgeted [OF r] by (simp add: give_def)
    ultimately show ?thesis unfolding look_def by presburger
  qed
  have b: "budgeted a (snd (andthen (transition p Blocked (\<lambda>j. j\<lparr>jn_reason := Some exhausted_reason, jn_recheck := Some t, jn_retry := t\<rparr>)) (\<lambda>_. give False) s))" for t
  proof -
    have "counts a (andthen (transition p Blocked (\<lambda>j. j\<lparr>jn_reason := Some exhausted_reason, jn_recheck := Some t, jn_retry := t\<rparr>)) (\<lambda>_. give False))"
      by (intro counts_andthen counts_transition counts_give) simp
    then show ?thesis using fresh_budgeted [OF assms] by (simp add: counts_def)
  qed
  show ?thesis
    unfolding after_policy_def Let_def look_def [of _ s] reset_def [symmetric]
    using b tail s1 by (simp add: andthen_state)
qed

lemma fresh_andthen:
  assumes "quiet m" and "fresh_or_same a s" and "\<And>x s1. fresh_or_same a s1 \<Longrightarrow> budgeted a (snd (k x s1))"
  shows "budgeted a (snd (andthen m k s))"
proof -
  obtain r s1 where m: "m s = (r, s1)" by fastforce
  with quiet_core [OF assms(1) m] assms(2) have "fresh_or_same a s1" by (simp add: core_def fresh_or_same_def)
  then show ?thesis using assms(3) fresh_budgeted m by (cases r) (simp_all add: andthen_state)
qed

lemma counts_attempt:
  assumes "fresh_or_same a s"
  shows "budgeted a (snd (attempt in_scope p m v changed s))"
proof -
  have d: "fresh_or_same a s1 \<Longrightarrow> fresh_or_same a (snd (remark discard_unstarted s1))" for s1
    by (auto simp: fresh_or_same_def remark_def discard_unstarted_def split: option.split)
  have r: "fresh_or_same a s1 \<Longrightarrow> fresh_or_same a (snd (renew p e s1))" for s1 e
    by (auto simp: fresh_or_same_def renew_def look_def give_def transition_step Let_def)
  have ri: "\<exists>s2. renew p e s1 = (Inr (), s2)" for s1 e by (simp add: renew_def look_def give_def transition_step Let_def)
  have rest: "budgeted a (snd (andthen (renew p e) (\<lambda>_. andthen (outcome (policy in_scope p m (vs_sight v) f)) (\<lambda>_.
      andthen (demand b x) (\<lambda>_. after_policy in_scope p m v changed f))) s1))"
    if "fresh_or_same a s1" for s1 e f b x
  proof -
    obtain s2 where s2: "renew p e s1 = (Inr (), s2)" using ri by blast
    with r [OF that, of e] have f2: "fresh_or_same a s2" by simp
    have "budgeted a (snd (andthen (outcome (policy in_scope p m (vs_sight v) f)) (\<lambda>_.
      andthen (demand b x) (\<lambda>_. after_policy in_scope p m v changed f)) s2))"
      by (rule fresh_andthen [OF quiet_outcome f2], erule fresh_andthen [OF quiet_demand], erule counts_after_policy)
    then show ?thesis using s2 by (simp add: andthen_state)
  qed
  have pub: "budgeted a (snd (andthen (published_by p f n) (\<lambda>_. give True) s1))" if "fresh_or_same a s1" for s1 f n
    by (rule fresh_andthen [OF quiet_published_by that]) (simp add: give_def fresh_budgeted)
  have normal: "budgeted a (snd (settle_normal p m v f i s1))" if "fresh_or_same a s1" for s1 f i
    using counts_quiet [OF quiet_settle_normal, of a p m v f i] fresh_budgeted [OF that] by (simp add: counts_def)
  have own: "budgeted a (snd (andthen (remark discard_unstarted) (\<lambda>_. look (\<lambda>j.
      andthen (case jn_publication j of Some q \<Rightarrow> outcome (reconcile (vs_remote v) (pb_oid q) (pb_expected q) f) | None \<Rightarrow> give False) (\<lambda>landed.
             if landed then andthen (published_by p f (pb_oid (the (jn_publication j)))) (\<lambda>_. give True)
             else andthen (renew p (external_of m f)) (\<lambda>_. andthen (outcome (policy in_scope p m (vs_sight v) f)) (\<lambda>_.
               andthen (demand (mf_published m \<in> {None, mf_expected m}) (Stop Gone ''post-publication-leftovers'')) (\<lambda>_.
                 after_policy in_scope p m v changed f)))))) s1))" (is "budgeted a (snd (andthen _ ?k s1))")
    if "fresh_or_same a s1" for s1 f
  proof -
    define s2 where "s2 = snd (remark discard_unstarted s1)"
    have f2: "fresh_or_same a s2" using d [OF that] by (simp add: s2_def)
    have "budgeted a (snd (?k () s2))"
      unfolding look_def by (rule fresh_andthen [OF _ f2]) (auto intro!: quiet_intros simp: pub rest)
    then show ?thesis by (simp add: andthen_state s2_def remark_def)
  qed
  show ?thesis
    unfolding attempt_def
    apply (rule fresh_andthen [OF quiet_outcome assms])
    apply (rule fresh_andthen, rule quiet_remark, simp, simp, simp add: honest_def, assumption)
    subgoal for f s1 u s2
      by (subst look_def, split option.split) (use normal [of s2 f] own [of s2 f] in blast)
    done
qed

lemma open_core:
  assumes "open_visit p mo v j c = (s, e)"
  shows "jn_attempts (lv_journal s) = jn_attempts j \<and> \<not> lv_charged s"
proof -
  define s1 where "s1 = (if vs_exists v then fresh_live j c else snd (transition p Retained id (fresh_live j c)))"
  have 1: "jn_attempts (lv_journal s1) = jn_attempts j \<and> \<not> lv_charged s1"
    by (simp add: s1_def fresh_live_def transition_step Let_def)
  have b: "jn_attempts (lv_journal (snd (transition p st upd s1))) = jn_attempts j \<and> \<not> lv_charged (snd (transition p st upd s1))"
    if "\<And>j. jn_attempts (upd j) = jn_attempts j" for st upd
    using 1 that by (simp add: transition_step Let_def)
  define s2 where "s2 = (if jn_protocol (lv_journal s1) = Some protocol_version then s1
                        else snd (transition p (jn_state (lv_journal s1)) (\<lambda>j. j\<lparr>jn_retry := 0\<rparr>) s1))"
  have 2: "jn_attempts (lv_journal s2) = jn_attempts j \<and> \<not> lv_charged s2" using 1 b by (simp add: s2_def)
  have e: "lv_journal (snd (emit Evict s1)) = lv_journal s1" "lv_charged (snd (emit Evict s1)) = lv_charged s1" by (simp_all add: emit_def)
  have "s \<in> {snd (emit Evict s1), s1, snd (transition p Blocked (\<lambda>j. j\<lparr>jn_reason := Some (reason_of Barred ''corrupt-checkpoint'')\<rparr>) s1), s2}"
    using assms unfolding open_visit_def Let_def s1_def [symmetric] s2_def [symmetric]
    by (cases mo) (simp_all split: if_splits)
  then show ?thesis using 1 2 e b by auto
qed

lemma delay_bounds: "60 \<le> infra_delay a n" "infra_delay a n \<le> 21600"
proof -
  have "(1::rat) \<le> 30 * 2 ^ k" for k :: nat using one_le_power [of "2::rat" k] by linarith
  then show "60 \<le> infra_delay a n" by (simp add: infra_delay_def)
  show "infra_delay a n \<le> 21600" by (simp add: infra_delay_def)
qed

text \<open>
  C9: a wait costs nothing and a failure one attempt, and both come back. When a visit ends in a wait, the attempts are what
  they were, or none after a change outside or a recheck; when it ends in a failure they are one more, never above three, the
  record is eligible, its retry is between one minute and six hours away, it keeps no other work away, and it is due as soon
  as that time has come.
\<close>

theorem failures_cost_one_and_come_back:
  assumes "open_visit p mo v j c = (s, Some (m, changed))" and "attempt in_scope p m v changed s = (Inl e, s1)"
    and "0 \<le> jn_attempts j" and "jn_attempts j \<le> 3" and "k = lv_journal (fst (run in_scope p mo v j c))"
  shows "(e \<noteq> Broke \<longrightarrow> jn_attempts k \<in> {jn_attempts j, 0} \<and> vs_end v + 60 \<le> jn_retry k)
    \<and> (e = Broke \<longrightarrow> jn_attempts k \<in> {min 3 (jn_attempts j + 1), 1} \<and> jn_state k = Eligible
         \<and> vs_end v + 60 \<le> jn_retry k \<and> jn_retry k \<le> vs_end v + 21600
         \<and> (\<forall>now. \<not> reserves now k) \<and> (\<forall>q now metadata receipt. jn_retry k \<le> now \<longrightarrow> due q now metadata receipt k))"
proof -
  have "fresh_or_same (jn_attempts j) s" using open_core [OF assms(1)] assms(4) by (simp add: fresh_or_same_def)
  from counts_attempt [OF this, of in_scope p m v changed] assms(2) have b: "budgeted (jn_attempts j) s1" by simp
  have r: "run in_scope p mo v j c = handled p (vs_end v) (Inl e, s1)" using assms(1,2) by (simp add: run_def)
  have f: "lv_journal (finish_visit x) = lv_journal x" for x by (simp add: finish_visit_def emit_def)
  define s2 where "s2 = snd (remark discard_unstarted s1)"
  have s2: "jn_attempts (lv_journal s2) = jn_attempts (lv_journal s1)" "lv_charged s2 = lv_charged s1"
    by (simp_all add: s2_def remark_def discard_unstarted_def split: option.split)
  show ?thesis
  proof (cases e)
    case (Stop kind code)
    have k: "k = lv_journal (snd (waited p (vs_end v) (lv_charged s1) kind code s1))" using assms(5) r Stop f by (simp add: handled_def)
    have "jn_attempts k = max 0 (jn_attempts (lv_journal s1) - (if lv_charged s1 then 1 else 0))"
      by (simp add: k waited_def andthen_state transition_step Let_def remark_def discard_unstarted_def split: option.split)
    moreover have "vs_end v + 60 \<le> jn_retry k"
      by (simp add: k waited_def andthen_state transition_step Let_def remark_def written_def le_max_iff_disj)
    ultimately show ?thesis using b assms(3) Stop by (auto simp: budgeted_def split: if_splits)
  next
    case Broke
    define l where "l = discard_unstarted (lv_journal s1)"
    define tried where "tried = min 3 (jn_attempts (lv_journal s1) + (if lv_charged s1 then 0 else 1))"
    have l: "jn_attempts l = jn_attempts (lv_journal s1)" by (simp add: l_def discard_unstarted_def split: option.split)
    have k: "k = lv_journal (snd (broke p (vs_end v) (lv_charged s1) s1))" using assms(5) r Broke f by (simp add: handled_def)
    have a: "jn_attempts k = tried" "jn_retry k = vs_end v + infra_delay tried (jn_streak l + 1)" "code_of k = Some ''invocation-failed''"
        "jn_state k = Eligible" "jn_protocol k = Some protocol_version"
      by (simp_all add: k broke_def andthen_state transition_step Let_def remark_def l_def [symmetric] l tried_def written_def code_of_def written_state_def)
    have c: "code_in retryable_codes k" "\<not> code_in local_waits k" by (simp_all add: code_in_def a(3) retryable_codes_def local_waits_def)
    have "tried \<in> {min 3 (jn_attempts j + 1), 1}" using b assms(3) by (auto simp: budgeted_def tried_def split: if_splits)
    moreover have "due q now metadata receipt k" if "jn_retry k \<le> now" for q now metadata receipt
      using that a c by (simp add: due_def terminal_def)
    moreover have "\<not> reserves now k" for now using c by (simp add: reserves_def)
    ultimately show ?thesis using a delay_bounds Broke by simp
  qed
qed

end
