(* ===== verification/RecoveryPush.thy ===== *)
theory RecoveryPush
  imports RecoveryLaws
begin

text \<open>
  What must have been read for a visit to push or to call a checkpoint published.
\<close>

named_theorems emits_intros "rules for the actions of a stage"

definition emits :: "(act \<Rightarrow> bool) \<Rightarrow> 'a io \<Rightarrow> bool" where
  "emits A m \<longleftrightarrow> (\<forall>s r s'. m s = (r, s') \<longrightarrow> honest (lv_journal s)
     \<longrightarrow> honest (lv_journal s') \<and> (\<exists>new. lv_acts s' = lv_acts s @ new \<and> list_all A new))"

definition gives :: "'a io \<Rightarrow> 'a \<Rightarrow> bool" where
  "gives m x \<longleftrightarrow> (\<exists>s s'. honest (lv_journal s) \<and> m s = (Inr x, s'))"

lemma emitsI:
  assumes "\<And>s r s'. m s = (r, s') \<Longrightarrow> honest (lv_journal s)
     \<Longrightarrow> honest (lv_journal s') \<and> (\<exists>new. lv_acts s' = lv_acts s @ new \<and> list_all A new)"
  shows "emits A m"
  using assms unfolding emits_def by blast

lemma emits_andthen [emits_intros]:
  assumes "emits A m" and "\<And>x. gives m x \<Longrightarrow> emits A (k x)"
  shows "emits A (andthen m k)"
proof (rule emitsI)
  fix s r s' assume e: "andthen m k s = (r, s')" and h: "honest (lv_journal s)"
  obtain r1 s1 where m: "m s = (r1, s1)" by fastforce
  with assms(1) h obtain new1 where 1: "honest (lv_journal s1)" "lv_acts s1 = lv_acts s @ new1" "list_all A new1"
    unfolding emits_def by blast
  show "honest (lv_journal s') \<and> (\<exists>new. lv_acts s' = lv_acts s @ new \<and> list_all A new)"
  proof (cases r1)
    case (Inl a)
    then show ?thesis using e m 1 by (auto simp: andthen_def)
  next
    case (Inr x)
    then have "k x s1 = (r, s')" "gives m x" using e m h by (auto simp: andthen_def gives_def)
    with assms(2) 1(1) obtain new2 where "honest (lv_journal s')" "lv_acts s' = lv_acts s1 @ new2" "list_all A new2"
      unfolding emits_def by blast
    then show ?thesis using 1 by auto
  qed
qed

lemma emits_give [emits_intros]: "emits A (give x)"
  by (simp add: emits_def give_def)

lemma emits_halt [emits_intros]: "emits A (halt e)"
  by (simp add: emits_def halt_def)

lemma emits_outcome [emits_intros]: "emits A (outcome r)"
  by (cases r) (simp_all add: outcome_def emits_give emits_halt)

lemma emits_demand [emits_intros]: "emits A (demand b e)"
  by (simp add: demand_def emits_give emits_halt)

lemma emits_look [emits_intros]: "(\<And>j. honest j \<Longrightarrow> emits A (k j)) \<Longrightarrow> emits A (look k)"
  unfolding emits_def look_def by blast

lemma emits_with_counters [emits_intros]: "(\<And>c. emits A (k c)) \<Longrightarrow> emits A (with_counters k)"
  unfolding emits_def with_counters_def by blast

lemma emits_set_counters [emits_intros]: "emits A (set_counters f)"
  by (simp add: emits_def set_counters_def)

lemma emits_emit [emits_intros]: "A a \<Longrightarrow> emits A (emit a)"
  by (simp add: emits_def emit_def)

lemma emits_remark [emits_intros]: "(\<And>j. honest j \<Longrightarrow> honest (upd j)) \<Longrightarrow> emits A (remark upd)"
  by (simp add: emits_def remark_def)

lemma emits_save [emits_intros]:
  "(\<And>j. honest j \<Longrightarrow> honest (upd j)) \<Longrightarrow> (\<And>j. A (Save (written st upd j))) \<Longrightarrow> emits A (save st upd)"
  by (simp add: emits_def save_def Let_def)

lemma emits_transition [emits_intros]:
  "(\<And>j. honest j \<Longrightarrow> honest (upd j)) \<Longrightarrow> (\<And>j. A (Save (written st (\<lambda>j. (upd j)\<lparr>jn_selection := selection p\<rparr>) j)))
   \<Longrightarrow> emits A (transition p st upd)"
  unfolding transition_def by (rule emits_save) (simp_all add: honest_def)

lemma emits_if [emits_intros]: "(b \<Longrightarrow> emits A m) \<Longrightarrow> (\<not> b \<Longrightarrow> emits A m') \<Longrightarrow> emits A (if b then m else m')"
  by simp

lemma emits_prod [emits_intros]: "(\<And>a b. emits A (k a b)) \<Longrightarrow> emits A (case x of (a, b) \<Rightarrow> k a b)"
  by (simp split: prod.split)

lemma emits_option [emits_intros]:
  "(y = None \<Longrightarrow> emits A m) \<Longrightarrow> (\<And>x. y = Some x \<Longrightarrow> emits A (k x)) \<Longrightarrow> emits A (case y of None \<Rightarrow> m | Some x \<Rightarrow> k x)"
  by (simp split: option.split)

lemma emits_entrance [emits_intros]:
  "emits A m1 \<Longrightarrow> emits A m2 \<Longrightarrow> emits A m3 \<Longrightarrow> emits A m4
   \<Longrightarrow> emits A (case e of Opened \<Rightarrow> m1 | OpenAdmission \<Rightarrow> m2 | OpenBudget \<Rightarrow> m3 | OpenBroke \<Rightarrow> m4)"
  by (cases e) simp_all

lemma emits_agent_end [emits_intros]:
  "(\<And>n. emits A (m1 n)) \<Longrightarrow> emits A m2 \<Longrightarrow> emits A m3 \<Longrightarrow> emits A m4 \<Longrightarrow> emits A m5
   \<Longrightarrow> emits A (case e of AgentExit n \<Rightarrow> m1 n | CacheDown \<Rightarrow> m2 | AdmissionDown \<Rightarrow> m3 | OverBudget \<Rightarrow> m4 | AgentBroke \<Rightarrow> m5)"
  by (cases e) simp_all

section \<open>What a stage gives\<close>

lemma gives_basic [dest!]:
  "gives (outcome r) x \<Longrightarrow> r = Inr x" "gives (demand b e) u \<Longrightarrow> b" "gives (give y) x \<Longrightarrow> x = y" "gives (halt e) x \<Longrightarrow> False"
  by (auto simp: gives_def outcome_def demand_def give_def halt_def split: sum.splits if_splits)

lemma gives_andthen:
  assumes "gives (andthen m k) y" and "quiet m"
  obtains x where "gives m x" "gives (k x) y"
proof -
  from assms(1) obtain s s' where h: "honest (lv_journal s)" and e: "andthen m k s = (Inr y, s')" by (auto simp: gives_def)
  obtain r1 s1 where m: "m s = (r1, s1)" by fastforce
  with e obtain x where x: "r1 = Inr x" "k x s1 = (Inr y, s')" by (cases r1) (auto simp: andthen_def)
  have "gives m x" using h m x(1) by (auto simp: gives_def)
  moreover have "gives (k x) y" using quiet_honest [OF assms(2) m h] x(2) by (auto simp: gives_def)
  ultimately show ?thesis by (rule that)
qed

lemma gives_look:
  assumes "gives (look k) y"
  obtains j where "honest j" "gives (k j) y"
  using assms unfolding gives_def look_def by blast

lemma gives_verify:
  assumes "gives (verify w f) r" and "rc_status r = ''success''"
  shows "r = ck_result w"
proof -
  from assms(1) obtain u where "gives (case ck_current w of None \<Rightarrow> halt Broke | Some fp \<Rightarrow> look (\<lambda>j.
            if jn_failed_check j = Some fp \<and> ck_now w < jn_failed_recheck j then give (jn_failed_receipt j)
            else if rc_status (ck_result w) = ''failed''
            then (let n = (if jn_failed_check j = Some fp then jn_check_failures j + 1 else 1)
                  in andthen (save Resuming (\<lambda>j. j\<lparr>jn_failed_check := Some fp, jn_failed_head := Some (fa_head f),
                        jn_failed_source := Some (ck_tree w), jn_failed_receipt := ck_result w, jn_check_failures := n,
                        jn_failed_recheck := ck_now w + recheck_delay n\<rparr>)) (\<lambda>_. give (ck_result w)))
            else give (ck_result w))) r"
    unfolding verify_def by (rule gives_andthen [OF _ quiet_stage])
  then obtain fp where fp: "ck_current w = Some fp" and l: "gives (look (\<lambda>j.
            if jn_failed_check j = Some fp \<and> ck_now w < jn_failed_recheck j then give (jn_failed_receipt j)
            else if rc_status (ck_result w) = ''failed''
            then (let n = (if jn_failed_check j = Some fp then jn_check_failures j + 1 else 1)
                  in andthen (save Resuming (\<lambda>j. j\<lparr>jn_failed_check := Some fp, jn_failed_head := Some (fa_head f),
                        jn_failed_source := Some (ck_tree w), jn_failed_receipt := ck_result w, jn_check_failures := n,
                        jn_failed_recheck := ck_now w + recheck_delay n\<rparr>)) (\<lambda>_. give (ck_result w)))
            else give (ck_result w))) r" by (cases "ck_current w") auto
  from l show ?thesis
    by (rule gives_look) (use assms(2) in \<open>auto simp: honest_def Let_def gives_def save_def andthen_def give_def split: if_splits\<close>)
qed

lemma gives_checked:
  assumes "gives (checked in_scope p m v f why) r"
  shows "rc_status r = ''success'' \<and> r \<in> {ck_result (vs_check v), ck_result (vs_check_again v)}"
proof -
  from assms [unfolded checked_def] obtain j :: journal where g: "gives (andthen (verify (vs_check v) f) (\<lambda>r.
       if rc_status r = ''success'' then give r
       else if rc_status r = ''incomplete'' then halt Broke
       else if jn_publication j \<noteq> None then halt (Stop Waiting ''publication-revalidation-failed'')
       else if why \<noteq> None then halt (Stop Unfit ''source-verification-failed'')
       else
         andthen (continue_source in_scope p m (vs_continuation v) f ''exact-source-verification-failed'') (\<lambda>_.
         andthen (verify (vs_check_again v) f) (\<lambda>r.
         andthen (demand (rc_status r = ''success'') (Stop Unfit ''source-verification-failed'')) (\<lambda>_. give r))))) r"
    by (rule gives_look)
  from g quiet_verify obtain r1 where r1: "gives (verify (vs_check v) f) r1" and g1: "gives (
       if rc_status r1 = ''success'' then give r1
       else if rc_status r1 = ''incomplete'' then halt Broke
       else if jn_publication j \<noteq> None then halt (Stop Waiting ''publication-revalidation-failed'')
       else if why \<noteq> None then halt (Stop Unfit ''source-verification-failed'')
       else
         andthen (continue_source in_scope p m (vs_continuation v) f ''exact-source-verification-failed'') (\<lambda>_.
         andthen (verify (vs_check_again v) f) (\<lambda>r.
         andthen (demand (rc_status r = ''success'') (Stop Unfit ''source-verification-failed'')) (\<lambda>_. give r)))) r"
    by (rule gives_andthen)
  show ?thesis
  proof (cases "rc_status r1 = ''success''")
    case True
    then show ?thesis using g1 gives_verify [OF r1] by auto
  next
    case False
    then have "gives (andthen (continue_source in_scope p m (vs_continuation v) f ''exact-source-verification-failed'') (\<lambda>_.
         andthen (verify (vs_check_again v) f) (\<lambda>r.
         andthen (demand (rc_status r = ''success'') (Stop Unfit ''source-verification-failed'')) (\<lambda>_. give r)))) r"
      using g1 by (auto split: if_splits)
    then obtain u where "gives (andthen (verify (vs_check_again v) f) (\<lambda>r.
         andthen (demand (rc_status r = ''success'') (Stop Unfit ''source-verification-failed'')) (\<lambda>_. give r))) r"
      by (rule gives_andthen [OF _ quiet_continue])
    then obtain r2 where r2: "gives (verify (vs_check_again v) f) r2"
      "gives (andthen (demand (rc_status r2 = ''success'') (Stop Unfit ''source-verification-failed'')) (\<lambda>_. give r2)) r"
      by (rule gives_andthen [OF _ quiet_verify])
    from r2(2) have "rc_status r2 = ''success'' \<and> r = r2" by (rule gives_andthen [OF _ quiet_demand]) auto
    then show ?thesis using gives_verify [OF r2(1)] by simp
  qed
qed

lemma gives_prepare:
  assumes "gives (prepare w f r) q"
  shows "pp_fingerprint w = Some (rc_fingerprint r) \<and> \<not> pp_reintroduced w \<and> pp_integrates w
    \<and> pb_oid q = pp_oid w \<and> pb_fingerprint q = rc_fingerprint r \<and> pb_expected q = fa_head f"
proof -
  from assms [unfolded prepare_def] obtain u where u: "pp_fingerprint w = Some (rc_fingerprint r)" and g: "gives (andthen (stage (pp_commit w)) (\<lambda>_.
       if pp_reintroduced w
       then andthen (save Resuming id) (\<lambda>_. halt (Stop Unfit ''removed-history-reintroduced''))
       else andthen (demand (pp_integrates w) Broke) (\<lambda>_.
         give \<lparr>pb_oid = pp_oid w, pb_expected = fa_head f, pb_repository = fa_repository f, pb_ref = fa_ref f,
               pb_receipt = rc_receipt r, pb_fingerprint = rc_fingerprint r, pb_started = Some False, pb_uncertain = False\<rparr>))) q"
    by (rule gives_andthen [OF _ quiet_demand]) auto
  from g obtain u where g1: "gives (
       if pp_reintroduced w
       then andthen (save Resuming id) (\<lambda>_. halt (Stop Unfit ''removed-history-reintroduced''))
       else andthen (demand (pp_integrates w) Broke) (\<lambda>_.
         give \<lparr>pb_oid = pp_oid w, pb_expected = fa_head f, pb_repository = fa_repository f, pb_ref = fa_ref f,
               pb_receipt = rc_receipt r, pb_fingerprint = rc_fingerprint r, pb_started = Some False, pb_uncertain = False\<rparr>)) q"
    by (rule gives_andthen [OF _ quiet_stage])
  show ?thesis
  proof (cases "pp_reintroduced w")
    case True
    then show ?thesis using g1 by (auto simp: gives_def andthen_def save_def halt_def Let_def)
  next
    case False
    with g1 have "gives (andthen (demand (pp_integrates w) Broke) (\<lambda>_.
         give \<lparr>pb_oid = pp_oid w, pb_expected = fa_head f, pb_repository = fa_repository f, pb_ref = fa_ref f,
               pb_receipt = rc_receipt r, pb_fingerprint = rc_fingerprint r, pb_started = Some False, pb_uncertain = False\<rparr>)) q" by simp
    then show ?thesis by (rule gives_andthen [OF _ quiet_demand]) (use u False in auto)
  qed
qed

lemma gives_settled:
  assumes "gives (settled_intent pending q) q'"
  shows "pb_oid q' = pb_oid q \<and> pb_fingerprint q' = pb_fingerprint q \<and> pb_expected q' = pb_expected q"
  using assms
  by (auto simp: gives_def settled_intent_def give_def halt_def andthen_def remark_def forensic_def split: option.splits if_splits)

lemma gives_claim:
  assumes "gives (claim in_scope p m v f) u"
  shows "vs_claim v = Some True \<and> read_facts p m (vs_claimed v) = Inr f \<and> policy in_scope p m (vs_claimed v) f = Inr ()"
  using assms
  by (auto simp: gives_def claim_def andthen_def outcome_def demand_def give_def halt_def split: option.splits sum.splits if_splits)

section \<open>What an action needs\<close>

definition confirmed_on :: "remote_view \<Rightarrow> string \<Rightarrow> bool" where
  "confirmed_on rv n \<longleftrightarrow>
     (\<exists>head. rv_listing rv = Some (Some head) \<and> (head = n \<or> rv_checkout rv \<and> rv_fetched rv \<and> rv_contains rv))"

text \<open>The source and the commit: verified with these inputs, on the head that every look at the pull request saw.\<close>

definition authorized :: "scope_test \<Rightarrow> options \<Rightarrow> manifest \<Rightarrow> visit \<Rightarrow> string \<Rightarrow> bool" where
  "authorized in_scope p m v n \<longleftrightarrow>
     (\<exists>f r. read_facts p m (vs_sight v) = Inr f \<and> vs_claim v = Some True
        \<and> read_facts p m (vs_claimed v) = Inr f \<and> policy in_scope p m (vs_claimed v) f = Inr ()
        \<and> read_facts p m (vs_latest v) = Inr f \<and> policy in_scope p m (vs_latest v) f = Inr () \<and> \<not> vs_lost v
        \<and> read_facts p m (ph_sight (vs_pushing v)) = Inr f \<and> policy in_scope p m (ph_sight (vs_pushing v)) f = Inr ()
        \<and> \<not> ph_lost (vs_pushing v)
        \<and> rc_status r = ''success'' \<and> r \<in> {ck_result (vs_check v), ck_result (vs_check_again v)}
        \<and> pp_fingerprint (vs_preparing v) = Some (rc_fingerprint r) \<and> ph_fingerprint (vs_pushing v) = Some (rc_fingerprint r)
        \<and> n = pp_oid (vs_preparing v) \<and> pp_integrates (vs_preparing v) \<and> \<not> pp_reintroduced (vs_preparing v)
        \<and> ph_head (vs_pushing v) = n \<and> \<not> ph_dirty (vs_pushing v) \<and> ph_valid (vs_pushing v))"

definition act_ok :: "scope_test \<Rightarrow> options \<Rightarrow> manifest \<Rightarrow> visit \<Rightarrow> act \<Rightarrow> bool" where
  "act_ok in_scope p m v a =
     (case a of
        Save k \<Rightarrow> jn_state k = Published \<longrightarrow> (\<exists>h n rv. jn_evidence k = Some (h, n)
                    \<and> rv \<in> {vs_remote_normal v, vs_remote v, vs_remote_after v} \<and> confirmed_on rv n)
      | Push n _ \<Rightarrow> authorized in_scope p m v n
      | _ \<Rightarrow> True)"

lemma act_ok_simps [simp]:
  "act_ok in_scope p m v Agent" "act_ok in_scope p m v Evict" "act_ok in_scope p m v (Push n a) = authorized in_scope p m v n"
  by (simp_all add: act_ok_def)

lemma act_ok_save: "st \<noteq> Published \<Longrightarrow> act_ok in_scope p m v (Save (written st upd j))"
  by (simp add: act_ok_def written_def written_state_def Let_def)

lemma reconciled: "reconcile rv n e f = Inr True \<Longrightarrow> confirmed_on rv n"
  by (auto simp: reconcile_def confirmed_on_def split: option.splits if_splits)

lemma emits_works [emits_intros]: "emits (act_ok in_scope p m v) (works n)"
  by (induction n) (auto intro!: emits_andthen emits_save emits_give simp: act_ok_save)

lemma emits_stage [emits_intros]: "emits (act_ok in_scope p m v) (stage r)"
  unfolding stage_def by (intro emits_intros)

lemma emits_refund [emits_intros]: "emits (act_ok in_scope p m v) (refund_content known api w keys cs content)"
  unfolding refund_content_def by (intro emits_intros; simp add: honest_def act_ok_save)

lemma emits_snapshot [emits_intros]: "emits (act_ok in_scope p m v) (snapshot r)"
  unfolding snapshot_def by (intro emits_intros; simp add: act_ok_save)

lemma emits_forensic [emits_intros]: "emits A (forensic b)"
  unfolding forensic_def by (intro emits_intros; simp add: honest_def)

lemma emits_continue [emits_intros]: "emits (act_ok in_scope p m v) (continue_source in_scope' p' m' w f why)"
proof -
  have "emits (act_ok in_scope p m v) (continue_backend in_scope' p' m' w f)"
    unfolding continue_backend_def Let_def by (intro emits_intros; simp add: honest_def act_ok_save)
  then show ?thesis unfolding continue_source_def by (intro emits_intros; simp add: honest_def act_ok_save)
qed

lemma emits_verify [emits_intros]: "emits (act_ok in_scope p m v) (verify w f)"
  unfolding verify_def Let_def by (intro emits_intros; simp add: honest_def act_ok_save)

lemma emits_prepare [emits_intros]: "emits (act_ok in_scope p m v) (prepare w f r)"
  unfolding prepare_def by (intro emits_intros; simp add: act_ok_save)

lemma emits_claim [emits_intros]: "emits A (claim in_scope p m v f)"
  unfolding claim_def by (intro emits_intros)

lemma emits_charge [emits_intros]: "emits (act_ok in_scope p m v) (charge p')"
proof -
  have "emits (act_ok in_scope p m v) (transition p' Resuming (\<lambda>j. j\<lparr>jn_attempts := jn_attempts j + 1, jn_retry := 0, jn_reason := None\<rparr>))"
    by (intro emits_intros; simp add: honest_def act_ok_save)
  then show ?thesis by (auto simp: emits_def charge_def split: prod.split)
qed

lemma emits_source_ready [emits_intros]: "emits (act_ok in_scope p m v) (source_ready in_scope' p' m' v' f)"
  unfolding source_ready_def by (intro emits_intros)

lemma emits_checked [emits_intros]: "emits (act_ok in_scope p m v) (checked in_scope' p' m' v' f why)"
  unfolding checked_def by (intro emits_intros)

lemma emits_published [emits_intros]:
  assumes "rv \<in> {vs_remote_normal v, vs_remote v, vs_remote_after v}" and "confirmed_on rv n"
  shows "emits (act_ok in_scope p m v) (published_by p' f n)"
  unfolding published_by_def
proof (rule emits_transition)
  fix j
  show "act_ok in_scope p m v (Save (written Published (\<lambda>j. j\<lparr>jn_evidence := Some (fa_head f, n), jn_reason := None, jn_selection := selection p'\<rparr>) j))"
    using assms by (auto simp: act_ok_def written_def Let_def)
qed (simp add: honest_def)

lemma emits_settle_normal [emits_intros]: "emits (act_ok in_scope p m v) (settle_normal p' m' v f i)"
proof -
  have "emits (act_ok in_scope p m v) (if landed
       then andthen (remark (\<lambda>j. j\<lparr>jn_confirmed := Some (it_oid i)\<rparr>)) (\<lambda>_.
            if mf_local_head m' \<noteq> Some (it_oid i) \<or> mf_dirty m'
            then andthen (forensic False) (\<lambda>_. halt (Stop Gone ''post-publication-leftovers''))
            else andthen (published_by p' f (it_oid i)) (\<lambda>_. give True))
       else halt (Stop Gone ''publication-uncertain''))" if "reconcile (vs_remote_normal v) (it_oid i) (it_expected i) f = Inr landed" for landed
  proof (cases landed)
    case True
    then have "confirmed_on (vs_remote_normal v) (it_oid i)" using that reconciled by simp
    from emits_published [OF _ this] True show ?thesis by (auto intro!: emits_andthen emits_remark emits_if emits_forensic emits_halt emits_give simp: honest_def)
  qed (auto intro: emits_halt)
  then show ?thesis unfolding settle_normal_def by (intro emits_andthen emits_forensic emits_outcome) auto
qed

lemma emits_publish:
  assumes "read_facts p m (ph_sight (vs_pushing v)) = Inr f \<Longrightarrow> policy in_scope p m (ph_sight (vs_pushing v)) f = Inr ()
    \<Longrightarrow> \<not> ph_lost (vs_pushing v) \<Longrightarrow> ph_head (vs_pushing v) = pb_oid q \<Longrightarrow> \<not> ph_dirty (vs_pushing v)
    \<Longrightarrow> ph_fingerprint (vs_pushing v) = Some (pb_fingerprint q) \<Longrightarrow> ph_valid (vs_pushing v)
    \<Longrightarrow> authorized in_scope p m v (pb_oid q)"
  shows "emits (act_ok in_scope p m v) (publish in_scope p m (vs_pushing v) f q)"
proof -
  have n: "emits (act_ok in_scope p m v) (not_sent e)" for e
    unfolding not_sent_def by (intro emits_look emits_andthen emits_save emits_halt) (simp_all add: set_started_def honest_def act_ok_save)
  have s: "emits (act_ok in_scope p m v) (sending (vs_pushing v) q)" if "authorized in_scope p m v (pb_oid q)"
    unfolding sending_def using that
    by (intro emits_andthen emits_save emits_emit) (cases "ph_answer (vs_pushing v)"; simp add: set_started_def honest_def act_ok_save emits_give emits_halt n)+
  show ?thesis
    unfolding publish_def sending_def [symmetric]
    by (intro emits_andthen emits_outcome emits_demand emits_look s assms) auto
qed

text \<open>What is known when the verified source is delivered.\<close>

definition deliverable :: "scope_test \<Rightarrow> options \<Rightarrow> manifest \<Rightarrow> visit \<Rightarrow> facts \<Rightarrow> receipt \<Rightarrow> bool" where
  "deliverable in_scope p m v f r \<longleftrightarrow>
     read_facts p m (vs_sight v) = Inr f \<and> vs_claim v = Some True
     \<and> read_facts p m (vs_claimed v) = Inr f \<and> policy in_scope p m (vs_claimed v) f = Inr ()
     \<and> read_facts p m (vs_latest v) = Inr f \<and> policy in_scope p m (vs_latest v) f = Inr () \<and> \<not> vs_lost v
     \<and> rc_status r = ''success'' \<and> r \<in> {ck_result (vs_check v), ck_result (vs_check_again v)}"

lemma emits_settled [emits_intros]: "emits A (settled_intent pending q)"
  unfolding settled_intent_def by (intro emits_intros; simp add: honest_def)

lemma emits_deliver:
  assumes d: "deliverable in_scope p m v f r"
  shows "emits (act_ok in_scope p m v) (deliver in_scope p m v f r pending)"
  unfolding deliver_def
proof (rule emits_andthen [OF emits_prepare], rule emits_andthen [OF emits_settled])
  fix q0 q assume g: "gives (prepare (vs_preparing v) f r) q0" "gives (settled_intent pending q0) q"
  note q = gives_prepare [OF g(1)] gives_settled [OF g(2)]
  have pub: "emits (act_ok in_scope p m v) (publish in_scope p m (vs_pushing v) f q)"
  proof (rule emits_publish)
    assume "read_facts p m (ph_sight (vs_pushing v)) = Inr f" "policy in_scope p m (ph_sight (vs_pushing v)) f = Inr ()"
      "\<not> ph_lost (vs_pushing v)" "ph_head (vs_pushing v) = pb_oid q" "\<not> ph_dirty (vs_pushing v)"
      "ph_fingerprint (vs_pushing v) = Some (pb_fingerprint q)" "ph_valid (vs_pushing v)"
    then show "authorized in_scope p m v (pb_oid q)"
      using d q unfolding authorized_def deliverable_def by (intro exI [of _ f] exI [of _ r]) simp
  qed
  have fin: "emits (act_ok in_scope p m v) (published_by p l (pb_oid q))"
    if "gives (outcome (reconcile (vs_remote_after v) (pb_oid q) (pb_expected q) l)) b" "gives (demand b Broke) u" for l b u
  proof -
    from that have "reconcile (vs_remote_after v) (pb_oid q) (pb_expected q) l = Inr True" by auto
    from reconciled [OF this] show ?thesis by (intro emits_published) auto
  qed
  show "emits (act_ok in_scope p m v) (andthen (transition p PublicationPending (\<lambda>j. j\<lparr>jn_publication := Some q\<rparr>)) (\<lambda>_.
     andthen (publish in_scope p m (vs_pushing v) f q) (\<lambda>_.
     andthen (outcome (read_facts p m (vs_after v))) (\<lambda>latest.
     andthen (outcome (reconcile (vs_remote_after v) (pb_oid q) (pb_expected q) latest)) (\<lambda>landed.
     andthen (demand landed Broke) (\<lambda>_.
     andthen (published_by p latest (pb_oid q)) (\<lambda>_. give True)))))))"
    by (intro emits_andthen emits_transition pub emits_outcome emits_demand fin emits_give) (simp_all add: honest_def act_ok_save)
qed

lemma emits_invocation:
  assumes "read_facts p m (vs_sight v) = Inr f" and "vs_claim v = Some True"
    and "read_facts p m (vs_claimed v) = Inr f" and "policy in_scope p m (vs_claimed v) f = Inr ()"
  shows "emits (act_ok in_scope p m v) (invocation in_scope p m v f)"
proof -
  have d: "deliverable in_scope p m v f r"
    if "gives (checked in_scope p m v f why) r" "gives (outcome (read_facts p m (vs_latest v))) l"
      "gives (outcome (policy in_scope p m (vs_latest v) l)) u" "gives (demand (l = f \<and> \<not> vs_lost v) e) u'" for why r l u u' e
    using that assms gives_checked [OF that(1)] unfolding deliverable_def by auto
  have e: "emits (act_ok in_scope p m v) (deliver in_scope p m v f r pending)"
    if "gives (checked in_scope p m v f why) r" "gives (outcome (read_facts p m (vs_latest v))) l"
      "gives (outcome (policy in_scope p m (vs_latest v) l)) u" "gives (demand (l = f \<and> \<not> vs_lost v) e) u'" for why r l u u' e pending
    by (rule emits_deliver [OF d [OF that]])
  show ?thesis
    unfolding invocation_def
    apply (intro emits_andthen emits_charge emits_source_ready emits_look emits_checked emits_transition emits_outcome emits_demand)
      apply (simp add: honest_def)
     apply (simp add: act_ok_save)
    apply (rule e; assumption)
    done
qed

lemma emits_after_policy:
  assumes "read_facts p m (vs_sight v) = Inr f"
  shows "emits (act_ok in_scope p m v) (after_policy in_scope p m v changed f)"
proof -
  have i: "emits (act_ok in_scope p m v) (invocation in_scope p m v f)" if "gives (claim in_scope p m v f) u" for u
    using gives_claim [OF that] assms by (intro emits_invocation) auto
  have b: "emits (act_ok in_scope p m v) (andthen (transition p Blocked (\<lambda>j. j\<lparr>jn_reason := Some exhausted_reason, jn_recheck := Some t, jn_retry := t\<rparr>)) (\<lambda>_. give False))" for t
    by (intro emits_intros; simp add: honest_def act_ok_save)
  have c: "emits (act_ok in_scope p m v) (if 3 \<le> jn_attempts l then transition p Eligible (\<lambda>j. j\<lparr>jn_attempts := 0, jn_recheck := None, jn_reason := None\<rparr>) else give ())" for l
    by (intro emits_intros; simp add: honest_def act_ok_save)
  have a: "emits (act_ok in_scope p m v) (if known_failure v f l then with_counters (\<lambda>c. andthen (outcome (admitted p m (vs_admission v) c l)) (\<lambda>_. give ())) else give ())" for l
    by (intro emits_intros)
  show ?thesis
    unfolding after_policy_def Let_def
    by (rule emits_look, rule emits_if [OF b], rule emits_andthen [OF c], rule emits_look, rule emits_if [OF emits_give],
        rule emits_andthen [OF a], rule emits_andthen [OF emits_claim], erule i)
qed

lemma emits_attempt: "emits (act_ok in_scope p m v) (attempt in_scope p m v changed)"
proof -
  have r: "emits (act_ok in_scope p m v) (renew p e)" for e
    unfolding renew_def by (intro emits_intros; simp add: honest_def act_ok_save)
  have pub: "emits (act_ok in_scope p m v) (andthen (published_by p f (pb_oid (the (jn_publication j)))) (\<lambda>_. give True))"
    if "gives (case jn_publication j of Some q \<Rightarrow> outcome (reconcile (vs_remote v) (pb_oid q) (pb_expected q) f) | None \<Rightarrow> give False) landed" "landed"
    for f j landed
  proof -
    from that obtain q where "jn_publication j = Some q" "reconcile (vs_remote v) (pb_oid q) (pb_expected q) f = Inr True"
      by (cases "jn_publication j") auto
    with reconciled [OF this(2)] show ?thesis by (intro emits_andthen emits_published emits_give) auto
  qed
  show ?thesis
    unfolding attempt_def
    apply (rule emits_andthen [OF emits_outcome], drule gives_basic(1))
    apply (rule emits_andthen, rule emits_remark, simp add: honest_def)
    apply (rule emits_look, rule emits_option)
     apply (rule emits_andthen, rule emits_remark, simp add: honest_def discard_unstarted_def split: option.split)
     apply (rule emits_look, rule emits_andthen, rule emits_option, rule emits_give, rule emits_outcome)
     apply (rule emits_if, erule (1) pub)
     apply (rule emits_andthen [OF r], rule emits_andthen [OF emits_outcome], rule emits_andthen [OF emits_demand])
     apply (erule emits_after_policy)
    apply (rule emits_settle_normal)
    done
qed

section \<open>Whole visits\<close>

lemma emits_acts:
  assumes "emits A m" and "honest (lv_journal s)" and "list_all A (lv_acts s)"
  shows "honest (lv_journal (snd (m s))) \<and> list_all A (lv_acts (snd (m s)))"
proof -
  obtain r s' where m: "m s = (r, s')" by fastforce
  with assms(1,2) obtain new where "honest (lv_journal s')" "lv_acts s' = lv_acts s @ new" "list_all A new" unfolding emits_def by blast
  then show ?thesis using assms(3) m by simp
qed

lemma open_acts:
  assumes "honest j" and "open_visit p mo v j c = (s, e)"
  shows "honest (lv_journal s) \<and> list_all (act_ok in_scope p m v) (lv_acts s)"
proof -
  define A where "A = act_ok in_scope p m v"
  define ok where "ok s = (honest (lv_journal s) \<and> list_all A (lv_acts s))" for s :: live
  have t: "ok (snd (transition p st upd s))"
    if "ok s" "st \<noteq> Published" "\<And>j. honest j \<Longrightarrow> honest (upd j)" for s st upd
    using emits_acts [of A "transition p st upd" s] emits_transition [of upd A st p] that
    by (simp add: ok_def A_def act_ok_save)
  define s1 where "s1 = (if vs_exists v then fresh_live j c else snd (transition p Retained id (fresh_live j c)))"
  have "ok (fresh_live j c)" using assms(1) by (simp add: ok_def fresh_live_def)
  then have 1: "ok s1" using t [of "fresh_live j c" Retained id] by (simp add: s1_def)
  have e: "ok (snd (emit Evict s1))" using 1 by (simp add: emit_def ok_def A_def)
  have b: "ok (snd (transition p Blocked (\<lambda>j. j\<lparr>jn_reason := Some (reason_of Barred ''corrupt-checkpoint'')\<rparr>) s1))"
    by (rule t [OF 1]) (simp_all add: honest_def)
  define s2 where "s2 = (if jn_protocol (lv_journal s1) = Some protocol_version then s1
                        else snd (transition p (jn_state (lv_journal s1)) (\<lambda>j. j\<lparr>jn_retry := 0\<rparr>) s1))"
  have 2: "ok s2" if "\<not> terminal (jn_state (lv_journal s1))"
    using 1 t [OF 1, of "jn_state (lv_journal s1)" "\<lambda>j. j\<lparr>jn_retry := 0\<rparr>"] that by (simp add: s2_def terminal_def honest_def)
  have "ok s"
    using assms(2) e b 1 2 unfolding open_visit_def Let_def s1_def [symmetric] s2_def [symmetric]
    by (cases mo) (auto split: if_splits)
  then show ?thesis by (simp add: ok_def A_def)
qed

lemma open_manifest: "open_visit p mo v j c = (s, Some (m, changed)) \<Longrightarrow> mo = Some m"
  by (auto simp: open_visit_def Let_def split: if_splits option.splits)

lemma run_acts:
  assumes "honest j"
  shows "list_all (act_ok in_scope p m v) (lv_acts (fst (run in_scope p (Some m) v j c)))"
proof -
  define A where "A = act_ok in_scope p m v"
  obtain s e where o: "open_visit p (Some m) v j c = (s, e)" by fastforce
  from open_acts [OF assms o, of in_scope m] have s: "honest (lv_journal s)" "list_all A (lv_acts s)" by (simp_all add: A_def)
  show ?thesis
  proof (cases e)
    case None
    then show ?thesis using o s by (simp add: run_def A_def)
  next
    case (Some mc)
    then obtain changed where mc: "e = Some (m, changed)" using open_manifest o by (cases mc) fastforce
    obtain r s1 where a: "attempt in_scope p m v changed s = (r, s1)" by fastforce
    have s1: "honest (lv_journal s1)" "list_all A (lv_acts s1)"
      using emits_acts [OF emits_attempt s [unfolded A_def], of changed] a by (simp_all add: A_def)
    have w: "emits A (waited p now b k code)" for now b k code
      unfolding waited_def A_def by (intro emits_intros) (auto simp: honest_def discard_unstarted_def act_ok_save split: option.split stop_kind.split)
    have br: "emits A (broke p now b)" for now b
      unfolding broke_def A_def Let_def by (intro emits_intros) (auto simp: honest_def discard_unstarted_def act_ok_save split: option.split)
    have f: "list_all A (lv_acts (finish_visit x)) = list_all A (lv_acts x)" for x
      by (simp add: finish_visit_def emit_def A_def)
    have "list_all A (lv_acts (fst (handled p (vs_end v) (r, s1))))"
      using s1 emits_acts [OF w s1] emits_acts [OF br s1]
      by (cases r) (auto simp: handled_def f split: stop.split)
    then show ?thesis using o mc a by (simp add: run_def A_def)
  qed
qed

lemma policy_passed:
  assumes "policy in_scope p m v f = Inr ()"
  obtains a where "mf_auth m = Some a" "fa_state f = ''OPEN''" "\<not> fa_draft f" "\<forall>l\<in>set (fa_labels f). py_lower l \<notin> set hold_labels"
    "fa_base f = op_base p" "same_person (au_actor a) (si_me v)" "fa_author f = au_author a" "fa_repository f = au_repository a"
    "fa_ref f = au_ref a" "au_sandbox a" "op_sandbox p" "\<not> au_foreign a" "si_can_push v = Some True"
  using assms by (auto simp: policy_def list_ex_iff split: if_splits option.splits)

text \<open>
  C8: a visit pushes only what it verified, where it may. When a visit pushes a commit, its verifier succeeded on exactly the
  inputs read again right before the push, the commit is the clean head of the checkout and contains the pull request's head,
  the claim was held throughout, and at the last moment the pull request was open, not held, on the base branch and pushable
  by the original author of the checkpoint, with nothing about it changed since the first look.
\<close>

theorem pushes_only_what_it_verified:
  assumes "rc_status (jn_failed_receipt j) \<noteq> ''success''"
    and "Push n answer \<in> set (lv_acts (fst (run in_scope p (Some m) v j c)))"
  shows "\<exists>f r a. rc_status r = ''success'' \<and> r \<in> {ck_result (vs_check v), ck_result (vs_check_again v)}
    \<and> ph_fingerprint (vs_pushing v) = Some (rc_fingerprint r)
    \<and> ph_head (vs_pushing v) = n \<and> \<not> ph_dirty (vs_pushing v) \<and> ph_valid (vs_pushing v) \<and> pp_integrates (vs_preparing v)
    \<and> vs_claim v = Some True \<and> \<not> vs_lost v \<and> \<not> ph_lost (vs_pushing v)
    \<and> si_data (vs_sight v) = Some f \<and> si_data (vs_claimed v) = Some f \<and> si_data (vs_latest v) = Some f
    \<and> si_data (ph_sight (vs_pushing v)) = Some f
    \<and> fa_state f = ''OPEN'' \<and> \<not> fa_draft f \<and> (\<forall>l\<in>set (fa_labels f). py_lower l \<notin> set hold_labels) \<and> fa_base f = op_base p
    \<and> mf_auth m = Some a \<and> same_person (au_actor a) (si_me (ph_sight (vs_pushing v)))
    \<and> fa_author f = au_author a \<and> fa_repository f = au_repository a \<and> fa_ref f = au_ref a
    \<and> si_can_push (ph_sight (vs_pushing v)) = Some True"
proof -
  from run_acts [of j in_scope p m v c] assms have "authorized in_scope p m v n"
    by (auto simp: honest_def list_all_iff)
  then obtain f r where w: "read_facts p m (vs_sight v) = Inr f" "vs_claim v = Some True" "read_facts p m (vs_claimed v) = Inr f"
      "read_facts p m (vs_latest v) = Inr f" "\<not> vs_lost v" "read_facts p m (ph_sight (vs_pushing v)) = Inr f"
      "policy in_scope p m (ph_sight (vs_pushing v)) f = Inr ()" "\<not> ph_lost (vs_pushing v)"
      "rc_status r = ''success''" "r \<in> {ck_result (vs_check v), ck_result (vs_check_again v)}"
      "ph_fingerprint (vs_pushing v) = Some (rc_fingerprint r)" "pp_integrates (vs_preparing v)"
      "ph_head (vs_pushing v) = n" "\<not> ph_dirty (vs_pushing v)" "ph_valid (vs_pushing v)"
    unfolding authorized_def by blast
  have d: "read_facts p m x = Inr f \<Longrightarrow> si_data x = Some f" for x by (auto simp: read_facts_def split: if_splits option.splits)
  obtain a where a: "mf_auth m = Some a" "fa_state f = ''OPEN''" "\<not> fa_draft f" "\<forall>l\<in>set (fa_labels f). py_lower l \<notin> set hold_labels"
    "fa_base f = op_base p" "same_person (au_actor a) (si_me (ph_sight (vs_pushing v)))" "fa_author f = au_author a"
    "fa_repository f = au_repository a" "fa_ref f = au_ref a" "si_can_push (ph_sight (vs_pushing v)) = Some True"
    by (rule policy_passed [OF w(7)])
  show ?thesis
    by (rule exI [of _ f], rule exI [of _ r], rule exI [of _ a]) (use w a d in simp)
qed

text \<open>
  C10: a checkpoint counts as published only when the remote says so. Whatever the agent, the verifier and \<open>git push\<close> report, a visit
  records a commit as published only after a listing of the remote branch that showed the commit as its head, or a head that was
  fetched and contains it.
\<close>

theorem published_only_when_confirmed:
  assumes "rc_status (jn_failed_receipt j) \<noteq> ''success''"
    and "Save k \<in> set (lv_acts (fst (run in_scope p (Some m) v j c)))" and "jn_state k = Published"
  shows "\<exists>head n rv seen. jn_evidence k = Some (seen, n) \<and> rv \<in> {vs_remote_normal v, vs_remote v, vs_remote_after v}
    \<and> rv_listing rv = Some (Some head) \<and> (head = n \<or> rv_fetched rv \<and> rv_contains rv)"
proof -
  from run_acts [of j in_scope p m v c] assms(1,2) have "act_ok in_scope p m v (Save k)" by (auto simp: honest_def list_all_iff)
  with assms(3) show ?thesis by (auto simp: act_ok_def confirmed_on_def)
qed

text \<open>
  \<open>run\<close> asks the remote about an uncertain push before the policy; \<open>recover\<close>'s own check of a record that waits does not:
  when the pull request has been closed, the record is archived as such, whether or not the push landed.
\<close>

lemma closed_pull_request_hides_uncertain_push:
  assumes "fa_state f \<noteq> ''OPEN''" and "uncertain_publication j" and "\<not> offered j"
  shows "recheck_policy in_scope p m now v (Inr f) j
      = (written Obsolete (\<lambda>j. j\<lparr>jn_reason := Some (reason_of Gone ''pr-closed''), jn_retry := now + 1800\<rparr>) j, False)
    \<and> jn_state (fst (recheck_policy in_scope p m now v (Inr f) j)) = Obsolete"
  using assms by (simp add: recheck_policy_def policy_def written_def written_state_def offered_def Let_def)

end
