(* ===== verification/RecoverySamples.thy ===== *)
theory RecoverySamples
  imports RecoveryPush
begin

text \<open>
  A checkpoint whose push times out and is repeated, evaluated: the properties of visits applied to it.
\<close>

section \<open>A push that times out, and its repetition\<close>

definition any_scope :: scope_test where "any_scope _ _ _ _ _ = True"

definition some_facts :: facts where
  "some_facts = \<lparr>fa_head = ''h'', fa_state = ''OPEN'', fa_ref = ''b'', fa_repository = ''me/r'', fa_author = ''me'', fa_labels = [],
     fa_draft = False, fa_base = ''main'', fa_targets = []\<rparr>"

definition some_sight :: sight where
  "some_sight = \<lparr>si_data = Some some_facts, si_me = ''Me'', si_can_push = Some True\<rparr>"

definition some_auth :: authorization where
  "some_auth = \<lparr>au_actor = ''me'', au_author = ''me'', au_repository = ''me/r'', au_ref = ''b'', au_sandbox = True, au_foreign = False,
     au_bump = False, au_roadmap = None, au_billing = ''subscription'', au_profile = Some (''codex'', ''x'', ''high''),
     au_charged = [''fix-7''], au_budget = 3\<rparr>"

definition some_manifest :: manifest where
  "some_manifest = \<lparr>mf_fingerprint = ''m'', mf_repository = ''o/r'', mf_pr = Some 7, mf_work = ''fix'', mf_operations = False,
     mf_auth = Some some_auth, mf_expected = Some ''h'', mf_local_head = None, mf_dirty = False, mf_published = None, mf_pending = None\<rparr>"

definition some_options :: options where
  "some_options = \<lparr>op_repo = ''o/r'', op_base = ''main'', op_only = [], op_prs = [], op_sandbox = True, op_agent = ''auto'',
     op_profile = None, op_billing = ''subscription'', op_roadmap = None, op_skip = None\<rparr>"

definition no_receipt :: receipt where "no_receipt = \<lparr>rc_status = [], rc_fingerprint = [], rc_receipt = []\<rparr>"

definition new_journal :: journal where
  "new_journal = \<lparr>jn_state = Retained, jn_protocol = None, jn_attempts = 0, jn_streak = 0, jn_failures = 0, jn_reason = None, jn_retry = 0,
     jn_recheck = None, jn_reserved = None, jn_probe = 0, jn_selection = [], jn_external = None, jn_observed = None, jn_publication = None,
     jn_history = [], jn_normal = None, jn_confirmed = None, jn_forensic = False, jn_handoff = None, jn_evidence = None,
     jn_receipt = None, jn_failed_check = None, jn_failed_head = None, jn_failed_source = None, jn_failed_receipt = no_receipt,
     jn_check_failures = 0, jn_failed_recheck = 0, jn_content = 0, jn_content_started = None, jn_refunds = 0, jn_why = None, jn_delta = False\<rparr>"

definition good_receipt :: receipt where "good_receipt = \<lparr>rc_status = ''success'', rc_fingerprint = ''in'', rc_receipt = ''r''\<rparr>"

definition some_check :: examination where
  "some_check = \<lparr>ck_source = (0, Inr ()), ck_current = Some ''in'', ck_now = 100, ck_result = good_receipt, ck_tree = ''t''\<rparr>"

definition some_admission :: admission where
  "some_admission = \<lparr>ad_api = False, ad_capacity = False, ad_model = Some (''codex'', False), ad_account = True\<rparr>"

definition some_continuation :: continuation where
  "some_continuation = \<lparr>cn_admission = some_admission, cn_open = Opened, cn_api = False, cn_launched = False, cn_admitted = False,
     cn_sight = some_sight, cn_lost = False, cn_id = ''c'', cn_agent = AgentExit 0, cn_blocked = False, cn_snapshot = (0, Inr ()),
     cn_source = (0, Inr ()), cn_unresolved = False, cn_infra = False\<rparr>"

definition unseen :: remote_view where
  "unseen = \<lparr>rv_listing = Some (Some ''h''), rv_checkout = True, rv_fetched = True, rv_contains = False, rv_marker = None\<rparr>"

definition some_visit :: "rat \<Rightarrow> push_answer \<Rightarrow> visit" where
  "some_visit now answer =
     \<lparr>vs_exists = True, vs_start = now, vs_recheck = now, vs_retry = now, vs_end = now, vs_sight = some_sight, vs_normal = None,
      vs_remote_normal = unseen, vs_remote = unseen, vs_source_now = None, vs_admission = some_admission, vs_claim = Some True,
      vs_claimed = some_sight, vs_restore = (1, Inr ()), vs_prepare = (0, Inr ()), vs_head = ''n'', vs_same_tree = True,
      vs_reason = (0, Inr None), vs_superseded = Inr False, vs_continuation = some_continuation, vs_unchanged = Inr False,
      vs_check = some_check, vs_check_again = some_check, vs_latest = some_sight, vs_lost = False,
      vs_preparing = \<lparr>pp_fingerprint = Some ''in'', pp_commit = (0, Inr ()), pp_oid = ''n'', pp_reintroduced = False, pp_integrates = True\<rparr>,
      vs_pushing = \<lparr>ph_sight = some_sight, ph_lost = False, ph_head = ''n'', ph_dirty = False, ph_fingerprint = Some ''in'', ph_valid = True,
        ph_normal = None, ph_answer = answer\<rparr>,
      vs_after = some_sight, vs_remote_after = unseen\<lparr>rv_listing := Some (Some ''n'')\<rparr>\<rparr>"

definition some_run :: "rat \<Rightarrow> push_answer \<Rightarrow> journal \<Rightarrow> act list" where
  "some_run now answer j = lv_acts (fst (run any_scope some_options (Some some_manifest) (some_visit now answer) j (\<lambda>_. 0)))"

definition timed_out :: journal where
  "timed_out = new_journal\<lparr>jn_state := Eligible, jn_protocol := Some 3, jn_attempts := 1, jn_streak := 1, jn_failures := 1,
     jn_reason := Some \<lparr>gr_code = ''invocation-failed'', gr_action = ''retry-infrastructure'',
       gr_when = Some ''scheduled-backoff-or-changed-authorized-external-facts''\<rparr>,
     jn_retry := 160, jn_reserved := Some 400, jn_selection := selection some_options,
     jn_external := Some (external_of some_manifest some_facts), jn_observed := Some ''h'',
     jn_publication := Some \<lparr>pb_oid = ''n'', pb_expected = ''h'', pb_repository = ''me/r'', pb_ref = ''b'', pb_receipt = ''r'',
       pb_fingerprint = ''in'', pb_started = Some True, pb_uncertain = False\<rparr>,
     jn_receipt := Some good_receipt\<rparr>"
definition repeated :: journal where "repeated = durable timed_out (some_run 1000 PushDone timed_out)"

lemma timed_out_run: "durable new_journal (some_run 100 PushTimeout new_journal) = timed_out"
  by code_simp

lemma some_sends:
  "sends (some_run 100 PushTimeout new_journal) = [(''n'', PushTimeout)]" "sends (some_run 1000 PushDone timed_out) = [(''n'', PushDone)]"
  by code_simp+

lemma repeated_state: "jn_state repeated = Published"
  by code_simp

lemma durable_saved: "durable j as = j \<or> Save (durable j as) \<in> set as"
  by (induction j as rule: durable.induct) auto

lemma some_life: "life any_scope (repeated, [(''n'', PushTimeout), (''n'', PushDone)])"
proof -
  have "life any_scope (new_journal, [])" by (rule begun) (simp add: new_journal_def)
  from visit [OF this refl, of "length (some_run 100 PushTimeout new_journal)" some_options "Some some_manifest" "some_visit 100 PushTimeout" "\<lambda>_. 0"]
  have "life any_scope (timed_out, [(''n'', PushTimeout)])"
    using some_sends(1) timed_out_run by (simp add: some_run_def)
  from visit [OF this refl, of "length (some_run 1000 PushDone timed_out)" some_options "Some some_manifest" "some_visit 1000 PushDone" "\<lambda>_. 0"]
  show ?thesis using some_sends(2) by (simp add: repeated_def some_run_def)
qed

lemma uncertain_push_repeats_exactly_witness: "fst ([(''n'', PushTimeout), (''n'', PushDone)] ! 1) = ''n''"
  using uncertain_push_repeats_exactly [OF some_life, of 0 1] by (simp add: unsent_def)

lemma pushes_only_what_it_verified_witness:
  "\<exists>r::receipt. rc_status r = ''success'' \<and> ph_fingerprint (vs_pushing (some_visit 100 PushTimeout)) = Some (rc_fingerprint r)"
proof -
  have h: "rc_status (jn_failed_receipt new_journal) \<noteq> ''success''" by (simp add: new_journal_def no_receipt_def)
  have "Push ''n'' PushTimeout \<in> set (some_run 100 PushTimeout new_journal)" by code_simp
  from pushes_only_what_it_verified [OF h this [unfolded some_run_def]] show ?thesis by blast
qed

lemma published_only_when_confirmed_witness:
  "\<exists>n rv. rv \<in> {vs_remote_normal (some_visit 1000 PushDone), vs_remote (some_visit 1000 PushDone), vs_remote_after (some_visit 1000 PushDone)}
     \<and> rv_listing rv = Some (Some n)"
proof -
  have h: "rc_status (jn_failed_receipt timed_out) \<noteq> ''success''" by (simp add: timed_out_def new_journal_def no_receipt_def)
  have "jn_state timed_out = Eligible" by (simp add: timed_out_def)
  then have "repeated \<noteq> timed_out" using repeated_state by fastforce
  then have "Save repeated \<in> set (some_run 1000 PushDone timed_out)" using durable_saved unfolding repeated_def by metis
  from published_only_when_confirmed [OF h this [unfolded some_run_def] repeated_state] show ?thesis by blast
qed

lemma failures_cost_one_and_come_back_witness:
  "\<exists>k. jn_attempts k = 1 \<and> jn_state k = Eligible \<and> (\<forall>now\<ge>jn_retry k. due None now False None k)"
proof -
  define s where "s = fst (open_visit some_options (Some some_manifest) (some_visit 100 PushTimeout) new_journal (\<lambda>_. 0))"
  have o: "open_visit some_options (Some some_manifest) (some_visit 100 PushTimeout) new_journal (\<lambda>_. 0) = (s, Some (some_manifest, False))"
    by (simp add: s_def open_visit_def Let_def some_visit_def fresh_live_def new_journal_def terminal_def offered_def transition_step
        written_def written_state_def code_in_def code_of_def selection_changed_def list_ex_iff selection_def jget_def split: option.split)
  have "fst (attempt any_scope some_options some_manifest (some_visit 100 PushTimeout) False s) = Inl Broke"
    unfolding s_def by code_simp
  then obtain s1 where a: "attempt any_scope some_options some_manifest (some_visit 100 PushTimeout) False s = (Inl Broke, s1)"
    by (metis prod.collapse)
  have "0 \<le> jn_attempts new_journal" "jn_attempts new_journal \<le> 3" by (simp_all add: new_journal_def)
  from failures_cost_one_and_come_back [OF o a this refl] show ?thesis by (auto simp: new_journal_def)
qed

end
